(* ===== verification/Prelude.thy ===== *)
theory Prelude
  imports Complex_Main "HOL-Library.Multiset" "HOL-Library.Code_Target_Nat"
begin

text \<open>
  Shared vocabulary of the development.

  \<^item> Go's slice expression \<open>xs[a:b]\<close>, which panics out of range: \<open>go_slice\<close>
    and \<open>go_slice_from\<close> return \<open>None\<close> for a panic.
  \<^item> Go's \<open>sort.Slice\<close>: it sorts by a \<open>less\<close> function and is not stable, so the
    order of elements that compare equal is not determined by its documentation. The
    locale \<open>slice_sort\<close> is that contract. \<open>insertion_sort\<close> is the algorithm the Go
    runtime uses for slices of at most twelve elements; it satisfies the contract for
    every strict weak order (locale \<open>strict_weak_order\<close>).
  \<^item> Generic lemmas on slices of lists that the component theories share, in the
    collection \<open>slice_simps\<close>.
\<close>

named_theorems slice_simps "rewriting of Go slices that are in range"

subsection \<open>Slices\<close>

definition go_len :: "'a list \<Rightarrow> int" where
  "go_len xs = int (length xs)"

text \<open>The elements of \<open>xs\<close> from position \<open>a\<close> up to and without position \<open>b\<close>.\<close>

definition seg :: "'a list \<Rightarrow> int \<Rightarrow> int \<Rightarrow> 'a list" where
  "seg xs a b = take (nat (b - a)) (drop (nat a) xs)"

definition go_slice :: "'a list \<Rightarrow> int \<Rightarrow> int \<Rightarrow> 'a list option" where
  "go_slice xs a b =
     (if 0 \<le> a \<and> a \<le> b \<and> b \<le> go_len xs then Some (seg xs a b) else None)"

definition go_slice_from :: "'a list \<Rightarrow> int \<Rightarrow> 'a list option" where
  "go_slice_from xs a = go_slice xs a (go_len xs)"

lemma go_len_nonneg [simp]: "0 \<le> go_len xs"
  by (simp add: go_len_def)

lemma go_len_Nil [simp]: "go_len [] = 0"
  by (simp add: go_len_def)

lemma go_len_Cons [simp]: "go_len (x # xs) = 1 + go_len xs"
  by (simp add: go_len_def)

lemma go_len_append [simp]: "go_len (xs @ ys) = go_len xs + go_len ys"
  by (simp add: go_len_def)

lemma go_slice_Some [slice_simps]:
  "0 \<le> a \<Longrightarrow> a \<le> b \<Longrightarrow> b \<le> go_len xs \<Longrightarrow> go_slice xs a b = Some (seg xs a b)"
  by (simp add: go_slice_def)

lemma go_slice_from_Some [slice_simps]:
  "0 \<le> a \<Longrightarrow> a \<le> go_len xs \<Longrightarrow> go_slice_from xs a = Some (drop (nat a) xs)"
  by (simp add: go_slice_from_def go_slice_def seg_def go_len_def)

lemma go_slice_None_iff:
  "go_slice xs a b = None \<longleftrightarrow> a < 0 \<or> b < a \<or> go_len xs < b"
  by (auto simp: go_slice_def)

lemma seg_to_end:
  "0 \<le> a \<Longrightarrow> a \<le> go_len xs \<Longrightarrow> seg xs a (go_len xs) = drop (nat a) xs"
  by (simp add: seg_def go_len_def)

lemma length_seg:
  "0 \<le> a \<Longrightarrow> a \<le> b \<Longrightarrow> b \<le> go_len xs \<Longrightarrow> int (length (seg xs a b)) = b - a"
  by (simp add: seg_def go_len_def)

lemma go_len_seg [slice_simps]:
  "0 \<le> a \<Longrightarrow> a \<le> b \<Longrightarrow> b \<le> go_len xs \<Longrightarrow> go_len (seg xs a b) = b - a"
  by (simp add: seg_def go_len_def)

lemma seg_same [simp]: "seg xs a a = []"
  by (simp add: seg_def)

lemma nth_seg:
  assumes "0 \<le> a" "int i < b - a" "b \<le> go_len xs"
  shows "seg xs a b ! i = xs ! (nat a + i)"
  using assms by (simp add: seg_def go_len_def)

text \<open>A slice of an append that stays on one side.\<close>

lemma seg_append_left:
  assumes "0 \<le> a" "b \<le> go_len xs"
  shows "seg (xs @ ys) a b = seg xs a b"
  using assms by (cases "a \<le> b") (simp_all add: seg_def go_len_def nat_diff_distrib)

lemma seg_append_right:
  assumes "go_len xs \<le> a" "a \<le> b"
  shows "seg (xs @ ys) a b = seg ys (a - go_len xs) (b - go_len xs)"
proof -
  have "nat a - length xs = nat (a - go_len xs)"
    using assms by (simp add: go_len_def nat_diff_distrib)
  moreover have "drop (nat a) (xs @ ys) = drop (nat a - length xs) ys"
    using assms by (simp add: go_len_def)
  ultimately show ?thesis by (simp add: seg_def)
qed

text \<open>A slice of a slice.\<close>

lemma seg_seg:
  assumes "0 \<le> a" "0 \<le> c" "c \<le> d" "a + d \<le> b"
  shows "seg (seg xs a b) c d = seg xs (a + c) (a + d)"
proof -
  have "drop (nat c) (take (nat (b - a)) (drop (nat a) xs)) =
        take (nat (b - a) - nat c) (drop (nat (a + c)) xs)"
    using assms by (simp add: drop_take nat_add_distrib add.commute)
  moreover have "nat (d - c) \<le> nat (b - a) - nat c"
    using assms by linarith
  ultimately show ?thesis by (simp add: seg_def min_absorb1)
qed

lemma seg_split:
  assumes "0 \<le> a" "a \<le> b" "b \<le> c" "c \<le> go_len xs"
  shows "seg xs a b @ seg xs b c = seg xs a c"
proof -
  have "nat (c - a) = nat (b - a) + nat (c - b)" and "nat b = nat a + nat (b - a)"
    using assms by linarith+
  then show ?thesis
    by (simp add: seg_def take_add add.commute)
qed

lemma seg_then_drop:
  assumes "0 \<le> a" "a \<le> b" "b \<le> go_len xs"
  shows "seg xs a b @ drop (nat b) xs = drop (nat a) xs"
  using seg_split [OF assms order_refl] assms by (simp add: seg_to_end)

lemma seg_eqI:
  assumes "length xs = length ys" "0 \<le> a" "b \<le> go_len xs"
    and "\<And>i. a \<le> int i \<Longrightarrow> int i < b \<Longrightarrow> xs ! i = ys ! i"
  shows "seg xs a b = seg ys a b"
proof (rule nth_equalityI)
  show "length (seg xs a b) = length (seg ys a b)"
    using assms(1) by (simp add: seg_def)
next
  fix i assume "i < length (seg xs a b)"
  then have "int i < b - a" by (auto simp: seg_def)
  then show "seg xs a b ! i = seg ys a b ! i"
    using assms by (simp add: nth_seg go_len_def)
qed

lemma seg_drop:
  "0 \<le> a \<Longrightarrow> 0 \<le> c \<Longrightarrow> seg (drop (nat a) xs) c d = seg xs (a + c) (a + d)"
  by (simp add: seg_def nat_add_distrib add.commute)

subsection \<open>Maps built by a loop\<close>

text \<open>A loop \<open>for _, r := range xs { m[key(r)] = val(r) }\<close> over elements with distinct keys.\<close>

lemma foldl_upd_other:
  "x \<notin> k ` set xs \<Longrightarrow> foldl (\<lambda>m r. m(k r \<mapsto> f r)) m0 xs x = m0 x"
  by (induction xs arbitrary: m0) auto

lemma foldl_upd_in:
  "distinct (map k xs) \<Longrightarrow> r \<in> set xs \<Longrightarrow> foldl (\<lambda>m r. m(k r \<mapsto> f r)) m0 xs (k r) = Some (f r)"
proof (induction xs arbitrary: m0)
  case (Cons x xs)
  then show ?case
    by (cases "r \<in> set xs") (auto simp del: fun_upd_apply simp: foldl_upd_other, simp)
qed simp

lemma foldl_upd_None_iff:
  "foldl (\<lambda>m r. m(k r \<mapsto> f r)) Map.empty xs x = None \<longleftrightarrow> x \<notin> k ` set xs"
proof -
  have "foldl (\<lambda>m r. m(k r \<mapsto> f r)) m0 xs x \<noteq> None" if "x \<in> k ` set xs \<or> m0 x \<noteq> None" for m0
    using that by (induction xs arbitrary: m0) auto
  then show ?thesis using foldl_upd_other [of x k xs f Map.empty] by blast
qed

lemma foldl_upd_iff:
  assumes "distinct (map k xs)"
  shows "foldl (\<lambda>m r. m(k r \<mapsto> f r)) Map.empty xs x = Some v \<longleftrightarrow> (\<exists>r \<in> set xs. k r = x \<and> f r = v)"
proof (cases "x \<in> k ` set xs")
  case True
  then obtain r where r: "r \<in> set xs" "x = k r" by blast
  then have "r' \<in> set xs \<Longrightarrow> k r' = k r \<Longrightarrow> r' = r" for r'
    using assms by (auto simp: distinct_map inj_on_def)
  then show ?thesis
    using foldl_upd_in [OF assms r(1), of f Map.empty] r by auto
next
  case False
  then show ?thesis using foldl_upd_None_iff [of k f xs x] by auto
qed

subsection \<open>Decimal output\<close>

text \<open>Go's verb \<open>%d\<close>.\<close>

fun fmt_nat :: "nat \<Rightarrow> string" where
  "fmt_nat n =
     (if n < 10 then [char_of (48 + n)]
      else fmt_nat (n div 10) @ [char_of (48 + n mod 10)])"

declare fmt_nat.simps [simp del]

definition fmt_int :: "int \<Rightarrow> string" where
  "fmt_int i = (if i < 0 then CHR ''-'' # fmt_nat (nat (- i)) else fmt_nat (nat i))"

subsection \<open>Sorting a slice\<close>

locale slice_sort =
  fixes lt :: "'a \<Rightarrow> 'a \<Rightarrow> bool" and srt :: "'a list \<Rightarrow> 'a list"
  assumes srt_mset: "mset (srt xs) = mset xs"
    and srt_ordered: "sorted_wrt (\<lambda>x y. \<not> lt y x) (srt xs)"
begin

lemma set_srt [simp]: "set (srt xs) = set xs"
  by (metis srt_mset set_mset_mset)

lemma length_srt [simp]: "length (srt xs) = length xs"
  by (metis srt_mset size_mset)

lemma srt_Nil [simp]: "srt [] = []"
  using length_srt [of "[]"] by (simp del: length_srt)

end

text \<open>The inner loop of the insertion sort: the prefix is held in reverse.\<close>

fun insert_rev :: "('a \<Rightarrow> 'a \<Rightarrow> bool) \<Rightarrow> 'a \<Rightarrow> 'a list \<Rightarrow> 'a list" where
  "insert_rev lt x [] = [x]"
| "insert_rev lt x (y # ys) = (if lt x y then y # insert_rev lt x ys else x # y # ys)"

definition insertion_sort :: "('a \<Rightarrow> 'a \<Rightarrow> bool) \<Rightarrow> 'a list \<Rightarrow> 'a list" where
  "insertion_sort lt xs = rev (fold (insert_rev lt) xs [])"

lemma mset_insert_rev: "mset (insert_rev lt x ys) = add_mset x (mset ys)"
  by (induction ys) auto

lemma mset_fold_insert_rev: "mset (fold (insert_rev lt) xs ys) = mset xs + mset ys"
  by (induction xs arbitrary: ys) (auto simp: mset_insert_rev)

lemma mset_insertion_sort: "mset (insertion_sort lt xs) = mset xs"
  by (simp add: insertion_sort_def mset_fold_insert_rev)

lemma set_insert_rev: "set (insert_rev lt x ys) = insert x (set ys)"
  by (metis mset_insert_rev set_mset_add_mset_insert set_mset_mset)

locale strict_weak_order =
  fixes lt :: "'a \<Rightarrow> 'a \<Rightarrow> bool"
  assumes lt_asym: "lt x y \<Longrightarrow> \<not> lt y x"
    and lt_negtrans: "\<not> lt x y \<Longrightarrow> \<not> lt y z \<Longrightarrow> \<not> lt x z"
begin

lemma sorted_insert_rev:
  "sorted_wrt (\<lambda>x y. \<not> lt x y) ys \<Longrightarrow> sorted_wrt (\<lambda>x y. \<not> lt x y) (insert_rev lt x ys)"
proof (induction ys)
  case Nil
  then show ?case by simp
next
  case (Cons y ys)
  then show ?case
    by (auto simp: set_insert_rev dest: lt_asym lt_negtrans)
qed

lemma sorted_fold_insert_rev:
  "sorted_wrt (\<lambda>x y. \<not> lt x y) ys \<Longrightarrow>
   sorted_wrt (\<lambda>x y. \<not> lt x y) (fold (insert_rev lt) xs ys)"
  by (induction xs arbitrary: ys) (auto simp: sorted_insert_rev)

lemma sorted_insertion_sort: "sorted_wrt (\<lambda>x y. \<not> lt y x) (insertion_sort lt xs)"
  using sorted_fold_insert_rev [of "[]" xs]
  by (simp add: insertion_sort_def sorted_wrt_rev)

end

sublocale strict_weak_order \<subseteq> slice_sort lt "insertion_sort lt"
  by unfold_locales (simp_all add: mset_insertion_sort sorted_insertion_sort)

subsection \<open>A substring of a concatenation\<close>

lemma append_substring:
  assumes "xs @ ys = A @ K @ B"
  obtains (left) B' where "xs = A @ K @ B'" "B = B' @ ys"
  | (right) A' where "A = xs @ A'" "ys = A' @ K @ B"
  | (across) K1 K2 where "K = K1 @ K2" "K1 \<noteq> []" "K2 \<noteq> []" "xs = A @ K1" "ys = K2 @ B"
proof -
  from assms consider us where "xs @ us = A" "ys = us @ K @ B" | us where "xs = A @ us" "us @ ys = K @ B"
    by (auto simp: append_eq_append_conv2)
  then show thesis
  proof cases
    case 1
    then show ?thesis using right by blast
  next
    case 2
    from 2(2) consider ws where "us = K @ ws" "ws @ ys = B" | ws where "us @ ws = K" "ys = ws @ B"
      by (auto simp: append_eq_append_conv2)
    then show ?thesis
    proof cases
      case 1
      then show ?thesis using left 2(1) by simp
    next
      case 2
      then show ?thesis
        using left[of "[]"] right[of "[]"] across[of us ws] \<open>xs = A @ us\<close> by (cases "us = []"; cases "ws = []") auto
    qed
  qed
qed

lemma seg_of_substring:
  assumes "seg t a b = A @ K @ B" "0 \<le> a" "a \<le> b" "b \<le> go_len t"
  shows "seg t (a + go_len A) (a + go_len A + go_len K) = K \<and> a + go_len A + go_len K \<le> b"
proof -
  have "go_len (seg t a b) = b - a" using assms(2-4) by (simp add: go_len_seg)
  moreover have "go_len (seg t a b) = go_len A + go_len K + go_len B" unfolding assms(1) by simp
  ultimately have "go_len A + go_len K + go_len B = b - a" by linarith
  then have "a + go_len A + go_len K \<le> b" using go_len_nonneg[of B] by linarith
  moreover have "seg (seg t a b) (go_len A) (go_len A + go_len K) = K"
    unfolding assms(1) by (simp add: seg_def go_len_def nat_add_distrib)
  ultimately show ?thesis
    using assms seg_seg[of a "go_len A" "go_len A + go_len K" b t] by (simp add: algebra_simps)
qed

end
