(* ===== verification/GoStrings.thy ===== *)
theory GoStrings
  imports Prelude
begin

text \<open>
  What the program uses of Go's packages \<open>unicode/utf8\<close>, \<open>unicode\<close>, \<open>strings\<close> and
  \<open>path/filepath\<close>.

  A string is a sequence of bytes; ranging over it decodes UTF-8, one rune at a time, where
  a byte that starts no valid encoding is the rune U+FFFD of width one. The case mapping and
  the letter classes of runes outside ASCII come from Unicode's tables and are a parameter
  (\<open>unicode_tables\<close>); inside ASCII they are those of the language.

  The decoder inverts the encoder (\<open>runes_encode\<close>), and on ASCII strings runes are bytes, so
  that \<open>ToLower\<close> keeps lengths there (\<open>ToLower_ascii\<close>), which it does not in general.
\<close>

subsection \<open>UTF-8\<close>

definition RuneError :: nat where
  "RuneError = 0xFFFD"

definition cont :: "nat \<Rightarrow> bool" where
  "cont b \<longleftrightarrow> 0x80 \<le> b \<and> b \<le> 0xBF"

text \<open>The bytes that may follow a given first byte of a three or four byte sequence.\<close>

definition second_ok :: "nat \<Rightarrow> nat \<Rightarrow> bool" where
  "second_ok b0 b1 \<longleftrightarrow>
     (if b0 = 0xE0 then 0xA0 else if b0 = 0xF0 then 0x90 else 0x80) \<le> b1 \<and>
     b1 \<le> (if b0 = 0xED then 0x9F else if b0 = 0xF4 then 0x8F else 0xBF)"

definition decode_bytes :: "nat list \<Rightarrow> nat \<times> nat" where
  "decode_bytes bytes =
     (case bytes of
        [] \<Rightarrow> (RuneError, 0)
      | b0 # bs \<Rightarrow>
          if b0 < 0x80 then (b0, 1)
          else if 0xC2 \<le> b0 \<and> b0 \<le> 0xDF then
            (case bs of
               b1 # _ \<Rightarrow> if cont b1 then (b0 mod 0x20 * 0x40 + b1 mod 0x40, 2) else (RuneError, 1)
             | _ \<Rightarrow> (RuneError, 1))
          else if 0xE0 \<le> b0 \<and> b0 \<le> 0xEF then
            (case bs of
               b1 # b2 # _ \<Rightarrow>
                 if second_ok b0 b1 \<and> cont b2
                 then (b0 mod 0x10 * 0x1000 + b1 mod 0x40 * 0x40 + b2 mod 0x40, 3)
                 else (RuneError, 1)
             | _ \<Rightarrow> (RuneError, 1))
          else if 0xF0 \<le> b0 \<and> b0 \<le> 0xF4 then
            (case bs of
               b1 # b2 # b3 # _ \<Rightarrow>
                 if second_ok b0 b1 \<and> cont b2 \<and> cont b3
                 then (b0 mod 8 * 0x40000 + b1 mod 0x40 * 0x1000 + b2 mod 0x40 * 0x40 + b3 mod 0x40, 4)
                 else (RuneError, 1)
             | _ \<Rightarrow> (RuneError, 1))
          else (RuneError, 1))"

definition decode_rune :: "string \<Rightarrow> nat \<times> nat" where
  "decode_rune s = decode_bytes (map of_char (take 4 s))"

definition scalar_value :: "nat \<Rightarrow> bool" where
  "scalar_value r \<longleftrightarrow> r < 0xD800 \<or> 0xE000 \<le> r \<and> r \<le> 0x10FFFF"

definition encode_rune :: "nat \<Rightarrow> string" where
  "encode_rune r0 =
     (let r = (if scalar_value r0 then r0 else RuneError)
      in map char_of
           (if r < 0x80 then [r]
            else if r < 0x800 then [0xC0 + r div 0x40, 0x80 + r mod 0x40]
            else if r < 0x10000
            then [0xE0 + r div 0x1000, 0x80 + r div 0x40 mod 0x40, 0x80 + r mod 0x40]
            else [0xF0 + r div 0x40000, 0x80 + r div 0x1000 mod 0x40,
                  0x80 + r div 0x40 mod 0x40, 0x80 + r mod 0x40]))"

lemma decode_bytes_width:
  "bs \<noteq> [] \<Longrightarrow> 0 < snd (decode_bytes bs) \<and> snd (decode_bytes bs) \<le> length bs"
  by (auto simp: decode_bytes_def split: list.split)

lemma decode_rune_width: "s \<noteq> [] \<Longrightarrow> 0 < snd (decode_rune s) \<and> snd (decode_rune s) \<le> length s"
  using decode_bytes_width [of "map of_char (take 4 s)"] by (auto simp: decode_rune_def)

text \<open>The runes of a string with their byte positions: the loop \<open>for i, r := range s\<close>.\<close>

function range_from :: "int \<Rightarrow> string \<Rightarrow> (int \<times> nat) list" where
  "range_from i s =
     (if s = [] then []
      else (i, fst (decode_rune s)) #
        range_from (i + int (snd (decode_rune s))) (drop (snd (decode_rune s)) s))"
  by pat_completeness auto
termination
  by (relation "measure (\<lambda>(i, s). length s)") (auto dest: decode_rune_width)

declare range_from.simps [simp del]

definition go_range :: "string \<Rightarrow> (int \<times> nat) list" where
  "go_range s = range_from 0 s"

text \<open>The conversion \<open>[]rune(s)\<close>, and \<open>string(rs)\<close>.\<close>

definition runes :: "string \<Rightarrow> nat list" where
  "runes s = map snd (go_range s)"

definition runes_string :: "nat list \<Rightarrow> string" where
  "runes_string rs = concat (map encode_rune rs)"

lemma range_from_Nil [simp]: "range_from i [] = []"
  by (simp add: range_from.simps)

lemma runes_Nil [simp]: "runes [] = []"
  by (simp add: runes_def go_range_def)

lemma range_from_rec:
  "s \<noteq> [] \<Longrightarrow> range_from i s = (i, fst (decode_rune s)) #
     range_from (i + int (snd (decode_rune s))) (drop (snd (decode_rune s)) s)"
  by (subst range_from.simps) simp

lemma range_from_code [code]:
  "range_from i [] = []"
  "range_from i (c # s) =
     (let (r, w) = decode_rune (c # s) in (i, r) # range_from (i + int w) (drop w (c # s)))"
  by (simp_all add: range_from_rec split_beta Let_def)

lemma map_snd_range_from: "map snd (range_from i s) = runes s"
proof -
  have "map snd (range_from i s) = map snd (range_from j s)" for j
  proof (induction i s arbitrary: j rule: range_from.induct)
    case (1 i s)
    show ?case
    proof (cases "s = []")
      case False
      show ?thesis
        using 1 [OF False, of "j + int (snd (decode_rune s))"]
        by (simp add: range_from_rec [OF False, of i] range_from_rec [OF False, of j])
    qed simp
  qed
  then show ?thesis by (simp add: runes_def go_range_def)
qed

lemma runes_rec:
  "s \<noteq> [] \<Longrightarrow> runes s = fst (decode_rune s) # runes (drop (snd (decode_rune s)) s)"
  using map_snd_range_from [of 0 s] by (simp add: range_from_rec map_snd_range_from)

lemma of_char_char_of [simp]: "n < 256 \<Longrightarrow> of_char (char_of n :: char) = (n :: nat)"
  by (simp add: of_char_of)

lemma byte_arith:
  fixes n :: nat
  shows "(0x80 + n mod 0x40) mod 0x40 = n mod 0x40" "n mod 0x40 \<le> 0x3F"
    "n < 0x20 \<Longrightarrow> (0xC0 + n) mod 0x20 = n" "n < 0x10 \<Longrightarrow> (0xE0 + n) mod 0x10 = n"
    "n < 8 \<Longrightarrow> (0xF0 + n) mod 8 = n"
proof -
  have "n mod 64 < 64" by simp
  then show "n mod 64 \<le> 63" by linarith
qed (simp_all flip: mod_add_left_eq)

lemma base64:
  fixes r :: nat
  shows "r div 64 div 64 = r div 4096" "r div 4096 div 64 = r div 262144"
    "r div 4096 * 4096 + r div 64 mod 64 * 64 + r mod 64 = r"
    "r div 262144 * 262144 + r div 4096 mod 64 * 4096 + r div 64 mod 64 * 64 + r mod 64 = r"
proof -
  show 1: "r div 64 div 64 = r div 4096" "r div 4096 div 64 = r div 262144"
    by (simp_all flip: div_mult2_eq)
  show 2: "r div 4096 * 4096 + r div 64 mod 64 * 64 + r mod 64 = r"
    using div_mult_mod_eq [of r 64] div_mult_mod_eq [of "r div 64" 64] 1(1) by linarith
  show "r div 262144 * 262144 + r div 4096 mod 64 * 4096 + r div 64 mod 64 * 64 + r mod 64 = r"
    using 2 div_mult_mod_eq [of "r div 4096" 64] 1(2) by linarith
qed

lemmas decode_encode_defs =
  encode_rune_def decode_rune_def decode_bytes_def cont_def second_ok_def Let_def byte_arith

lemma decode_encode:
  assumes "scalar_value r"
  shows "decode_rune (encode_rune r @ s) = (r, length (encode_rune r))"
proof -
  consider "r < 0x80" | "0x80 \<le> r" "r < 0x800" | "0x800 \<le> r" "r < 0x10000"
    | "0x10000 \<le> r" "r \<le> 0x10FFFF"
    using assms unfolding scalar_value_def by linarith
  then show ?thesis
  proof cases
    case 1
    then show ?thesis using assms by (simp add: decode_encode_defs)
  next
    case 2
    then have "r div 64 < 32" "2 \<le> r div 64" by linarith+
    then show ?thesis using assms 2 by (simp add: decode_encode_defs)
  next
    case 3
    note d = base64(3) [of r] byte_arith(2) [of r] byte_arith(2) [of "r div 64"]
    have "r div 4096 < 16" using 3 by linarith
    moreover have "r div 4096 = 0 \<Longrightarrow> 32 \<le> r div 64 mod 64" using 3 d by linarith
    moreover have "r div 4096 = 13 \<Longrightarrow> r div 64 mod 64 \<le> 31"
      using 3 d assms unfolding scalar_value_def by linarith
    ultimately show ?thesis using assms 3 d(1) by (simp add: decode_encode_defs)
  next
    case 4
    note d = base64(4) [of r] byte_arith(2) [of r] byte_arith(2) [of "r div 64"]
      byte_arith(2) [of "r div 4096"]
    have "r div 262144 < 5" using 4 by linarith
    moreover have "r div 262144 = 0 \<Longrightarrow> 16 \<le> r div 4096 mod 64" using 4 d by linarith
    moreover have "r div 262144 = 4 \<Longrightarrow> r div 4096 mod 64 \<le> 15" using 4 d by linarith
    ultimately show ?thesis using assms 4 d(1) by (simp add: decode_encode_defs)
  qed
qed

lemma encode_rune_nonempty [simp]: "encode_rune r \<noteq> []"
  by (simp add: encode_rune_def Let_def)

lemma runes_encode_append:
  "scalar_value r \<Longrightarrow> runes (encode_rune r @ s) = r # runes s"
  by (subst runes_rec) (simp_all add: decode_encode)

text \<open>Decoding inverts encoding.\<close>

lemma runes_encode: "list_all scalar_value rs \<Longrightarrow> runes (runes_string rs) = rs"
  by (induction rs) (simp_all add: runes_string_def runes_encode_append)

subsection \<open>Runes of ASCII strings\<close>

definition ascii :: "string \<Rightarrow> bool" where
  "ascii s \<longleftrightarrow> list_all (\<lambda>c. of_char c < (0x80 :: nat)) s"

lemma ascii_simps [simp]:
  "ascii []" "ascii (c # s) \<longleftrightarrow> of_char c < (0x80 :: nat) \<and> ascii s"
  "ascii (s @ t) \<longleftrightarrow> ascii s \<and> ascii t"
  by (simp_all add: ascii_def)

lemma decode_rune_ascii: "of_char c < (0x80 :: nat) \<Longrightarrow> decode_rune (c # s) = (of_char c, 1)"
  by (simp add: decode_rune_def decode_bytes_def)

lemma range_from_ascii:
  "ascii s \<Longrightarrow> range_from i s = zip [i .. i + int (length s) - 1] (map of_char s)"
proof (induction s arbitrary: i)
  case (Cons c s)
  then show ?case
    by (simp add: range_from_rec decode_rune_ascii upto_rec1)
qed simp

lemma runes_ascii: "ascii s \<Longrightarrow> runes s = map of_char s"
  by (induction s) (simp_all add: runes_rec decode_rune_ascii)

text \<open>An ASCII byte always starts a rune.\<close>

lemma decode_bytes_stops:
  assumes "b < 0x80"
  shows "snd (decode_bytes (x # b # l)) \<le> 1" "snd (decode_bytes (x # y # b # l)) \<le> 2"
    "snd (decode_bytes (x # y # z # b # l)) \<le> 3"
proof -
  have "\<not> cont b" "\<not> second_ok a b" for a
    using assms by (auto simp: cont_def second_ok_def)
  then show "snd (decode_bytes (x # b # l)) \<le> 1" "snd (decode_bytes (x # y # b # l)) \<le> 2"
    "snd (decode_bytes (x # y # z # b # l)) \<le> 3"
    by (simp_all add: decode_bytes_def split: list.split)
qed

lemma decode_stops_at_ascii:
  assumes "pre \<noteq> []" "of_char c < (0x80 :: nat)"
  shows "snd (decode_rune (pre @ c # post)) \<le> length pre"
proof -
  consider x where "pre = [x]" | x y where "pre = [x, y]" | x y z where "pre = [x, y, z]"
    | "4 \<le> length pre"
    using assms(1)
    by (cases pre; cases "tl pre"; cases "tl (tl pre)"; cases "tl (tl (tl pre))") auto
  then show ?thesis
  proof cases
    case 4
    then show ?thesis
      using decode_bytes_width [of "map of_char (take 4 (pre @ c # post))"] assms(1)
      by (auto simp: decode_rune_def)
  qed (use decode_bytes_stops [OF assms(2)] in \<open>simp_all add: decode_rune_def numeral_eq_Suc\<close>)
qed

lemma range_from_split:
  assumes "of_char c < (0x80 :: nat)"
  shows "\<exists>xs. range_from i (pre @ c # post) = xs @ range_from (i + go_len pre) (c # post)"
proof (induction "length pre" arbitrary: i pre rule: less_induct)
  case less
  show ?case
  proof (cases "pre = []")
    case False
    let ?s = "pre @ c # post" and ?w = "snd (decode_rune (pre @ c # post))"
    have w: "0 < ?w" "?w \<le> length pre"
      using decode_rune_width [of ?s] decode_stops_at_ascii [OF False assms] by auto
    have lt: "length (drop ?w pre) < length pre" using w False by (simp add: length_greater_0_conv [symmetric] del: length_greater_0_conv)
    have "drop ?w ?s = drop ?w pre @ c # post" using w by simp
    moreover obtain xs where "range_from (i + int ?w) (drop ?w pre @ c # post) =
        xs @ range_from (i + int ?w + go_len (drop ?w pre)) (c # post)"
      using less [of "drop ?w pre" "i + int ?w"] lt by auto
    moreover have "i + int ?w + go_len (drop ?w pre) = i + go_len pre"
      using w by (simp add: go_len_def)
    ultimately have "range_from i ?s = ((i, fst (decode_rune ?s)) # xs) @ range_from (i + go_len pre) (c # post)"
      using range_from_rec [of ?s i] by simp
    then show ?thesis by blast
  qed simp
qed

lemma range_from_ascii_append:
  "ascii s \<Longrightarrow> \<exists>ys. range_from i (s @ t) = ys @ range_from (i + go_len s) t \<and> map snd ys = map of_char s"
proof (induction s arbitrary: i)
  case (Cons c s)
  then obtain ys where "range_from (i + 1) (s @ t) = ys @ range_from (i + 1 + go_len s) t"
    "map snd ys = map of_char s" by fastforce
  moreover have "range_from i ((c # s) @ t) = (i, of_char c) # range_from (i + 1) (s @ t)"
    using Cons.prems by (simp add: range_from_rec decode_rune_ascii)
  ultimately show ?case
    by (intro exI [of _ "(i, of_char c) # ys"]) (simp add: add.assoc)
qed simp

subsection \<open>Letters and case\<close>

record unicode_tables =
  u_ToLower :: "nat \<Rightarrow> nat"
  u_ToUpper :: "nat \<Rightarrow> nat"
  u_IsLetter :: "nat \<Rightarrow> bool"
  u_IsDigit :: "nat \<Rightarrow> bool"
  u_IsUpper :: "nat \<Rightarrow> bool"
  u_IsLower :: "nat \<Rightarrow> bool"

definition rune_between :: "nat \<Rightarrow> nat \<Rightarrow> nat \<Rightarrow> bool" where
  "rune_between a b r \<longleftrightarrow> a \<le> r \<and> r \<le> b"

definition rune_ToLower :: "unicode_tables \<Rightarrow> nat \<Rightarrow> nat" where
  "rune_ToLower T r =
     (if r < 0x80 then if rune_between 65 90 r then r + 32 else r else u_ToLower T r)"

definition rune_ToUpper :: "unicode_tables \<Rightarrow> nat \<Rightarrow> nat" where
  "rune_ToUpper T r =
     (if r < 0x80 then if rune_between 97 122 r then r - 32 else r else u_ToUpper T r)"

definition rune_IsLetter :: "unicode_tables \<Rightarrow> nat \<Rightarrow> bool" where
  "rune_IsLetter T r =
     (if r < 0x80 then rune_between 65 90 r \<or> rune_between 97 122 r else u_IsLetter T r)"

definition rune_IsDigit :: "unicode_tables \<Rightarrow> nat \<Rightarrow> bool" where
  "rune_IsDigit T r = (if r < 0x80 then rune_between 48 57 r else u_IsDigit T r)"

definition rune_IsUpper :: "unicode_tables \<Rightarrow> nat \<Rightarrow> bool" where
  "rune_IsUpper T r = (if r < 0x80 then rune_between 65 90 r else u_IsUpper T r)"

definition rune_IsLower :: "unicode_tables \<Rightarrow> nat \<Rightarrow> bool" where
  "rune_IsLower T r = (if r < 0x80 then rune_between 97 122 r else u_IsLower T r)"

text \<open>Unicode's property \<open>White_Space\<close>.\<close>

definition rune_IsSpace :: "nat \<Rightarrow> bool" where
  "rune_IsSpace r \<longleftrightarrow>
     rune_between 9 13 r \<or> r = 32 \<or> r = 0x85 \<or> r = 0xA0 \<or> r = 0x1680 \<or>
     rune_between 0x2000 0x200A r \<or> r = 0x2028 \<or> r = 0x2029 \<or> r = 0x202F \<or>
     r = 0x205F \<or> r = 0x3000"

definition ToLower :: "unicode_tables \<Rightarrow> string \<Rightarrow> string" where
  "ToLower T s = runes_string (map (rune_ToLower T) (runes s))"

definition ToUpper :: "unicode_tables \<Rightarrow> string \<Rightarrow> string" where
  "ToUpper T s = runes_string (map (rune_ToUpper T) (runes s))"

text \<open>
  Tables for the first blocks of Unicode that carry case in this program's inputs: Latin-1,
  and the Kelvin sign, whose lower case is the ASCII letter k.
\<close>

definition latin1 :: unicode_tables where
  "latin1 = \<lparr>
     u_ToLower = (\<lambda>r. if rune_between 0xC0 0xDE r \<and> r \<noteq> 0xD7 then r + 32
                       else if r = 0x212A then 107 else r),
     u_ToUpper = (\<lambda>r. if rune_between 0xE0 0xFE r \<and> r \<noteq> 0xF7 then r - 32
                       else if r = 0xFF then 0x178 else if r = 0xB5 then 0x39C else r),
     u_IsLetter = (\<lambda>r. r = 0xAA \<or> r = 0xB5 \<or> r = 0xBA \<or> r = 0x212A \<or>
                       rune_between 0xC0 0xFF r \<and> r \<noteq> 0xD7 \<and> r \<noteq> 0xF7),
     u_IsDigit = (\<lambda>r. False),
     u_IsUpper = (\<lambda>r. rune_between 0xC0 0xDE r \<and> r \<noteq> 0xD7 \<or> r = 0x212A),
     u_IsLower = (\<lambda>r. r = 0xB5 \<or> rune_between 0xDF 0xFF r \<and> r \<noteq> 0xF7)\<rparr>"

lemma runes_string_ascii:
  "list_all (\<lambda>r. r < 0x80) rs \<Longrightarrow> runes_string rs = map char_of rs"
  by (induction rs) (simp_all add: runes_string_def encode_rune_def scalar_value_def)

lemma rune_ToLower_ascii: "r < 0x80 \<Longrightarrow> rune_ToLower T r < 0x80"
  by (simp add: rune_ToLower_def rune_between_def)

lemma ToLower_ascii:
  "ascii s \<Longrightarrow> ToLower T s = map (\<lambda>c. char_of (rune_ToLower T (of_char c))) s"
  unfolding ToLower_def
  by (subst runes_string_ascii)
     (auto simp: runes_ascii list_all_iff ascii_def intro: rune_ToLower_ascii)

lemma length_ToLower_ascii: "ascii s \<Longrightarrow> length (ToLower T s) = length s"
  by (simp add: ToLower_ascii)

lemma lower_byte:
  "of_char c < (0x80 :: nat) \<Longrightarrow>
   rune_ToLower T (of_char c) mod 256 = rune_ToLower T (of_char c)"
  using rune_ToLower_ascii [of "of_char c" T] by simp

lemma ascii_ToLower: "ascii s \<Longrightarrow> ascii (ToLower T s)"
  by (auto simp: ToLower_ascii ascii_def list_all_iff lower_byte rune_ToLower_ascii)

lemma rune_ToLower_idem: "r < 0x80 \<Longrightarrow> rune_ToLower T (rune_ToLower T r) = rune_ToLower T r"
  by (auto simp: rune_ToLower_def rune_between_def)

lemma ToLower_idem_ascii: "ascii s \<Longrightarrow> ToLower T (ToLower T s) = ToLower T s"
  by (simp add: ToLower_ascii [OF ascii_ToLower])
     (auto simp: ToLower_ascii ascii_def list_all_iff rune_ToLower_idem lower_byte)

definition lower_case :: "string \<Rightarrow> bool" where
  "lower_case s \<longleftrightarrow> list_all (\<lambda>c. of_char c < (0x80 :: nat) \<and> \<not> rune_between 65 90 (of_char c)) s"

lemma lower_case_ascii: "lower_case s \<Longrightarrow> ascii s"
  by (auto simp: lower_case_def ascii_def list_all_iff)

lemma ToLower_lower_case: "lower_case s \<Longrightarrow> ToLower T s = s"
  using lower_case_ascii [of s]
  by (auto simp: ToLower_ascii lower_case_def list_all_iff rune_ToLower_def intro!: map_idI)

subsection \<open>Searching and splitting\<close>

definition HasPrefix :: "string \<Rightarrow> string \<Rightarrow> bool" where
  "HasPrefix s p \<longleftrightarrow> take (length p) s = p"

definition HasSuffix :: "string \<Rightarrow> string \<Rightarrow> bool" where
  "HasSuffix s p \<longleftrightarrow> length p \<le> length s \<and> drop (length s - length p) s = p"

definition TrimPrefix :: "string \<Rightarrow> string \<Rightarrow> string" where
  "TrimPrefix s p = (if HasPrefix s p then drop (length p) s else s)"

definition TrimSuffix :: "string \<Rightarrow> string \<Rightarrow> string" where
  "TrimSuffix s p = (if HasSuffix s p then take (length s - length p) s else s)"

text \<open>\<open>strings.Index\<close>: the first position of \<open>p\<close> in \<open>s\<close>, or \<open>-1\<close>.\<close>

fun index_from :: "int \<Rightarrow> string \<Rightarrow> string \<Rightarrow> int" where
  "index_from i [] p = (if p = [] then i else - 1)"
| "index_from i (c # s) p = (if HasPrefix (c # s) p then i else index_from (i + 1) s p)"

definition Index :: "string \<Rightarrow> string \<Rightarrow> int" where
  "Index s p = index_from 0 s p"

fun last_index_from :: "int \<Rightarrow> string \<Rightarrow> string \<Rightarrow> int \<Rightarrow> int" where
  "last_index_from i [] p best = (if p = [] then i else best)"
| "last_index_from i (c # s) p best =
     last_index_from (i + 1) s p (if HasPrefix (c # s) p then i else best)"

definition LastIndex :: "string \<Rightarrow> string \<Rightarrow> int" where
  "LastIndex s p = last_index_from 0 s p (- 1)"

fun Contains :: "string \<Rightarrow> string \<Rightarrow> bool" where
  "Contains [] p \<longleftrightarrow> p = []"
| "Contains (c # s) p \<longleftrightarrow> HasPrefix (c # s) p \<or> Contains s p"

lemma HasPrefix_iff: "HasPrefix s p \<longleftrightarrow> (\<exists>t. s = p @ t)"
  by (metis HasPrefix_def append_eq_conv_conj append_take_drop_id)

lemma Contains_iff: "Contains s p \<longleftrightarrow> (\<exists>a b. s = a @ p @ b)"
proof (induction s)
  case (Cons c s)
  have "(\<exists>a b. c # s = a @ p @ b) \<longleftrightarrow> HasPrefix (c # s) p \<or> (\<exists>a b. s = a @ p @ b)"
  proof
    assume "\<exists>a b. c # s = a @ p @ b"
    then obtain a b where ab: "c # s = a @ p @ b" by blast
    then show "HasPrefix (c # s) p \<or> (\<exists>a b. s = a @ p @ b)"
      by (cases a) (auto simp: HasPrefix_iff)
  next
    assume "HasPrefix (c # s) p \<or> (\<exists>a b. s = a @ p @ b)"
    then show "\<exists>a b. c # s = a @ p @ b"
      by (metis HasPrefix_iff append_Cons append_Nil)
  qed
  then show ?case using Cons.IH by simp
qed simp

text \<open>
  The chunks of bytes of the runes of a string. Trimming works on whole chunks: a byte that
  starts a chunk is never inside a valid encoding, so it is found from either end.
\<close>

function chunks :: "string \<Rightarrow> (nat \<times> string) list" where
  "chunks s =
     (if s = [] then []
      else (fst (decode_rune s), take (snd (decode_rune s)) s) # chunks (drop (snd (decode_rune s)) s))"
  by pat_completeness auto
termination
  by (relation "measure length") (auto dest: decode_rune_width)

declare chunks.simps [simp del]

lemma chunks_code [code]:
  "chunks [] = []"
  "chunks (c # s) =
     (let (r, w) = decode_rune (c # s) in (r, take w (c # s)) # chunks (drop w (c # s)))"
  by (subst chunks.simps, simp add: split_beta Let_def)+

definition TrimSpace :: "string \<Rightarrow> string" where
  "TrimSpace s =
     (let sp = (\<lambda>(r, _). rune_IsSpace r)
      in concat (map snd (rev (dropWhile sp (rev (dropWhile sp (chunks s)))))))"

text \<open>\<open>strings.Count\<close> and \<open>strings.Split\<close> with a separator of one byte.\<close>

definition CountByte :: "string \<Rightarrow> char \<Rightarrow> int" where
  "CountByte s c = go_len (filter (\<lambda>d. d = c) s)"

fun SplitByte :: "string \<Rightarrow> char \<Rightarrow> string list" where
  "SplitByte [] c = [[]]"
| "SplitByte (d # s) c =
     (if d = c then [] # SplitByte s c
      else case SplitByte s c of [] \<Rightarrow> [[d]] | p # ps \<Rightarrow> (d # p) # ps)"

fun JoinByte :: "string list \<Rightarrow> char \<Rightarrow> string" where
  "JoinByte [] c = []"
| "JoinByte [p] c = p"
| "JoinByte (p # ps) c = p @ c # JoinByte ps c"

lemma SplitByte_nonempty [simp]: "SplitByte s c \<noteq> []"
  by (induction s) (auto split: list.split)

lemma JoinByte_SplitByte: "JoinByte (SplitByte s c) c = s"
proof (induction s)
  case (Cons d s)
  obtain p ps where ps: "SplitByte s c = p # ps" using SplitByte_nonempty [of s c] by (cases "SplitByte s c") auto
  then show ?case using Cons by (cases ps) auto
qed simp

subsection \<open>File paths\<close>

text \<open>\<open>filepath.Ext\<close> and \<open>filepath.Base\<close> on a system whose separator is the slash.\<close>

definition Ext :: "string \<Rightarrow> string" where
  "Ext path =
     (let t = takeWhile (\<lambda>c. c \<noteq> CHR ''/'' \<and> c \<noteq> CHR ''.'') (rev path)
      in if length t < length path \<and> rev path ! length t = CHR ''.''
         then CHR ''.'' # rev t else [])"

definition Base :: "string \<Rightarrow> string" where
  "Base path =
     (if path = [] then ''.''
      else let p = rev (dropWhile (\<lambda>c. c = CHR ''/'') (rev path))
           in if p = [] then ''/'' else rev (takeWhile (\<lambda>c. c \<noteq> CHR ''/'') (rev p)))"

subsection \<open>Runes below 0x80\<close>

lemma mod_in_block: "q * n \<le> m \<Longrightarrow> m < q * n + n \<Longrightarrow> m mod n = m - q * n" for m n q :: nat
  by (rule mod_nat_eqI) auto

lemma lead_byte_mod:
  fixes b c :: nat
  shows "0xC2 \<le> b \<Longrightarrow> b \<le> 0xDF \<Longrightarrow> 2 \<le> b mod 0x20" "0xE0 \<le> b \<Longrightarrow> b \<le> 0xEF \<Longrightarrow> b mod 0x10 = b - 0xE0"
    "0xF0 \<le> b \<Longrightarrow> b \<le> 0xF4 \<Longrightarrow> b mod 8 = b - 0xF0" "0x80 \<le> c \<Longrightarrow> c \<le> 0xBF \<Longrightarrow> c mod 0x40 = c - 0x80"
  using mod_in_block[of 6 32 b] mod_in_block[of 14 16 b] mod_in_block[of 30 8 b] mod_in_block[of 2 64 c] by simp_all

lemma decode_bytes_high:
  assumes "0x80 \<le> b"
  shows "0x80 \<le> fst (decode_bytes (b # bs))"
proof -
  have two: "0x80 \<le> b mod 0x20 * 0x40 + c mod 0x40" if "0xC2 \<le> b" "b \<le> 0xDF" for c using lead_byte_mod(1)[OF that] by linarith
  have three: "0x80 \<le> b mod 0x10 * 0x1000 + c mod 0x40 * 0x40 + d mod 0x40" if "0xE0 \<le> b" "b \<le> 0xEF" "second_ok b c" for c d
  proof (cases "b = 0xE0")
    case True
    then have "0xA0 \<le> c" "c \<le> 0xBF" using that(3) by (simp_all add: second_ok_def)
    then have "0x20 \<le> c mod 0x40" using lead_byte_mod(4)[of c] by linarith
    then show ?thesis by linarith
  next
    case False
    then have "1 \<le> b mod 0x10" using lead_byte_mod(2)[OF that(1,2)] that(1) by linarith
    then show ?thesis by linarith
  qed
  have four: "0x80 \<le> b mod 8 * 0x40000 + c mod 0x40 * 0x1000 + d mod 0x40 * 0x40 + e mod 0x40"
    if "0xF0 \<le> b" "b \<le> 0xF4" "second_ok b c" for c d e
  proof (cases "b = 0xF0")
    case True
    then have "0x90 \<le> c" "c \<le> 0xBF" using that(3) by (simp_all add: second_ok_def)
    then have "0x10 \<le> c mod 0x40" using lead_byte_mod(4)[of c] by linarith
    then show ?thesis by linarith
  next
    case False
    then have "1 \<le> b mod 8" using lead_byte_mod(3)[OF that(1,2)] that(1) by linarith
    then show ?thesis by linarith
  qed
  show ?thesis
    using assms two three four by (simp add: decode_bytes_def RuneError_def split: list.split)
qed

lemma decode_rune_low:
  assumes "fst (decode_rune (c # s)) < 0x80"
  shows "decode_rune (c # s) = (of_char c, 1)"
proof -
  have "of_char c < (0x80 :: nat)"
    using assms decode_bytes_high[of "of_char c" "map of_char (take 3 s)"] by (auto simp: decode_rune_def not_less[symmetric])
  then show ?thesis by (rule decode_rune_ascii)
qed

text \<open>What is left of the runes of a string are the runes of a suffix.\<close>

lemma range_from_suffix:
  "range_from i s = xs @ ys \<Longrightarrow> \<exists>pre post. s = pre @ post \<and> ys = range_from (i + go_len pre) post"
proof (induction xs arbitrary: i s)
  case Nil
  then have "s = [] @ s \<and> ys = range_from (i + go_len []) s" by (simp add: go_len_def)
  then show ?case by blast
next
  case (Cons x xs)
  define w where "w = snd (decode_rune s)"
  have s: "s \<noteq> []" using Cons.prems by auto
  then have w: "0 < w" "w \<le> length s" unfolding w_def using decode_rune_width by blast+
  have "range_from (i + int w) (drop w s) = xs @ ys" using Cons.prems range_from_rec[OF s, of i] by (simp add: w_def)
  then obtain pre post where p: "drop w s = pre @ post" "ys = range_from (i + int w + go_len pre) post" using Cons.IH by blast
  have "s = (take w s @ pre) @ post" using p(1) by (metis append.assoc append_take_drop_id)
  moreover have "i + int w + go_len pre = i + go_len (take w s @ pre)" using w by (simp add: go_len_def)
  ultimately show ?case using p(2) by metis
qed

lemma encode_rune_low: "r < 0x80 \<Longrightarrow> encode_rune r = [char_of r]"
  by (simp add: encode_rune_def scalar_value_def)

lemma encode_rune_high:
  assumes "\<not> r < 0x80" "c \<in> set (encode_rune r)"
  shows "\<not> of_char c < (0x80 :: nat)"
proof -
  let ?r = "if scalar_value r then r else RuneError"
  have r: "\<not> ?r < 0x80" "?r \<le> 0x10FFFF" using assms(1) by (auto simp: RuneError_def scalar_value_def)
  then have "?r div 0x40 div 0x40 div 0x40 \<le> 4" "?r div 0x40 div 0x40 < 0x110" "?r < 0x800 \<Longrightarrow> ?r div 0x40 < 0x20"
    "?r < 0x10000 \<Longrightarrow> ?r div 0x40 div 0x40 < 0x10" by linarith+
  then have b: "?r < 0x800 \<Longrightarrow> ?r div 0x40 < 0x20" "?r < 0x10000 \<Longrightarrow> ?r div 0x1000 < 0x10" "?r div 0x40000 \<le> 4"
    by (simp_all flip: div_mult2_eq)
  have cont: "of_char (char_of (0x80 + n mod 0x40) :: char) = 0x80 + n mod 0x40" for n :: nat
    using byte_arith(2)[of n] by simp
  show ?thesis
    using assms(2) r b by (auto simp: encode_rune_def Let_def cont split: if_splits)
qed

end
