(* ===== verification/Rules.thy ===== *)
theory Rules
  imports GoStrings
begin

text \<open>
  The catalogue of detection rules: \<open>internal/rules\<close> (\<open>rules.go\<close>, \<open>catalog.go\<close>,
  \<open>registry.go\<close>, \<open>fileblock.go\<close>).

  A user's choices are a map from rule identifiers to booleans, given here as the pairs it
  holds (each key once), in any order: \<open>Normalise\<close> ranges over them. \<open>Effective\<close> is the map
  with an entry for every rule of the catalogue.

  The catalogue is consistent (\<open>catalog_consistent\<close>): identifiers are unique, and the groups
  list exactly the rules that name them, at the same tier. \<open>Normalise\<close> computes a canonical
  form of the choices: it never changes what is effective, and two sets of choices have the
  same effect exactly when their normal forms hold the same pairs.
\<close>

subsection \<open>Data\<close>

datatype tier = TierUnknown | TierAlwaysOn | TierGoodToHave | TierToBeSafer

fun tier_String :: "tier \<Rightarrow> string" where
  "tier_String TierAlwaysOn = ''always_on''"
| "tier_String TierGoodToHave = ''good_to_have''"
| "tier_String TierToBeSafer = ''to_be_safer''"
| "tier_String TierUnknown = ''unknown''"

datatype rule_spec =
  RuleSpec (rs_ID: string) (rs_Label: string) (rs_Describe: string) (rs_Group: string)
    (rs_Tier: tier) (rs_Layer: string)

datatype group_spec =
  GroupSpec (gs_ID: string) (gs_Label: string) (gs_Tier: tier) (gs_Rules: "string list")

definition ResolveDefault :: "tier \<Rightarrow> bool" where
  "ResolveDefault t \<longleftrightarrow> t = TierAlwaysOn \<or> t = TierGoodToHave"

text \<open>The characters outside ASCII that the descriptions contain, in UTF-8.\<close>

definition ellipsis :: string where "ellipsis = [CHR 0xE2, CHR 0x80, CHR 0xA6]"
definition geq_sign :: string where "geq_sign = [CHR 0xE2, CHR 0x89, CHR 0xA5]"
definition en_dash :: string where "en_dash = [CHR 0xE2, CHR 0x80, CHR 0x93]"
definition em_dash :: string where "em_dash = [CHR 0xE2, CHR 0x80, CHR 0x94]"
definition times_sign :: string where "times_sign = [CHR 0xC3, CHR 0x97]"
definition plus_minus :: string where "plus_minus = [CHR 0xC2, CHR 0xB1]"
definition bslash :: string where "bslash = [CHR 0x5C]"

subsection \<open>The catalogue\<close>

definition tier1Groups :: "group_spec list" where
  \<open>tier1Groups =
     [GroupSpec ''cloud_credentials'' (''Cloud credentials'') TierAlwaysOn
       [''aws_access_key'', ''aws_secret_key'', ''gcp_api_key''],
      GroupSpec ''private_keys'' (''Private keys'') TierAlwaysOn
       [''private_key_pem''],
      GroupSpec ''auth_tokens'' (''Auth tokens & secrets'') TierAlwaysOn
       [''jwt'', ''generic_secret_kv'', ''generic_secret_pwd'', ''url_with_token''],
      GroupSpec ''passwords_prose'' (''Passwords (prose)'') TierAlwaysOn
       [''password_prose''],
      GroupSpec ''connection_strings'' (''Database connection strings'') TierAlwaysOn
       [''connection_string''],
      GroupSpec ''payment_cards'' (''Payment cards (full)'') TierAlwaysOn
       [''credit_card_luhn'', ''credit_card_4x4'', ''credit_card_bare'', ''cvv''],
      GroupSpec ''us_ssn'' (''US Social Security Numbers'') TierAlwaysOn
       [''us_ssn_dash'', ''us_ssn_space''],
      GroupSpec ''file_blocking'' (''Sensitive file types (block)'') TierAlwaysOn
       [''file_block_env'', ''file_block_tfstate'', ''file_block_pem'', ''file_block_key'', ''file_block_p12'', ''file_block_pfx'', ''file_block_content_patterns''],
      GroupSpec ''entropy_keyword'' (''Entropy in secret context'') TierAlwaysOn
       [''entropy_keyword_gated'']]\<close>

definition tier1Rules :: "rule_spec list" where
  \<open>tier1Rules =
     [RuleSpec ''aws_access_key'' ''AWS access key''
       ''AKIA[0-9A-Z]{16}''
       ''cloud_credentials'' TierAlwaysOn ''presidio'',
      RuleSpec ''aws_secret_key'' ''AWS secret key''
       (''aws_secret_access_key='' @ ellipsis @ '' (40 chars)'')
       ''cloud_credentials'' TierAlwaysOn ''presidio'',
      RuleSpec ''gcp_api_key'' ''GCP API key''
       (''AIza[0-9A-Za-z'' @ bslash @ ''-_]{35}'')
       ''cloud_credentials'' TierAlwaysOn ''presidio'',
      RuleSpec ''private_key_pem'' ''Private key (PEM)''
       ''PEM blocks: RSA / EC / DSA / OPENSSH''
       ''private_keys'' TierAlwaysOn ''presidio'',
      RuleSpec ''jwt'' ''JWT''
       (''eyJ'' @ ellipsis @ bslash @ ''.eyJ'' @ ellipsis @ bslash @ ''.'' @ ellipsis)
       ''auth_tokens'' TierAlwaysOn ''presidio'',
      RuleSpec ''generic_secret_kv'' ''Generic key=value secret''
       (''(password|secret|token|api_key)='' @ ellipsis @ '' '' @ geq_sign @ ''8 chars'')
       ''auth_tokens'' TierAlwaysOn ''presidio'',
      RuleSpec ''generic_secret_pwd'' ''Generic password=value''
       (''(password|passwd|pwd)='' @ ellipsis @ '' '' @ geq_sign @ ''4 chars (loose)'')
       ''auth_tokens'' TierAlwaysOn ''presidio'',
      RuleSpec ''url_with_token'' ''URL with auth token''
       (''https://'' @ ellipsis @ ''?token= / ?access_token= / etc.'')
       ''auth_tokens'' TierAlwaysOn ''presidio'',
      RuleSpec ''password_prose'' ''Password in prose''
       ''"the password is X"''
       ''passwords_prose'' TierAlwaysOn ''presidio'',
      RuleSpec ''connection_string'' ''Database connection string''
       (''mongodb|postgres|mysql|redis|amqp://'' @ ellipsis)
       ''connection_strings'' TierAlwaysOn ''presidio'',
      RuleSpec ''credit_card_luhn'' ''Credit card (Luhn-validated)''
       ''Visa/MC/Amex/Discover/Diners with Luhn''
       ''payment_cards'' TierAlwaysOn ''presidio'',
      RuleSpec ''credit_card_4x4'' (''Credit card (4'' @ times_sign @ ''4 separated)'')
       (bslash @ ''b'' @ bslash @ ''d{4}['' @ bslash @ ''s'' @ bslash @ ''-]'' @ bslash @ ''d{4}['' @ bslash @ ''s'' @ bslash @ ''-]'' @ bslash @ ''d{4}['' @ bslash @ ''s'' @ bslash @ ''-]'' @ bslash @ ''d{4}'' @ bslash @ ''b'')
       ''payment_cards'' TierAlwaysOn ''presidio'',
      RuleSpec ''credit_card_bare'' (''Credit card (bare 13'' @ en_dash @ ''19 digits)'')
       (''13'' @ en_dash @ ''19 digit unseparated PAN with brand prefix'')
       ''payment_cards'' TierAlwaysOn ''presidio'',
      RuleSpec ''cvv'' ''CVV / CVC''
       ''CVV/CVC keyword + value, near payment-card context''
       ''payment_cards'' TierAlwaysOn ''presidio'',
      RuleSpec ''us_ssn_dash'' ''US SSN (dash-separated)''
       (bslash @ ''b'' @ bslash @ ''d{3}-'' @ bslash @ ''d{2}-'' @ bslash @ ''d{4}'' @ bslash @ ''b'')
       ''us_ssn'' TierAlwaysOn ''presidio'',
      RuleSpec ''us_ssn_space'' ''US SSN (space-separated)''
       (bslash @ ''b'' @ bslash @ ''d{3}'' @ bslash @ ''s'' @ bslash @ ''d{2}'' @ bslash @ ''s'' @ bslash @ ''d{4}'' @ bslash @ ''b'')
       ''us_ssn'' TierAlwaysOn ''presidio'',
      RuleSpec ''file_block_env'' ''.env files''
       ''Block requests containing .env files''
       ''file_blocking'' TierAlwaysOn ''fileblock'',
      RuleSpec ''file_block_tfstate'' ''.tfstate files''
       ''Block requests containing .tfstate files''
       ''file_blocking'' TierAlwaysOn ''fileblock'',
      RuleSpec ''file_block_pem'' ''.pem files''
       ''Block requests containing .pem files''
       ''file_blocking'' TierAlwaysOn ''fileblock'',
      RuleSpec ''file_block_key'' ''.key files''
       ''Block requests containing .key files''
       ''file_blocking'' TierAlwaysOn ''fileblock'',
      RuleSpec ''file_block_p12'' ''.p12 files''
       ''Block requests containing .p12 files''
       ''file_blocking'' TierAlwaysOn ''fileblock'',
      RuleSpec ''file_block_pfx'' ''.pfx files''
       ''Block requests containing .pfx files''
       ''file_blocking'' TierAlwaysOn ''fileblock'',
      RuleSpec ''file_block_content_patterns'' ''Sensitive content patterns''
       ''Block on PEM headers / TF state markers''
       ''file_blocking'' TierAlwaysOn ''fileblock'',
      RuleSpec ''entropy_keyword_gated'' ''Entropy near secret keyword''
       (''Shannon 3.5'' @ en_dash @ ''4.5 within '' @ plus_minus @ ''80 chars of password/token/api_key'')
       ''entropy_keyword'' TierAlwaysOn ''entropy'']\<close>

definition tier2Groups :: "group_spec list" where
  \<open>tier2Groups =
     [GroupSpec ''email_addresses'' (''Email addresses'') TierGoodToHave
       [''email_regex'', ''email_gliner''],
      GroupSpec ''phone_numbers'' (''Phone numbers'') TierGoodToHave
       [''phone_parens'', ''phone_dash_dot'', ''phone_intl_plus'', ''phone_leading_zero'', ''phone_double_zero''],
      GroupSpec ''person_names'' (''Person names (ML)'') TierGoodToHave
       [''person_gliner''],
      GroupSpec ''physical_addresses'' (''Physical addresses (ML)'') TierGoodToHave
       [''address_gliner''],
      GroupSpec ''date_of_birth'' (''Date of birth'') TierGoodToHave
       [''dob_mdy'', ''dob_dmy'', ''dob_gliner''],
      GroupSpec ''us_government_ids'' (''US government IDs'') TierGoodToHave
       [''us_passport_alpha'', ''us_passport_numeric'', ''us_driver_license'', ''us_itin_dash'', ''us_itin_bare''],
      GroupSpec ''us_bank_accounts'' (''US bank accounts'') TierGoodToHave
       [''us_bank_number'', ''aba_routing_dashed'', ''aba_routing_bare''],
      GroupSpec ''intl_banking'' (''International banking'') TierGoodToHave
       [''iban_presidio'', ''iban_simple'', ''swift_bic''],
      GroupSpec ''cc_expiry'' (''Credit card expiry'') TierGoodToHave
       [''cc_expiry''],
      GroupSpec ''healthcare_ids'' (''Healthcare identifiers'') TierGoodToHave
       [''dea_license'', ''us_npi_separated'', ''us_npi_bare'', ''us_mbi_separated'', ''us_mbi_bare'', ''medical_record_mrn'', ''health_plan_id''],
      GroupSpec ''biometric_ids'' (''Biometric identifiers'') TierGoodToHave
       [''biometric_id''],
      GroupSpec ''insurance_ids'' (''Insurance / policy IDs'') TierGoodToHave
       [''insurance_id'']]\<close>

definition tier2Rules :: "rule_spec list" where
  \<open>tier2Rules =
     [RuleSpec ''email_regex'' ''Email (regex)''
       (''RFC-shaped local@domain.tld'')
       ''email_addresses'' TierGoodToHave ''presidio'',
      RuleSpec ''email_gliner'' ''Email (ML)''
       (''GLiNER EMAIL '' @ geq_sign @ ''0.70'')
       ''email_addresses'' TierGoodToHave ''gliner'',
      RuleSpec ''phone_parens'' ''Phone (parens)''
       ''(415) 555-0136''
       ''phone_numbers'' TierGoodToHave ''presidio'',
      RuleSpec ''phone_dash_dot'' ''Phone (dash/dot)''
       ''415-555-0136 / 415.555.0136''
       ''phone_numbers'' TierGoodToHave ''presidio'',
      RuleSpec ''phone_intl_plus'' ''Phone (international +)''
       ''+1 415 555 0136''
       ''phone_numbers'' TierGoodToHave ''presidio'',
      RuleSpec ''phone_leading_zero'' ''Phone (leading zero)''
       (''0xxx xxxxxx '' @ em_dash @ '' context-required'')
       ''phone_numbers'' TierGoodToHave ''presidio'',
      RuleSpec ''phone_double_zero'' ''Phone (double zero)''
       ''00xx xxxxxxxx''
       ''phone_numbers'' TierGoodToHave ''presidio'',
      RuleSpec ''person_gliner'' ''Person name (ML)''
       (''GLiNER PERSON '' @ geq_sign @ ''0.80'')
       ''person_names'' TierGoodToHave ''gliner'',
      RuleSpec ''address_gliner'' ''Address (ML)''
       (''GLiNER ADDRESS '' @ geq_sign @ ''0.75'')
       ''physical_addresses'' TierGoodToHave ''gliner'',
      RuleSpec ''dob_mdy'' ''DOB MM/DD/YYYY''
       ''Context-required (born/dob/birthday)''
       ''date_of_birth'' TierGoodToHave ''presidio'',
      RuleSpec ''dob_dmy'' ''DOB DD/MM/YYYY''
       ''Context-required (born/dob/birthday)''
       ''date_of_birth'' TierGoodToHave ''presidio'',
      RuleSpec ''dob_gliner'' ''DOB (ML)''
       (''GLiNER DATE_OF_BIRTH '' @ geq_sign @ ''0.75'')
       ''date_of_birth'' TierGoodToHave ''gliner'',
      RuleSpec ''us_passport_alpha'' ''US passport (alpha)''
       (''[A-Z]'' @ bslash @ ''d{8}'')
       ''us_government_ids'' TierGoodToHave ''presidio'',
      RuleSpec ''us_passport_numeric'' ''US passport (numeric)''
       (bslash @ ''d{9} with passport ctx'')
       ''us_government_ids'' TierGoodToHave ''presidio'',
      RuleSpec ''us_driver_license'' ''US driver license''
       ''State-shape alternation, context-required''
       ''us_government_ids'' TierGoodToHave ''presidio'',
      RuleSpec ''us_itin_dash'' ''US ITIN (dashed)''
       ''9XX-7X-XXXX with context''
       ''us_government_ids'' TierGoodToHave ''presidio'',
      RuleSpec ''us_itin_bare'' ''US ITIN (bare)''
       ''9XX7XXXXX context-required''
       ''us_government_ids'' TierGoodToHave ''presidio'',
      RuleSpec ''us_bank_number'' ''US bank account''
       (''10'' @ en_dash @ ''17 digits with bank context'')
       ''us_bank_accounts'' TierGoodToHave ''presidio'',
      RuleSpec ''aba_routing_dashed'' ''ABA routing (dashed)''
       ''XXXX-XXXX-X with checksum''
       ''us_bank_accounts'' TierGoodToHave ''presidio'',
      RuleSpec ''aba_routing_bare'' ''ABA routing (bare)''
       ''9 digits, context-required + checksum''
       ''us_bank_accounts'' TierGoodToHave ''presidio'',
      RuleSpec ''iban_presidio'' ''IBAN (Presidio)''
       ''IBAN with mod-97 checksum (context-boosted)''
       ''intl_banking'' TierGoodToHave ''presidio'',
      RuleSpec ''iban_simple'' ''IBAN (simple)''
       ''Simpler IBAN shape (context-boosted)''
       ''intl_banking'' TierGoodToHave ''presidio'',
      RuleSpec ''swift_bic'' ''SWIFT / BIC''
       ''8/11 alpha SWIFT, context-required''
       ''intl_banking'' TierGoodToHave ''presidio'',
      RuleSpec ''cc_expiry'' ''Credit card expiry''
       ''MM/YY near "card"/"exp"/"valid"''
       ''cc_expiry'' TierGoodToHave ''presidio'',
      RuleSpec ''dea_license'' ''DEA license''
       (''DEA-shape [A-Z][A-Z]'' @ bslash @ ''d{7}'')
       ''healthcare_ids'' TierGoodToHave ''presidio'',
      RuleSpec ''us_npi_separated'' ''US NPI (separated)''
       ''1NNN-NNN-NNN with NPI ctx''
       ''healthcare_ids'' TierGoodToHave ''presidio'',
      RuleSpec ''us_npi_bare'' ''US NPI (bare)''
       ''10-digit NPI, context-required''
       ''healthcare_ids'' TierGoodToHave ''presidio'',
      RuleSpec ''us_mbi_separated'' ''US MBI (separated)''
       ''Medicare MBI hyphenated form''
       ''healthcare_ids'' TierGoodToHave ''presidio'',
      RuleSpec ''us_mbi_bare'' ''US MBI (bare)''
       ''MBI no-separator, context-required''
       ''healthcare_ids'' TierGoodToHave ''presidio'',
      RuleSpec ''medical_record_mrn'' ''Medical record (MRN)''
       (''"MRN: '' @ ellipsis @ ''" / "patient id: '' @ ellipsis @ ''"'')
       ''healthcare_ids'' TierGoodToHave ''presidio'',
      RuleSpec ''health_plan_id'' ''Health plan ID''
       (''"health plan id: '' @ ellipsis @ ''"'')
       ''healthcare_ids'' TierGoodToHave ''presidio'',
      RuleSpec ''biometric_id'' ''Biometric identifier''
       (''"fingerprint hash: '' @ ellipsis @ ''" / "face id: '' @ ellipsis @ ''"'')
       ''biometric_ids'' TierGoodToHave ''presidio'',
      RuleSpec ''insurance_id'' ''Insurance / policy ID''
       (''"policy no: '' @ ellipsis @ ''" / "member id: '' @ ellipsis @ ''"'')
       ''insurance_ids'' TierGoodToHave ''presidio'']\<close>

definition tier3Groups :: "group_spec list" where
  \<open>tier3Groups =
     [GroupSpec ''ip_addresses'' (''IP addresses (v4 + v6)'') TierToBeSafer
       [''ipv4'', ''ipv6'', ''ip_gliner''],
      GroupSpec ''mac_addresses'' (''MAC addresses'') TierToBeSafer
       [''mac_colon_dash'', ''mac_cisco_dot''],
      GroupSpec ''bare_urls'' (''Bare URLs'') TierToBeSafer
       [''url_bare''],
      GroupSpec ''crypto_wallets'' (''Crypto wallet addresses'') TierToBeSafer
       [''crypto_btc'', ''crypto_eth''],
      GroupSpec ''uk_ids'' (''UK identifiers'') TierToBeSafer
       [''uk_nhs'', ''uk_nino'', ''uk_postcode'', ''uk_passport'', ''uk_driving_licence''],
      GroupSpec ''ca_sin'' (''Canada '' @ em_dash @ '' SIN'') TierToBeSafer
       [''ca_sin''],
      GroupSpec ''au_tfn'' (''Australia '' @ em_dash @ '' TFN'') TierToBeSafer
       [''au_tfn''],
      GroupSpec ''in_pan'' (''India '' @ em_dash @ '' PAN'') TierToBeSafer
       [''in_pan''],
      GroupSpec ''es_nif'' (''Spain '' @ em_dash @ '' NIF'') TierToBeSafer
       [''es_nif''],
      GroupSpec ''de_passport'' (''Germany '' @ em_dash @ '' Passport'') TierToBeSafer
       [''de_passport''],
      GroupSpec ''sg_nric_fin'' (''Singapore '' @ em_dash @ '' NRIC/FIN'') TierToBeSafer
       [''sg_nric_fin''],
      GroupSpec ''license_plates'' (''License plates'') TierToBeSafer
       [''license_plate''],
      GroupSpec ''device_ids'' (''Device identifiers (IMEI)'') TierToBeSafer
       [''imei''],
      GroupSpec ''generic_system_ids'' (''Generic system IDs'') TierToBeSafer
       [''person_id_generic'', ''registration_id_generic''],
      GroupSpec ''entropy_unconditional'' (''Entropy unconditional'') TierToBeSafer
       [''entropy_unconditional''],
      GroupSpec ''ml_duplicates'' (''ML duplicates'') TierToBeSafer
       [''gliner_email_dup'', ''gliner_ip_dup'', ''gliner_national_id_dup'', ''gliner_person_dup'']]\<close>

definition tier3Rules :: "rule_spec list" where
  \<open>tier3Rules =
     [RuleSpec ''ipv4'' ''IPv4''
       ''Dotted-quad IPv4''
       ''ip_addresses'' TierToBeSafer ''presidio'',
      RuleSpec ''ipv6'' ''IPv6''
       ''Full + compressed IPv6''
       ''ip_addresses'' TierToBeSafer ''presidio'',
      RuleSpec ''ip_gliner'' ''IP (ML)''
       (''GLiNER IP '' @ geq_sign @ ''0.75 (post-filtered)'')
       ''ip_addresses'' TierToBeSafer ''gliner'',
      RuleSpec ''mac_colon_dash'' ''MAC (colon/dash)''
       (''aa:bb:cc:dd:ee:ff / aa-bb-'' @ ellipsis)
       ''mac_addresses'' TierToBeSafer ''presidio'',
      RuleSpec ''mac_cisco_dot'' ''MAC (Cisco dot)''
       ''aaaa.bbbb.cccc''
       ''mac_addresses'' TierToBeSafer ''presidio'',
      RuleSpec ''url_bare'' ''Bare URL''
       (''Any http(s)://'' @ ellipsis @ '' (with skiplist)'')
       ''bare_urls'' TierToBeSafer ''presidio'',
      RuleSpec ''crypto_btc'' ''Bitcoin address''
       (''bc1'' @ ellipsis @ '' / [13]'' @ ellipsis)
       ''crypto_wallets'' TierToBeSafer ''presidio'',
      RuleSpec ''crypto_eth'' ''Ethereum address''
       ''0x[a-f0-9]{40}''
       ''crypto_wallets'' TierToBeSafer ''presidio'',
      RuleSpec ''uk_nhs'' ''UK NHS number''
       ''NHS number (mod-11)''
       ''uk_ids'' TierToBeSafer ''presidio'',
      RuleSpec ''uk_nino'' ''UK NINO''
       ''National Insurance Number''
       ''uk_ids'' TierToBeSafer ''presidio'',
      RuleSpec ''uk_postcode'' ''UK postcode''
       ''UK postcode''
       ''uk_ids'' TierToBeSafer ''presidio'',
      RuleSpec ''uk_passport'' ''UK passport''
       (''[A-Z]{2}'' @ bslash @ ''d{7} with ctx'')
       ''uk_ids'' TierToBeSafer ''presidio'',
      RuleSpec ''uk_driving_licence'' ''UK driving licence''
       ''DVLA driving licence shape''
       ''uk_ids'' TierToBeSafer ''presidio'',
      RuleSpec ''ca_sin'' ''Canada SIN''
       ''[1-79]NN-NNN-NNN Luhn''
       ''ca_sin'' TierToBeSafer ''presidio'',
      RuleSpec ''au_tfn'' ''Australia TFN''
       ''NNN NNN NNN mod-11''
       ''au_tfn'' TierToBeSafer ''presidio'',
      RuleSpec ''in_pan'' ''India PAN''
       ''10-char PAN format''
       ''in_pan'' TierToBeSafer ''presidio'',
      RuleSpec ''es_nif'' ''Spain NIF''
       ''8 digits + check letter''
       ''es_nif'' TierToBeSafer ''presidio'',
      RuleSpec ''de_passport'' ''Germany passport''
       ''German passport with German keywords''
       ''de_passport'' TierToBeSafer ''presidio'',
      RuleSpec ''sg_nric_fin'' ''Singapore NRIC/FIN''
       (''[STFGM]'' @ bslash @ ''d{7}[A-Z]'')
       ''sg_nric_fin'' TierToBeSafer ''presidio'',
      RuleSpec ''license_plate'' ''License plate''
       (''"license plate: '' @ ellipsis @ ''" / "VRN: '' @ ellipsis @ ''"'')
       ''license_plates'' TierToBeSafer ''presidio'',
      RuleSpec ''imei'' ''IMEI''
       ''NN-NNNNNN-NNNNNN-N''
       ''device_ids'' TierToBeSafer ''presidio'',
      RuleSpec ''person_id_generic'' ''Generic person/customer/order ID''
       (''"customer/employee/order/ticket id: '' @ ellipsis @ ''"'')
       ''generic_system_ids'' TierToBeSafer ''presidio'',
      RuleSpec ''registration_id_generic'' ''Registration / enrollment ID''
       (''"student/registration/enrollment no: '' @ ellipsis @ ''"'')
       ''generic_system_ids'' TierToBeSafer ''presidio'',
      RuleSpec ''entropy_unconditional'' ''High-entropy strings (unconditional)''
       (''Shannon '' @ geq_sign @ ''4.5 firing without keyword context'')
       ''entropy_unconditional'' TierToBeSafer ''entropy'',
      RuleSpec ''gliner_email_dup'' ''ML email (duplicate)''
       (''GLiNER EMAIL '' @ em_dash @ '' already covered by email_regex'')
       ''ml_duplicates'' TierToBeSafer ''gliner'',
      RuleSpec ''gliner_ip_dup'' ''ML IP (duplicate)''
       (''GLiNER IP '' @ em_dash @ '' already covered by ipv4'')
       ''ml_duplicates'' TierToBeSafer ''gliner'',
      RuleSpec ''gliner_national_id_dup'' ''ML NATIONAL_ID''
       (''GLiNER NATIONAL_ID '' @ em_dash @ '' vague label, mostly redundant'')
       ''ml_duplicates'' TierToBeSafer ''gliner'',
      RuleSpec ''gliner_person_dup'' ''ML person (duplicate)''
       (''GLiNER PERSON '' @ em_dash @ '' already covered by person_gliner in Tier 2'')
       ''ml_duplicates'' TierToBeSafer ''gliner'']\<close>

definition catalog :: "rule_spec list" where
  "catalog = tier1Rules @ tier2Rules @ tier3Rules"

definition groups :: "group_spec list" where
  "groups = tier1Groups @ tier2Groups @ tier3Groups"

subsection \<open>The registry\<close>

text \<open>The index of the catalogue by identifier; a later rule replaces an earlier one.\<close>

definition ruleByID :: "string \<Rightarrow> rule_spec option" where
  "ruleByID = foldl (\<lambda>m r. m(rs_ID r \<mapsto> r)) Map.empty catalog"

definition AllRules :: "rule_spec list" where
  "AllRules = catalog"

definition AllGroups :: "group_spec list" where
  "AllGroups = groups"

definition IsKnown :: "string \<Rightarrow> bool" where
  "IsKnown i \<longleftrightarrow> ruleByID i \<noteq> None"

definition ByID :: "string \<Rightarrow> rule_spec option" where
  "ByID i = ruleByID i"

type_synonym rule_map = "(string \<times> bool) list"

definition Effective :: "rule_map \<Rightarrow> string \<Rightarrow> bool option" where
  "Effective user =
     foldl (\<lambda>out r. out(rs_ID r \<mapsto> (case map_of user (rs_ID r) of
                                     Some v \<Rightarrow> v
                                   | None \<Rightarrow> ResolveDefault (rs_Tier r)))) Map.empty catalog"

text \<open>The result \<open>[]\<close> is the nil map.\<close>

definition Normalise :: "rule_map \<Rightarrow> rule_map" where
  "Normalise user =
     filter (\<lambda>(i, v). case ruleByID i of
                        None \<Rightarrow> False
                      | Some r \<Rightarrow> v \<noteq> ResolveDefault (rs_Tier r)) user"

text \<open>Reading a Go map of booleans: an absent key reads \<open>false\<close>.\<close>

definition lookup_bool :: "(string \<Rightarrow> bool option) \<Rightarrow> string \<Rightarrow> bool" where
  "lookup_bool m i = (case m i of None \<Rightarrow> False | Some b \<Rightarrow> b)"

subsection \<open>File blocking\<close>

definition fileblock_defaults :: "(string \<times> string) list" where
  "fileblock_defaults =
     [(''file_block_env'', ''.env''),
      (''file_block_tfstate'', ''.tfstate''),
      (''file_block_pem'', ''.pem''),
      (''file_block_key'', ''.key''),
      (''file_block_p12'', ''.p12''),
      (''file_block_pfx'', ''.pfx'')]"

definition FileBlockExtensions ::
  "unicode_tables \<Rightarrow> string list \<Rightarrow> (string \<Rightarrow> bool option) \<Rightarrow> bool \<Rightarrow> string list \<times> bool" where
  "FileBlockExtensions T userExtensions eff contentPatternsConfig =
     (map snd (filter (\<lambda>d. lookup_bool eff (fst d)) fileblock_defaults) @
        filter (\<lambda>e. ToLower T e \<notin> snd ` set fileblock_defaults) userExtensions,
      contentPatternsConfig \<and> lookup_bool eff ''file_block_content_patterns'')"

subsection \<open>Consistency of the catalogue\<close>

lemma catalog_ids_distinct: "distinct (map rs_ID catalog)"
  by code_simp

lemma catalog_tiers_known: "list_all (\<lambda>r. rs_Tier r \<noteq> TierUnknown) catalog"
  by code_simp

lemma ruleByID_iff: "ruleByID i = Some r \<longleftrightarrow> r \<in> set catalog \<and> rs_ID r = i"
  unfolding ruleByID_def foldl_upd_iff [OF catalog_ids_distinct] by blast

lemma ruleByID_rule: "r \<in> set catalog \<Longrightarrow> ruleByID (rs_ID r) = Some r"
  by (simp add: ruleByID_iff)

lemma Effective_rule:
  "r \<in> set catalog \<Longrightarrow> Effective user (rs_ID r) =
     Some (case map_of user (rs_ID r) of Some v \<Rightarrow> v | None \<Rightarrow> ResolveDefault (rs_Tier r))"
  unfolding Effective_def by (rule foldl_upd_in [OF catalog_ids_distinct])

lemma Effective_unknown: "\<not> IsKnown i \<Longrightarrow> Effective user i = None"
  using ruleByID_rule
  by (fastforce simp: Effective_def IsKnown_def foldl_upd_None_iff)

lemma Effective_eqI:
  "(\<And>r. r \<in> set catalog \<Longrightarrow> Effective u (rs_ID r) = Effective v (rs_ID r)) \<Longrightarrow> Effective u = Effective v"
  by (rule ext) (metis Effective_unknown IsKnown_def not_None_eq ruleByID_iff)


lemma Normalise_pair:
  assumes "distinct (map fst u)" "r \<in> set catalog"
  shows "(rs_ID r, v) \<in> set (Normalise u) \<longleftrightarrow>
    map_of u (rs_ID r) = Some v \<and> v \<noteq> ResolveDefault (rs_Tier r)"
  using assms by (auto simp: Normalise_def ruleByID_rule)

lemma Normalise_distinct: "distinct (map fst u) \<Longrightarrow> distinct (map fst (Normalise u))"
  unfolding Normalise_def by (rule distinct_map_filter)

lemma Normalise_effective:
  assumes "distinct (map fst u)" "r \<in> set catalog"
  shows "(rs_ID r, v) \<in> set (Normalise u) \<longleftrightarrow>
    Effective u (rs_ID r) = Some v \<and> v \<noteq> ResolveDefault (rs_Tier r)"
  unfolding Normalise_pair [OF assms] Effective_rule [OF assms(2)]
  by (cases "map_of u (rs_ID r)") auto

lemma case_not_default:
  assumes "\<And>v. m = Some v \<longleftrightarrow> m' = Some v \<and> v \<noteq> d"
  shows "(case m of Some v \<Rightarrow> v | None \<Rightarrow> d) = (case m' of Some v \<Rightarrow> v | None \<Rightarrow> d)"
proof (cases m')
  case None
  then have "m = None" using assms by (cases m) auto
  then show ?thesis using None by simp
next
  case (Some v)
  then show ?thesis using assms [of v] assms [of "the m"] by (cases m) auto
qed

lemma Normalise_known:
  "(i, v) \<in> set (Normalise u) \<Longrightarrow> \<exists>r \<in> set catalog. rs_ID r = i"
  by (auto simp: Normalise_def ruleByID_iff split: option.splits)

text \<open>
  Normalising the choices of a user, which drops unknown rules and choices equal to the
  default, never changes which rules are enabled.
\<close>

lemma Effective_Normalise:
  assumes "distinct (map fst user)"
  shows "Effective (Normalise user) = Effective user"
proof (rule Effective_eqI)
  fix r assume r: "r \<in> set catalog"
  have *: "map_of (Normalise user) (rs_ID r) = Some v \<longleftrightarrow>
      map_of user (rs_ID r) = Some v \<and> v \<noteq> ResolveDefault (rs_Tier r)" for v
    using map_of_eq_Some_iff [OF Normalise_distinct [OF assms], of "rs_ID r" v]
      Normalise_pair [OF assms r, of v] by simp
  show "Effective (Normalise user) (rs_ID r) = Effective user (rs_ID r)"
    unfolding Effective_rule [OF r] option.inject by (rule case_not_default) (rule *)
qed

text \<open>
  The normal form is canonical: two users have the same rules enabled exactly when their
  normalised choices are the same set of pairs.
\<close>

lemma Normalise_canonical:
  assumes "distinct (map fst u)" and "distinct (map fst w)"
  shows "Effective u = Effective w \<longleftrightarrow> set (Normalise u) = set (Normalise w)"
proof
  assume eq: "Effective u = Effective w"
  have "(i, v) \<in> set (Normalise u) \<longleftrightarrow> (i, v) \<in> set (Normalise w)" for i v
    using Normalise_effective [OF assms(1)] Normalise_effective [OF assms(2)] eq Normalise_known
    by metis
  then show "set (Normalise u) = set (Normalise w)" by auto
next
  assume eq: "set (Normalise u) = set (Normalise w)"
  show "Effective u = Effective w"
  proof (rule Effective_eqI)
    fix r assume r: "r \<in> set catalog"
    obtain a b where ab: "Effective u (rs_ID r) = Some a" "Effective w (rs_ID r) = Some b"
      using r by (simp add: Effective_rule)
    have "(a \<noteq> ResolveDefault (rs_Tier r)) = (b \<noteq> ResolveDefault (rs_Tier r))"
      using Normalise_effective [OF assms(1) r] Normalise_effective [OF assms(2) r] ab eq by auto
    then show "Effective u (rs_ID r) = Effective w (rs_ID r)" using ab by auto
  qed
qed

lemma Normalise_canonical_example:
  "Effective [(''ipv4'', True), (''jwt'', True)] = Effective [(''nope'', True), (''ipv4'', True)] \<longleftrightarrow>
   set (Normalise [(''ipv4'', True), (''jwt'', True)]) =
   set (Normalise [(''nope'', True), (''ipv4'', True)])"
  by (rule Normalise_canonical) simp_all

end
