(* ===== verification/Domain.thy ===== *)
theory Domain
  imports GoStrings
begin

text \<open>
  Which hosts are intercepted or blocked, and which requests bypass the scan:
  \<open>internal/domain/domain.go\<close> and \<open>internal/proxy/bypass.go\<close>, with \<open>net.SplitHostPort\<close> and
  \<open>strings.EqualFold\<close> of the standard library.

  A map of booleans with only true values is a set. Both components are guarded by a
  read-write mutex, so that their operations are atomic.
\<close>

subsection \<open>The standard library\<close>

definition SplitHostPort :: "string \<Rightarrow> (string \<times> string) option" where
  "SplitHostPort hp =
     (let i = LastIndex hp '':''
      in if i < 0 then None
         else if hp \<noteq> [] \<and> hd hp = CHR ''['' then
           (let en = Index hp '']''
            in if en < 0 \<or> en + 1 = go_len hp \<or> en + 1 \<noteq> i then None
               else if Index (drop 1 hp) ''['' \<ge> 0 \<or> Index (drop (nat (en + 1)) hp) '']'' \<ge> 0 then None
               else Some (seg hp 1 en, drop (nat (i + 1)) hp))
         else
           (let host = take (nat i) hp
            in if Index host '':'' \<ge> 0 \<or> Index hp ''['' \<ge> 0 \<or> Index hp '']'' \<ge> 0 then None
               else Some (host, drop (nat (i + 1)) hp)))"

text \<open>The dotted and the dotless i have no simple folding, although they have a lower and an upper case.\<close>

definition fold_rune :: "unicode_tables \<Rightarrow> nat \<Rightarrow> nat" where
  "fold_rune T r = (if r = 0x130 \<or> r = 0x131 then r else rune_ToLower T (rune_ToUpper T r))"

definition EqualFold :: "unicode_tables \<Rightarrow> string \<Rightarrow> string \<Rightarrow> bool" where
  "EqualFold T s t \<longleftrightarrow> map (fold_rune T) (runes s) = map (fold_rune T) (runes t)"

subsection \<open>The domain filter\<close>

record domain_filter =
  interceptDomains :: "string set"
  blockedDomains :: "string set"

definition New_filter :: "unicode_tables \<Rightarrow> string list \<Rightarrow> string list \<Rightarrow> domain_filter" where
  "New_filter T intercept blocked =
     \<lparr>interceptDomains = set (map (ToLower T) intercept), blockedDomains = set (map (ToLower T) blocked)\<rparr>"

definition stripPort :: "unicode_tables \<Rightarrow> string \<Rightarrow> string" where
  "stripPort T host = (case SplitHostPort host of None \<Rightarrow> ToLower T host | Some (h, _) \<Rightarrow> ToLower T h)"

definition ShouldIntercept :: "unicode_tables \<Rightarrow> domain_filter \<Rightarrow> string \<Rightarrow> bool" where
  "ShouldIntercept T f host \<longleftrightarrow> stripPort T host \<in> interceptDomains f"

definition IsBlocked :: "unicode_tables \<Rightarrow> domain_filter \<Rightarrow> string \<Rightarrow> bool" where
  "IsBlocked T f host \<longleftrightarrow> stripPort T host \<in> blockedDomains f"

definition SetInterceptDomains :: "unicode_tables \<Rightarrow> domain_filter \<Rightarrow> string list \<Rightarrow> domain_filter" where
  "SetInterceptDomains T f ds = f\<lparr>interceptDomains := set (map (ToLower T) ds)\<rparr>"

definition SetBlockedDomains :: "unicode_tables \<Rightarrow> domain_filter \<Rightarrow> string list \<Rightarrow> domain_filter" where
  "SetBlockedDomains T f ds = f\<lparr>blockedDomains := set (map (ToLower T) ds)\<rparr>"

subsection \<open>Bypass rules\<close>

record bypass_rule =
  br_Method :: string
  br_Path :: string
  br_Prefix :: string

record bypass_matcher =
  bm_rules :: "bypass_rule list"

definition NewBypassMatcher :: "bypass_rule list \<Rightarrow> bypass_matcher" where
  "NewBypassMatcher rules = \<lparr>bm_rules = rules\<rparr>"

definition SetRules :: "bypass_matcher \<Rightarrow> bypass_rule list \<Rightarrow> bypass_matcher" where
  "SetRules b rules = b\<lparr>bm_rules := rules\<rparr>"

fun match_rules :: "unicode_tables \<Rightarrow> bypass_rule list \<Rightarrow> string \<Rightarrow> string \<Rightarrow> bool \<times> string" where
  "match_rules T [] meth path = (False, [])"
| "match_rules T (r # rs) meth path =
     (if br_Method r \<noteq> [] \<and> EqualFold T (br_Method r) meth then (True, ''method_match'')
      else if br_Path r \<noteq> [] \<and> br_Path r = path then (True, ''exact_match'')
      else if br_Prefix r \<noteq> [] \<and> HasPrefix path (br_Prefix r) then (True, ''prefix_match'')
      else match_rules T rs meth path)"

definition Match :: "unicode_tables \<Rightarrow> bypass_matcher \<Rightarrow> string \<Rightarrow> string \<Rightarrow> bool \<times> string" where
  "Match T b meth path = match_rules T (bm_rules b) meth path"

subsection \<open>Hosts with and without a port\<close>

lemma Index_from_notin: "c \<notin> set s \<Longrightarrow> index_from i s [c] = - 1"
  by (induction s arbitrary: i) (auto simp: HasPrefix_def)

lemma Index_notin: "c \<notin> set s \<Longrightarrow> Index s [c] = - 1"
  by (simp add: Index_def Index_from_notin)

lemma last_index_notin: "c \<notin> set s \<Longrightarrow> last_index_from i s [c] b = b"
  by (induction s arbitrary: i b) (auto simp: HasPrefix_def)

lemma last_index_append:
  "c \<notin> set t \<Longrightarrow> last_index_from i (s @ c # t) [c] b = i + go_len s"
  by (induction s arbitrary: i b) (auto simp: HasPrefix_def last_index_notin)

definition plain_host :: "string \<Rightarrow> bool" where
  "plain_host h \<longleftrightarrow> CHR '':'' \<notin> set h \<and> CHR ''['' \<notin> set h \<and> CHR '']'' \<notin> set h"

lemma SplitHostPort_plain:
  assumes "plain_host h" "plain_host p"
  shows "SplitHostPort (h @ CHR '':'' # p) = Some (h, p)"
proof -
  have i: "LastIndex (h @ CHR '':'' # p) '':'' = go_len h"
    using assms(2) by (simp add: LastIndex_def plain_host_def last_index_append)
  have "hd (h @ CHR '':'' # p) \<noteq> CHR ''[''" using assms(1) by (cases h) (auto simp: plain_host_def)
  moreover have "Index h '':'' = - 1" "Index (h @ CHR '':'' # p) ''['' = - 1" "Index (h @ CHR '':'' # p) '']'' = - 1"
    using assms by (auto simp: plain_host_def intro!: Index_notin)
  ultimately show ?thesis unfolding SplitHostPort_def i Let_def by (simp add: go_len_def nat_add_distrib)
qed

lemma SplitHostPort_no_port: "CHR '':'' \<notin> set h \<Longrightarrow> SplitHostPort h = None"
  by (simp add: SplitHostPort_def LastIndex_def last_index_notin)

text \<open>
  A host is intercepted, and blocked, in the same way with and without a port.
\<close>

lemma port_irrelevant:
  assumes "plain_host h" and "plain_host p"
  shows "ShouldIntercept T f (h @ CHR '':'' # p) = ShouldIntercept T f h \<and>
    IsBlocked T f (h @ CHR '':'' # p) = IsBlocked T f h"
  using assms SplitHostPort_no_port [of h]
  by (simp add: ShouldIntercept_def IsBlocked_def stripPort_def SplitHostPort_plain plain_host_def)

text \<open>A request bypasses the scan exactly when one of the rules applies to it.\<close>

definition rule_applies :: "unicode_tables \<Rightarrow> bypass_rule \<Rightarrow> string \<Rightarrow> string \<Rightarrow> bool" where
  "rule_applies T r meth path \<longleftrightarrow>
     br_Method r \<noteq> [] \<and> EqualFold T (br_Method r) meth \<or> br_Path r \<noteq> [] \<and> br_Path r = path \<or>
     br_Prefix r \<noteq> [] \<and> HasPrefix path (br_Prefix r)"

lemma Match_iff: "fst (Match T b meth path) \<longleftrightarrow> (\<exists>r \<in> set (bm_rules b). rule_applies T r meth path)"
proof -
  have "fst (match_rules T rs meth path) \<longleftrightarrow> (\<exists>r \<in> set rs. rule_applies T r meth path)" for rs
    by (induction rs) (auto simp: rule_applies_def)
  then show ?thesis by (simp add: Match_def)
qed

end
