(* ===== verification/Files.thy ===== *)
theory Files
  imports Prelude
begin

text \<open>
  The files of the base directory, and reading and writing them as \<open>os.ReadFile\<close>, \<open>os.WriteFile\<close>,
  \<open>os.Rename\<close> and \<open>os.Remove\<close> do.

  A file is named by its role. Every operation may fail; a write that fails may leave part of its data behind,
  since \<open>os.WriteFile\<close> truncates the file first. \<open>io_env\<close> says which operations fail.

  Several components save a file by writing a temporary one and renaming it. The locale \<open>atomic_save\<close> is
  what such a save promises, and its lemma \<open>saves_keep\<close> what follows for any sequence of saves, failing or not.
\<close>

subsection \<open>Files and failures\<close>

datatype home_file =
    ConfigYaml | EnrollmentJson | EnrollmentTmp | PolicyJson | PolicyTmp | PolicyEtag
  | ProxyPid | DashboardPort | ApiPort | SidecarPort | RedactrPid | RedactrSock | FirewallJson | CaCrt | CaKey
  | SettingsJson | DevcontainerJson | ServerKey

type_synonym home = "home_file \<rightharpoonup> string"

datatype write_result = Written | WriteFailed | Torn string

datatype read_result = FileData string | FileMissing | FileError

record io_env =
  io_stat :: "home_file \<Rightarrow> bool"
  io_read :: "home_file \<Rightarrow> bool"
  io_mkdir :: "home_file \<Rightarrow> bool"
  io_write :: "home_file \<Rightarrow> write_result"
  io_rename :: "home_file \<Rightarrow> bool"

definition no_io_faults :: io_env where
  "no_io_faults = \<lparr>io_stat = (\<lambda>_. False), io_read = (\<lambda>_. False), io_mkdir = (\<lambda>_. False),
     io_write = (\<lambda>_. Written), io_rename = (\<lambda>_. False)\<rparr>"

definition StatOk :: "io_env \<Rightarrow> home \<Rightarrow> home_file \<Rightarrow> bool" where
  "StatOk io h f \<longleftrightarrow> \<not> io_stat io f \<and> h f \<noteq> None"

definition ReadFile :: "io_env \<Rightarrow> home \<Rightarrow> home_file \<Rightarrow> read_result" where
  "ReadFile io h f =
     (if io_read io f then FileError else case h f of None \<Rightarrow> FileMissing | Some s \<Rightarrow> FileData s)"

definition WriteFile :: "io_env \<Rightarrow> home_file \<Rightarrow> string \<Rightarrow> home \<Rightarrow> home \<times> bool" where
  "WriteFile io f data h =
     (case io_write io f of
        Written \<Rightarrow> (h(f \<mapsto> data), True)
      | WriteFailed \<Rightarrow> (h, False)
      | Torn part \<Rightarrow> (h(f \<mapsto> part), False))"

definition Rename :: "io_env \<Rightarrow> home_file \<Rightarrow> home_file \<Rightarrow> home \<Rightarrow> home \<times> bool" where
  "Rename io old new h =
     (if io_rename io new then (h, False)
      else case h old of None \<Rightarrow> (h, False) | Some s \<Rightarrow> (h(old := None, new \<mapsto> s), True))"

definition Remove :: "home_file \<Rightarrow> home \<Rightarrow> home" where
  "Remove f h = h(f := None)"

text \<open>The directory is made, the temporary file written, then renamed; an error ends it.\<close>

definition write_rename :: "io_env \<Rightarrow> home_file \<Rightarrow> home_file \<Rightarrow> string \<Rightarrow> home \<Rightarrow> home \<times> bool" where
  "write_rename io tmp f data h =
     (if io_mkdir io f then (h, False)
      else case WriteFile io tmp data h of
             (h', False) \<Rightarrow> (h', False)
           | (h', True) \<Rightarrow> Rename io tmp f h')"

lemma write_rename_cases:
  assumes "write_rename io tmp f data h = (h', ok)" "tmp \<noteq> f"
  shows "(ok \<longrightarrow> h' f = Some data) \<and> (\<not> ok \<longrightarrow> h' f = h f) \<and> (\<forall>g. g \<noteq> f \<and> g \<noteq> tmp \<longrightarrow> h' g = h g)"
  using assms
  by (auto simp: write_rename_def WriteFile_def Rename_def split: if_splits write_result.splits)

lemma write_rename_ok:
  "write_rename no_io_faults tmp f data h = (h(tmp := None, f \<mapsto> data), True)"
  by (simp add: write_rename_def WriteFile_def Rename_def no_io_faults_def)

subsection \<open>Atomic saves\<close>

locale atomic_save =
  fixes save :: "'e \<Rightarrow> 'a \<Rightarrow> home \<Rightarrow> home \<times> bool"
    and enc :: "'e \<Rightarrow> 'a \<Rightarrow> string"
    and target :: home_file
    and scratch_file :: home_file
  assumes saved: "save e x h = (h', True) \<Longrightarrow> h' target = Some (enc e x)"
    and kept: "save e x h = (h', False) \<Longrightarrow> h' target = h target"
    and others: "save e x h = (h', ok) \<Longrightarrow> g \<noteq> target \<Longrightarrow> g \<noteq> scratch_file \<Longrightarrow> h' g = h g"
begin

definition saves :: "('e \<times> 'a) list \<Rightarrow> home \<Rightarrow> home" where
  "saves xs h = fold (\<lambda>(e, x) h. fst (save e x h)) xs h"

lemma save_old_or_new: "fst (save e x h) target \<in> {h target, Some (enc e x)}"
  using saved[of e x h] kept[of e x h] by (cases "save e x h"; cases "snd (save e x h)") auto

text \<open>However saves fail, the file holds what it held at first or what one of them was given, whole.\<close>

lemma saves_keep: "saves xs h target \<in> insert (h target) ((\<lambda>(e, x). Some (enc e x)) ` set xs)"
proof (induction xs arbitrary: h)
  case (Cons p xs)
  obtain e x where p: "p = (e, x)" by fastforce
  have "saves (p # xs) h = saves xs (fst (save e x h))" by (simp add: saves_def p)
  then show ?case using Cons.IH[of "fst (save e x h)"] save_old_or_new[of e x h] p by auto
qed (simp add: saves_def)

end

end
