(* ===== verification/Config.thy ===== *)
theory Config
  imports Rules Domain Files
begin

text \<open>
  The configuration: \<open>internal/config\<close> (\<open>config.go\<close>, \<open>defaults.go\<close>, \<open>migrate.go\<close>, \<open>watcher.go\<close>).

  The library for YAML is a parameter, \<open>yaml\<close>: the text of a configuration, and what decoding a text onto given
  values yields (\<open>None\<close> is an error). \<open>yaml_ok\<close> is what the code relies on, that a configuration written
  out and decoded onto the defaults is the same again.

  \<open>Update_Reload\<close>: what was saved is what a reload finds. \<open>migration_effect\<close> is the meaning of the migration of
  the old layer flags, and \<open>migration_once\<close> that a restart does not repeat it. A write that fails leaves the
  memory and the file apart, and since the file is overwritten in place, possibly unreadable
  (\<open>torn_save_blocks_start\<close>).
\<close>

subsection \<open>Data\<close>

record proxy_config =
  pc_Enabled :: bool
  pc_InterceptedDomains :: "string list"
  pc_BlockedDomains :: "string list"

record custom_pattern =
  cup_Name :: string
  cup_Pattern :: string

record scanning_config =
  sc_InferenceTimeoutMs :: int
  sc_EntropyThreshold :: real
  sc_CustomPatterns :: "custom_pattern list"
  sc_CustomBlockedWords :: "string list"
  sc_AllowedWords :: "string list"
  sc_Bypass :: "bypass_rule list"
  sc_CacheMaxSize :: int
  sc_Rules :: rule_map
  sc_Migrated :: bool

record fileblocking_config =
  fc_BlockedExtensions :: "string list"
  fc_ContentPatternsEnabled :: bool

record hooks_config =
  hc_Enabled :: bool
  hc_ClaudeCode :: bool
  hc_Added :: "string list"
  hc_Removed :: "string list"

record mcp_server_entry =
  ms_OriginalCommand :: string
  ms_OriginalArgs :: "string list"
  ms_Wrapped :: bool

record logging_config =
  lg_Level :: string
  lg_Output :: string

record config =
  cf_Proxy :: proxy_config
  cf_Scanning :: scanning_config
  cf_FileBlocking :: fileblocking_config
  cf_Hooks :: hooks_config
  cf_MCP :: "(string \<times> mcp_server_entry) list"
  cf_Logging :: logging_config
  cf_AdminPort :: int
  cf_LicensingKey :: string

definition DefaultConfig :: config where
  "DefaultConfig =
     \<lparr>cf_Proxy = \<lparr>pc_Enabled = False,
        pc_InterceptedDomains = [''api.anthropic.com'', ''api.openai.com'', ''api.githubcopilot.com'', ''copilot-proxy.githubusercontent.com''],
        pc_BlockedDomains = []\<rparr>,
      cf_Scanning = \<lparr>sc_InferenceTimeoutMs = 5000, sc_EntropyThreshold = 9 / 2, sc_CustomPatterns = [], sc_CustomBlockedWords = [],
        sc_AllowedWords = [],
        sc_Bypass = [\<lparr>br_Method = [], br_Path = ''/v1/models'', br_Prefix = []\<rparr>,
                     \<lparr>br_Method = [], br_Path = [], br_Prefix = ''/.well-known/''\<rparr>,
                     \<lparr>br_Method = ''OPTIONS'', br_Path = [], br_Prefix = []\<rparr>],
        sc_CacheMaxSize = 10000, sc_Rules = [], sc_Migrated = False\<rparr>,
      cf_FileBlocking = \<lparr>fc_BlockedExtensions = [''.env'', ''.tfstate'', ''.pem'', ''.key'', ''.p12'', ''.pfx''],
        fc_ContentPatternsEnabled = True\<rparr>,
      cf_Hooks = \<lparr>hc_Enabled = False, hc_ClaudeCode = False, hc_Added = [], hc_Removed = []\<rparr>,
      cf_MCP = [], cf_Logging = \<lparr>lg_Level = ''info'', lg_Output = ''stdout''\<rparr>, cf_AdminPort = 9090, cf_LicensingKey = []\<rparr>"

text \<open>The deprecated flags: \<open>None\<close> is absent.\<close>

record legacy_scan =
  ls_RegexEnabled :: "bool option"
  ls_EntropyEnabled :: "bool option"
  ls_GLiNEREnabled :: "bool option"

record yaml =
  ym_Marshal :: "config \<Rightarrow> string option"
  ym_Unmarshal :: "string \<Rightarrow> config \<Rightarrow> config option"
  ym_Legacy :: "string \<Rightarrow> legacy_scan option"

definition yaml_ok :: "yaml \<Rightarrow> bool" where
  "yaml_ok Y \<longleftrightarrow> (\<forall>c s. ym_Marshal Y c = Some s \<longrightarrow> ym_Unmarshal Y s DefaultConfig = Some c)"

subsection \<open>Loading and saving\<close>

definition Save_config :: "io_env \<Rightarrow> yaml \<Rightarrow> config \<Rightarrow> home \<Rightarrow> home \<times> bool" where
  "Save_config io Y cfg h =
     (case ym_Marshal Y cfg of None \<Rightarrow> (h, False) | Some data \<Rightarrow> WriteFile io ConfigYaml data h)"

text \<open>A failing \<open>Stat\<close> is not taken for a missing file.\<close>

definition Load_config :: "io_env \<Rightarrow> yaml \<Rightarrow> home \<Rightarrow> home \<times> config option" where
  "Load_config io Y h =
     (if \<not> io_stat io ConfigYaml \<and> h ConfigYaml = None then
        (if io_mkdir io ConfigYaml then (h, None)
         else case Save_config io Y DefaultConfig h of
                (h', ok) \<Rightarrow> (h', if ok then Some DefaultConfig else None))
      else case ReadFile io h ConfigYaml of
             FileData data \<Rightarrow> (h, ym_Unmarshal Y data DefaultConfig)
           | _ \<Rightarrow> (h, None))"

record cfg_manager =
  cm_cfg :: config

definition NewConfigManager :: "io_env \<Rightarrow> yaml \<Rightarrow> home \<Rightarrow> home \<times> cfg_manager option" where
  "NewConfigManager io Y h =
     (case Load_config io Y h of (h', cfg) \<Rightarrow> (h', map_option (\<lambda>c. \<lparr>cm_cfg = c\<rparr>) cfg))"

definition Get_config :: "cfg_manager \<Rightarrow> config" where
  "Get_config m = cm_cfg m"

text \<open>The manager holds the new configuration whether or not it was saved.\<close>

definition Update :: "io_env \<Rightarrow> yaml \<Rightarrow> (config \<Rightarrow> config) \<Rightarrow> cfg_manager \<Rightarrow> home \<Rightarrow> cfg_manager \<times> home \<times> bool" where
  "Update io Y fn m h =
     (let c = fn (cm_cfg m) in (m\<lparr>cm_cfg := c\<rparr>, Save_config io Y c h))"

definition Reload :: "io_env \<Rightarrow> yaml \<Rightarrow> cfg_manager \<Rightarrow> home \<Rightarrow> cfg_manager \<times> config option" where
  "Reload io Y m h =
     (case ReadFile io h ConfigYaml of
        FileData data \<Rightarrow>
          (case ym_Unmarshal Y data DefaultConfig of
             None \<Rightarrow> (m, None)
           | Some cfg \<Rightarrow> (m\<lparr>cm_cfg := cfg\<rparr>, Some cfg))
      | _ \<Rightarrow> (m, None))"

subsection \<open>Migration of the layer flags\<close>

definition set_rule :: "string \<Rightarrow> bool \<Rightarrow> rule_map \<Rightarrow> rule_map" where
  "set_rule i v m = (i, v) # filter (\<lambda>(k, _). k \<noteq> i) m"

definition migrate_layer :: "string \<Rightarrow> bool option \<Rightarrow> rule_map \<Rightarrow> rule_map" where
  "migrate_layer layer flag rules =
     (if flag = None \<or> flag = Some True then rules
      else foldl (\<lambda>m r. if rs_Layer r = layer then set_rule (rs_ID r) False m else m) rules AllRules)"

definition MigrateLegacyLayerFlagsFromFile :: "io_env \<Rightarrow> yaml \<Rightarrow> home \<Rightarrow> scanning_config \<Rightarrow> scanning_config" where
  "MigrateLegacyLayerFlagsFromFile io Y h c =
     (if sc_Migrated c then c
      else case ReadFile io h ConfigYaml of
             FileData data \<Rightarrow>
               (case ym_Legacy Y data of
                  None \<Rightarrow> c\<lparr>sc_Migrated := True\<rparr>
                | Some legacy \<Rightarrow>
                    c\<lparr>sc_Rules := migrate_layer ''gliner'' (ls_GLiNEREnabled legacy)
                        (migrate_layer ''entropy'' (ls_EntropyEnabled legacy)
                          (migrate_layer ''presidio'' (ls_RegexEnabled legacy) (sc_Rules c))),
                      sc_Migrated := True\<rparr>)
           | _ \<Rightarrow> c\<lparr>sc_Migrated := True\<rparr>)"

subsection \<open>The watcher\<close>

text \<open>
  \<open>debounce\<close> tells whether a timer is set. An event that is no write and no creation changes nothing; the timer
  fires in its own goroutine, also after the loop has ended. \<open>Reloaded\<close> is the call of \<open>onLoad\<close>.
\<close>

datatype watch_event = Sighup | FileEvent bool | TimerFires | WatchError | ChannelClosed | StopWatching

record watcher =
  wt_running :: bool
  wt_debounce :: bool

definition reload :: "io_env \<Rightarrow> yaml \<Rightarrow> cfg_manager \<Rightarrow> home \<Rightarrow> cfg_manager \<times> config list" where
  "reload io Y m h =
     (case Reload io Y m h of (m', None) \<Rightarrow> (m', []) | (m', Some cfg) \<Rightarrow> (m', [cfg]))"

definition watch_step ::
  "io_env \<Rightarrow> yaml \<Rightarrow> home \<Rightarrow> watch_event \<Rightarrow> watcher \<times> cfg_manager \<Rightarrow> (watcher \<times> cfg_manager) \<times> config list" where
  "watch_step io Y h ev = (\<lambda>(w, m).
     (case ev of
        TimerFires \<Rightarrow>
          (if wt_debounce w then (let (m', out) = reload io Y m h in ((w\<lparr>wt_debounce := False\<rparr>, m'), out)) else ((w, m), []))
      | Sighup \<Rightarrow> (if wt_running w then (let (m', out) = reload io Y m h in ((w, m'), out)) else ((w, m), []))
      | FileEvent write_or_create \<Rightarrow>
          ((if wt_running w \<and> write_or_create then w\<lparr>wt_debounce := True\<rparr> else w, m), [])
      | WatchError \<Rightarrow> ((w, m), [])
      | ChannelClosed \<Rightarrow> ((w\<lparr>wt_running := False\<rparr>, m), [])
      | StopWatching \<Rightarrow> ((w\<lparr>wt_running := False\<rparr>, m), [])))"

text \<open>The migration as the daemon runs it at its start, after the file has been loaded.\<close>

definition migrate_config :: "io_env \<Rightarrow> yaml \<Rightarrow> cfg_manager \<Rightarrow> home \<Rightarrow> cfg_manager \<times> home \<times> bool" where
  "migrate_config io Y m h =
     Update io Y (\<lambda>c. c\<lparr>cf_Scanning := MigrateLegacyLayerFlagsFromFile io Y h (cf_Scanning c)\<rparr>) m h"

subsection \<open>What is saved is read back\<close>

lemma Save_config_file:
  assumes "yaml_ok Y" "Save_config io Y c h = (h', True)"
  shows "\<exists>s. h' ConfigYaml = Some s \<and> ym_Unmarshal Y s DefaultConfig = Some c"
  using assms by (auto simp: Save_config_def WriteFile_def yaml_ok_def split: option.splits write_result.splits)

lemma Load_after_save:
  assumes "yaml_ok Y" "Save_config io Y c h = (h', True)" "\<not> io_read io' ConfigYaml"
  shows "Load_config io' Y h' = (h', Some c)" "Reload io' Y m h' = (m\<lparr>cm_cfg := c\<rparr>, Some c)"
  using Save_config_file[OF assms(1,2)] assms(3) by (auto simp: Load_config_def Reload_def ReadFile_def)


lemma Reload_failed: "Reload io Y m h = (m', None) \<Longrightarrow> m' = m"
  by (auto simp: Reload_def split: read_result.splits option.splits)

text \<open>
  The file is truncated and written in place. If that is interrupted and what is left does not decode, the
  daemon does not start again.
\<close>

lemma torn_save_blocks_start:
  assumes "ym_Marshal Y (fn (cm_cfg m)) = Some data" "io_write io ConfigYaml = Torn part" "ym_Unmarshal Y part DefaultConfig = None"
    and "Update io Y fn m h = (m', h', ok)"
  shows "\<not> ok \<and> NewConfigManager io' Y h' = (h', None)"
  using assms by (auto simp: Update_def Let_def Save_config_def WriteFile_def NewConfigManager_def Load_config_def ReadFile_def
      split: read_result.splits)

subsection \<open>The meaning of the migration\<close>

lemma map_of_set_rule: "map_of (set_rule i v m) = (map_of m)(i \<mapsto> v)"
proof -
  have "k \<noteq> i \<Longrightarrow> map_of (filter (\<lambda>(k, _). k \<noteq> i) m) k = map_of m k" for k by (induction m) auto
  then show ?thesis by (auto simp: set_rule_def fun_eq_iff)
qed

lemma map_of_migrate_fold:
  "map_of (foldl (\<lambda>m r. if rs_Layer r = layer then set_rule (rs_ID r) False m else m) rules rs) k =
     (if \<exists>r \<in> set rs. rs_ID r = k \<and> rs_Layer r = layer then Some False else map_of rules k)"
  by (induction rs arbitrary: rules) (auto simp: map_of_set_rule)

lemma map_of_migrate_layer:
  "map_of (migrate_layer layer flag rules) k =
     (if flag = Some False \<and> (\<exists>r \<in> set catalog. rs_ID r = k \<and> rs_Layer r = layer) then Some False else map_of rules k)"
  by (auto simp: migrate_layer_def map_of_migrate_fold AllRules_def)

definition legacy_off :: "legacy_scan \<Rightarrow> string \<Rightarrow> bool" where
  "legacy_off l layer \<longleftrightarrow> layer = ''presidio'' \<and> ls_RegexEnabled l = Some False \<or>
     layer = ''entropy'' \<and> ls_EntropyEnabled l = Some False \<or> layer = ''gliner'' \<and> ls_GLiNEREnabled l = Some False"

lemma legacy_rule_effect:
  assumes "r \<in> set catalog"
  shows "lookup_bool (Effective (migrate_layer ''gliner'' (ls_GLiNEREnabled l) (migrate_layer ''entropy'' (ls_EntropyEnabled l)
      (migrate_layer ''presidio'' (ls_RegexEnabled l) rules)))) (rs_ID r) =
    (\<not> legacy_off l (rs_Layer r) \<and> lookup_bool (Effective rules) (rs_ID r))"
proof -
  have only: "(\<exists>r' \<in> set catalog. rs_ID r' = rs_ID r \<and> rs_Layer r' = layer) \<longleftrightarrow> rs_Layer r = layer" for layer
    using assms ruleByID_rule by (metis option.inject)
  show ?thesis
    by (auto simp: Effective_rule[OF assms] lookup_bool_def map_of_migrate_layer only legacy_off_def)
qed

text \<open>
  C29. The migration of the old layer flags keeps what they meant and happens once. After it a rule is in force exactly when it was
  and the flag of its layer was not set to false; the next start finds the same configuration in the file, and
  migrating it again changes nothing.
\<close>

theorem migration_effect:
  assumes "yaml_ok Y" "\<not> sc_Migrated (cf_Scanning (cm_cfg m))" "ReadFile io h ConfigYaml = FileData data" "ym_Legacy Y data = Some l"
    and "migrate_config io Y m h = (m', h', True)" "\<not> io_read io' ConfigYaml"
  shows "(\<forall>r \<in> set AllRules. lookup_bool (Effective (sc_Rules (cf_Scanning (cm_cfg m')))) (rs_ID r) =
       (\<not> legacy_off l (rs_Layer r) \<and> lookup_bool (Effective (sc_Rules (cf_Scanning (cm_cfg m)))) (rs_ID r))) \<and>
    NewConfigManager io' Y h' = (h', Some m') \<and> fst (migrate_config io' Y m' h') = m'"
proof -
  let ?sc = "cf_Scanning (cm_cfg m)"
  have save: "Save_config io Y (cm_cfg m') h = (h', True)"
    and m': "cf_Scanning (cm_cfg m') = MigrateLegacyLayerFlagsFromFile io Y h ?sc"
    using assms(5) by (auto simp: migrate_config_def Update_def Let_def)
  have sc: "MigrateLegacyLayerFlagsFromFile io Y h ?sc =
      ?sc\<lparr>sc_Rules := migrate_layer ''gliner'' (ls_GLiNEREnabled l) (migrate_layer ''entropy'' (ls_EntropyEnabled l)
        (migrate_layer ''presidio'' (ls_RegexEnabled l) (sc_Rules ?sc))), sc_Migrated := True\<rparr>"
    using assms(2-4) by (simp add: MigrateLegacyLayerFlagsFromFile_def)
  have "NewConfigManager io' Y h' = (h', Some m')"
    using Load_after_save(1)[OF assms(1) save assms(6)] by (simp add: NewConfigManager_def)
  moreover have "fst (migrate_config io' Y m' h') = m'"
    using m' sc by (simp add: migrate_config_def Update_def MigrateLegacyLayerFlagsFromFile_def Let_def)
  ultimately show ?thesis using legacy_rule_effect m' sc by (simp add: AllRules_def)
qed

subsection \<open>Examples\<close>

definition demo_legacy :: legacy_scan where
  "demo_legacy = \<lparr>ls_RegexEnabled = None, ls_EntropyEnabled = Some False, ls_GLiNEREnabled = Some True\<rparr>"

definition demo_migrated :: config where
  "demo_migrated = DefaultConfig\<lparr>cf_Scanning := (cf_Scanning DefaultConfig)\<lparr>sc_Rules := migrate_layer ''entropy'' (Some False) [],
     sc_Migrated := True\<rparr>\<rparr>"

definition demo_yaml :: yaml where
  "demo_yaml = \<lparr>ym_Marshal = (\<lambda>c. if c = demo_migrated then Some ''new'' else None),
     ym_Unmarshal = (\<lambda>s _. if s = ''new'' then Some demo_migrated else if s = ''old'' then Some DefaultConfig else None),
     ym_Legacy = (\<lambda>_. Some demo_legacy)\<rparr>"

lemma demo_yaml_ok: "yaml_ok demo_yaml"
  by (simp add: yaml_ok_def demo_yaml_def)

definition demo_config_home :: home where
  "demo_config_home = [ConfigYaml \<mapsto> ''old'']"

lemma demo_migrate:
  "migrate_config no_io_faults demo_yaml \<lparr>cm_cfg = DefaultConfig\<rparr> demo_config_home =
     (\<lparr>cm_cfg = demo_migrated\<rparr>, [ConfigYaml \<mapsto> ''new''], True)"
proof -
  have rules: "sc_Rules (cf_Scanning DefaultConfig) = []" "\<not> sc_Migrated (cf_Scanning DefaultConfig)"
    by (simp_all add: DefaultConfig_def)
  have "MigrateLegacyLayerFlagsFromFile no_io_faults demo_yaml demo_config_home (cf_Scanning DefaultConfig) = cf_Scanning demo_migrated"
    using rules by (simp add: MigrateLegacyLayerFlagsFromFile_def ReadFile_def no_io_faults_def demo_config_home_def demo_yaml_def
        demo_legacy_def demo_migrated_def migrate_layer_def)
  moreover have "DefaultConfig\<lparr>cf_Scanning := cf_Scanning demo_migrated\<rparr> = demo_migrated" by (simp add: demo_migrated_def)
  ultimately show ?thesis
    by (simp add: migrate_config_def Update_def Save_config_def WriteFile_def no_io_faults_def demo_yaml_def demo_config_home_def)
qed


theorem migration_effect_witness:
  "list_all (\<lambda>r. lookup_bool (Effective (sc_Rules (cf_Scanning demo_migrated))) (rs_ID r) =
     (\<not> legacy_off demo_legacy (rs_Layer r) \<and> lookup_bool (Effective []) (rs_ID r))) AllRules \<and>
   NewConfigManager no_io_faults demo_yaml [ConfigYaml \<mapsto> ''new''] = ([ConfigYaml \<mapsto> ''new''], Some \<lparr>cm_cfg = demo_migrated\<rparr>)"
proof -
  have read: "ReadFile no_io_faults demo_config_home ConfigYaml = FileData ''old''" "\<not> io_read no_io_faults ConfigYaml"
    by (simp_all add: ReadFile_def no_io_faults_def demo_config_home_def)
  have old: "\<not> sc_Migrated (cf_Scanning (cm_cfg \<lparr>cm_cfg = DefaultConfig\<rparr>))" "ym_Legacy demo_yaml ''old'' = Some demo_legacy"
    by (simp_all add: DefaultConfig_def demo_yaml_def)
  have rules: "sc_Rules (cf_Scanning DefaultConfig) = []" by (simp add: DefaultConfig_def)
  show ?thesis
    using migration_effect[OF demo_yaml_ok old(1) read(1) old(2) demo_migrate read(2)] rules by (simp add: list_all_iff)
qed

end
