(* ===== verification/Pipeline.thy ===== *)
theory Pipeline
  imports Prelude
begin

text \<open>
  The scanning pipeline: \<open>internal/scanner/types.go\<close> and \<open>internal/scanner/pipeline.go\<close>.

  A Go string is its bytes, so texts are \<open>string\<close> (a list of 8-bit characters) and the
  positions of a finding are byte positions. A layer is an interface value: its name,
  whether it is ready, and its \<open>Scan\<close> method, which returns findings, an error, or
  panics. A layer that implements \<open>Reconfigurable\<close> carries the \<open>Scan\<close> it has after
  \<open>Reconfigure\<close> with a given predicate on rule identifiers. Times are measured by the clock and are an input of the model (\<open>clock\<close>), as is
  the race of a layer against the timer of \<open>scanWithTimeout\<close>. A panic in a layer runs in
  a goroutine without \<open>recover\<close> and ends the process: \<open>None\<close>.

  The main results: \<open>applyRedactions\<close> never panics, whatever the findings; positions of
  the partly redacted text are translated back to positions of the original text
  (\<open>toOriginalPos\<close>) so that slices that touch no placeholder are preserved; and layers
  that respect the contract \<open>bounded_layer\<close> produce a report whose findings all lie in
  the original text.
\<close>

subsection \<open>Data\<close>

record finding =
  Label :: string
  Value :: string
  Start :: int
  End :: int
  Confidence :: real
  Layer :: string

datatype scan_outcome =
    ScanOk "finding list"
  | ScanErr string
  | ScanPanic

record layer =
  layer_Name :: string
  layer_Ready :: bool
  layer_Scan :: "string \<Rightarrow> scan_outcome"
  layer_Reconfigure :: "((string \<Rightarrow> bool) \<Rightarrow> string \<Rightarrow> scan_outcome) option"

record layer_info =
  info_Name :: string
  info_FindingsCount :: int
  info_LatencyMs :: int
  info_Skipped :: bool
  info_SkipReason :: string

record report =
  Findings :: "finding list"
  LayerResults :: "layer_info list"
  TotalMs :: int

record pipeline =
  layers :: "layer list"
  timeoutMs :: int

record clock =
  layer_ms :: "nat \<Rightarrow> int"
  timer_first :: "nat \<Rightarrow> bool"
  total_ms :: int

record offset_entry =
  origStart :: int
  origEnd :: int
  newLen :: int

type_synonym finding_sort = "(finding \<Rightarrow> finding \<Rightarrow> bool) \<Rightarrow> finding list \<Rightarrow> finding list"

definition by_start :: "finding \<Rightarrow> finding \<Rightarrow> bool" where
  "by_start f g \<longleftrightarrow> Start f < Start g"

definition placeholder :: "finding \<Rightarrow> string" where
  "placeholder f = ''[REDACTED-'' @ Label f @ '']''"

definition entry_of :: "finding \<Rightarrow> offset_entry" where
  "entry_of f = \<lparr>origStart = Start f, origEnd = End f, newLen = go_len (placeholder f)\<rparr>"

subsection \<open>Operations\<close>

definition NewPipeline :: "layer list \<Rightarrow> pipeline" where
  "NewPipeline ls = \<lparr>layers = ls, timeoutMs = 0\<rparr>"

definition SetTimeout :: "pipeline \<Rightarrow> int \<Rightarrow> pipeline" where
  "SetTimeout p ms = p\<lparr>timeoutMs := ms\<rparr>"

text \<open>The loop of \<open>applyRedactions\<close> over the sorted findings.\<close>

fun apply_loop ::
  "string \<Rightarrow> finding list \<Rightarrow> string \<Rightarrow> offset_entry list \<Rightarrow> int \<Rightarrow> (string \<times> offset_entry list) option" where
  "apply_loop text [] b entries prev =
     (case go_slice_from text prev of None \<Rightarrow> None | Some t \<Rightarrow> Some (b @ t, entries))"
| "apply_loop text (f # fs) b entries prev =
     (if Start f < prev then apply_loop text fs b entries prev
      else if Start f > go_len text \<or> End f > go_len text \<or> Start f \<ge> End f
      then apply_loop text fs b entries prev
      else (case go_slice text prev (Start f) of
              None \<Rightarrow> None
            | Some t \<Rightarrow>
                apply_loop text fs (b @ t @ placeholder f) (entries @ [entry_of f]) (End f)))"

definition applyRedactions ::
  "finding_sort \<Rightarrow> string \<Rightarrow> finding list \<Rightarrow> (string \<times> offset_entry list) option" where
  "applyRedactions srt text findings = apply_loop text (srt by_start findings) [] [] 0"

fun to_orig :: "int \<Rightarrow> int \<Rightarrow> offset_entry list \<Rightarrow> int" where
  "to_orig pos shift [] = pos - shift"
| "to_orig pos shift (e # es) =
     (let redactedStart = origStart e + shift
      in if pos \<le> redactedStart then pos - shift
         else let redactedEnd = redactedStart + newLen e
              in if pos \<ge> redactedEnd
                 then to_orig pos (shift + (newLen e - (origEnd e - origStart e))) es
                 else origStart e)"

definition toOriginalPos :: "int \<Rightarrow> offset_entry list \<Rightarrow> int" where
  "toOriginalPos pos offsets = to_orig pos 0 offsets"

definition scanWithTimeout :: "int \<Rightarrow> bool \<Rightarrow> layer \<Rightarrow> string \<Rightarrow> scan_outcome" where
  "scanWithTimeout ms timer l text =
     (if ms \<le> 0 then layer_Scan l text
      else case layer_Scan l text of
             ScanPanic \<Rightarrow> ScanPanic
           | out \<Rightarrow> if timer then ScanErr (''timeout after '' @ fmt_int ms @ ''ms'') else out)"

definition map_finding :: "offset_entry list \<Rightarrow> finding \<Rightarrow> finding" where
  "map_finding offsets f =
     f\<lparr>Start := toOriginalPos (Start f) offsets, End := toOriginalPos (End f) offsets\<rparr>"

text \<open>The loop of \<open>Scan\<close>: \<open>i\<close> counts the layers, \<open>cur\<close> is \<open>currentText\<close>.\<close>

fun scan_layers ::
  "finding_sort \<Rightarrow> clock \<Rightarrow> int \<Rightarrow> string \<Rightarrow> nat \<Rightarrow> layer list \<Rightarrow> string \<Rightarrow> offset_entry list \<Rightarrow>
   finding list \<Rightarrow> layer_info list \<Rightarrow> (finding list \<times> layer_info list) option" where
  "scan_layers srt ck ms text i [] cur offsets fs infos = Some (fs, infos)"
| "scan_layers srt ck ms text i (l # ls) cur offsets fs infos =
     (let info = \<lparr>info_Name = layer_Name l, info_FindingsCount = 0, info_LatencyMs = 0,
                  info_Skipped = False, info_SkipReason = []\<rparr>
      in if \<not> layer_Ready l
         then scan_layers srt ck ms text (Suc i) ls cur offsets fs
                (infos @ [info\<lparr>info_Skipped := True, info_SkipReason := ''not ready''\<rparr>])
         else
           (let info = info\<lparr>info_LatencyMs := layer_ms ck i\<rparr>
            in case scanWithTimeout ms (timer_first ck i) l cur of
                 ScanPanic \<Rightarrow> None
               | ScanErr e \<Rightarrow>
                   scan_layers srt ck ms text (Suc i) ls cur offsets fs
                     (infos @ [info\<lparr>info_Skipped := True, info_SkipReason := e\<rparr>])
               | ScanOk res \<Rightarrow>
                   (let info = info\<lparr>info_FindingsCount := go_len res\<rparr>
                    in if res = []
                       then scan_layers srt ck ms text (Suc i) ls cur offsets fs (infos @ [info])
                       else
                         (let fs' = fs @ map (map_finding offsets) res
                          in case applyRedactions srt text fs' of
                               None \<Rightarrow> None
                             | Some (cur', offsets') \<Rightarrow>
                                 scan_layers srt ck ms text (Suc i) ls cur' offsets' fs'
                                   (infos @ [info])))))"

definition Scan :: "finding_sort \<Rightarrow> clock \<Rightarrow> pipeline \<Rightarrow> string \<Rightarrow> report option" where
  "Scan srt ck p text =
     (case scan_layers srt ck (timeoutMs p) text 0 (layers p) text [] [] [] of
        None \<Rightarrow> None
      | Some (fs, infos) \<Rightarrow>
          Some \<lparr>Findings = fs, LayerResults = infos, TotalMs = total_ms ck\<rparr>)"

definition layer_apply :: "(string \<Rightarrow> bool) \<Rightarrow> layer \<Rightarrow> layer" where
  "layer_apply enabled l =
     (case layer_Reconfigure l of None \<Rightarrow> l | Some r \<Rightarrow> l\<lparr>layer_Scan := r enabled\<rparr>)"

definition Pipeline_Reconfigure :: "pipeline \<Rightarrow> (string \<Rightarrow> bool) \<Rightarrow> pipeline" where
  "Pipeline_Reconfigure p enabled = p\<lparr>layers := map (layer_apply enabled) (layers p)\<rparr>"

subsection \<open>What is written: splicing placeholders into a text\<close>

fun spliced :: "string \<Rightarrow> int \<Rightarrow> finding list \<Rightarrow> string" where
  "spliced text prev [] = drop (nat prev) text"
| "spliced text prev (f # fs) =
     seg text prev (Start f) @ placeholder f @ spliced text (End f) fs"

text \<open>Findings in ascending order, apart from each other and inside the text from \<open>prev\<close> on.\<close>

fun chain :: "string \<Rightarrow> int \<Rightarrow> finding list \<Rightarrow> bool" where
  "chain text prev [] \<longleftrightarrow> prev \<le> go_len text"
| "chain text prev (f # fs) \<longleftrightarrow>
     prev \<le> Start f \<and> Start f \<le> End f \<and> End f \<le> go_len text \<and> chain text (End f) fs"

text \<open>The findings of a sorted list that \<open>applyRedactions\<close> replaces.\<close>

fun kept :: "string \<Rightarrow> int \<Rightarrow> finding list \<Rightarrow> finding list" where
  "kept text prev [] = []"
| "kept text prev (f # fs) =
     (if Start f < prev \<or> Start f > go_len text \<or> End f > go_len text \<or> Start f \<ge> End f
      then kept text prev fs else f # kept text (End f) fs)"

definition in_range :: "string \<Rightarrow> finding \<Rightarrow> bool" where
  "in_range text f \<longleftrightarrow> 0 \<le> Start f \<and> Start f \<le> End f \<and> End f \<le> go_len text"

definition located :: "string \<Rightarrow> finding \<Rightarrow> bool" where
  "located text f \<longleftrightarrow> in_range text f \<and> Value f = seg text (Start f) (End f)"

text \<open>Where the placeholders stand in the redacted text.\<close>

fun placeholder_spans :: "int \<Rightarrow> offset_entry list \<Rightarrow> (int \<times> int) list" where
  "placeholder_spans shift [] = []"
| "placeholder_spans shift (e # es) =
     (origStart e + shift, origStart e + shift + newLen e) #
     placeholder_spans (shift + (newLen e - (origEnd e - origStart e))) es"

definition touches_none :: "int \<Rightarrow> int \<Rightarrow> (int \<times> int) list \<Rightarrow> bool" where
  "touches_none s e spans \<longleftrightarrow> list_all (\<lambda>(a, b). e \<le> a \<or> b \<le> s) spans"

lemma chain_prev_le: "chain text prev fs \<Longrightarrow> prev \<le> go_len text"
  by (cases fs) auto

lemma placeholder_pos [simp]: "0 < go_len (placeholder f)"
  by (simp add: placeholder_def add_pos_nonneg)

lemma entry_of_simps [simp]:
  "origStart (entry_of f) = Start f" "origEnd (entry_of f) = End f"
  "newLen (entry_of f) = go_len (placeholder f)"
  by (simp_all add: entry_of_def)

lemma kept_chain: "prev \<le> go_len text \<Longrightarrow> chain text prev (kept text prev fs)"
  by (induction fs arbitrary: prev) auto

lemma apply_loop_eq:
  "0 \<le> prev \<Longrightarrow> prev \<le> go_len text \<Longrightarrow>
   apply_loop text fs b entries prev =
     Some (b @ spliced text prev (kept text prev fs), entries @ map entry_of (kept text prev fs))"
  by (induction fs arbitrary: b entries prev) (auto simp: slice_simps)

lemma applyRedactions_eq:
  "applyRedactions srt text fs =
     Some (spliced text 0 (kept text 0 (srt by_start fs)),
           map entry_of (kept text 0 (srt by_start fs)))"
  by (simp add: applyRedactions_def apply_loop_eq)

subsection \<open>From redacted to original positions\<close>

lemma to_orig_lower:
  "chain text prev fs \<Longrightarrow> prev + shift \<le> pos \<Longrightarrow> prev \<le> to_orig pos shift (map entry_of fs)"
proof (induction fs arbitrary: prev shift)
  case (Cons f fs)
  let ?shift = "shift + (go_len (placeholder f) - (End f - Start f))"
  have "End f + ?shift \<le> pos \<Longrightarrow> End f \<le> to_orig pos ?shift (map entry_of fs)"
    using Cons.IH [of "End f" ?shift] Cons.prems by simp
  then show ?case
    using Cons.prems by (auto simp: Let_def)
qed simp

lemma to_orig_upper:
  "chain text prev fs \<Longrightarrow> 0 \<le> prev \<Longrightarrow> pos \<le> prev + shift + go_len (spliced text prev fs) \<Longrightarrow>
   to_orig pos shift (map entry_of fs) \<le> go_len text"
proof (induction fs arbitrary: prev shift)
  case Nil
  then show ?case by (simp add: go_len_def)
next
  case (Cons f fs)
  let ?shift = "shift + (go_len (placeholder f) - (End f - Start f))"
  have "to_orig pos ?shift (map entry_of fs) \<le> go_len text"
    using Cons.IH [of "End f" ?shift] Cons.prems by (simp add: go_len_seg)
  then show ?case
    using Cons.prems by (auto simp: Let_def)
qed

lemma to_orig_mono:
  "chain text prev fs \<Longrightarrow> prev + shift \<le> p \<Longrightarrow> p \<le> q \<Longrightarrow>
   to_orig p shift (map entry_of fs) \<le> to_orig q shift (map entry_of fs)"
proof (induction fs arbitrary: prev shift)
  case (Cons f fs)
  let ?shift = "shift + (go_len (placeholder f) - (End f - Start f))"
  have "End f + ?shift \<le> q \<Longrightarrow> End f \<le> to_orig q ?shift (map entry_of fs)"
    using to_orig_lower [of "text" "End f" fs ?shift q] Cons.prems by simp
  moreover have "End f + ?shift \<le> p \<Longrightarrow>
      to_orig p ?shift (map entry_of fs) \<le> to_orig q ?shift (map entry_of fs)"
    using Cons.IH [of "End f" ?shift] Cons.prems by simp
  ultimately show ?case
    using Cons.prems by (auto simp: Let_def)
qed simp

lemma to_orig_seg:
  "chain text prev fs \<Longrightarrow> 0 \<le> prev \<Longrightarrow> prev + shift \<le> s \<Longrightarrow> s < e \<Longrightarrow>
   e \<le> prev + shift + go_len (spliced text prev fs) \<Longrightarrow>
   touches_none s e (placeholder_spans shift (map entry_of fs)) \<Longrightarrow>
   seg (spliced text prev fs) (s - (prev + shift)) (e - (prev + shift)) =
   seg text (to_orig s shift (map entry_of fs)) (to_orig e shift (map entry_of fs))"
proof (induction fs arbitrary: prev shift)
  case Nil
  then show ?case by (simp add: seg_drop)
next
  case (Cons f fs)
  let ?n = "go_len (placeholder f)"
  let ?shift = "shift + (?n - (End f - Start f))"
  have len: "go_len (seg text prev (Start f)) = Start f - prev"
    using Cons.prems by (simp add: go_len_seg)
  from Cons.prems(6) consider (before) "e \<le> Start f + shift"
    | (after) "Start f + shift + ?n \<le> s"
    by (auto simp: touches_none_def)
  then show ?case
  proof cases
    case before
    then show ?thesis
      using Cons.prems len
      by (simp add: Let_def seg_append_left seg_seg)
  next
    case after
    have "\<not> s \<le> Start f + shift" "\<not> e \<le> Start f + shift"
      using after Cons.prems(4) placeholder_pos [of f] by linarith+
    moreover have "seg (spliced text (End f) fs) (s - (End f + ?shift)) (e - (End f + ?shift)) =
        seg text (to_orig s ?shift (map entry_of fs)) (to_orig e ?shift (map entry_of fs))"
      using Cons.IH [of "End f" ?shift] Cons.prems after len
      by (simp add: touches_none_def)
    moreover have "seg (spliced text prev (f # fs)) (s - (prev + shift)) (e - (prev + shift)) =
        seg (spliced text (End f) fs) (s - (End f + ?shift)) (e - (End f + ?shift))"
      using seg_append_right [of "seg text prev (Start f) @ placeholder f" "s - (prev + shift)"
          "e - (prev + shift)" "spliced text (End f) fs"] Cons.prems(4) after len
      by (simp add: algebra_simps)
    ultimately show ?thesis
      using Cons.prems after by (simp add: Let_def)
  qed
qed


interpretation by_start: strict_weak_order by_start
  by unfold_locales (auto simp: by_start_def)

subsection \<open>The contract of a layer\<close>

locale bounded_layer =
  fixes scan :: "string \<Rightarrow> scan_outcome"
  assumes bounded: "scan text = ScanOk fs \<Longrightarrow> f \<in> set fs \<Longrightarrow> in_range text f"

locale exact_layer = bounded_layer +
  assumes exact: "scan text = ScanOk fs \<Longrightarrow> f \<in> set fs \<Longrightarrow> Value f = seg text (Start f) (End f)"
begin

lemma findings_located: "scan text = ScanOk fs \<Longrightarrow> f \<in> set fs \<Longrightarrow> located text f"
  by (simp add: located_def bounded exact)

end

lemma kept_subset: "set (kept text prev fs) \<subseteq> set fs"
  by (induction fs arbitrary: prev) auto

lemma scanWithTimeout_ok:
  "scanWithTimeout ms t l text = ScanOk res \<Longrightarrow> layer_Scan l text = ScanOk res"
  by (auto simp: scanWithTimeout_def split: if_splits scan_outcome.splits)

lemma scanWithTimeout_panic:
  "scanWithTimeout ms t l text = ScanPanic \<longleftrightarrow> layer_Scan l text = ScanPanic"
  by (auto simp: scanWithTimeout_def split: scan_outcome.splits)

text \<open>The invariant of the loop of \<open>Scan\<close> on the text and offsets in use.\<close>

definition scan_inv :: "string \<Rightarrow> string \<Rightarrow> offset_entry list \<Rightarrow> bool" where
  "scan_inv text cur offsets \<longleftrightarrow>
     (\<exists>ks. chain text 0 ks \<and> cur = spliced text 0 ks \<and> offsets = map entry_of ks)"

lemma scan_inv_init: "scan_inv text text []"
  unfolding scan_inv_def by (rule exI [of _ "[]"]) simp

lemma scan_inv_applied: "applyRedactions srt text fs = Some (cur, offsets) \<Longrightarrow> scan_inv text cur offsets"
  by (auto simp: applyRedactions_eq scan_inv_def intro!: exI kept_chain)

lemma map_finding_in_range:
  assumes "scan_inv text cur offsets" and "in_range cur f"
  shows "in_range text (map_finding offsets f)"
proof -
  obtain ks where ks: "chain text 0 ks" "cur = spliced text 0 ks" "offsets = map entry_of ks"
    using assms(1) by (auto simp: scan_inv_def)
  have f: "0 \<le> Start f" "Start f \<le> End f" "End f \<le> go_len cur"
    using assms(2) by (auto simp: in_range_def)
  have "0 \<le> toOriginalPos (Start f) offsets"
    using to_orig_lower [OF ks(1), of 0 "Start f"] f ks by (simp add: toOriginalPos_def)
  moreover have "toOriginalPos (Start f) offsets \<le> toOriginalPos (End f) offsets"
    using to_orig_mono [OF ks(1), of 0 "Start f" "End f"] f ks by (simp add: toOriginalPos_def)
  moreover have "toOriginalPos (End f) offsets \<le> go_len text"
    using to_orig_upper [OF ks(1), of "End f" 0] f ks by (simp add: toOriginalPos_def)
  ultimately show ?thesis by (simp add: in_range_def map_finding_def)
qed

lemma scan_layers_in_range:
  assumes "scan_layers srt ck ms text i ls cur offsets fs infos = Some (fs', infos')"
    and "\<And>l. l \<in> set ls \<Longrightarrow> bounded_layer (layer_Scan l)"
    and "scan_inv text cur offsets" and "\<And>f. f \<in> set fs \<Longrightarrow> in_range text f"
    and "f \<in> set fs'"
  shows "in_range text f"
  using assms
proof (induction ls arbitrary: i cur offsets fs infos)
  case (Cons l ls)
  have l: "bounded_layer (layer_Scan l)" using Cons.prems(2) by simp
  have res: "in_range text (map_finding offsets g)"
    if "scanWithTimeout ms (timer_first ck i) l cur = ScanOk res" "g \<in> set res" for res g
    using bounded_layer.bounded [OF l scanWithTimeout_ok [OF that(1)] that(2)] Cons.prems(3)
    by (rule map_finding_in_range [rotated])
  show ?case
    using Cons.prems
    by (auto simp: Let_def applyRedactions_eq split: if_splits scan_outcome.splits
        dest!: Cons.IH [rotated -1] intro: scan_inv_applied res)
qed auto

lemma kept_complete:
  assumes "sorted_wrt (\<lambda>x y. \<not> by_start y x) fs" "f \<in> set fs" "Start f < End f" "End f \<le> go_len text"
  shows "f \<in> set (kept text prev fs) \<or> Start f < prev \<or>
    (\<exists>k \<in> set (kept text prev fs). Start k \<le> Start f \<and> Start f < End k)"
  using assms
proof (induction fs arbitrary: prev)
  case (Cons g fs)
  show ?case
  proof (cases "f = g")
    case True
    then show ?thesis using Cons.prems by auto
  next
    case False
    then have "f \<in> set fs" "Start g \<le> Start f"
      using Cons.prems by (auto simp: by_start_def)
    then show ?thesis
      using Cons.IH [of prev] Cons.IH [of "End g"] Cons.prems by auto
  qed
qed simp

lemma scan_layers_total:
  assumes "\<And>l t. l \<in> set ls \<Longrightarrow> layer_Scan l t \<noteq> ScanPanic"
  shows "\<exists>fs' infos'. scan_layers srt ck ms text i ls cur offsets fs infos = Some (fs', infos')"
  using assms
proof (induction ls arbitrary: i cur offsets fs infos)
  case (Cons l ls)
  have "scanWithTimeout ms (timer_first ck i) l cur \<noteq> ScanPanic"
    using Cons.prems by (simp add: scanWithTimeout_panic)
  then show ?case
    using Cons by (auto simp: Let_def applyRedactions_eq split: scan_outcome.split)
qed simp

definition skipped_empty :: "layer_info \<Rightarrow> bool" where
  "skipped_empty info \<longleftrightarrow> (info_Skipped info \<longrightarrow> info_FindingsCount info = 0)"

lemma scan_layers_accounts:
  assumes "scan_layers srt ck ms text i ls cur offsets fs infos = Some (fs', infos')"
    and "sum_list (map info_FindingsCount infos) = go_len fs" and "list_all skipped_empty infos"
  shows "map info_Name infos' = map info_Name infos @ map layer_Name ls \<and>
    sum_list (map info_FindingsCount infos') = go_len fs' \<and> list_all skipped_empty infos'"
  using assms
proof (induction ls arbitrary: i cur offsets fs infos)
  case (Cons l ls)
  show ?case
    using Cons.prems
    by (auto simp: Let_def applyRedactions_eq skipped_empty_def go_len_def
        split: if_splits scan_outcome.splits dest!: Cons.IH)
qed simp

text \<open>One layer's step of the loop, as an equation would not show it: what is added, and whether the layer was skipped.\<close>

lemma scan_layers_step:
  assumes "scan_layers srt ck ms t i (l # ls) cur offsets fs infos = Some r"
  shows "\<exists>res info cur' offsets'.
    scan_layers srt ck ms t (Suc i) ls cur' offsets' (fs @ map (map_finding offsets) res) (infos @ [info]) = Some r \<and>
    (info_Skipped info \<and> res = [] \<or> \<not> info_Skipped info \<and> layer_Scan l cur = ScanOk res)"
proof -
  let ?info = "\<lparr>info_Name = layer_Name l, info_FindingsCount = 0, info_LatencyMs = 0, info_Skipped = False, info_SkipReason = []\<rparr>"
  have next_layer: ?thesis
    if "scan_layers srt ck ms t (Suc i) ls c offs (fs @ map (map_finding offsets) res) (infos @ [inf]) = Some r"
      "info_Skipped inf \<and> res = [] \<or> \<not> info_Skipped inf \<and> layer_Scan l cur = ScanOk res" for res inf c offs
    using that by blast
  show ?thesis
  proof (cases "layer_Ready l")
    case False
    then show ?thesis
      using assms by (intro next_layer[where res = "[]" and inf = "?info\<lparr>info_Skipped := True, info_SkipReason := ''not ready''\<rparr>"])
        (simp_all add: Let_def)
  next
    case ready: True
    let ?info = "?info\<lparr>info_LatencyMs := layer_ms ck i\<rparr>"
    show ?thesis
    proof (cases "scanWithTimeout ms (timer_first ck i) l cur")
      case (ScanErr e)
      then show ?thesis
        using assms ready by (intro next_layer[where res = "[]" and inf = "?info\<lparr>info_Skipped := True, info_SkipReason := e\<rparr>"])
          (simp_all add: Let_def)
    next
      case (ScanOk res)
      note ok = scanWithTimeout_ok[OF ScanOk]
      obtain c offs where ap: "applyRedactions srt t (fs @ map (map_finding offsets) res) = Some (c, offs)"
        by (simp add: applyRedactions_eq)
      show ?thesis
      proof (cases "res = []")
        case True
        then show ?thesis using assms ready ScanOk ok
          by (intro next_layer[where inf = "?info\<lparr>info_FindingsCount := go_len res\<rparr>"]) (simp_all add: Let_def)
      next
        case False
        then show ?thesis using assms ready ScanOk ok ap
          by (intro next_layer[where inf = "?info\<lparr>info_FindingsCount := go_len res\<rparr>"]) (simp_all add: Let_def)
      qed
    qed (use assms ready in \<open>simp add: Let_def\<close>)
  qed
qed

lemma scan_layers_extends:
  assumes "scan_layers srt ck ms t i ls cur offsets fs infos = Some (fs', infos')"
  shows "\<exists>gs js. fs' = fs @ gs \<and> infos' = infos @ js"
  using assms
proof (induction ls arbitrary: i cur offsets fs infos)
  case (Cons l ls)
  then show ?case by (metis scan_layers_step append_assoc)
qed simp

lemma map_finding_start: "map_finding [] f = f"
  by (simp add: map_finding_def toOriginalPos_def)

text \<open>What the first layer finds is reported where it was found, unless the layer was skipped.\<close>

lemma Scan_first_layer:
  assumes "Scan srt ck p t = Some rep" "layers p = l # ls" "\<not> info_Skipped (hd (LayerResults rep))"
  shows "\<exists>res. layer_Scan l t = ScanOk res \<and> set res \<subseteq> set (Findings rep)"
proof -
  obtain fs infos where run: "scan_layers srt ck (timeoutMs p) t 0 (l # ls) t [] [] [] = Some (fs, infos)"
    and rep: "Findings rep = fs" "LayerResults rep = infos"
    using assms(1,2) by (auto simp: Scan_def split: option.splits)
  obtain res info cur' offsets' where step:
    "scan_layers srt ck (timeoutMs p) t (Suc 0) ls cur' offsets' (map (map_finding []) res) [info] = Some (fs, infos)"
    "info_Skipped info \<and> res = [] \<or> \<not> info_Skipped info \<and> layer_Scan l t = ScanOk res"
    using scan_layers_step[OF run] by auto
  from scan_layers_extends[OF step(1)] obtain gs js where "fs = res @ gs" "infos = info # js" by (auto simp: map_idI map_finding_start)
  then show ?thesis using step(2) assms(3) by (auto simp: rep)
qed

lemma scan_layers_labels:
  assumes "scan_layers srt ck ms t i ls cur offsets fs infos = Some (fs', infos')"
    and "\<And>l u res f. l \<in> set ls \<Longrightarrow> layer_Scan l u = ScanOk res \<Longrightarrow> f \<in> set res \<Longrightarrow> P (Label f)"
    and "\<And>f. f \<in> set fs \<Longrightarrow> P (Label f)" "f \<in> set fs'"
  shows "P (Label f)"
  using assms
proof (induction ls arbitrary: i cur offsets fs infos)
  case (Cons l ls)
  obtain res info cur' offsets' where step:
    "scan_layers srt ck ms t (Suc i) ls cur' offsets' (fs @ map (map_finding offsets) res) (infos @ [info]) = Some (fs', infos')"
    "info_Skipped info \<and> res = [] \<or> \<not> info_Skipped info \<and> layer_Scan l cur = ScanOk res"
    using scan_layers_step[OF Cons.prems(1)] by blast
  have "P (Label g)" if "g \<in> set (fs @ map (map_finding offsets) res)" for g
    using that step(2) Cons.prems(2)[of l cur res] Cons.prems(3) by (auto simp: map_finding_def)
  with Cons.prems(2,4) show ?case by (intro Cons.IH[OF step(1)]) (meson list.set_intros(2))+
qed auto

subsection \<open>Properties\<close>

text \<open>A text with two findings that the witnesses share.\<close>

abbreviation mk_finding :: "string \<Rightarrow> string \<Rightarrow> int \<Rightarrow> int \<Rightarrow> string \<Rightarrow> finding" where
  "mk_finding lbl v s e lay \<equiv>
     \<lparr>Label = lbl, Value = v, Start = s, End = e, Confidence = 1, Layer = lay\<rparr>"

definition demo_text :: string where
  "demo_text = ''to a@b.c key k9z, d@e.f''"

definition demo_findings :: "finding list" where
  "demo_findings = [mk_finding ''EMAIL'' ''d@e.f'' 18 23 ''x'', mk_finding ''EMAIL'' ''a@b.c'' 3 8 ''x'']"

definition demo_layer :: layer where
  "demo_layer =
     \<lparr>layer_Name = ''x'', layer_Ready = True,
      layer_Scan = (\<lambda>t. if t = demo_text then ScanOk demo_findings else ScanErr ''down''),
      layer_Reconfigure = None\<rparr>"

definition demo_clock :: clock where
  "demo_clock = \<lparr>layer_ms = (\<lambda>_. 1), timer_first = (\<lambda>_. False), total_ms = 2\<rparr>"

definition demo_pipeline :: pipeline where
  "demo_pipeline = SetTimeout (NewPipeline [demo_layer, demo_layer]) 5000"

lemma demo_layer_bounded: "bounded_layer (layer_Scan demo_layer)"
  by unfold_locales
    (auto simp: demo_layer_def demo_findings_def demo_text_def in_range_def split: if_splits)

lemma demo_pipeline_simps:
  "layers demo_pipeline = [demo_layer, demo_layer]" "timeoutMs demo_pipeline = 5000"
  "layer_Name demo_layer = ''x''" "layer_Ready demo_layer" "layer_Scan demo_layer t \<noteq> ScanPanic"
  by (simp_all add: demo_pipeline_def SetTimeout_def NewPipeline_def demo_layer_def)

lemma demo_applied:
  "applyRedactions insertion_sort demo_text demo_findings =
     Some (''to [REDACTED-EMAIL] key k9z, [REDACTED-EMAIL]'',
       [\<lparr>origStart = 3, origEnd = 8, newLen = 16\<rparr>, \<lparr>origStart = 18, origEnd = 23, newLen = 16\<rparr>])"
  by code_simp

text \<open>
  The replacement step between two layers (\<open>applyRedactions\<close>) never panics, whatever
  the positions of the findings are: it replaces a chain of the given findings, ascending
  and apart from each other, by their placeholders and keeps every other byte. A finding
  inside the text that is left out starts inside one that is replaced.
\<close>

lemma applyRedactions_splices:
  assumes "slice_sort by_start (srt by_start)"
  shows "\<exists>ks. applyRedactions srt text fs = Some (spliced text 0 ks, map entry_of ks) \<and>
    chain text 0 ks \<and> set ks \<subseteq> set fs \<and>
    (\<forall>f \<in> set fs. 0 \<le> Start f \<and> Start f < End f \<and> End f \<le> go_len text \<longrightarrow>
       f \<in> set ks \<or> (\<exists>k \<in> set ks. Start k \<le> Start f \<and> Start f < End k))"
proof -
  let ?fs = "srt by_start fs"
  let ?ks = "kept text 0 ?fs"
  have "set ?fs = set fs" and sorted: "sorted_wrt (\<lambda>x y. \<not> by_start y x) ?fs"
    using slice_sort.set_srt [OF assms] slice_sort.srt_ordered [OF assms] by auto
  then have "set ?ks \<subseteq> set fs"
    using kept_subset [of "text" 0 ?fs] by simp
  moreover have "f \<in> set ?ks \<or> (\<exists>k \<in> set ?ks. Start k \<le> Start f \<and> Start f < End k)"
    if "f \<in> set fs" "0 \<le> Start f" "Start f < End f" "End f \<le> go_len text" for f
    using kept_complete [OF sorted, of f "text" 0] that \<open>set ?fs = set fs\<close> by auto
  ultimately show ?thesis
    using kept_chain [of 0 "text" ?fs] by (auto simp: applyRedactions_eq)
qed

lemma applyRedactions_splices_example:
  "slice_sort by_start (insertion_sort by_start) \<and>
   (\<exists>ks. applyRedactions insertion_sort demo_text demo_findings =
        Some (spliced demo_text 0 ks, map entry_of ks) \<and> chain demo_text 0 ks)"
  using applyRedactions_splices [of insertion_sort demo_text demo_findings]
    by_start.slice_sort_axioms by blast

text \<open>
  C11. A slice of the partly redacted text that touches no placeholder is the slice of the
  original text between the translated positions: \<open>toOriginalPos\<close> inverts the shift that
  the placeholders cause.
\<close>

theorem toOriginalPos_aligned:
  assumes "applyRedactions srt text fs = Some (cur, offsets)"
    and "0 \<le> s" "s < e" "e \<le> go_len cur"
    and "touches_none s e (placeholder_spans 0 offsets)"
  shows "seg cur s e = seg text (toOriginalPos s offsets) (toOriginalPos e offsets)"
proof -
  let ?ks = "kept text 0 (srt by_start fs)"
  have "chain text 0 ?ks" by (simp add: kept_chain)
  from to_orig_seg [OF this, of 0 s e] assms show ?thesis
    by (simp add: applyRedactions_eq toOriginalPos_def)
qed

theorem toOriginalPos_aligned_witness:
  "seg ''to [REDACTED-EMAIL] key k9z, [REDACTED-EMAIL]'' 24 27 = ''k9z'' \<and>
   seg demo_text 13 16 = ''k9z''"
  using toOriginalPos_aligned [OF demo_applied, of 24 27]
  by (simp add: go_len_def touches_none_def toOriginalPos_def seg_def demo_text_def)

text \<open>
  C10. If every layer respects the contract \<open>bounded_layer\<close> on the text it is given, every
  finding of the report lies inside the original text, although all layers after the first
  that finds something scan a text of another length.
\<close>

theorem Scan_in_range:
  assumes "\<forall>l \<in> set (layers p). bounded_layer (layer_Scan l)"
    and "Scan srt ck p text = Some rep"
  shows "\<forall>f \<in> set (Findings rep). in_range text f"
proof -
  obtain fs infos where "Findings rep = fs"
    and "scan_layers srt ck (timeoutMs p) text 0 (layers p) text [] [] [] = Some (fs, infos)"
    using assms(2) by (auto simp: Scan_def split: option.splits)
  then show ?thesis
    using scan_layers_in_range [of srt ck "timeoutMs p" "text" 0 "layers p" "text" "[]" "[]" "[]"]
      assms(1) by (auto simp: scan_inv_init)
qed

theorem Scan_in_range_witness:
  "\<exists>rep. Scan insertion_sort demo_clock demo_pipeline demo_text = Some rep \<and>
     length (Findings rep) = 2 \<and> (\<forall>f \<in> set (Findings rep). in_range demo_text f)"
proof -
  have layers: "\<forall>l \<in> set (layers demo_pipeline). bounded_layer (layer_Scan l)"
    by (simp add: demo_pipeline_simps demo_layer_bounded)
  have "map_option (\<lambda>r. length (Findings r)) (Scan insertion_sort demo_clock demo_pipeline demo_text) = Some 2"
    by code_simp
  then obtain rep where rep: "Scan insertion_sort demo_clock demo_pipeline demo_text = Some rep"
    and "length (Findings rep) = 2" by auto
  then show ?thesis using Scan_in_range [OF layers rep] by blast
qed

text \<open>
  If no layer panics, \<open>Scan\<close> returns a report: a layer that is not ready, fails or runs
  into the timeout is skipped and the others still run. The report has one entry per layer in
  the order of the pipeline, the counts of its entries add up to the number of findings, and
  a skipped layer counts none.
\<close>

lemma Scan_total:
  assumes "\<forall>l \<in> set (layers p). \<forall>t. layer_Scan l t \<noteq> ScanPanic"
  shows "\<exists>rep. Scan srt ck p text = Some rep \<and>
    map info_Name (LayerResults rep) = map layer_Name (layers p) \<and>
    sum_list (map info_FindingsCount (LayerResults rep)) = go_len (Findings rep) \<and>
    list_all skipped_empty (LayerResults rep)"
proof -
  obtain fs infos where run:
    "scan_layers srt ck (timeoutMs p) text 0 (layers p) text [] [] [] = Some (fs, infos)"
    using scan_layers_total [of "layers p"] assms by blast
  then show ?thesis
    using scan_layers_accounts [OF run] by (simp add: Scan_def)
qed

lemma Scan_total_example:
  "\<exists>rep. Scan insertion_sort demo_clock demo_pipeline ''hello'' = Some rep \<and>
     map info_Name (LayerResults rep) = [''x'', ''x'']"
proof -
  have "\<forall>l \<in> set (layers demo_pipeline). \<forall>t. layer_Scan l t \<noteq> ScanPanic"
    by (simp add: demo_pipeline_simps)
  from Scan_total [OF this, of insertion_sort demo_clock "''hello''"] show ?thesis
    by (auto simp: demo_pipeline_simps)
qed

end
