(* ===== verification/Redactor.thy ===== *)
theory Redactor
  imports Pipeline
begin

text \<open>
  The redactor: \<open>internal/redactor/redactor.go\<close>. \<open>Redact\<close> drops findings contained in
  others (\<open>dedup\<close>), sorts the rest by position and writes the text with each finding
  replaced by its placeholder. Unlike \<open>applyRedactions\<close> it does not check that findings
  lie inside the text: a slice out of range panics (\<open>None\<close>). \<open>dedup\<close> sorts its argument in
  place, so \<open>Redact\<close> also returns the order in which it leaves the caller's findings.

  Results: for findings inside the text \<open>Redact\<close> does not panic and splices a chain of the
  findings; for findings that are pairwise nested or apart it covers every byte of every
  finding, so its output depends on no byte of a finding; for two findings that overlap
  partly it leaves the tail of the second one in the output.
\<close>

subsection \<open>Operations\<close>

record applied_redaction =
  ar_Label :: string
  ar_Original :: string
  ar_Start :: int
  ar_End :: int

record redaction_result =
  Text :: string
  Applied :: "applied_redaction list"

definition by_start_longer :: "finding \<Rightarrow> finding \<Rightarrow> bool" where
  "by_start_longer f g \<longleftrightarrow>
     (if Start f = Start g then End f - Start f > End g - Start g else Start f < Start g)"

fun dedup_loop :: "finding list \<Rightarrow> finding list \<Rightarrow> finding list" where
  "dedup_loop [] result = result"
| "dedup_loop (f # fs) result =
     (if list_ex (\<lambda>existing. Start f \<ge> Start existing \<and> End f \<le> End existing) result
      then dedup_loop fs result else dedup_loop fs (result @ [f]))"

text \<open>The result, and the findings as the in-place sort leaves them.\<close>

definition dedup :: "finding_sort \<Rightarrow> finding list \<Rightarrow> finding list \<times> finding list" where
  "dedup srt findings =
     (let sorted = srt by_start_longer findings in (dedup_loop sorted [], sorted))"

definition applied_of :: "finding \<Rightarrow> applied_redaction" where
  "applied_of f =
     \<lparr>ar_Label = placeholder f, ar_Original = Value f, ar_Start = Start f, ar_End = End f\<rparr>"

fun redact_loop ::
  "string \<Rightarrow> finding list \<Rightarrow> string \<Rightarrow> applied_redaction list \<Rightarrow> int \<Rightarrow> redaction_result option" where
  "redact_loop text [] b applied prev =
     (case go_slice_from text prev of
        None \<Rightarrow> None | Some t \<Rightarrow> Some \<lparr>Text = b @ t, Applied = applied\<rparr>)"
| "redact_loop text (f # fs) b applied prev =
     (if Start f < prev then redact_loop text fs b applied prev
      else (case go_slice text prev (Start f) of
              None \<Rightarrow> None
            | Some t \<Rightarrow>
                redact_loop text fs (b @ t @ placeholder f) (applied @ [applied_of f]) (End f)))"

definition Redact ::
  "finding_sort \<Rightarrow> string \<Rightarrow> finding list \<Rightarrow> (redaction_result \<times> finding list) option" where
  "Redact srt text findings =
     (if findings = [] then Some (\<lparr>Text = text, Applied = []\<rparr>, findings)
      else
        (let (deduped, findings') = dedup srt findings
         in case redact_loop text (srt by_start deduped) [] [] 0 of
              None \<Rightarrow> None
            | Some r \<Rightarrow> Some (r, findings')))"

subsection \<open>Deduplication\<close>

interpretation by_start_longer: strict_weak_order by_start_longer
  by unfold_locales (auto simp: by_start_longer_def split: if_splits)

text \<open>The contract of the two sorts that \<open>Redact\<close> uses.\<close>

locale finding_sorts =
  fixes srt :: finding_sort
  assumes start_sort: "slice_sort by_start (srt by_start)"
    and longer_sort: "slice_sort by_start_longer (srt by_start_longer)"

interpretation insertion: finding_sorts insertion_sort
  by unfold_locales
    (auto simp: by_start.srt_mset by_start.srt_ordered by_start_longer.srt_mset
      by_start_longer.srt_ordered)

definition ascending :: "finding list \<Rightarrow> bool" where
  "ascending fs \<longleftrightarrow> sorted_wrt (\<lambda>f g. Start f < Start g) fs"

lemma two_ascending:
  assumes "f \<in> set ds" "g \<in> set ds" "ascending ds" "set ds \<subseteq> {f, g}" "Start f < Start g"
  shows "ds = [f, g]"
proof -
  have asc: "sorted_wrt (<) (map Start ds)"
    using assms(3) by (simp add: ascending_def sorted_wrt_map)
  have "set ds = set [f, g]" using assms by auto
  then have "set (map Start ds) = set (map Start [f, g])" by simp
  then have "map Start ds = map Start [f, g]"
    using asc assms(5) strict_sorted_equal [of "map Start ds" "map Start [f, g]"] by simp
  moreover have "inj_on Start (set ds \<union> set [f, g])"
    using \<open>set ds = set [f, g]\<close> assms(5) by (auto simp: inj_on_def)
  ultimately show ?thesis by (rule map_inj_on)
qed

lemma dedup_loop_ascending:
  assumes "sorted_wrt (\<lambda>x y. \<not> by_start_longer y x) fs" "ascending result"
    and "\<And>e f. e \<in> set result \<Longrightarrow> f \<in> set fs \<Longrightarrow> \<not> by_start_longer f e"
  shows "ascending (dedup_loop fs result)"
  using assms
proof (induction fs arbitrary: result)
  case (Cons f fs)
  show ?case
  proof (cases "list_ex (\<lambda>e. Start f \<ge> Start e \<and> End f \<le> End e) result")
    case True
    then show ?thesis using Cons by simp
  next
    case False
    have "Start e < Start f" if "e \<in> set result" for e
      using False that Cons.prems(3) [of e f]
      by (force simp: by_start_longer_def list_ex_iff split: if_splits)
    then have "ascending (result @ [f])"
      using Cons.prems(2) by (auto simp: ascending_def sorted_wrt_append)
    moreover have "\<not> by_start_longer g e" if "e \<in> set (result @ [f])" "g \<in> set fs" for e g
      using that Cons.prems by auto
    ultimately show ?thesis
      using False Cons.IH [of "result @ [f]"] Cons.prems(1) by simp
  qed
qed simp

lemma dedup_loop_subset: "set result \<subseteq> set (dedup_loop fs result)"
  by (induction fs arbitrary: result) (auto, force)

lemma dedup_loop_from: "set (dedup_loop fs result) \<subseteq> set fs \<union> set result"
  by (induction fs arbitrary: result) (auto, force)

lemma dedup_loop_covers:
  "f \<in> set fs \<Longrightarrow> \<exists>e \<in> set (dedup_loop fs result). Start e \<le> Start f \<and> End f \<le> End e"
proof (induction fs arbitrary: result)
  case (Cons g fs)
  show ?case
  proof (cases "f = g")
    case True
    then show ?thesis
      using dedup_loop_subset [of result fs] dedup_loop_subset [of "result @ [g]" fs]
      by (auto simp: list_ex_iff)
  next
    case False
    then show ?thesis using Cons by auto
  qed
qed simp

text \<open>No finding that is kept contains a later one that is kept.\<close>

lemma dedup_loop_uncontained:
  assumes "sorted_wrt (\<lambda>e f. \<not> (Start f \<ge> Start e \<and> End f \<le> End e)) result"
  shows "sorted_wrt (\<lambda>e f. \<not> (Start f \<ge> Start e \<and> End f \<le> End e)) (dedup_loop fs result)"
  using assms
  by (induction fs arbitrary: result) (auto simp: list_ex_iff sorted_wrt_append)

lemma ascending_sort_id:
  assumes "slice_sort by_start s" "ascending fs"
  shows "s fs = fs"
proof -
  have asc: "sorted_wrt (<) (map Start fs)"
    using assms(2) by (simp add: ascending_def sorted_wrt_map)
  then have "sorted (map Start fs)" and dist: "distinct (map Start fs)"
    using strict_sorted_iff by blast+
  moreover have "sorted (map Start (s fs))"
    using slice_sort.srt_ordered [OF assms(1), of fs]
    by (simp add: sorted_wrt_map by_start_def not_less)
  moreover have "mset (map Start (s fs)) = mset (map Start fs)"
    by (simp add: slice_sort.srt_mset [OF assms(1)])
  ultimately have "map Start (s fs) = map Start fs"
    by (metis properties_for_sort)
  moreover have "inj_on Start (set (s fs) \<union> set fs)"
    using dist by (simp add: slice_sort.set_srt [OF assms(1)] distinct_map)
  ultimately show ?thesis by (metis map_inj_on)
qed

context finding_sorts
begin

lemma dedup_ascending: "ascending (fst (dedup srt fs))"
  using dedup_loop_ascending [of "srt by_start_longer fs" "[]"] slice_sort.srt_ordered [OF longer_sort]
  by (simp add: dedup_def Let_def ascending_def)

lemma dedup_set: "set (fst (dedup srt fs)) \<subseteq> set fs"
  using dedup_loop_from [of "srt by_start_longer fs" "[]"]
  by (simp add: dedup_def Let_def slice_sort.set_srt [OF longer_sort])

lemma dedup_covers:
  "f \<in> set fs \<Longrightarrow> \<exists>e \<in> set (fst (dedup srt fs)). Start e \<le> Start f \<and> End f \<le> End e"
  using dedup_loop_covers [of f "srt by_start_longer fs" "[]"]
  by (simp add: dedup_def Let_def slice_sort.set_srt [OF longer_sort])

text \<open>The second sort changes nothing: the kept findings start at different positions.\<close>

lemma sort_deduped: "srt by_start (fst (dedup srt fs)) = fst (dedup srt fs)"
  by (rule ascending_sort_id [OF start_sort dedup_ascending])

end

subsection \<open>The output of the loop\<close>

fun kept_from :: "int \<Rightarrow> finding list \<Rightarrow> finding list" where
  "kept_from prev [] = []"
| "kept_from prev (f # fs) =
     (if Start f < prev then kept_from prev fs else f # kept_from (End f) fs)"

lemma kept_from_subset: "set (kept_from prev fs) \<subseteq> set fs"
  by (induction fs arbitrary: prev) auto

lemma kept_from_chain:
  "prev \<le> go_len text \<Longrightarrow> list_all (in_range text) fs \<Longrightarrow> chain text prev (kept_from prev fs)"
  by (induction fs arbitrary: prev) (auto simp: in_range_def)

lemma redact_loop_eq:
  "0 \<le> prev \<Longrightarrow> prev \<le> go_len text \<Longrightarrow> list_all (in_range text) fs \<Longrightarrow>
   redact_loop text fs b applied prev =
     Some \<lparr>Text = b @ spliced text prev (kept_from prev fs),
           Applied = applied @ map applied_of (kept_from prev fs)\<rparr>"
  by (induction fs arbitrary: b applied prev) (auto simp: in_range_def slice_simps)

definition laminar :: "finding list \<Rightarrow> bool" where
  "laminar fs \<longleftrightarrow>
     (\<forall>f \<in> set fs. \<forall>g \<in> set fs. End f \<le> Start g \<or> End g \<le> Start f \<or>
        Start f \<le> Start g \<and> End g \<le> End f \<or> Start g \<le> Start f \<and> End f \<le> End g)"

lemma kept_from_all:
  assumes "ascending fs" "sorted_wrt (\<lambda>e f. \<not> (Start f \<ge> Start e \<and> End f \<le> End e)) fs"
    and "laminar fs" "list_all (in_range text) fs" "\<And>f. f \<in> set fs \<Longrightarrow> prev \<le> Start f"
  shows "kept_from prev fs = fs"
  using assms
proof (induction fs arbitrary: prev)
  case (Cons f fs)
  have "End f \<le> Start g" if "g \<in> set fs" for g
    using Cons.prems that
    by (fastforce simp: ascending_def laminar_def list_all_iff in_range_def)
  then have "kept_from (End f) fs = fs"
    using Cons.IH [of "End f"] Cons.prems by (auto simp: ascending_def laminar_def)
  then show ?case using Cons.prems by force
qed simp

text \<open>The output does not depend on the bytes that are replaced.\<close>

lemma spliced_cong:
  assumes "length t1 = length t2" "chain t1 prev fs" "0 \<le> prev"
    and "\<And>i. prev \<le> int i \<Longrightarrow> i < length t1 \<Longrightarrow> t1 ! i = t2 ! i \<or>
      (\<exists>f \<in> set fs. Start f \<le> int i \<and> int i < End f)"
  shows "spliced t1 prev fs = spliced t2 prev fs"
  using assms
proof (induction fs arbitrary: prev)
  case Nil
  show ?case
    using Nil.prems by (auto intro!: nth_equalityI simp: go_len_def)
next
  case (Cons f fs)
  have after: "End f \<le> Start g" if "g \<in> set fs" for g
    using Cons.prems(2) that
  proof -
    have "chain t1 p gs \<Longrightarrow> g \<in> set gs \<Longrightarrow> p \<le> Start g" for p gs
      by (induction gs arbitrary: p) force+
    then show ?thesis using Cons.prems(2) that by auto
  qed
  have "seg t1 prev (Start f) = seg t2 prev (Start f)"
  proof (rule seg_eqI)
    fix i assume i: "prev \<le> int i" "int i < Start f"
    then have "i < length t1" using Cons.prems(2) by (simp add: go_len_def)
    with i show "t1 ! i = t2 ! i"
      using Cons.prems(2,4) after by fastforce
  qed (use Cons.prems in auto)
  moreover have "spliced t1 (End f) fs = spliced t2 (End f) fs"
    using Cons.prems by (intro Cons.IH) (auto, force)
  ultimately show ?case by simp
qed

context finding_sorts
begin

lemma Redact_eq:
  assumes "list_all (in_range text) fs" "fs \<noteq> []"
  shows "Redact srt text fs =
    (let ks = kept_from 0 (fst (dedup srt fs))
     in Some (\<lparr>Text = spliced text 0 ks, Applied = map applied_of ks\<rparr>, srt by_start_longer fs))"
proof -
  have "list_all (in_range text) (fst (dedup srt fs))"
    using assms(1) dedup_set [of fs] by (auto simp: list_all_iff)
  then show ?thesis
    using assms(2) sort_deduped [of fs]
    by (simp add: Redact_def redact_loop_eq dedup_def Let_def)
qed

lemma kept_deduped:
  assumes "list_all (in_range text) fs" "laminar fs"
  shows "kept_from 0 (fst (dedup srt fs)) = fst (dedup srt fs)"
proof (rule kept_from_all)
  have sub: "set (fst (dedup srt fs)) \<subseteq> set fs" by (rule dedup_set)
  show "ascending (fst (dedup srt fs))" by (rule dedup_ascending)
  show "laminar (fst (dedup srt fs))" using assms(2) sub by (auto simp: laminar_def)
  show "list_all (in_range text) (fst (dedup srt fs))" using assms(1) sub by (auto simp: list_all_iff)
  show "0 \<le> Start f" if "f \<in> set (fst (dedup srt fs))" for f
    using assms(1) sub that by (auto simp: list_all_iff in_range_def)
  show "sorted_wrt (\<lambda>e f. \<not> (Start f \<ge> Start e \<and> End f \<le> End e)) (fst (dedup srt fs))"
    using dedup_loop_uncontained [of "[]"] by (simp add: dedup_def Let_def)
qed

lemma dedup_chain:
  assumes "list_all (in_range text) fs" "laminar fs"
  shows "chain text 0 (fst (dedup srt fs))"
proof -
  have "list_all (in_range text) (fst (dedup srt fs))"
    using assms(1) dedup_set [of fs] by (auto simp: list_all_iff)
  then show ?thesis
    using kept_from_chain [of 0 "text" "fst (dedup srt fs)"] kept_deduped [OF assms] by simp
qed

lemma Redact_laminar:
  assumes "list_all (in_range text) fs" "fs \<noteq> []" "laminar fs"
  shows "Redact srt text fs =
    Some (\<lparr>Text = spliced text 0 (fst (dedup srt fs)), Applied = map applied_of (fst (dedup srt fs))\<rparr>,
          srt by_start_longer fs)"
  by (simp add: Redact_eq [OF assms(1,2)] kept_deduped [OF assms(1,3)] Let_def)

end

subsection \<open>Properties\<close>

text \<open>
  C3. For findings inside the text \<open>Redact\<close> returns: the output is the text with a chain
  of the given findings, ascending and apart from each other, replaced by their placeholders,
  and \<open>Applied\<close> lists exactly these findings in order.
\<close>

theorem Redact_splices:
  assumes "finding_sorts srt" and "list_all (in_range text) fs"
  shows "\<exists>ks fs'. Redact srt text fs =
      Some (\<lparr>Text = spliced text 0 ks, Applied = map applied_of ks\<rparr>, fs') \<and>
    chain text 0 ks \<and> set ks \<subseteq> set fs \<and> mset fs' = mset fs"
proof (cases "fs = []")
  case True
  then show ?thesis by (auto simp: Redact_def intro: exI [of _ "[]"])
next
  case False
  let ?ds = "fst (dedup srt fs)"
  have sub: "set ?ds \<subseteq> set fs" by (rule finding_sorts.dedup_set [OF assms(1)])
  then have "list_all (in_range text) ?ds" using assms(2) by (auto simp: list_all_iff)
  then have "chain text 0 (kept_from 0 ?ds)" by (simp add: kept_from_chain)
  moreover have "mset (srt by_start_longer fs) = mset fs"
    using slice_sort.srt_mset [OF finding_sorts.longer_sort [OF assms(1)]] .
  ultimately show ?thesis
    using finding_sorts.Redact_eq [OF assms False] kept_from_subset [of 0 ?ds] sub
    by (auto simp: Let_def)
qed

theorem Redact_splices_witness:
  "finding_sorts insertion_sort \<and> list_all (in_range demo_text) demo_findings \<and>
   (\<exists>ks fs'. Redact insertion_sort demo_text demo_findings =
      Some (\<lparr>Text = spliced demo_text 0 ks, Applied = map applied_of ks\<rparr>, fs'))"
proof -
  have h: "list_all (in_range demo_text) demo_findings"
    by (simp add: demo_findings_def demo_text_def in_range_def)
  show ?thesis
    using h Redact_splices [OF insertion.finding_sorts_axioms h] insertion.finding_sorts_axioms by blast
qed

text \<open>
  C5. If the findings are pairwise nested or apart, every byte of every finding lies in a
  range that \<open>Redact\<close> replaces.
\<close>

theorem Redact_covers_laminar:
  assumes "finding_sorts srt" "list_all (in_range text) fs" "laminar fs" "fs \<noteq> []"
  shows "\<exists>r fs'. Redact srt text fs = Some (r, fs') \<and>
    (\<forall>f \<in> set fs. \<exists>a \<in> set (Applied r). ar_Start a \<le> Start f \<and> End f \<le> ar_End a)"
proof -
  have "\<exists>e \<in> set (fst (dedup srt fs)). Start e \<le> Start f \<and> End f \<le> End e" if "f \<in> set fs" for f
    using finding_sorts.dedup_covers [OF assms(1) that] .
  then show ?thesis
    using finding_sorts.Redact_laminar [OF assms(1,2,4,3)]
    by (fastforce simp: applied_of_def)
qed

theorem Redact_covers_laminar_witness:
  "\<exists>r fs'. Redact insertion_sort demo_text demo_findings = Some (r, fs') \<and>
    (\<forall>f \<in> set demo_findings. \<exists>a \<in> set (Applied r). ar_Start a \<le> Start f \<and> End f \<le> ar_End a)"
  by (rule Redact_covers_laminar [OF insertion.finding_sorts_axioms])
    (auto simp: demo_findings_def demo_text_def in_range_def laminar_def)

text \<open>
  C4. Secrecy: if the findings are pairwise nested or apart, the output of \<open>Redact\<close> is a
  function of the bytes outside the findings only. Two texts of equal length that differ
  inside the findings alone have the same redacted text.
\<close>

theorem Redact_noninterference:
  assumes "finding_sorts srt" "list_all (in_range t1) fs" "laminar fs"
    and "length t1 = length t2"
    and "\<forall>i < length t1. t1 ! i = t2 ! i \<or> (\<exists>f \<in> set fs. Start f \<le> int i \<and> int i < End f)"
  shows "map_option (Text \<circ> fst) (Redact srt t1 fs) = map_option (Text \<circ> fst) (Redact srt t2 fs)"
proof (cases "fs = []")
  case True
  then show ?thesis using assms(4,5) by (auto simp: Redact_def intro: nth_equalityI)
next
  case False
  have r2: "list_all (in_range t2) fs"
    using assms(2,4) by (auto simp: list_all_iff in_range_def go_len_def)
  have "spliced t1 0 (fst (dedup srt fs)) = spliced t2 0 (fst (dedup srt fs))"
  proof (rule spliced_cong [OF assms(4) finding_sorts.dedup_chain [OF assms(1,2,3)]])
    fix i assume "i < length t1"
    then consider "t1 ! i = t2 ! i" | f where "f \<in> set fs" "Start f \<le> int i" "int i < End f"
      using assms(5) by blast
    then show "t1 ! i = t2 ! i \<or>
        (\<exists>f \<in> set (fst (dedup srt fs)). Start f \<le> int i \<and> int i < End f)"
      using finding_sorts.dedup_covers [OF assms(1)] by cases (auto, force)
  qed simp
  then show ?thesis
    using finding_sorts.Redact_laminar [OF assms(1,2) False assms(3)]
      finding_sorts.Redact_laminar [OF assms(1) r2 False assms(3)] by simp
qed

theorem Redact_noninterference_witness:
  "map_option (Text \<circ> fst) (Redact insertion_sort demo_text demo_findings) =
   map_option (Text \<circ> fst) (Redact insertion_sort ''to x@y.z key k9z, q@q.q'' demo_findings)"
  by (rule Redact_noninterference [OF insertion.finding_sorts_axioms])
    (auto simp: demo_findings_def demo_text_def in_range_def laminar_def All_less_Suc numeral_eq_Suc)

text \<open>
  C33. Two findings that overlap partly: the second one is skipped and the bytes between the
  end of the first and the end of the second reach the output unredacted.
\<close>

theorem Redact_partial_overlap_leaks:
  assumes "finding_sorts srt" "list_all (in_range text) [f, g]"
    and "Start f < Start g" "Start g < End f" "End f < End g"
  shows "\<exists>r fs'. Redact srt text [f, g] = Some (r, fs') \<and>
    Text r = seg text 0 (Start f) @ placeholder f @ seg text (End f) (End g) @ drop (nat (End g)) text \<and>
    Applied r = [applied_of f]"
proof -
  let ?ds = "fst (dedup srt [f, g])"
  have "f \<in> set ?ds" "g \<in> set ?ds" "ascending ?ds" "set ?ds \<subseteq> {f, g}"
    using finding_sorts.dedup_covers [OF assms(1), of f "[f, g]"] assms(3,5)
      finding_sorts.dedup_covers [OF assms(1), of g "[f, g]"]
      finding_sorts.dedup_set [OF assms(1), of "[f, g]"]
      finding_sorts.dedup_ascending [OF assms(1)] by auto
  then have "?ds = [f, g]"
    using assms(3) by (rule two_ascending)
  then show ?thesis
    using finding_sorts.Redact_eq [OF assms(1,2)] assms
    by (simp add: Let_def in_range_def seg_then_drop)
qed

theorem Redact_partial_overlap_leaks_witness:
  "\<exists>r fs'. Redact insertion_sort ''abcdefgh!''
      [mk_finding ''A'' ''abcde'' 0 5 ''x'', mk_finding ''B'' ''defgh'' 3 8 ''x''] = Some (r, fs') \<and>
    Text r = ''[REDACTED-A]fgh!''"
  using Redact_partial_overlap_leaks [OF insertion.finding_sorts_axioms,
      of "''abcdefgh!''" "mk_finding ''A'' ''abcde'' 0 5 ''x''" "mk_finding ''B'' ''defgh'' 3 8 ''x''"]
  by (simp add: in_range_def seg_def placeholder_def) blast

text \<open>
  \<open>Redact\<close> does not check its input: with one finding whose start is not negative it
  panics exactly if the start or the end lies behind the text or the end is negative. (A
  finding with a negative start is ignored.)
\<close>

lemma Redact_single_panics:
  assumes "finding_sorts srt"
  shows "Redact srt text [f] = None \<longleftrightarrow>
    0 \<le> Start f \<and> (go_len text < Start f \<or> go_len text < End f \<or> End f < 0)"
proof -
  have "srt by_start_longer [f] = [f]" "srt by_start [f] = [f]"
    using slice_sort.srt_mset [OF finding_sorts.longer_sort [OF assms], of "[f]"]
      slice_sort.srt_mset [OF finding_sorts.start_sort [OF assms], of "[f]"] by auto
  then show ?thesis
    by (auto simp: Redact_def dedup_def Let_def go_slice_from_def go_slice_def)
qed

end
