(* ===== verification/Cache.thy ===== *)
theory Cache
  imports Pipeline
begin

text \<open>
  The scan cache: \<open>internal/scanner/cache.go\<close>, a least-recently-used cache made of a map
  and a doubly linked list that share their elements.

  The sharing is explicit: \<open>order\<close> holds the list's elements by identity, \<open>items\<close> maps a
  key to an element, and \<open>elems\<close> is the store that maps an element to the entry it points
  to. The hash of a text (\<open>hash\<close>, hexadecimal SHA-256 in the code) is a parameter of the
  operations. Every operation runs under the cache's mutex, so it is one atomic step.

  \<open>cache_inv\<close> says how map, list and store agree; all operations keep it. The abstraction
  \<open>contents\<close> forgets the sharing: it is the sequence of keys and values, most recently used
  first, and the operations refine those of \<open>lru_get\<close> and \<open>lru_put\<close> on such sequences.
  The locale \<open>scan_cache\<close> is what the coordinator relies on.
\<close>

subsection \<open>State and operations\<close>

record cache_entry =
  ce_key :: string
  ce_redactedText :: string
  ce_report :: report

record cache =
  maxSize :: int
  items :: "string \<rightharpoonup> nat"
  order :: "nat list"
  elems :: "nat \<Rightarrow> cache_entry"
  next_elem :: nat
  hits :: int
  misses :: int

record cache_stats =
  Hits :: int
  Misses :: int
  Size :: int
  MaxSize :: int

definition nil_entry :: cache_entry where
  "nil_entry = \<lparr>ce_key = [], ce_redactedText = [],
     ce_report = \<lparr>Findings = [], LayerResults = [], TotalMs = 0\<rparr>\<rparr>"

definition NewCache :: "int \<Rightarrow> cache" where
  "NewCache n = \<lparr>maxSize = n, items = Map.empty, order = [], elems = (\<lambda>_. nil_entry),
     next_elem = 0, hits = 0, misses = 0\<rparr>"

definition MoveToFront :: "nat \<Rightarrow> nat list \<Rightarrow> nat list" where
  "MoveToFront e xs = (if e \<in> set xs then e # remove1 e xs else xs)"

definition Get :: "(string \<Rightarrow> string) \<Rightarrow> cache \<Rightarrow> string \<Rightarrow> cache \<times> (string \<times> report) option" where
  "Get hash c text =
     (case items c (hash text) of
        Some e \<Rightarrow>
          (c\<lparr>order := MoveToFront e (order c), hits := hits c + 1\<rparr>,
           Some (ce_redactedText (elems c e), ce_report (elems c e)))
      | None \<Rightarrow> (c\<lparr>misses := misses c + 1\<rparr>, None))"

definition evict_oldest :: "cache \<Rightarrow> cache" where
  "evict_oldest c =
     (if order c = [] then c
      else c\<lparr>order := butlast (order c),
             items := (items c)(ce_key (elems c (last (order c))) := None)\<rparr>)"

definition Put :: "(string \<Rightarrow> string) \<Rightarrow> cache \<Rightarrow> string \<Rightarrow> string \<Rightarrow> report \<Rightarrow> cache" where
  "Put hash c text redacted rep =
     (let key = hash text
      in case items c key of
           Some e \<Rightarrow>
             c\<lparr>order := MoveToFront e (order c),
               elems := (elems c)(e := (elems c e)\<lparr>ce_redactedText := redacted, ce_report := rep\<rparr>)\<rparr>
         | None \<Rightarrow>
             (let c' = (if go_len (order c) \<ge> maxSize c then evict_oldest c else c);
                  e = next_elem c'
              in c'\<lparr>order := e # order c', items := (items c')(key \<mapsto> e),
                    elems := (elems c')(e := \<lparr>ce_key = key, ce_redactedText = redacted, ce_report = rep\<rparr>),
                    next_elem := Suc e\<rparr>))"

definition Invalidate :: "cache \<Rightarrow> cache" where
  "Invalidate c = c\<lparr>items := Map.empty, order := []\<rparr>"

definition Stats :: "cache \<Rightarrow> cache_stats" where
  "Stats c = \<lparr>Hits = hits c, Misses = misses c, Size = go_len (order c), MaxSize = maxSize c\<rparr>"

subsection \<open>The invariant\<close>

definition cache_inv :: "cache \<Rightarrow> bool" where
  "cache_inv c \<longleftrightarrow>
     distinct (order c) \<and>
     (\<forall>k e. items c k = Some e \<longleftrightarrow> e \<in> set (order c) \<and> ce_key (elems c e) = k) \<and>
     (\<forall>e \<in> set (order c). e < next_elem c) \<and>
     go_len (order c) \<le> max 1 (maxSize c)"

lemma cache_invD:
  assumes "cache_inv c"
  shows "distinct (order c)" "e \<in> set (order c) \<Longrightarrow> items c (ce_key (elems c e)) = Some e"
    "items c k = Some e \<Longrightarrow> e \<in> set (order c)" "items c k = Some e \<Longrightarrow> ce_key (elems c e) = k"
    "e \<in> set (order c) \<Longrightarrow> e < next_elem c" "go_len (order c) \<le> max 1 (maxSize c)"
  using assms by (auto simp: cache_inv_def)

lemma cache_keys_inj:
  "cache_inv c \<Longrightarrow> e \<in> set (order c) \<Longrightarrow> e' \<in> set (order c) \<Longrightarrow>
   ce_key (elems c e) = ce_key (elems c e') \<Longrightarrow> e = e'"
  by (metis cache_invD(2) option.inject)

lemma mset_MoveToFront: "mset (MoveToFront e xs) = mset xs"
  by (simp add: MoveToFront_def)

lemma MoveToFront_simps [simp]:
  "set (MoveToFront e xs) = set xs" "distinct (MoveToFront e xs) = distinct xs"
  "go_len (MoveToFront e xs) = go_len xs"
  using mset_MoveToFront [of e xs]
  by (auto simp: go_len_def dest: mset_eq_setD mset_eq_length mset_eq_imp_distinct_iff)

lemma NewCache_inv: "cache_inv (NewCache n)"
  by (simp add: cache_inv_def NewCache_def)

lemma Invalidate_inv: "cache_inv c \<Longrightarrow> cache_inv (Invalidate c)"
  by (simp add: cache_inv_def Invalidate_def)

lemma Get_inv: "cache_inv c \<Longrightarrow> cache_inv (fst (Get hash c text))"
  by (auto simp: cache_inv_def Get_def split: option.splits)

lemma butlast_last_facts:
  "xs \<noteq> [] \<Longrightarrow> distinct xs \<Longrightarrow> e \<in> set (butlast xs) \<longleftrightarrow> e \<in> set xs \<and> e \<noteq> last xs"
  by (metis append_butlast_last_id distinct_append in_set_butlastD in_set_conv_decomp
      insert_iff list.set(2) not_distinct_conv_prefix rotate1.simps(2) set_rotate1)

lemma evict_oldest_inv:
  assumes "cache_inv c"
  shows "cache_inv (evict_oldest c)"
proof (cases "order c = []")
  case False
  note inv = cache_invD [OF assms]
  let ?l = "last (order c)"
  have "((items c)(ce_key (elems c ?l) := None)) k = Some e \<longleftrightarrow>
      e \<in> set (butlast (order c)) \<and> ce_key (elems c e) = k" for k e
    using butlast_last_facts [OF False inv(1), of e] last_in_set [OF False] inv(2-4)
      cache_keys_inj [OF assms, of e ?l] by auto
  then show ?thesis
    using False assms
    by (auto simp: cache_inv_def evict_oldest_def distinct_butlast go_len_def
        dest: in_set_butlastD)
qed (simp add: evict_oldest_def assms)

lemma Put_hit:
  "items c (hash text) = Some e \<Longrightarrow>
   Put hash c text red rep =
     c\<lparr>order := MoveToFront e (order c),
       elems := (elems c)(e := (elems c e)\<lparr>ce_redactedText := red, ce_report := rep\<rparr>)\<rparr>"
  by (simp add: Put_def)

definition make_room :: "cache \<Rightarrow> cache" where
  "make_room c = (if go_len (order c) \<ge> maxSize c then evict_oldest c else c)"

lemma Put_miss:
  "items c (hash text) = None \<Longrightarrow>
   Put hash c text red rep = (make_room c)\<lparr>order := next_elem c # order (make_room c),
     items := (items (make_room c))(hash text \<mapsto> next_elem c),
     elems := (elems c)(next_elem c := \<lparr>ce_key = hash text, ce_redactedText = red, ce_report = rep\<rparr>),
     next_elem := Suc (next_elem c)\<rparr>"
  by (simp add: Put_def make_room_def Let_def evict_oldest_def)

lemma make_room_simps [simp]:
  "elems (make_room c) = elems c" "next_elem (make_room c) = next_elem c"
  "maxSize (make_room c) = maxSize c"
  by (simp_all add: make_room_def evict_oldest_def)

lemma make_room_inv: "cache_inv c \<Longrightarrow> cache_inv (make_room c)"
  by (simp add: make_room_def evict_oldest_inv)

lemma make_room_order: "set (order (make_room c)) \<subseteq> set (order c)"
  by (auto simp: make_room_def evict_oldest_def dest: in_set_butlastD)

lemma Put_inv:
  assumes "cache_inv c"
  shows "cache_inv (Put hash c text red rep)"
proof (cases "items c (hash text)")
  case None
  note inv = cache_invD [OF make_room_inv [OF assms]]
  have len: "1 + go_len (order (make_room c)) \<le> max 1 (maxSize c)"
    using cache_invD(6) [OF assms] by (auto simp: make_room_def evict_oldest_def go_len_def)
  have fresh: "next_elem c \<notin> set (order (make_room c))" using inv(5) by fastforce
  have "items (make_room c) (hash text) = None"
    using None by (simp add: make_room_def evict_oldest_def)
  then have "ce_key (elems c e) \<noteq> hash text" if "e \<in> set (order (make_room c))" for e
    using inv(2) [OF that] by auto
  then show ?thesis
    using make_room_inv [OF assms] len fresh
    by (auto simp: cache_inv_def less_Suc_eq Put_miss [of c hash "text", OF None])
next
  case (Some e)
  have "cache_inv (c\<lparr>order := MoveToFront e (order c),
       elems := (elems c)(e := (elems c e)\<lparr>ce_redactedText := red, ce_report := rep\<rparr>)\<rparr>)"
    using assms by (auto simp: cache_inv_def)
  then show ?thesis by (simp only: Put_hit [of c hash "text", OF Some])
qed

lemmas cache_inv_intros = NewCache_inv Invalidate_inv Get_inv Put_inv

subsection \<open>Refinement of a sequence ordered by recency\<close>

type_synonym lru = "(string \<times> (string \<times> report)) list"

definition entry_pair :: "cache_entry \<Rightarrow> string \<times> (string \<times> report)" where
  "entry_pair en = (ce_key en, (ce_redactedText en, ce_report en))"

definition contents :: "cache \<Rightarrow> lru" where
  "contents c = map (\<lambda>e. entry_pair (elems c e)) (order c)"

definition without :: "string \<Rightarrow> lru \<Rightarrow> lru" where
  "without k s = filter (\<lambda>kv. fst kv \<noteq> k) s"

definition lru_get :: "string \<Rightarrow> lru \<Rightarrow> lru \<times> (string \<times> report) option" where
  "lru_get k s =
     (case map_of s k of None \<Rightarrow> (s, None) | Some v \<Rightarrow> ((k, v) # without k s, Some v))"

definition lru_put :: "int \<Rightarrow> string \<Rightarrow> (string \<times> report) \<Rightarrow> lru \<Rightarrow> lru" where
  "lru_put n k v s =
     (k, v) # (if map_of s k \<noteq> None then without k s
               else if go_len s \<ge> n then butlast s else s)"

lemma contents_distinct: "cache_inv c \<Longrightarrow> distinct (map fst (contents c))"
  using cache_keys_inj [of c] cache_invD(1) [of c]
  by (auto simp: contents_def entry_pair_def distinct_map inj_on_def)

lemma map_of_contents:
  assumes "cache_inv c"
  shows "map_of (contents c) k =
    map_option (\<lambda>e. snd (entry_pair (elems c e))) (items c k)"
proof (cases "items c k")
  case None
  then have "k \<notin> fst ` set (contents c)"
    using cache_invD(2) [OF assms] by (auto simp: contents_def entry_pair_def)
  then show ?thesis using None by (simp add: map_of_eq_None_iff)
next
  case (Some e)
  note e = cache_invD(3,4) [OF assms Some]
  have "(k, snd (entry_pair (elems c e))) \<in> set (contents c)"
    using e by (auto simp: contents_def entry_pair_def)
  then show ?thesis using Some contents_distinct [OF assms] by (simp add: map_of_is_SomeI)
qed

lemma contents_without:
  assumes "cache_inv c" "items c k = Some e"
  shows "map (\<lambda>e. entry_pair (elems c e)) (remove1 e (order c)) = without k (contents c)"
proof -
  have "remove1 e (order c) = filter (\<lambda>x. x \<noteq> e) (order c)"
    using cache_invD(1) [OF assms(1)]
    by (simp add: distinct_remove1_removeAll removeAll_filter_not_eq eq_commute)
  also have "\<dots> = filter (\<lambda>x. ce_key (elems c x) \<noteq> k) (order c)"
  proof (rule filter_cong [OF refl])
    fix x assume x: "x \<in> set (order c)"
    show "x \<noteq> e \<longleftrightarrow> ce_key (elems c x) \<noteq> k"
      using cache_invD(3,4) [OF assms] cache_keys_inj [OF assms(1) x, of e] by auto
  qed
  finally show ?thesis
    by (simp add: contents_def without_def filter_map comp_def entry_pair_def)
qed

lemma MoveToFront_member: "e \<in> set xs \<Longrightarrow> MoveToFront e xs = e # remove1 e xs"
  by (simp add: MoveToFront_def)

lemma Get_refines:
  assumes "cache_inv c"
  shows "(contents (fst (Get hash c text)), snd (Get hash c text)) =
    lru_get (hash text) (contents c)"
proof (cases "items c (hash text)")
  case None
  then show ?thesis
    using map_of_contents [OF assms, of "hash text"]
    by (simp add: Get_def lru_get_def) (simp add: contents_def)
next
  case (Some e)
  then show ?thesis
    using map_of_contents [OF assms, of "hash text"] contents_without [OF assms Some]
      cache_invD(3,4) [OF assms Some]
    by (simp add: Get_def lru_get_def) (simp add: contents_def MoveToFront_member entry_pair_def)
qed

lemma Put_refines:
  assumes "cache_inv c"
  shows "contents (Put hash c text red rep) =
    lru_put (maxSize c) (hash text) (red, rep) (contents c)"
proof (cases "items c (hash text)")
  case None
  have fresh: "next_elem c \<notin> set (order c)" using cache_invD(5) [OF assms] by blast
  then have "contents (Put hash c text red rep) =
      (hash text, (red, rep)) # map (\<lambda>e. entry_pair (elems c e)) (order (make_room c))"
    using make_room_order [of c] by (auto simp: Put_miss [of c hash "text", OF None] contents_def entry_pair_def)
  then show ?thesis
    using None map_of_contents [OF assms, of "hash text"]
    by (simp add: lru_put_def make_room_def evict_oldest_def)
       (simp add: contents_def map_butlast go_len_def)
next
  case (Some e)
  have "e \<notin> set (remove1 e (order c))" using cache_invD(1) [OF assms] by simp
  then have "map (\<lambda>x. entry_pair (((elems c)(e := (elems c e)\<lparr>ce_redactedText := red, ce_report := rep\<rparr>)) x))
      (remove1 e (order c)) = without (hash text) (contents c)"
    unfolding contents_without [OF assms Some, symmetric] by (intro map_cong) auto
  then show ?thesis
    using Some map_of_contents [OF assms, of "hash text"] cache_invD(3,4) [OF assms Some]
    by (simp add: Put_hit [of c hash "text", OF Some] lru_put_def)
       (simp add: contents_def MoveToFront_member entry_pair_def)
qed

subsection \<open>Histories of the cache\<close>

datatype cache_op =
    OpGet string
  | OpPut string string report
  | OpInvalidate

fun cache_step :: "(string \<Rightarrow> string) \<Rightarrow> cache_op \<Rightarrow> cache \<Rightarrow> cache \<times> (string \<times> report) option" where
  "cache_step hash (OpGet t) c = Get hash c t"
| "cache_step hash (OpPut t red rep) c = (Put hash c t red rep, None)"
| "cache_step hash OpInvalidate c = (Invalidate c, None)"

fun run_cache :: "(string \<Rightarrow> string) \<Rightarrow> cache_op list \<Rightarrow> cache \<Rightarrow> cache \<times> (string \<times> report) option list" where
  "run_cache hash [] c = (c, [])"
| "run_cache hash (x # xs) c =
     (let (c', r) = cache_step hash x c; (c'', rs) = run_cache hash xs c' in (c'', r # rs))"

fun lru_step :: "(string \<Rightarrow> string) \<Rightarrow> int \<Rightarrow> cache_op \<Rightarrow> lru \<Rightarrow> lru \<times> (string \<times> report) option" where
  "lru_step hash n (OpGet t) s = lru_get (hash t) s"
| "lru_step hash n (OpPut t red rep) s = (lru_put n (hash t) (red, rep) s, None)"
| "lru_step hash n OpInvalidate s = ([], None)"

fun run_lru :: "(string \<Rightarrow> string) \<Rightarrow> int \<Rightarrow> cache_op list \<Rightarrow> lru \<Rightarrow> lru \<times> (string \<times> report) option list" where
  "run_lru hash n [] s = (s, [])"
| "run_lru hash n (x # xs) s =
     (let (s', r) = lru_step hash n x s; (s'', rs) = run_lru hash n xs s' in (s'', r # rs))"

lemma contents_Invalidate [simp]: "contents (Invalidate c) = []"
  by (simp add: contents_def Invalidate_def)

lemma cache_step_inv: "cache_inv c \<Longrightarrow> cache_inv (fst (cache_step hash x c))"
  by (cases x) (simp_all add: cache_inv_intros)

lemma cache_step_maxSize: "maxSize (fst (cache_step hash x c)) = maxSize c"
  by (cases x)
     (simp_all add: Get_def Put_def Invalidate_def evict_oldest_def Let_def split: option.splits)

lemma cache_step_refines:
  assumes "cache_inv c"
  shows "(contents (fst (cache_step hash x c)), snd (cache_step hash x c)) =
    lru_step hash (maxSize c) x (contents c)"
  using assms by (cases x) (simp_all add: Get_refines [symmetric] Put_refines)

lemma run_cache_refines:
  "cache_inv c \<Longrightarrow>
   (contents (fst (run_cache hash xs c)), snd (run_cache hash xs c)) =
     run_lru hash (maxSize c) xs (contents c) \<and>
   cache_inv (fst (run_cache hash xs c)) \<and> maxSize (fst (run_cache hash xs c)) = maxSize c"
proof (induction xs arbitrary: c)
  case (Cons x xs)
  let ?c = "fst (cache_step hash x c)"
  have inv: "cache_inv ?c" and ms: "maxSize ?c = maxSize c"
    using Cons.prems by (simp_all add: cache_step_inv cache_step_maxSize)
  note IH = Cons.IH [OF inv, unfolded ms]
  have "lru_step hash (maxSize c) x (contents c) = (contents ?c, snd (cache_step hash x c))"
    using cache_step_refines [OF Cons.prems, of hash x] by simp
  then show ?case
    using IH by (simp add: split_beta Let_def) (metis fst_conv snd_conv)
qed simp

text \<open>
  C9. A cache made by \<open>NewCache\<close> behaves as a least-recently-used cache for every sequence
  of \<open>Get\<close>, \<open>Put\<close> and \<open>Invalidate\<close>: every \<open>Get\<close> answers what the sequence of pairs ordered by
  recency answers, and map, list and shared entries stay those of that sequence.
\<close>

theorem cache_refines_lru:
  "(contents (fst (run_cache hash xs (NewCache n))), snd (run_cache hash xs (NewCache n))) =
   run_lru hash n xs []"
proof -
  have "contents (NewCache n) = []" "maxSize (NewCache n) = n"
    by (simp_all add: contents_def NewCache_def)
  then show ?thesis
    using run_cache_refines [OF NewCache_inv [of n], of hash xs] by simp
qed

text \<open>
  The cache never reports more than \<open>maxSize\<close> entries, or one entry where \<open>maxSize\<close> is
  not positive, and the size it reports is the number of keys of its map.
\<close>

lemma cache_size_bound:
  "Size (Stats (fst (run_cache hash xs (NewCache n)))) \<le> max 1 n \<and>
   Size (Stats (fst (run_cache hash xs (NewCache n)))) =
     int (card (dom (items (fst (run_cache hash xs (NewCache n))))))"
proof -
  define c where "c = fst (run_cache hash xs (NewCache n))"
  have inv: "cache_inv c" and n: "maxSize c = n"
    using run_cache_refines [OF NewCache_inv [of n], of hash xs]
    by (simp_all add: c_def NewCache_def)
  have "dom (items c) = (\<lambda>e. ce_key (elems c e)) ` set (order c)"
    using cache_invD(2-4) [OF inv] by (force simp: dom_def image_iff)
  moreover have "inj_on (\<lambda>e. ce_key (elems c e)) (set (order c))"
    using cache_keys_inj [OF inv] by (auto simp: inj_on_def)
  ultimately have "card (dom (items c)) = length (order c)"
    using cache_invD(1) [OF inv] by (simp add: card_image distinct_card)
  then show ?thesis
    using cache_invD(6) [OF inv] n by (simp add: Stats_def go_len_def flip: c_def)
qed

subsection \<open>The interface of the coordinator\<close>

locale scan_cache =
  fixes ok :: "'c \<Rightarrow> bool" and same :: "string \<Rightarrow> string \<Rightarrow> bool"
    and peek :: "'c \<Rightarrow> string \<Rightarrow> (string \<times> report) option"
    and get :: "'c \<Rightarrow> string \<Rightarrow> 'c \<times> (string \<times> report) option"
    and put :: "'c \<Rightarrow> string \<Rightarrow> string \<Rightarrow> report \<Rightarrow> 'c"
    and clear :: "'c \<Rightarrow> 'c"
  assumes get_ok: "ok c \<Longrightarrow> ok (fst (get c t))"
    and put_ok: "ok c \<Longrightarrow> ok (put c t r p)"
    and clear_ok: "ok c \<Longrightarrow> ok (clear c)"
    and get_answer: "ok c \<Longrightarrow> snd (get c t) = peek c t"
    and get_peek: "ok c \<Longrightarrow> peek (fst (get c t)) u = peek c u"
    and put_peek_same: "ok c \<Longrightarrow> same t u \<Longrightarrow> peek (put c t r p) u = Some (r, p)"
    and put_peek_other: "ok c \<Longrightarrow> \<not> same t u \<Longrightarrow> peek (put c t r p) u \<in> {None, peek c u}"
    and clear_peek: "peek (clear c) u = None"

definition peek :: "(string \<Rightarrow> string) \<Rightarrow> cache \<Rightarrow> string \<Rightarrow> (string \<times> report) option" where
  "peek hash c t = map_of (contents c) (hash t)"

lemma map_of_without: "map_of (without k s) j = (if j = k then None else map_of s j)"
  by (induction s) (auto simp: without_def)

lemma map_of_butlast: "distinct (map fst s) \<Longrightarrow> map_of (butlast s) j \<in> {None, map_of s j}"
  by (induction s) (auto simp: map_of_eq_None_iff dest: in_set_butlastD)

lemma Get_contents:
  assumes "cache_inv c"
  shows "contents (fst (Get hash c t)) = fst (lru_get (hash t) (contents c))"
    "snd (Get hash c t) = snd (lru_get (hash t) (contents c))"
  using Get_refines [OF assms, of hash t] by (metis fst_conv snd_conv)+

interpretation lru: scan_cache cache_inv "\<lambda>t u. hash t = hash u" "peek hash" "Get hash" "Put hash"
  Invalidate for hash
proof unfold_locales
  show "snd (Get hash c t) = peek hash c t" if "cache_inv c" for c t
    using Get_contents(2) [OF that, of hash t]
    by (simp add: peek_def lru_get_def split: option.splits)
  show "peek hash (fst (Get hash c t)) u = peek hash c u" if "cache_inv c" for c t u
    using Get_contents(1) [OF that, of hash t]
    by (auto simp: peek_def lru_get_def map_of_without split: option.splits)
  show "peek hash (Put hash c t r p) u \<in> {None, peek hash c u}"
    if "cache_inv c" "hash t \<noteq> hash u" for c t u r p
    using that map_of_butlast [OF contents_distinct [OF that(1)], of "hash u"]
    by (auto simp: peek_def Put_refines lru_put_def map_of_without)
qed (simp_all add: cache_inv_intros peek_def Put_refines lru_put_def)

end
