(* ===== verification/GoRegexp.thy ===== *)
theory GoRegexp
  imports GoStrings
begin

text \<open>
  What the program uses of Go's package \<open>regexp\<close>: the syntax of its own patterns
  (\<open>Compile\<close>), leftmost-first matching, and the search for all matches
  (\<open>FindAllStringIndex(text, -1)\<close>).

  The syntax covers literals, classes, Perl classes, groups, the flags \<open>i\<close>, \<open>m\<close> and \<open>s\<close>,
  alternation, greedy and lazy repetition, and the assertions for line, text and word
  boundaries. RE2 has no look-around assertions: a group that opens with \<open>(?!\<close> or \<open>(?=\<close> is
  an error of \<open>Compile\<close>, as in the code.

  Matching works on runes. A state is the rune before the current position and the runes that
  follow, each with its byte position; \<open>ends\<close> lists the states in which a match that starts
  here can end, in order of preference. \<open>ends_iff\<close> shows that it lists exactly the states of
  the declarative relation \<open>matches\<close>; \<open>FindAll_props\<close> and \<open>FindAll_complete\<close> say that the
  search returns ascending matches inside the text and misses no position at which the pattern
  matches, except inside a match it returns.
\<close>

subsection \<open>Syntax\<close>

datatype regexp =
    REmpty
  | RClass bool "(nat \<times> nat) list"
  | RCat regexp regexp
  | RAlt regexp regexp
  | RRep regexp nat "nat option" bool
  | RBeginText
  | REndText
  | RBeginLine
  | REndLine
  | RWordBoundary
  | RNoWordBoundary

record re_flags =
  FoldCase :: bool
  DotNL :: bool
  MultiLine :: bool

definition no_flags :: re_flags where
  "no_flags = \<lparr>FoldCase = False, DotNL = False, MultiLine = False\<rparr>"

text \<open>Simple case folding of the ranges of a class: the orbits of k and s leave ASCII.\<close>

definition fold_range :: "nat \<times> nat \<Rightarrow> (nat \<times> nat) list" where
  "fold_range ab =
     (let (a, b) = ab;
          up = (max a 97, min b 122); lo = (max a 65, min b 90);
          has = (\<lambda>r. a \<le> r \<and> r \<le> b)
      in [ab] @
         (if fst up \<le> snd up then [(fst up - 32, snd up - 32)] else []) @
         (if fst lo \<le> snd lo then [(fst lo + 32, snd lo + 32)] else []) @
         (if has 75 \<or> has 107 then [(0x212A, 0x212A)] else []) @
         (if has 83 \<or> has 115 then [(0x17F, 0x17F)] else []))"

definition fold_ranges :: "re_flags \<Rightarrow> (nat \<times> nat) list \<Rightarrow> (nat \<times> nat) list" where
  "fold_ranges fl rs = (if FoldCase fl then concat (map fold_range rs) else rs)"

definition max_rune :: nat where
  "max_rune = 0x10FFFF"

text \<open>The ranges of a Perl class and of its complement.\<close>

definition perl_class :: "char \<Rightarrow> (nat \<times> nat) list option" where
  "perl_class c =
     (if c = CHR ''d'' then Some [(48, 57)]
      else if c = CHR ''D'' then Some [(0, 47), (58, max_rune)]
      else if c = CHR ''s'' then Some [(9, 10), (12, 13), (32, 32)]
      else if c = CHR ''S'' then Some [(0, 8), (11, 11), (14, 31), (33, max_rune)]
      else if c = CHR ''w'' then Some [(48, 57), (65, 90), (95, 95), (97, 122)]
      else if c = CHR ''W'' then Some [(0, 47), (58, 64), (91, 94), (96, 96), (123, max_rune)]
      else None)"

definition char_between :: "char \<Rightarrow> char \<Rightarrow> char \<Rightarrow> bool" where
  "char_between a b c \<longleftrightarrow> (of_char a :: nat) \<le> of_char c \<and> (of_char c :: nat) \<le> of_char b"

definition is_digit :: "char \<Rightarrow> bool" where
  "is_digit c \<longleftrightarrow> char_between CHR ''0'' CHR ''9'' c"

definition is_alnum :: "char \<Rightarrow> bool" where
  "is_alnum c \<longleftrightarrow> is_digit c \<or> char_between CHR ''a'' CHR ''z'' c \<or> char_between CHR ''A'' CHR ''Z'' c"

text \<open>The character after a backslash as a literal.\<close>

definition escaped :: "char \<Rightarrow> nat option" where
  "escaped c =
     (if of_char c < (0x80 :: nat) \<and> \<not> is_alnum c then Some (of_char c)
      else if c = CHR ''n'' then Some 10
      else if c = CHR ''t'' then Some 9
      else if c = CHR ''r'' then Some 13
      else if c = CHR ''f'' then Some 12
      else if c = CHR ''v'' then Some 11
      else None)"

definition backslash :: char where
  "backslash = CHR 0x5C"

text \<open>One literal rune inside a class.\<close>

fun class_char :: "string \<Rightarrow> (nat \<times> string) option" where
  "class_char [] = None"
| "class_char [c] = (if c = backslash then None else Some (of_char c, []))"
| "class_char (c # d # s) =
     (if c = backslash then (case escaped d of None \<Rightarrow> None | Some r \<Rightarrow> Some (r, s))
      else Some (of_char c, d # s))"

text \<open>One item of a class: a Perl class, a range, or a single rune.\<close>

definition class_item :: "string \<Rightarrow> ((nat \<times> nat) list \<times> string) option" where
  "class_item s =
     (case (case s of c # d # t \<Rightarrow> if c = backslash then map_option (\<lambda>rs. (rs, t)) (perl_class d) else None
            | _ \<Rightarrow> None) of
        Some r \<Rightarrow> Some r
      | None \<Rightarrow>
          (case class_char s of
             None \<Rightarrow> None
           | Some (lo, s') \<Rightarrow>
               (case s' of
                  d # e # t \<Rightarrow>
                    if d = CHR ''-'' \<and> e \<noteq> CHR '']''
                    then (case class_char (e # t) of
                            None \<Rightarrow> None
                          | Some (hi, s'') \<Rightarrow> if hi < lo then None else Some ([(lo, hi)], s''))
                    else Some ([(lo, lo)], s')
                | _ \<Rightarrow> Some ([(lo, lo)], s'))))"

text \<open>The items up to the closing bracket; \<open>first\<close> allows a leading literal bracket.\<close>

fun class_items :: "nat \<Rightarrow> bool \<Rightarrow> string \<Rightarrow> ((nat \<times> nat) list \<times> string) option" where
  "class_items 0 first s = None"
| "class_items (Suc k) first s =
     (case s of
        [] \<Rightarrow> None
      | c # t \<Rightarrow>
          if c = CHR '']'' \<and> \<not> first then Some ([], t)
          else (case class_item s of
                  None \<Rightarrow> None
                | Some (rs, s') \<Rightarrow>
                    map_option (\<lambda>(rs', u). (rs @ rs', u)) (class_items k False s')))"

text \<open>A class after its opening bracket.\<close>

definition parse_class :: "re_flags \<Rightarrow> string \<Rightarrow> (regexp \<times> string) option" where
  "parse_class fl s =
     (let neg = (s \<noteq> [] \<and> hd s = CHR ''^''); s' = (if neg then tl s else s)
      in map_option (\<lambda>(rs, t). (RClass neg (fold_ranges fl rs), t)) (class_items (length s) True s'))"

text \<open>Decimal digits of a repetition count.\<close>

definition read_nat :: "string \<Rightarrow> (nat \<times> string) option" where
  "read_nat s =
     (let ds = takeWhile is_digit s
      in if ds = [] then None
         else Some (foldl (\<lambda>n c. n * 10 + (of_char c - 48)) 0 ds, dropWhile is_digit s))"

text \<open>A repetition in braces after the opening brace, or \<open>None\<close> when the brace is a literal.\<close>

definition read_braces :: "string \<Rightarrow> (nat \<times> nat option \<times> string) option" where
  "read_braces s =
     (case read_nat s of
        None \<Rightarrow> None
      | Some (lo, s1) \<Rightarrow>
          (case s1 of
             [] \<Rightarrow> None
           | c # s2 \<Rightarrow>
               if c = CHR ''}'' then Some (lo, Some lo, s2)
               else if c = CHR '','' then
                 (case s2 of
                    [] \<Rightarrow> None
                  | d # s3 \<Rightarrow>
                      if d = CHR ''}'' then Some (lo, None, s3)
                      else (case read_nat s2 of
                              Some (hi, e # s4) \<Rightarrow>
                                if e = CHR ''}'' then Some (lo, Some hi, s4) else None
                            | _ \<Rightarrow> None))
               else None))"

text \<open>The repetition operator at the head of \<open>s\<close>: bounds and what follows.\<close>

definition read_postfix :: "string \<Rightarrow> (nat \<times> nat option \<times> string) option" where
  "read_postfix s =
     (case s of
        [] \<Rightarrow> None
      | c # t \<Rightarrow>
          if c = CHR ''*'' then Some (0, None, t)
          else if c = CHR ''+'' then Some (1, None, t)
          else if c = CHR ''?'' then Some (0, Some 1, t)
          else if c = CHR ''{'' then read_braces t
          else None)"

definition max_repeat :: nat where
  "max_repeat = 1000"

definition apply_postfix :: "regexp \<Rightarrow> string \<Rightarrow> (regexp \<times> string) option" where
  "apply_postfix r s =
     (case read_postfix s of
        None \<Rightarrow> Some (r, s)
      | Some (lo, hi, t) \<Rightarrow>
          (let lazy = (t \<noteq> [] \<and> hd t = CHR ''?''); t' = (if lazy then tl t else t)
           in if lo > max_repeat \<or> (case hi of None \<Rightarrow> False | Some h \<Rightarrow> h > max_repeat \<or> h < lo) \<or>
                 read_postfix t' \<noteq> None
              then None else Some (RRep r lo hi (\<not> lazy), t')))"

text \<open>The letters of a flag group, up to its colon or closing parenthesis.\<close>

fun read_flags :: "re_flags \<Rightarrow> string \<Rightarrow> (re_flags \<times> char \<times> string) option" where
  "read_flags fl [] = None"
| "read_flags fl (c # s) =
     (if c = CHR ''i'' then read_flags (fl\<lparr>FoldCase := True\<rparr>) s
      else if c = CHR ''s'' then read_flags (fl\<lparr>DotNL := True\<rparr>) s
      else if c = CHR ''m'' then read_flags (fl\<lparr>MultiLine := True\<rparr>) s
      else if c = CHR '':'' \<or> c = CHR '')'' then Some (fl, c, s)
      else None)"

definition parse_escape :: "re_flags \<Rightarrow> string \<Rightarrow> (regexp \<times> string) option" where
  "parse_escape fl s =
     (case s of
        [] \<Rightarrow> None
      | c # t \<Rightarrow>
          if c = CHR ''b'' then Some (RWordBoundary, t)
          else if c = CHR ''B'' then Some (RNoWordBoundary, t)
          else if c = CHR ''A'' then Some (RBeginText, t)
          else if c = CHR ''z'' then Some (REndText, t)
          else (case perl_class c of
                  Some rs \<Rightarrow> Some (RClass False (fold_ranges fl rs), t)
                | None \<Rightarrow> map_option (\<lambda>r. (RClass False [(r, r)], t)) (escaped c)))"

fun parse_alt :: "nat \<Rightarrow> re_flags \<Rightarrow> string \<Rightarrow> (regexp \<times> re_flags \<times> string) option"
  and parse_cat :: "nat \<Rightarrow> re_flags \<Rightarrow> string \<Rightarrow> (regexp \<times> re_flags \<times> string) option"
  and parse_atom :: "nat \<Rightarrow> re_flags \<Rightarrow> string \<Rightarrow> (regexp \<times> re_flags \<times> string) option" where
  "parse_alt 0 fl s = None"
| "parse_alt (Suc k) fl s =
     (case parse_cat k fl s of
        None \<Rightarrow> None
      | Some (r, fl', s') \<Rightarrow>
          (case s' of
             [] \<Rightarrow> Some (r, fl', [])
           | c # t \<Rightarrow>
               if c = CHR ''|''
               then map_option (\<lambda>(r', x). (RAlt r r', x)) (parse_alt k fl' t)
               else Some (r, fl', s')))"
| "parse_cat 0 fl s = None"
| "parse_cat (Suc k) fl s =
     (case s of
        [] \<Rightarrow> Some (REmpty, fl, [])
      | c # _ \<Rightarrow>
          if c = CHR ''|'' \<or> c = CHR '')'' then Some (REmpty, fl, s)
          else (case parse_atom k fl s of
                  None \<Rightarrow> None
                | Some (r, fl', s') \<Rightarrow>
                    (case apply_postfix r s' of
                       None \<Rightarrow> None
                     | Some (r', s'') \<Rightarrow>
                         map_option (\<lambda>(r'', x). (RCat r' r'', x)) (parse_cat k fl' s''))))"
| "parse_atom 0 fl s = None"
| "parse_atom (Suc k) fl s =
     (case s of
        [] \<Rightarrow> None
      | c # t \<Rightarrow>
          if c = CHR ''('' then
            (case (if t \<noteq> [] \<and> hd t = CHR ''?'' then read_flags fl (tl t) else Some (fl, CHR '':'', t)) of
               None \<Rightarrow> None
             | Some (fl', d, u) \<Rightarrow>
                 if d = CHR '')'' then Some (REmpty, fl', u)
                 else (case parse_alt k fl' u of
                         Some (r, _, e # v) \<Rightarrow> if e = CHR '')'' then Some (r, fl, v) else None
                       | _ \<Rightarrow> None))
          else if c = CHR ''['' then map_option (\<lambda>(r, u). (r, fl, u)) (parse_class fl t)
          else if c = CHR ''.''
          then Some (if DotNL fl then RClass True [] else RClass True [(10, 10)], fl, t)
          else if c = CHR ''^'' then Some (if MultiLine fl then RBeginLine else RBeginText, fl, t)
          else if c = CHR ''$'' then Some (if MultiLine fl then REndLine else REndText, fl, t)
          else if c = backslash then map_option (\<lambda>(r, u). (r, fl, u)) (parse_escape fl t)
          else if c \<in> set ''*+?'' then None
          else Some (RClass False (fold_ranges fl [(of_char c, of_char c)]), fl, t))"

text \<open>
  \<open>regexp.Compile\<close>; \<open>None\<close> is its error. Every call of the three parsers is made on a text
  that is shorter, or at the same text one level further down, so three units of fuel for each
  character are enough.
\<close>

definition Compile :: "string \<Rightarrow> regexp option" where
  "Compile pattern =
     (case parse_alt (3 * length pattern + 3) no_flags pattern of
        Some (r, _, []) \<Rightarrow> Some r
      | _ \<Rightarrow> None)"

subsection \<open>The fuel of the parser\<close>

lemma class_char_shorter: "class_char s = Some (r, s') \<Longrightarrow> length s' < length s"
  by (induction s rule: class_char.induct) (auto split: if_splits option.splits)

lemma class_item_shorter: "class_item s = Some (rs, s') \<Longrightarrow> length s' < length s"
  by (force simp: class_item_def split: if_splits option.splits list.splits prod.splits
      dest!: class_char_shorter)

lemma class_items_shorter: "class_items k f s = Some (rs, s') \<Longrightarrow> length s' < length s"
  by (induction k f s arbitrary: rs s' rule: class_items.induct)
     (fastforce split: if_splits option.splits list.splits prod.splits dest!: class_item_shorter)+

lemma parse_class_shorter: "parse_class fl s = Some (r, s') \<Longrightarrow> length s' < length s"
  by (cases s)
     (auto simp: parse_class_def Let_def simp del: class_items.simps split: if_splits
       dest!: class_items_shorter)

lemma read_nat_shorter: "read_nat s = Some (n, s') \<Longrightarrow> length s' \<le> length s"
  by (auto simp: read_nat_def Let_def length_dropWhile_le split: if_splits)

lemma read_postfix_shorter: "read_postfix s = Some (lo, hi, s') \<Longrightarrow> length s' < length s"
  by (force simp: read_postfix_def read_braces_def split: if_splits option.splits list.splits prod.splits
      dest!: read_nat_shorter)

lemma apply_postfix_shorter: "apply_postfix r s = Some (r', s') \<Longrightarrow> length s' \<le> length s"
  by (auto simp: apply_postfix_def Let_def split: if_splits option.splits prod.splits
      dest!: read_postfix_shorter)

lemma read_flags_shorter: "read_flags fl s = Some (fl', c, s') \<Longrightarrow> length s' < length s"
  by (induction fl s rule: read_flags.induct) (auto split: if_splits)

lemma parse_escape_shorter: "parse_escape fl s = Some (r, s') \<Longrightarrow> length s' < length s"
  by (auto simp: parse_escape_def split: if_splits option.splits list.splits)

lemma parse_shorter:
  "parse_alt k fl s = Some (r, fl', s') \<Longrightarrow> length s' \<le> length s"
  "parse_cat k fl s = Some (r, fl', s') \<Longrightarrow> length s' \<le> length s"
  "parse_atom k fl s = Some (r, fl', s') \<Longrightarrow> length s' < length s"
proof (induction k arbitrary: fl s r fl' s')
  case (Suc k)
  note IH = Suc.IH
  show "parse_alt (Suc k) fl s = Some (r, fl', s') \<Longrightarrow> length s' \<le> length s" for fl s r fl' s'
    by (fastforce split: if_splits option.splits list.splits prod.splits dest!: IH(1,2))
  show "parse_cat (Suc k) fl s = Some (r, fl', s') \<Longrightarrow> length s' \<le> length s" for fl s r fl' s'
    by (fastforce split: if_splits option.splits list.splits prod.splits
        dest!: IH(2,3) apply_postfix_shorter)
  show "parse_atom (Suc k) fl s = Some (r, fl', s') \<Longrightarrow> length s' < length s" for fl s r fl' s'
    by (cases s) (fastforce split: if_splits option.splits list.splits prod.splits
        dest!: IH(1) read_flags_shorter parse_class_shorter parse_escape_shorter)+
qed auto

lemma parse_fuel_step:
  "3 * length s + 3 \<le> k \<Longrightarrow> parse_alt (Suc k) fl s = parse_alt k fl s"
  "3 * length s + 2 \<le> k \<Longrightarrow> parse_cat (Suc k) fl s = parse_cat k fl s"
  "3 * length s + 1 \<le> k \<Longrightarrow> parse_atom (Suc k) fl s = parse_atom k fl s"
proof (induction k arbitrary: fl s)
  case (Suc k)
  show "parse_alt (Suc (Suc k)) fl s = parse_alt (Suc k) fl s"
    if "3 * length s + 3 \<le> Suc k" for fl s
  proof -
    have "parse_alt (Suc k) fl' t = parse_alt k fl' t"
      if "parse_cat k fl s = Some (r, fl', c # t)" for r fl' c t
      using parse_shorter(2) [OF that] \<open>3 * length s + 3 \<le> Suc k\<close> by (intro Suc.IH(1)) simp
    then show ?thesis
      using Suc.IH(2) [of s fl] that
      by (simp del: parse_cat.simps parse_alt.simps add: parse_alt.simps(2) split: option.split list.split)
  qed
  show "parse_cat (Suc (Suc k)) fl s = parse_cat (Suc k) fl s"
    if "3 * length s + 2 \<le> Suc k" for fl s
  proof -
    have "parse_cat (Suc k) fl' s'' = parse_cat k fl' s''"
      if "parse_atom k fl s = Some (r, fl', s')" "apply_postfix r s' = Some (r', s'')" for r r' fl' s' s''
      using parse_shorter(3) [OF that(1)] apply_postfix_shorter [OF that(2)]
        \<open>3 * length s + 2 \<le> Suc k\<close> by (intro Suc.IH(2)) simp
    then show ?thesis
      using Suc.IH(3) [of s fl] that
      by (simp del: parse_cat.simps parse_atom.simps add: parse_cat.simps(2) split: option.split list.split)
  qed
  show "parse_atom (Suc (Suc k)) fl s = parse_atom (Suc k) fl s"
    if "3 * length s + 1 \<le> Suc k" for fl s
  proof -
    have "parse_alt (Suc k) fl' u = parse_alt k fl' u" if "length u < length s" for fl' u
      using that \<open>3 * length s + 1 \<le> Suc k\<close> by (intro Suc.IH(1)) simp
    then show ?thesis
      by (cases s)
         (auto simp del: parse_alt.simps simp add: parse_atom.simps(2) neq_Nil_conv
           split: option.split dest!: read_flags_shorter)
  qed
qed auto

text \<open>The fuel of \<open>Compile\<close> is enough: more of it never changes the result.\<close>

lemma Compile_fuel:
  assumes "3 * length pattern + 3 \<le> k"
  shows "parse_alt k no_flags pattern = parse_alt (3 * length pattern + 3) no_flags pattern"
  using assms
proof (induction k rule: dec_induct)
  case (step m)
  then show ?case using parse_fuel_step(1) [of pattern m] by simp
qed simp

subsection \<open>Matching\<close>

type_synonym re_state = "nat option \<times> (int \<times> nat) list"

definition is_word :: "nat \<Rightarrow> bool" where
  "is_word r \<longleftrightarrow> rune_between 48 57 r \<or> rune_between 65 90 r \<or> r = 95 \<or> rune_between 97 122 r"

definition in_class :: "bool \<Rightarrow> (nat \<times> nat) list \<Rightarrow> nat \<Rightarrow> bool" where
  "in_class neg rs r \<longleftrightarrow> list_ex (\<lambda>(a, b). a \<le> r \<and> r \<le> b) rs \<noteq> neg"

definition at_word_boundary :: "re_state \<Rightarrow> bool" where
  "at_word_boundary st \<longleftrightarrow>
     (case fst st of None \<Rightarrow> False | Some r \<Rightarrow> is_word r) \<noteq>
     (case snd st of [] \<Rightarrow> False | ir # _ \<Rightarrow> is_word (snd ir))"

definition at_begin_line :: "re_state \<Rightarrow> bool" where
  "at_begin_line st \<longleftrightarrow> (case fst st of None \<Rightarrow> True | Some r \<Rightarrow> r = 10)"

definition at_end_line :: "re_state \<Rightarrow> bool" where
  "at_end_line st \<longleftrightarrow> (case snd st of [] \<Rightarrow> True | ir # _ \<Rightarrow> snd ir = 10)"

text \<open>Up to \<open>k\<close> further repetitions of \<open>f\<close>, longest first when greedy.\<close>

fun iter_ends :: "bool \<Rightarrow> ('s \<Rightarrow> 's list) \<Rightarrow> nat \<Rightarrow> 's \<Rightarrow> 's list" where
  "iter_ends greedy f 0 st = [st]"
| "iter_ends greedy f (Suc k) st =
     (let more = concat (map (iter_ends greedy f k) (f st))
      in if greedy then more @ [st] else st # more)"

fun exact_ends :: "('s \<Rightarrow> 's list) \<Rightarrow> nat \<Rightarrow> 's \<Rightarrow> 's list" where
  "exact_ends f 0 st = [st]"
| "exact_ends f (Suc k) st = concat (map (exact_ends f k) (f st))"

text \<open>
  An unbounded repetition takes only steps that consume a rune; the number of runes that
  are left bounds their number.
\<close>

definition progress :: "(re_state \<Rightarrow> re_state list) \<Rightarrow> re_state \<Rightarrow> re_state list" where
  "progress f st = filter (\<lambda>st'. length (snd st') < length (snd st)) (f st)"

primrec ends :: "regexp \<Rightarrow> re_state \<Rightarrow> re_state list" where
  "ends REmpty st = [st]"
| "ends (RClass neg rs) st =
     (case snd st of
        [] \<Rightarrow> []
      | ir # rest \<Rightarrow> if in_class neg rs (snd ir) then [(Some (snd ir), rest)] else [])"
| "ends (RCat r r') st = concat (map (ends r') (ends r st))"
| "ends (RAlt r r') st = ends r st @ ends r' st"
| "ends (RRep r lo hi greedy) st =
     concat (map (\<lambda>st'. case hi of
                    Some h \<Rightarrow> iter_ends greedy (ends r) (h - lo) st'
                  | None \<Rightarrow> iter_ends greedy (progress (ends r)) (length (snd st')) st')
               (exact_ends (ends r) lo st))"
| "ends RBeginText st = (if fst st = None then [st] else [])"
| "ends REndText st = (if snd st = [] then [st] else [])"
| "ends RBeginLine st = (if at_begin_line st then [st] else [])"
| "ends REndLine st = (if at_end_line st then [st] else [])"
| "ends RWordBoundary st = (if at_word_boundary st then [st] else [])"
| "ends RNoWordBoundary st = (if at_word_boundary st then [] else [st])"

text \<open>The byte position of a state in a text of \<open>n\<close> bytes.\<close>

definition byte_pos :: "int \<Rightarrow> re_state \<Rightarrow> int" where
  "byte_pos n st = (case snd st of [] \<Rightarrow> n | ir # _ \<Rightarrow> fst ir)"

text \<open>
  The search for all matches from left to right: positions before \<open>nxt\<close> are skipped, and an
  empty match is not reported where the previous match ended.
\<close>

fun all_from ::
  "regexp \<Rightarrow> int \<Rightarrow> int \<Rightarrow> int \<Rightarrow> nat option \<Rightarrow> (int \<times> nat) list \<Rightarrow> (int \<times> int) list" where
  "all_from re n nxt prevEnd prev [] =
     (if n < nxt \<or> ends re (prev, []) = [] \<or> n = prevEnd then [] else [(n, n)])"
| "all_from re n nxt prevEnd prev (ir # rest) =
     (if fst ir < nxt then all_from re n nxt prevEnd (Some (snd ir)) rest
      else case ends re (prev, ir # rest) of
             [] \<Rightarrow> all_from re n nxt prevEnd (Some (snd ir)) rest
           | st # _ \<Rightarrow>
               let e = byte_pos n st
               in if e = fst ir
                  then (if e = prevEnd then [] else [(e, e)]) @
                       all_from re n nxt e (Some (snd ir)) rest
                  else (fst ir, e) # all_from re n e e (Some (snd ir)) rest)"

definition FindAllStringIndex :: "regexp \<Rightarrow> string \<Rightarrow> (int \<times> int) list" where
  "FindAllStringIndex re text = all_from re (go_len text) 0 (- 1) None (go_range text)"

subsection \<open>The declarative semantics\<close>

definition step_rune :: "re_state rel" where
  "step_rune = {((p, (i, r) # rest), (Some r, rest)) | p i r rest. True}"

definition assertion :: "(re_state \<Rightarrow> bool) \<Rightarrow> re_state rel" where
  "assertion P = {(st, st) | st. P st}"

primrec matches :: "regexp \<Rightarrow> re_state rel" where
  "matches REmpty = Id"
| "matches (RClass neg rs) = {(st, st') \<in> step_rune. in_class neg rs (snd (hd (snd st)))}"
| "matches (RCat r r') = matches r O matches r'"
| "matches (RAlt r r') = matches r \<union> matches r'"
| "matches (RRep r lo hi greedy) =
     (case hi of
        None \<Rightarrow> (\<Union>k \<in> {lo..}. matches r ^^ k)
      | Some h \<Rightarrow> (\<Union>k \<in> {lo..max lo h}. matches r ^^ k))"
| "matches RBeginText = assertion (\<lambda>st. fst st = None)"
| "matches REndText = assertion (\<lambda>st. snd st = [])"
| "matches RBeginLine = assertion at_begin_line"
| "matches REndLine = assertion at_end_line"
| "matches RWordBoundary = assertion at_word_boundary"
| "matches RNoWordBoundary = assertion (\<lambda>st. \<not> at_word_boundary st)"

lemma step_rune_iff [simp]:
  "(st, st') \<in> step_rune \<longleftrightarrow> (\<exists>ir rest. snd st = ir # rest \<and> st' = (Some (snd ir), rest))"
  by (cases st) (auto simp: step_rune_def)

lemma assertion_iff [simp]: "(st, st') \<in> assertion P \<longleftrightarrow> st' = st \<and> P st"
  unfolding assertion_def by blast

lemma relpow_step: "(x, z) \<in> R ^^ Suc n \<longleftrightarrow> (\<exists>y. (x, y) \<in> R \<and> (y, z) \<in> R ^^ n)"
  using relpow_commute [of R n] by (simp flip: relpow_commute) blast

lemma later_shorter:
  "(st, st') \<in> step_rune\<^sup>* \<Longrightarrow> st' = st \<or> length (snd st') < length (snd st)"
  by (induction rule: rtrancl_induct) auto

lemma later_suffix: "(st, st') \<in> step_rune\<^sup>* \<Longrightarrow> \<exists>xs. snd st = xs @ snd st'"
proof (induction rule: rtrancl_induct)
  case (step y z)
  then obtain xs ir where "snd st = xs @ snd y" "snd y = ir # snd z" by auto
  then have "snd st = (xs @ [ir]) @ snd z" by simp
  then show ?case by blast
qed simp

lemma matches_later: "matches r \<subseteq> step_rune\<^sup>*"
proof (induction r)
  case (RCat r r')
  then show ?case by (auto intro: rtrancl_trans)
next
  case (RRep r lo hi greedy)
  have "matches r ^^ k \<subseteq> step_rune\<^sup>*" for k
    using relpow_imp_rtrancl [of _ k "matches r"] rtrancl_subset_rtrancl [OF RRep] by blast
  then show ?case by (auto split: option.splits)
qed (auto simp: assertion_def)

lemma set_exact_ends:
  "st' \<in> set (exact_ends f k st) \<longleftrightarrow> (st, st') \<in> {(a, b). b \<in> set (f a)} ^^ k"
  by (induction k arbitrary: st) (auto simp: relpow_step simp del: relpow.simps(2))

lemma relpow_upto:
  "(\<exists>j \<le> Suc k. (x, z) \<in> R ^^ j) \<longleftrightarrow> z = x \<or> (\<exists>y. (x, y) \<in> R \<and> (\<exists>j \<le> k. (y, z) \<in> R ^^ j))"
proof
  assume "\<exists>j \<le> Suc k. (x, z) \<in> R ^^ j"
  then obtain j where j: "j \<le> Suc k" "(x, z) \<in> R ^^ j" by blast
  then show "z = x \<or> (\<exists>y. (x, y) \<in> R \<and> (\<exists>j \<le> k. (y, z) \<in> R ^^ j))"
    by (cases j) (auto simp: relpow_step simp del: relpow.simps(2))
next
  assume "z = x \<or> (\<exists>y. (x, y) \<in> R \<and> (\<exists>j \<le> k. (y, z) \<in> R ^^ j))"
  then show "\<exists>j \<le> Suc k. (x, z) \<in> R ^^ j"
    by (metis Suc_le_mono le0 pair_in_Id_conv relpow.simps(1) relpow_step)
qed

lemma set_iter_ends:
  "st' \<in> set (iter_ends g f k st) \<longleftrightarrow> (\<exists>j \<le> k. (st, st') \<in> {(a, b). b \<in> set (f a)} ^^ j)"
proof (induction k arbitrary: st)
  case (Suc k)
  have "st' \<in> set (iter_ends g f (Suc k) st) \<longleftrightarrow>
      st' = st \<or> (\<exists>x \<in> set (f st). st' \<in> set (iter_ends g f k x))"
    by (auto simp: Let_def)
  then show ?case unfolding relpow_upto Suc.IH by auto
qed auto

text \<open>Steps that consume nothing can be left out of an unbounded repetition.\<close>

definition shrinking :: "re_state rel \<Rightarrow> re_state rel" where
  "shrinking R = {(a, b) \<in> R. length (snd b) < length (snd a)}"

lemma relpow_progress:
  assumes "R \<subseteq> step_rune\<^sup>*" and "(st, st') \<in> R ^^ k"
  shows "\<exists>j \<le> length (snd st). (st, st') \<in> shrinking R ^^ j"
  using assms(2)
proof (induction k arbitrary: st)
  case 0
  then show ?case by (intro exI [of _ 0]) simp
next
  case (Suc k)
  from Suc.prems obtain x where x: "(st, x) \<in> R" "(x, st') \<in> R ^^ k"
    unfolding relpow_step by blast
  from Suc.IH [OF x(2)] obtain j where j: "j \<le> length (snd x)" "(x, st') \<in> shrinking R ^^ j" by blast
  from x(1) assms(1) have "(st, x) \<in> step_rune\<^sup>*" by blast
  from later_shorter [OF this] show ?case
  proof
    assume "length (snd x) < length (snd st)"
    then have "(st, x) \<in> shrinking R" "Suc j \<le> length (snd st)"
      using x(1) j(1) by (auto simp: shrinking_def)
    then show ?thesis using j(2) relpow_step [where R = "shrinking R" and n = j and x = st and z = st'] by blast
  qed (use j in blast)
qed

lemma relpow_shrinking: "(a, b) \<in> shrinking R ^^ j \<Longrightarrow> (a, b) \<in> R ^^ j"
  by (induction j arbitrary: b) (auto simp: shrinking_def)

lemma relpow_range:
  "(\<exists>x j. (st, x) \<in> R ^^ lo \<and> P j \<and> (x, st') \<in> R ^^ j) \<longleftrightarrow> (\<exists>j. P j \<and> (st, st') \<in> R ^^ (lo + j))"
  by (auto simp: relpow_add relcomp_unfold)

lemma range_shift: "(\<exists>j. j \<le> h - lo \<and> Q (lo + j)) \<longleftrightarrow> (\<exists>k \<in> {lo..max lo h}. Q k)"
  for h lo :: nat
proof
  assume "\<exists>j. j \<le> h - lo \<and> Q (lo + j)"
  then obtain j where "j \<le> h - lo" "Q (lo + j)" by blast
  then show "\<exists>k \<in> {lo..max lo h}. Q k" by (intro bexI [of _ "lo + j"]) auto
next
  assume "\<exists>k \<in> {lo..max lo h}. Q k"
  then obtain k where "lo \<le> k" "k \<le> max lo h" "Q k" by auto
  then show "\<exists>j. j \<le> h - lo \<and> Q (lo + j)" by (intro exI [of _ "k - lo"]) auto
qed

lemma ends_iff: "st' \<in> set (ends r st) \<longleftrightarrow> (st, st') \<in> matches r"
proof (induction r arbitrary: st st')
  case (RClass neg rs)
  then show ?case by (cases "snd st") auto
next
  case (RRep r lo hi greedy)
  have R: "{(a, b). b \<in> set (ends r a)} = matches r" using RRep by auto
  have P: "{(a, b). b \<in> set (progress (ends r) a)} = shrinking (matches r)"
    using RRep by (auto simp: progress_def shrinking_def)
  have star: "(\<exists>j \<le> length (snd x). (x, st') \<in> shrinking (matches r) ^^ j) \<longleftrightarrow>
      (\<exists>k. (x, st') \<in> matches r ^^ k)" for x
    by (blast dest: relpow_progress [OF matches_later [of r]] relpow_shrinking)
  show ?case
  proof (cases hi)
    case None
    have "st' \<in> set (ends (RRep r lo hi greedy) st) \<longleftrightarrow>
        (\<exists>x. (st, x) \<in> matches r ^^ lo \<and>
          (\<exists>j \<le> length (snd x). (x, st') \<in> shrinking (matches r) ^^ j))"
      using None by (simp add: Bex_def set_exact_ends set_iter_ends R P)
    also have "\<dots> \<longleftrightarrow> (\<exists>x k. (st, x) \<in> matches r ^^ lo \<and> True \<and> (x, st') \<in> matches r ^^ k)"
      by (simp add: star)
    also have "\<dots> \<longleftrightarrow> (st, st') \<in> matches (RRep r lo hi greedy)"
      unfolding relpow_range using None by (auto simp: Bex_def le_iff_add)
    finally show ?thesis .
  next
    case (Some h)
    have "st' \<in> set (ends (RRep r lo hi greedy) st) \<longleftrightarrow>
        (\<exists>x j. (st, x) \<in> matches r ^^ lo \<and> j \<le> h - lo \<and> (x, st') \<in> matches r ^^ j)"
      using Some by (simp add: Bex_def set_exact_ends set_iter_ends R)
    also have "\<dots> \<longleftrightarrow> (st, st') \<in> matches (RRep r lo hi greedy)"
    proof -
      from range_shift [of h lo "\<lambda>k. (st, st') \<in> matches r ^^ k"] show ?thesis
        unfolding relpow_range using Some by simp
    qed
    finally show ?thesis .
  qed
qed (auto simp: at_word_boundary_def)

lemma ends_later: "st' \<in> set (ends r st) \<Longrightarrow> (st, st') \<in> step_rune\<^sup>*"
  using matches_later by (auto simp: ends_iff)

lemma exact_ends_class:
  "list_all (in_class neg rs) (map snd xs) \<Longrightarrow>
   \<exists>q. exact_ends (ends (RClass neg rs)) (length xs) (p, xs @ rest) = [(q, rest)]"
  by (induction xs arbitrary: p) auto

subsection \<open>The matches that are found\<close>

text \<open>The byte positions of the remaining runes ascend up to the end of the text.\<close>

definition positioned :: "int \<Rightarrow> (int \<times> nat) list \<Rightarrow> bool" where
  "positioned n rest \<longleftrightarrow> sorted_wrt (<) (map fst rest @ [n])"

lemma positioned_simps [simp]:
  "positioned n []" "positioned n (ir # rest) \<longleftrightarrow> fst ir < byte_pos n (p, rest) \<and> positioned n rest"
  by (auto simp: positioned_def byte_pos_def split: list.splits)

lemma positioned_range_from: "positioned (i + go_len s) (range_from i s) \<and>
  byte_pos (i + go_len s) (p, range_from i s) = i"
proof (induction i s rule: range_from.induct)
  case (1 i s)
  show ?case
  proof (cases "s = []")
    case False
    note w = decode_rune_width [OF False]
    let ?w = "snd (decode_rune s)"
    have n: "i + int ?w + go_len (drop ?w s) = i + go_len s"
      using w by (simp add: go_len_def)
    show ?thesis
      using 1 [OF False, unfolded n] w range_from_rec [OF False, of i]
      by (simp add: byte_pos_def [of _ "(_, _ # _)"] positioned_simps(2) [of _ _ _ p])
  qed (simp add: byte_pos_def)
qed

lemma positioned_suffix: "positioned n (xs @ ys) \<Longrightarrow> positioned n ys"
  by (induction xs) (auto simp: positioned_simps(2) [of _ _ _ None])

lemma positioned_bounds:
  "positioned n rest \<Longrightarrow> ir \<in> set rest \<Longrightarrow> byte_pos n (p, rest) \<le> fst ir \<and> fst ir < n"
  by (cases rest) (auto simp: positioned_def byte_pos_def sorted_wrt_append)

lemma byte_pos_le:
  assumes "positioned n (snd st)" "(st, st') \<in> step_rune\<^sup>*"
  shows "byte_pos n st \<le> byte_pos n st' \<and> byte_pos n st' \<le> n"
proof -
  obtain xs where xs: "snd st = xs @ snd st'" using later_suffix [OF assms(2)] by blast
  show ?thesis
  proof (cases "snd st'")
    case Nil
    then show ?thesis using xs assms(1)
      by (cases "snd st") (auto simp: byte_pos_def positioned_def)
  next
    case (Cons ir rest)
    then show ?thesis
      using positioned_bounds [OF assms(1), of ir "fst st"] xs by (auto simp: byte_pos_def)
  qed
qed

lemma all_from_props:
  "positioned n rest \<Longrightarrow> (a, b) \<in> set (all_from re n nxt pe prev rest) \<Longrightarrow>
   byte_pos n (prev, rest) \<le> a \<and> nxt \<le> a \<and> a \<le> b \<and> b \<le> n"
proof (induction rest arbitrary: nxt pe prev)
  case Nil
  then show ?case by (auto simp: byte_pos_def split: if_splits)
next
  case (Cons ir rest)
  have pos: "positioned n rest" "fst ir < byte_pos n (Some (snd ir), rest)"
    using Cons.prems(1) by (simp_all add: positioned_simps(2) [of _ _ _ "Some (snd ir)"])
  have e: "fst ir \<le> byte_pos n st \<and> byte_pos n st \<le> n"
    if "ends re (prev, ir # rest) = st # sts" for st sts
    using byte_pos_le [of n "(prev, ir # rest)" st] Cons.prems(1)
      ends_later [of st re "(prev, ir # rest)"] that by (simp add: byte_pos_def)
  show ?case
    using Cons.prems(2) e pos
    by (auto simp: Let_def byte_pos_def [of _ "(_, _ # _)"] split: if_splits list.splits
        dest!: Cons.IH [OF pos(1)])
qed

lemma all_from_sorted:
  "positioned n rest \<Longrightarrow> sorted_wrt (\<lambda>x y. snd x \<le> fst y) (all_from re n nxt pe prev rest)"
proof (induction rest arbitrary: nxt pe prev)
  case (Cons ir rest)
  have pos: "positioned n rest" "fst ir < byte_pos n (Some (snd ir), rest)"
    using Cons.prems(1) by (simp_all add: positioned_simps(2) [of _ _ _ "Some (snd ir)"])
  show ?case
    using Cons.IH [OF pos(1)] pos(2)
    by (auto simp: Let_def split: list.splits dest!: all_from_props [OF pos(1)])
qed auto

lemma all_from_complete:
  assumes "positioned n (xs @ ir # ys)" "nxt \<le> fst ir"
    and "ends re (if xs = [] then prev else Some (snd (last xs)), ir # ys) = st # sts"
    and "byte_pos n st \<noteq> fst ir"
  shows "\<exists>(a, b) \<in> set (all_from re n nxt pe prev (xs @ ir # ys)). a \<le> fst ir \<and> fst ir < b"
  using assms
proof (induction xs arbitrary: nxt pe prev)
  case Nil
  have "fst ir \<le> byte_pos n st"
    using byte_pos_le [of n "(prev, ir # ys)" st] Nil.prems
      ends_later [of st re "(prev, ir # ys)"] by (simp add: byte_pos_def)
  then show ?case using Nil.prems by (simp add: Let_def)
next
  case (Cons x xs)
  have pos: "positioned n (xs @ ir # ys)" "fst x < fst ir"
    using Cons.prems(1) positioned_bounds [OF Cons.prems(1), of x None]
    by (auto simp: positioned_def)
  have IH: "nxt' \<le> fst ir \<Longrightarrow>
      \<exists>(a, b) \<in> set (all_from re n nxt' pe' (Some (snd x)) (xs @ ir # ys)). a \<le> fst ir \<and> fst ir < b"
    for nxt' pe'
    using Cons.IH [OF pos(1)] Cons.prems(3,4) by (simp split: if_splits)
  show ?case
  proof (cases "ends re (prev, x # xs @ ir # ys)")
    case (Cons t ts)
    then show ?thesis
      using IH [of nxt] IH [of nxt "byte_pos n t"] IH [of "byte_pos n t" "byte_pos n t"] Cons.prems(2) pos(2)
      by (cases "byte_pos n t \<le> fst ir") (auto simp: Let_def)
  qed (use IH Cons.prems in simp)
qed

lemmas positioned_go_range =
  positioned_range_from [of 0 "text", unfolded add_0, folded go_range_def] for "text"

lemma FindAll_props:
  assumes "(a, b) \<in> set (FindAllStringIndex re text)"
  shows "0 \<le> a \<and> a \<le> b \<and> b \<le> go_len text"
  using all_from_props [OF conjunct1 [OF positioned_go_range] assms [unfolded FindAllStringIndex_def]]
  by auto

lemma FindAll_sorted: "sorted_wrt (\<lambda>x y. snd x \<le> fst y) (FindAllStringIndex re text)"
  unfolding FindAllStringIndex_def by (rule all_from_sorted [OF conjunct1 [OF positioned_go_range]])

lemma FindAll_complete:
  assumes "go_range text = xs @ ir # ys"
    and "ends re (if xs = [] then None else Some (snd (last xs)), ir # ys) = st # sts"
    and "byte_pos (go_len text) st \<noteq> fst ir"
  shows "\<exists>(a, b) \<in> set (FindAllStringIndex re text). a \<le> fst ir \<and> fst ir < b"
proof -
  have pos: "positioned (go_len text) (xs @ ir # ys)"
    using positioned_go_range [of "text"] by (simp add: assms(1))
  have "0 \<le> byte_pos (go_len text) (None, xs @ ir # ys)"
    using positioned_go_range [of "text" None] by (simp add: assms(1))
  then have "0 \<le> fst ir" using positioned_bounds [OF pos, of ir None] by simp
  then show ?thesis
    using all_from_complete [OF pos _ assms(2,3)] by (simp add: FindAllStringIndex_def assms(1))
qed

subsection \<open>Every match that is found is a match\<close>

lemma later_bytes:
  assumes "(st, st') \<in> matches r" "snd st = range_from i s"
  shows "\<exists>pre post. s = pre @ post \<and> snd st' = range_from (i + go_len pre) post"
proof -
  obtain xs where "snd st = xs @ snd st'" using later_suffix assms(1) matches_later by blast
  then show ?thesis using range_from_suffix[of i s xs "snd st'"] assms(2) by auto
qed

lemma class_byte:
  assumes "(st, st') \<in> matches (RClass False rs)" "list_all (\<lambda>(a, b). b < 0x80) rs" "snd st = range_from i s"
  shows "\<exists>c s'. s = c # s' \<and> in_class False rs (of_char c) \<and> snd st' = range_from (i + 1) s'"
proof -
  obtain ir rest where rest: "snd st = ir # rest" "st' = (Some (snd ir), rest)" "in_class False rs (snd ir)" using assms(1) by auto
  then obtain c s' where s: "s = c # s'" using assms(3) by (cases s) auto
  have ir: "ir = (i, fst (decode_rune s))" "rest = range_from (i + int (snd (decode_rune s))) (drop (snd (decode_rune s)) s)"
    using rest(1) assms(3) range_from_rec[of s i] s by simp_all
  have "snd ir < 0x80" using rest(3) assms(2) by (auto simp: in_class_def list_ex_iff list_all_iff)
  then have "decode_rune s = (of_char c, 1)" using decode_rune_low[of c s'] ir(1) s by simp
  then show ?thesis using s ir rest by simp
qed

lemma class_bytes:
  assumes "(st, st') \<in> matches (RClass False rs) ^^ k" "list_all (\<lambda>(a, b). b < 0x80) rs" "snd st = range_from i s"
  shows "\<exists>cs s'. s = cs @ s' \<and> length cs = k \<and> list_all (\<lambda>c. in_class False rs (of_char c)) cs \<and> snd st' = range_from (i + int k) s'"
  using assms(1,3)
proof (induction k arbitrary: st i s)
  case 0
  then show ?case by simp
next
  case (Suc k)
  then obtain y where y: "(st, y) \<in> matches (RClass False rs)" "(y, st') \<in> matches (RClass False rs) ^^ k"
    unfolding relpow_step by blast
  obtain c s1 where c: "s = c # s1" "in_class False rs (of_char c)" "snd y = range_from (i + 1) s1"
    using class_byte[OF y(1) assms(2) Suc.prems(2)] by blast
  obtain cs s' where "s1 = cs @ s'" "length cs = k" "list_all (\<lambda>c. in_class False rs (of_char c)) cs" "snd st' = range_from (i + 1 + int k) s'"
    using Suc.IH[OF y(2) c(3)] by blast
  then show ?case using c by (intro exI[of _ "c # cs"] exI[of _ s']) (simp add: algebra_simps)
qed

lemma all_from_matches:
  "(a, b) \<in> set (all_from re n nxt pe prev rest) \<Longrightarrow>
   \<exists>xs st st'. rest = xs @ snd st \<and> a = byte_pos n st \<and> b = byte_pos n st' \<and> (st, st') \<in> matches re"
proof (induction rest arbitrary: nxt pe prev)
  case Nil
  then have "ends re (prev, []) \<noteq> []" "a = n" "b = n" by (simp_all split: if_splits)
  then obtain st' where "st' \<in> set (ends re (prev, []))" "a = n" "b = n" using last_in_set by blast
  moreover from this have "snd st' = []" using ends_later later_suffix by fastforce
  ultimately show ?case
    unfolding ends_iff by (intro exI[of _ "[]"] exI[of _ "(prev, [])"] exI[of _ st']) (simp add: byte_pos_def)
next
  case (Cons ir rest)
  have later: ?case if found: "(a, b) \<in> set (all_from re n nxt' pe' (Some (snd ir)) rest)" for nxt' pe'
  proof -
    obtain xs st st' where "rest = xs @ snd st" "a = byte_pos n st" "b = byte_pos n st'" "(st, st') \<in> matches re"
      using Cons.IH[OF found] by blast
    then show ?thesis by (intro exI[of _ "ir # xs"] exI[of _ st] exI[of _ st']) simp
  qed
  have here: ?case if "ends re (prev, ir # rest) = st' # sts" "a = fst ir" "b = byte_pos n st'" for st' sts
    using that ends_iff[of st' re "(prev, ir # rest)"]
    by (intro exI[of _ "[]"] exI[of _ "(prev, ir # rest)"] exI[of _ st']) (simp add: byte_pos_def)
  show ?case using Cons.prems later here by (auto simp: Let_def split: if_splits list.splits)
qed

lemma FindAll_matches:
  assumes "(a, b) \<in> set (FindAllStringIndex re text)"
  shows "\<exists>pre mid post st st'. text = pre @ mid @ post \<and> a = go_len pre \<and> b = go_len pre + go_len mid \<and>
    snd st = range_from a (mid @ post) \<and> snd st' = range_from b post \<and> (st, st') \<in> matches re"
proof -
  obtain xs st st' where m: "go_range text = xs @ snd st" "a = byte_pos (go_len text) st" "b = byte_pos (go_len text) st'"
    "(st, st') \<in> matches re" using all_from_matches assms unfolding FindAllStringIndex_def by blast
  obtain pre rest where r: "text = pre @ rest" "snd st = range_from (go_len pre) rest"
    using range_from_suffix[of 0 "text" xs "snd st"] m(1) by (auto simp: go_range_def)
  obtain mid post where p: "rest = mid @ post" "snd st' = range_from (go_len pre + go_len mid) post"
    using later_bytes[OF m(4) r(2)] by blast
  have "byte_pos (go_len pre + go_len rest) st = go_len pre"
    using positioned_range_from[of "go_len pre" rest "fst st"] r(2) by (metis prod.collapse)
  moreover have "byte_pos (go_len pre + go_len mid + go_len post) st' = go_len pre + go_len mid"
    using positioned_range_from[of "go_len pre + go_len mid" post "fst st'"] p(2) by (metis prod.collapse)
  ultimately have "a = go_len pre" "b = go_len pre + go_len mid" using m(2,3) r(1) p(1) by (simp_all add: go_len_def add.assoc)
  then show ?thesis using m(4) r p by (intro exI[of _ pre] exI[of _ mid] exI[of _ post] exI[of _ st] exI[of _ st']) simp
qed

end
