(* ===== verification/FileBlock.thy ===== *)
theory FileBlock
  imports Rules GoRegexp
begin

text \<open>
  Blocking of files by name and content: \<open>internal/fileblock/fileblock.go\<close>.

  The blocker's state is replaced as a whole through an atomic pointer, so an operation sees
  either the old or the new state. Its set of extensions is a map of booleans whose values are
  all \<open>true\<close>: a set, given by the list it was built from.

  The property that spans this theory and \<open>Rules\<close>: what a user lists as extra extensions
  can neither enable nor disable one of the six default extensions, which follow their rules.
\<close>

subsection \<open>State and operations\<close>

record blocker =
  extensions :: "string set"
  contentPatterns_on :: bool

text \<open>The pattern \<open>(?m)^[A-Z_]+=.+$\<close>.\<close>

definition contentPatterns :: "regexp list" where
  "contentPatterns = List.map_filter Compile [''(?m)^[A-Z_]+=.+$'']"

definition contentThreshold :: int where
  "contentThreshold = 3"

definition replaceState :: "unicode_tables \<Rightarrow> string list \<Rightarrow> bool \<Rightarrow> blocker" where
  "replaceState T exts cp = \<lparr>extensions = set (map (ToLower T) exts), contentPatterns_on = cp\<rparr>"

definition New_blocker :: "unicode_tables \<Rightarrow> string list \<Rightarrow> bool \<Rightarrow> blocker" where
  "New_blocker T exts cp = replaceState T exts cp"

definition IsBlockedFile :: "unicode_tables \<Rightarrow> blocker \<Rightarrow> string \<Rightarrow> bool" where
  "IsBlockedFile T b path =
     (let ext = ToLower T (Ext path); base = ToLower T (Base path)
      in if ext \<in> extensions b then True
         else if CHR ''.'' # base \<in> extensions b \<or> base \<in> extensions b then True
         else False)"

definition IsBlockedContent :: "blocker \<Rightarrow> string \<Rightarrow> bool" where
  "IsBlockedContent b content =
     (if \<not> contentPatterns_on b then False
      else list_ex (\<lambda>re. go_len (FindAllStringIndex re content) \<ge> contentThreshold) contentPatterns)"

definition RedactionLabel :: "string \<Rightarrow> string" where
  "RedactionLabel path = ''[REDACTED-FILE-'' @ Ext path @ '': '' @ Base path @ '']''"

definition SetExtensions :: "unicode_tables \<Rightarrow> blocker \<Rightarrow> string list \<Rightarrow> blocker" where
  "SetExtensions T b exts = replaceState T exts (contentPatterns_on b)"

definition Blocker_Reconfigure :: "unicode_tables \<Rightarrow> blocker \<Rightarrow> string list \<Rightarrow> bool \<Rightarrow> blocker" where
  "Blocker_Reconfigure T b exts cp = replaceState T exts cp"

subsection \<open>Which files are blocked\<close>

lemma extensions_replaceState [simp]: "extensions (replaceState T exts cp) = ToLower T ` set exts"
  by (simp add: replaceState_def)

lemma default_extensions_lower: "(i, e) \<in> set fileblock_defaults \<Longrightarrow> ToLower T e = e"
  by (rule ToLower_lower_case)
     (auto simp: fileblock_defaults_def lower_case_def rune_between_def)

lemma default_extension_once:
  "(i, e) \<in> set fileblock_defaults \<Longrightarrow> (j, e) \<in> set fileblock_defaults \<Longrightarrow> i = j"
  by (auto simp: fileblock_defaults_def)

lemma default_extension_lower_iff:
  assumes "(i, e) \<in> set fileblock_defaults"
  shows "e \<in> ToLower T ` set (fst (FileBlockExtensions T user eff cp)) \<longleftrightarrow> lookup_bool eff i"
proof
  assume "e \<in> ToLower T ` set (fst (FileBlockExtensions T user eff cp))"
  then obtain x where x: "x \<in> set (fst (FileBlockExtensions T user eff cp))" "e = ToLower T x" by blast
  have "e \<in> snd ` set fileblock_defaults" using assms by force
  then obtain j where j: "(j, x) \<in> set fileblock_defaults" "lookup_bool eff j"
    using x by (auto simp: FileBlockExtensions_def)
  then have "x = e" using default_extensions_lower [of j x T] x(2) by simp
  then show "lookup_bool eff i" using j default_extension_once [OF assms] by auto
next
  assume "lookup_bool eff i"
  then have "e \<in> set (fst (FileBlockExtensions T user eff cp))"
    using assms by (force simp: FileBlockExtensions_def)
  then show "e \<in> ToLower T ` set (fst (FileBlockExtensions T user eff cp))"
    using default_extensions_lower [OF assms, of T] by force
qed

text \<open>
  After a reconfiguration from the rules, a default extension is in the blocker's set
  exactly when its rule is enabled: a user's own list of extensions, in whatever case it is
  written, neither adds nor removes one of the six defaults.
\<close>

lemma default_extension_follows_rule:
  assumes "(rule, ext) \<in> set fileblock_defaults"
  shows "ext \<in> extensions (Blocker_Reconfigure T b (fst (FileBlockExtensions T userExts eff cp))
      (snd (FileBlockExtensions T userExts eff cp))) \<longleftrightarrow> lookup_bool eff rule"
  unfolding Blocker_Reconfigure_def extensions_replaceState
  by (rule default_extension_lower_iff [OF assms])

lemma takeWhile_all: "(\<And>x. x \<in> set xs \<Longrightarrow> P x) \<Longrightarrow> takeWhile P (xs @ y # ys) = xs @ takeWhile P (y # ys)"
  by (induction xs) auto

lemma Ext_append:
  assumes "CHR ''/'' \<notin> set e" "CHR ''.'' \<notin> set e"
  shows "Ext (p @ CHR ''.'' # e) = CHR ''.'' # e"
proof -
  have "takeWhile (\<lambda>c. c \<noteq> CHR ''/'' \<and> c \<noteq> CHR ''.'') (rev e @ CHR ''.'' # rev p) = rev e"
    using assms by (subst takeWhile_all) auto
  then show ?thesis by (simp add: Ext_def nth_append)
qed

text \<open>
  While the rule of a default extension is enabled, every path that ends in that
  extension is blocked, whatever precedes it and whatever the case of its letters.
\<close>

lemma IsBlockedFile_default:
  assumes "(rule, ext) \<in> set fileblock_defaults" and "lookup_bool eff rule"
    and "ToLower T (CHR ''.'' # e) = ext" and "CHR ''/'' \<notin> set e" and "CHR ''.'' \<notin> set e"
  shows "IsBlockedFile T (Blocker_Reconfigure T b (fst (FileBlockExtensions T userExts eff cp))
      (snd (FileBlockExtensions T userExts eff cp))) (dir @ CHR ''.'' # e)"
  using assms default_extension_lower_iff [OF assms(1), of T userExts eff cp]
  by (simp add: IsBlockedFile_def Ext_append Blocker_Reconfigure_def)

end
