(* ===== verification/Coordinator.thy ===== *)
theory Coordinator
  imports Redactor Cache FileBlock
begin

text \<open>
  The coordinator: \<open>internal/coordinator/coordinator.go\<close>. It owns the pipeline, the cache,
  the file blocker and the user's allowed words, and its \<open>ScanAndRedact\<close> is what the proxy,
  the hooks and the tool wrapper call.

  \<open>ScanAndRedact\<close> is first a function of one call. For a sequence of calls the cache is
  transparent (\<open>coordinator_cache_transparent\<close>): every answer is one that a scan under the
  current rules and words could give, provided the words are not changed alone.

  Calls run in their own goroutines and only the steps on the cache are atomic, so the last part
  is a step relation whose steps are: look the text up, scan it, store the result, change the
  configuration. Its reachable states keep the invariant of the cache, every stored result comes
  from a configuration that was in force at some time, and the run
  \<open>stale_result_after_reconfigure\<close> shows that it need not be the current one.
\<close>

subsection \<open>State and operations\<close>

record coordinator =
  co_pipeline :: pipeline
  co_cache :: cache
  co_fb :: blocker
  allowedWords :: "string set"

definition New_coordinator :: "pipeline \<Rightarrow> cache \<Rightarrow> blocker \<Rightarrow> coordinator" where
  "New_coordinator p c fb = \<lparr>co_pipeline = p, co_cache = c, co_fb = fb, allowedWords = {}\<rparr>"

definition SetAllowedWords :: "unicode_tables \<Rightarrow> coordinator \<Rightarrow> string list \<Rightarrow> coordinator" where
  "SetAllowedWords T c words = c\<lparr>allowedWords := set (map (ToLower T) words)\<rparr>"

definition filter_allowed :: "unicode_tables \<Rightarrow> string set \<Rightarrow> finding list \<Rightarrow> finding list" where
  "filter_allowed T words fs =
     (if words \<noteq> {} then filter (\<lambda>f. ToLower T (Value f) \<notin> words) fs else fs)"

text \<open>
  The part of \<open>ScanAndRedact\<close> after a cache miss: scan, drop the allowed words, redact.
  \<open>Redact\<close> sorts the findings of the report in place.
\<close>

definition scan_fresh ::
  "finding_sort \<Rightarrow> unicode_tables \<Rightarrow> clock \<Rightarrow> pipeline \<Rightarrow> string set \<Rightarrow> string \<Rightarrow> (string \<times> report) option" where
  "scan_fresh srt T ck p words text =
     (case Scan srt ck p text of
        None \<Rightarrow> None
      | Some rep \<Rightarrow>
          (case Redact srt text (filter_allowed T words (Findings rep)) of
             None \<Rightarrow> None
           | Some (result, fs) \<Rightarrow> Some (Text result, rep\<lparr>Findings := fs\<rparr>)))"

definition ScanAndRedact ::
  "finding_sort \<Rightarrow> unicode_tables \<Rightarrow> (string \<Rightarrow> string) \<Rightarrow> clock \<Rightarrow> coordinator \<Rightarrow> string \<Rightarrow>
   (coordinator \<times> string \<times> report) option" where
  "ScanAndRedact srt T hash ck c text =
     (case Get hash (co_cache c) text of
        (cache', Some (redacted, rep)) \<Rightarrow> Some (c\<lparr>co_cache := cache'\<rparr>, redacted, rep)
      | (cache', None) \<Rightarrow>
          (case scan_fresh srt T ck (co_pipeline c) (allowedWords c) text of
             None \<Rightarrow> None
           | Some (redacted, rep) \<Rightarrow>
               Some (c\<lparr>co_cache := Put hash cache' text redacted rep\<rparr>, redacted, rep)))"

definition InvalidateCache :: "coordinator \<Rightarrow> coordinator" where
  "InvalidateCache c = c\<lparr>co_cache := Invalidate (co_cache c)\<rparr>"

definition coordinator_CacheStats :: "coordinator \<Rightarrow> cache_stats" where
  "coordinator_CacheStats c = Stats (co_cache c)"

definition Coordinator_Reconfigure ::
  "unicode_tables \<Rightarrow> coordinator \<Rightarrow> (string \<Rightarrow> bool) \<Rightarrow> string list \<Rightarrow> bool \<Rightarrow> coordinator" where
  "Coordinator_Reconfigure T c enabled blockedExtensions contentPats =
     c\<lparr>co_pipeline := Pipeline_Reconfigure (co_pipeline c) enabled,
       co_fb := Blocker_Reconfigure T (co_fb c) blockedExtensions contentPats,
       co_cache := Invalidate (co_cache c)\<rparr>"

subsection \<open>One call\<close>

lemma filter_allowed_subset: "set (filter_allowed T words fs) \<subseteq> set fs"
  by (auto simp: filter_allowed_def)

lemma Scan_bounded:
  assumes "\<forall>l \<in> set (layers p). bounded_layer (layer_Scan l) \<and> (\<forall>t. layer_Scan l t \<noteq> ScanPanic)"
  shows "\<exists>rep. Scan srt ck p text = Some rep \<and> list_all (in_range text) (Findings rep)"
proof -
  obtain fs infos where run:
    "scan_layers srt ck (timeoutMs p) text 0 (layers p) text [] [] [] = Some (fs, infos)"
    using scan_layers_total [of "layers p"] assms by blast
  then show ?thesis
    using scan_layers_in_range [OF run] assms by (auto simp: Scan_def list_all_iff scan_inv_init)
qed

text \<open>What a redaction may be: a chain of in-range findings replaced by their placeholders.\<close>

definition redaction_of :: "string \<Rightarrow> finding list \<Rightarrow> string \<Rightarrow> bool" where
  "redaction_of text fs out \<longleftrightarrow> (\<exists>ks. set ks \<subseteq> set fs \<and> chain text 0 ks \<and> out = spliced text 0 ks)"

lemma Redact_in_range:
  assumes "finding_sorts srt" and "list_all (in_range text) fs"
  shows "\<exists>r fs'. Redact srt text fs = Some (r, fs') \<and> redaction_of text fs (Text r) \<and> mset fs' = mset fs"
proof (cases "fs = []")
  case True
  then show ?thesis by (auto simp: Redact_def redaction_of_def intro: exI [of _ "[]"])
next
  case False
  have d: "list_all (in_range text) (fst (dedup srt fs))"
    using assms(2) finding_sorts.dedup_set [OF assms(1), of fs] by (auto simp: list_all_iff)
  show ?thesis
    using finding_sorts.Redact_eq [OF assms False] kept_from_chain [OF _ d, of 0]
      finding_sorts.dedup_set [OF assms(1), of fs] kept_from_subset [of 0 "fst (dedup srt fs)"]
      slice_sort.srt_mset [OF finding_sorts.longer_sort [OF assms(1)], of fs]
    by (auto simp: Let_def redaction_of_def)
qed

lemma scan_fresh_in_range:
  assumes "finding_sorts srt"
    and "\<forall>l \<in> set (layers p). bounded_layer (layer_Scan l) \<and> (\<forall>t. layer_Scan l t \<noteq> ScanPanic)"
  shows "\<exists>out rep. scan_fresh srt T ck p words text = Some (out, rep) \<and>
    list_all (in_range text) (Findings rep) \<and> redaction_of text (Findings rep) out"
proof -
  obtain rep where rep: "Scan srt ck p text = Some rep" "list_all (in_range text) (Findings rep)"
    using Scan_bounded [OF assms(2)] by blast
  have fs: "list_all (in_range text) (filter_allowed T words (Findings rep))"
    using rep(2) filter_allowed_subset [of T words] by (auto simp: list_all_iff)
  obtain r fs' where r: "Redact srt text (filter_allowed T words (Findings rep)) = Some (r, fs')"
    "redaction_of text (filter_allowed T words (Findings rep)) (Text r)"
    "mset fs' = mset (filter_allowed T words (Findings rep))"
    using Redact_in_range [OF assms(1) fs] by blast
  have "set fs' = set (filter_allowed T words (Findings rep))" using r(3) by (rule mset_eq_setD)
  then show ?thesis using rep r fs by (simp add: scan_fresh_def redaction_of_def list_all_iff)
qed

text \<open>
  C8. With layers that respect \<open>bounded_layer\<close> and do not panic, \<open>ScanAndRedact\<close> returns on a
  text that is not cached: the findings of the report lie in the text, and the output is the
  text with a chain of these findings replaced by their placeholders. The result is stored, so
  that the next call with the same text returns it again.
\<close>

theorem ScanAndRedact_total:
  assumes "finding_sorts srt" and "cache_inv (co_cache c)"
    and "\<forall>l \<in> set (layers (co_pipeline c)). bounded_layer (layer_Scan l) \<and> (\<forall>t. layer_Scan l t \<noteq> ScanPanic)"
    and "peek hash (co_cache c) text = None"
  shows "\<exists>c' out rep. ScanAndRedact srt T hash ck c text = Some (c', out, rep) \<and>
    list_all (in_range text) (Findings rep) \<and> redaction_of text (Findings rep) out \<and>
    peek hash (co_cache c') text = Some (out, rep)"
proof -
  obtain cache' where get: "Get hash (co_cache c) text = (cache', None)"
    using lru.get_answer [OF assms(2), of hash "text"] assms(4) by (metis prod.collapse)
  have inv: "cache_inv cache'" using Get_inv [OF assms(2), of hash "text"] get by simp
  obtain out rep where "scan_fresh srt T ck (co_pipeline c) (allowedWords c) text = Some (out, rep)"
    "list_all (in_range text) (Findings rep)" "redaction_of text (Findings rep) out"
    using scan_fresh_in_range [OF assms(1,3)] by blast
  then show ?thesis
    using get lru.put_peek_same [OF inv, of hash "text" "text"] by (simp add: ScanAndRedact_def)
qed

subsection \<open>Sequences of calls\<close>

text \<open>
  The coordinators that arise when calls do not overlap, over texts in \<open>S\<close>. The words are set
  when the cache is empty, or together with an invalidation.
\<close>

inductive serial ::
  "finding_sort \<Rightarrow> unicode_tables \<Rightarrow> (string \<Rightarrow> string) \<Rightarrow> string set \<Rightarrow> coordinator \<Rightarrow> bool"
  for srt T hash S where
  serial_new: "serial srt T hash S (SetAllowedWords T (New_coordinator p (NewCache n) fb) ws)"
| serial_scan: "serial srt T hash S c \<Longrightarrow> t \<in> S \<Longrightarrow>
    ScanAndRedact srt T hash ck c t = Some (c', out, rep) \<Longrightarrow> serial srt T hash S c'"
| serial_reconfigure: "serial srt T hash S c \<Longrightarrow>
    serial srt T hash S (Coordinator_Reconfigure T c enabled exts cp)"
| serial_words: "serial srt T hash S c \<Longrightarrow>
    serial srt T hash S (InvalidateCache (SetAllowedWords T c ws))"

definition cache_current ::
  "finding_sort \<Rightarrow> unicode_tables \<Rightarrow> (string \<Rightarrow> string) \<Rightarrow> string set \<Rightarrow> coordinator \<Rightarrow> bool" where
  "cache_current srt T hash S c \<longleftrightarrow> cache_inv (co_cache c) \<and>
     (\<forall>t \<in> S. \<forall>v. peek hash (co_cache c) t = Some v \<longrightarrow>
        (\<exists>ck. scan_fresh srt T ck (co_pipeline c) (allowedWords c) t = Some v))"

lemma cache_current_empty:
  "cache_inv (co_cache c) \<Longrightarrow> contents (co_cache c) = [] \<Longrightarrow> cache_current srt T hash S c"
  by (simp add: cache_current_def peek_def)

lemma ScanAndRedact_answer:
  assumes "cache_current srt T hash S c" "t \<in> S"
    and "ScanAndRedact srt T hash ck c t = Some (c', out, rep)"
  shows "\<exists>ck. scan_fresh srt T ck (co_pipeline c) (allowedWords c) t = Some (out, rep)"
  using assms lru.get_answer [of "co_cache c" hash t]
  by (auto simp: ScanAndRedact_def cache_current_def split: option.splits prod.splits)

lemma ScanAndRedact_current:
  assumes "inj_on hash S" "cache_current srt T hash S c" "t \<in> S"
    and "ScanAndRedact srt T hash ck c t = Some (c', out, rep)"
  shows "cache_current srt T hash S c'"
proof -
  have inv: "cache_inv (co_cache c)" using assms(2) by (simp add: cache_current_def)
  obtain cache' r where get: "Get hash (co_cache c) t = (cache', r)" by fastforce
  note got = Get_inv [OF inv, of hash t, unfolded get fst_conv]
    lru.get_peek [OF inv, of hash t, unfolded get fst_conv]
  show ?thesis
  proof (cases r)
    case None
    then have fresh: "scan_fresh srt T ck (co_pipeline c) (allowedWords c) t = Some (out, rep)"
      and c': "c' = c\<lparr>co_cache := Put hash cache' t out rep\<rparr>"
      using assms(4) get by (auto simp: ScanAndRedact_def split: option.splits)
    have "peek hash (Put hash cache' t out rep) u \<in> {None, peek hash (co_cache c) u}"
      if "u \<in> S" "u \<noteq> t" for u
      using lru.put_peek_other [OF got(1), of hash t u] got(2) that assms(1,3)
      by (metis inj_on_eq_iff)
    then show ?thesis
      using fresh assms(2) lru.put_peek_same [OF got(1), of hash t t out rep] Put_inv [OF got(1)]
      by (auto simp: cache_current_def c') (metis insertE option.distinct(1) singletonD)
  next
    case (Some v)
    then have "c' = c\<lparr>co_cache := cache'\<rparr>"
      using assms(4) get by (auto simp: ScanAndRedact_def split: prod.splits)
    then show ?thesis using assms(2) got by (simp add: cache_current_def)
  qed
qed

lemma serial_current:
  assumes "inj_on hash S" "serial srt T hash S c"
  shows "cache_current srt T hash S c"
  using assms(2)
proof (induction rule: serial.induct)
  case (serial_new p n fb ws)
  show ?case
    by (rule cache_current_empty)
       (simp_all add: SetAllowedWords_def New_coordinator_def NewCache_inv, simp add: contents_def NewCache_def)
next
  case (serial_scan c t ck c' out rep)
  then show ?case using ScanAndRedact_current [OF assms(1)] by blast
next
  case (serial_reconfigure c enabled exts cp)
  then show ?case
    by (intro cache_current_empty) (simp_all add: Coordinator_Reconfigure_def cache_current_def Invalidate_inv)
next
  case (serial_words c ws)
  then show ?case
    by (intro cache_current_empty)
       (simp_all add: InvalidateCache_def SetAllowedWords_def cache_current_def Invalidate_inv)
qed

text \<open>
  C7. For calls that do not overlap, the cache is transparent: whatever was scanned and
  reconfigured before, an answer is one that a scan under the current rules, words and
  timeout gives (at some speed of the layers). The hash has to distinguish the texts in use.
\<close>

theorem coordinator_cache_transparent:
  assumes "inj_on hash S" and "serial srt T hash S c" and "t \<in> S"
    and "ScanAndRedact srt T hash ck c t = Some (c', out, rep)"
  shows "\<exists>ck'. scan_fresh srt T ck' (co_pipeline c) (allowedWords c) t = Some (out, rep)"
  by (rule ScanAndRedact_answer [OF serial_current [OF assms(1,2)] assms(3,4)])

subsection \<open>A coordinator for the witnesses\<close>

text \<open>One layer, which reports the whole text while its rule \<open>r\<close> is enabled.\<close>

definition toggle_scan :: "(string \<Rightarrow> bool) \<Rightarrow> string \<Rightarrow> scan_outcome" where
  "toggle_scan enabled t =
     ScanOk (if enabled ''r'' \<and> t \<noteq> [] then [mk_finding ''SECRET'' t 0 (go_len t) ''toggle''] else [])"

definition toggle_layer :: layer where
  "toggle_layer = \<lparr>layer_Name = ''toggle'', layer_Ready = True, layer_Scan = toggle_scan (\<lambda>_. False),
     layer_Reconfigure = Some toggle_scan\<rparr>"

definition demo_coordinator :: coordinator where
  "demo_coordinator = SetAllowedWords latin1
     (New_coordinator (NewPipeline [toggle_layer]) (NewCache 2) (New_blocker latin1 [] False)) []"

definition demo_enabled :: coordinator where
  "demo_enabled = Coordinator_Reconfigure latin1 demo_coordinator (\<lambda>_. True) [] False"

lemma toggle_bounded: "bounded_layer (toggle_scan enabled)"
  by unfold_locales (auto simp: toggle_scan_def in_range_def split: if_splits)

lemma demo_enabled_simps [simp]:
  "layers (co_pipeline demo_enabled) = [layer_apply (\<lambda>_. True) toggle_layer]"
  "contents (co_cache demo_enabled) = []"
  "layer_Scan (layer_apply en toggle_layer) = toggle_scan en" "layer_Scan toggle_layer = toggle_scan (\<lambda>_. False)"
  by (simp_all add: demo_enabled_def Coordinator_Reconfigure_def demo_coordinator_def SetAllowedWords_def
      New_coordinator_def NewPipeline_def Pipeline_Reconfigure_def layer_apply_def toggle_layer_def)

lemma demo_enabled_inv: "cache_inv (co_cache demo_enabled)"
  by (simp add: demo_enabled_def Coordinator_Reconfigure_def demo_coordinator_def SetAllowedWords_def
      New_coordinator_def NewCache_inv Invalidate_inv)

lemma demo_serial: "serial srt latin1 hash S demo_enabled"
  unfolding demo_enabled_def demo_coordinator_def by (rule serial_reconfigure [OF serial_new])

lemma toggle_no_panic: "toggle_scan en t \<noteq> ScanPanic"
  by (simp add: toggle_scan_def)

theorem ScanAndRedact_total_witness:
  "\<exists>c' out rep. ScanAndRedact insertion_sort latin1 id demo_clock demo_enabled ''k9'' = Some (c', out, rep) \<and>
     list_all (in_range ''k9'') (Findings rep) \<and> redaction_of ''k9'' (Findings rep) out \<and>
     peek id (co_cache c') ''k9'' = Some (out, rep)"
proof -
  have layers: "\<forall>l \<in> set (layers (co_pipeline demo_enabled)).
      bounded_layer (layer_Scan l) \<and> (\<forall>t. layer_Scan l t \<noteq> ScanPanic)"
    by (simp add: toggle_bounded toggle_no_panic)
  have miss: "peek id (co_cache demo_enabled) ''k9'' = None" by (simp add: peek_def)
  show ?thesis
    by (rule ScanAndRedact_total [OF insertion.finding_sorts_axioms demo_enabled_inv layers miss])
qed

theorem coordinator_cache_transparent_witness:
  "\<exists>ck'. map_option fst (scan_fresh insertion_sort latin1 ck' (co_pipeline demo_enabled)
      (allowedWords demo_enabled) ''k9'') = Some ''[REDACTED-SECRET]''"
proof -
  have "map_option (\<lambda>(c, out, rep). out)
      (ScanAndRedact insertion_sort latin1 id demo_clock demo_enabled ''k9'') = Some ''[REDACTED-SECRET]''"
    by code_simp
  then obtain c' out rep where
    call: "ScanAndRedact insertion_sort latin1 id demo_clock demo_enabled ''k9'' = Some (c', out, rep)"
    and out: "out = ''[REDACTED-SECRET]''" by auto
  have "\<exists>ck'. scan_fresh insertion_sort latin1 ck' (co_pipeline demo_enabled)
      (allowedWords demo_enabled) ''k9'' = Some (out, rep)"
    by (rule coordinator_cache_transparent [of id "{''k9''}" _ _ demo_enabled _ _ c', OF _ demo_serial _ call])
       simp_all
  then show ?thesis using out by auto
qed

subsection \<open>Calls that overlap\<close>

text \<open>
  A call that missed the cache is waiting for its scan, then holds its result until it stores
  it. A reconfiguration swaps the state of one layer after the other, so a scan that runs
  meanwhile may see any layer in any of its versions: \<open>mixed\<close>.
\<close>

datatype call = Waiting string | Scanned string string report

record world =
  w_co :: coordinator
  w_calls :: "call list"
  w_past :: "pipeline list"
  w_words :: "string set list"
  w_answers :: "(string \<times> string) list"

definition mixed :: "pipeline list \<Rightarrow> pipeline \<Rightarrow> bool" where
  "mixed past p \<longleftrightarrow>
     (\<forall>i < length (layers p). \<exists>q \<in> set past. i < length (layers q) \<and> layers p ! i = layers q ! i)"

definition start_world :: "coordinator \<Rightarrow> world" where
  "start_world c = \<lparr>w_co = c, w_calls = [], w_past = [co_pipeline c], w_words = [allowedWords c],
     w_answers = []\<rparr>"

inductive call_step ::
  "finding_sort \<Rightarrow> unicode_tables \<Rightarrow> (string \<Rightarrow> string) \<Rightarrow> string set \<Rightarrow> world \<Rightarrow> world \<Rightarrow> bool"
  for srt T hash S where
  step_hit: "t \<in> S \<Longrightarrow> Get hash (co_cache (w_co w)) t = (cache', Some (out, rep)) \<Longrightarrow>
    call_step srt T hash S w
      (w\<lparr>w_co := (w_co w)\<lparr>co_cache := cache'\<rparr>, w_answers := (t, out) # w_answers w\<rparr>)"
| step_miss: "t \<in> S \<Longrightarrow> Get hash (co_cache (w_co w)) t = (cache', None) \<Longrightarrow>
    call_step srt T hash S w
      (w\<lparr>w_co := (w_co w)\<lparr>co_cache := cache'\<rparr>, w_calls := Waiting t # w_calls w\<rparr>)"
| step_scan: "w_calls w = xs @ Waiting t # ys \<Longrightarrow> mixed (w_past w) p \<Longrightarrow> words \<in> set (w_words w) \<Longrightarrow>
    scan_fresh srt T ck p words t = Some (out, rep) \<Longrightarrow>
    call_step srt T hash S w (w\<lparr>w_calls := xs @ Scanned t out rep # ys\<rparr>)"
| step_store: "w_calls w = xs @ Scanned t out rep # ys \<Longrightarrow>
    call_step srt T hash S w
      (w\<lparr>w_co := (w_co w)\<lparr>co_cache := Put hash (co_cache (w_co w)) t out rep\<rparr>, w_calls := xs @ ys,
         w_answers := (t, out) # w_answers w\<rparr>)"
| step_reconfigure: "c' = Coordinator_Reconfigure T (w_co w) enabled exts cp \<Longrightarrow>
    call_step srt T hash S w (w\<lparr>w_co := c', w_past := co_pipeline c' # w_past w\<rparr>)"
| step_words: "c' = SetAllowedWords T (w_co w) ws \<Longrightarrow>
    call_step srt T hash S w (w\<lparr>w_co := c', w_words := allowedWords c' # w_words w\<rparr>)"

definition reachable ::
  "finding_sort \<Rightarrow> unicode_tables \<Rightarrow> (string \<Rightarrow> string) \<Rightarrow> string set \<Rightarrow> coordinator \<Rightarrow> world \<Rightarrow> bool" where
  "reachable srt T hash S c w \<longleftrightarrow> (call_step srt T hash S)\<^sup>*\<^sup>* (start_world c) w"

text \<open>A layer that respects its contract in every configuration.\<close>

definition good_layer :: "layer \<Rightarrow> bool" where
  "good_layer l \<longleftrightarrow>
     (\<forall>s. s = layer_Scan l \<or> (\<exists>r en. layer_Reconfigure l = Some r \<and> s = r en) \<longrightarrow>
        bounded_layer s \<and> (\<forall>t. s t \<noteq> ScanPanic))"

text \<open>The output is a redaction of the text itself.\<close>

definition own_redaction :: "string \<Rightarrow> string \<Rightarrow> bool" where
  "own_redaction t out \<longleftrightarrow> (\<exists>fs. list_all (in_range t) fs \<and> redaction_of t fs out)"

fun call_ok :: "string set \<Rightarrow> call \<Rightarrow> bool" where
  "call_ok S (Waiting t) \<longleftrightarrow> t \<in> S"
| "call_ok S (Scanned t out rep) \<longleftrightarrow> t \<in> S \<and> own_redaction t out"

definition world_inv :: "(string \<Rightarrow> string) \<Rightarrow> string set \<Rightarrow> world \<Rightarrow> bool" where
  "world_inv hash S w \<longleftrightarrow>
     cache_inv (co_cache (w_co w)) \<and>
     (\<forall>t \<in> S. \<forall>v. peek hash (co_cache (w_co w)) t = Some v \<longrightarrow> own_redaction t (fst v)) \<and>
     list_all (call_ok S) (w_calls w) \<and>
     co_pipeline (w_co w) \<in> set (w_past w) \<and>
     (\<forall>p \<in> set (w_past w). list_all good_layer (layers p)) \<and>
     (\<forall>(t, out) \<in> set (w_answers w). own_redaction t out)"

lemma good_layer_apply: "good_layer l \<Longrightarrow> good_layer (layer_apply en l)"
  by (auto simp: good_layer_def layer_apply_def split: option.splits)

lemma scan_fresh_own:
  assumes "finding_sorts srt" "\<forall>p \<in> set past. list_all good_layer (layers p)" "mixed past p"
    and "scan_fresh srt T ck p words t = Some (out, rep)"
  shows "own_redaction t out"
proof -
  have "good_layer l" if "l \<in> set (layers p)" for l
    using that assms(2,3) by (auto simp: mixed_def in_set_conv_nth list_all_length)
  then have "\<forall>l \<in> set (layers p). bounded_layer (layer_Scan l) \<and> (\<forall>t. layer_Scan l t \<noteq> ScanPanic)"
    by (auto simp: good_layer_def)
  from scan_fresh_in_range [OF assms(1) this, of T ck words t] assms(4) show ?thesis
    by (auto simp: own_redaction_def)
qed

lemma Get_step:
  assumes "cache_inv c" "Get hash c t = (cache', r)"
  shows "cache_inv cache'" "peek hash cache' u = peek hash c u" "r = peek hash c t"
  using Get_inv [OF assms(1), of hash t] lru.get_peek [OF assms(1), of hash t u]
    lru.get_answer [OF assms(1), of hash t] assms(2) by auto

lemma call_step_inv:
  assumes "finding_sorts srt" "inj_on hash S" "call_step srt T hash S w w'" "world_inv hash S w"
  shows "world_inv hash S w'"
  using assms(3,4)
proof (induction rule: call_step.induct)
  case (step_hit t w cache' out rep)
  then show ?case
    using Get_step [of "co_cache (w_co w)" hash t cache' "Some (out, rep)"]
    by (auto simp: world_inv_def) metis
next
  case (step_miss t w cache')
  then show ?case
    using Get_step [of "co_cache (w_co w)" hash t cache' None] by (auto simp: world_inv_def)
next
  case (step_scan w xs t ys p words ck out rep)
  then show ?case
    using scan_fresh_own [OF assms(1) _ step_scan(2,4)] by (auto simp: world_inv_def)
next
  case (step_store w xs t out rep ys)
  let ?c = "co_cache (w_co w)"
  have inv: "cache_inv ?c" and t: "t \<in> S" "own_redaction t out"
    using step_store by (auto simp: world_inv_def)
  have "own_redaction u (fst v)" if "u \<in> S" "peek hash (Put hash ?c t out rep) u = Some v" for u v
  proof (cases "u = t")
    case True
    then show ?thesis using that t lru.put_peek_same [OF inv, of hash t t out rep] by auto
  next
    case False
    then have "hash t \<noteq> hash u" using that(1) t(1) assms(2) by (auto dest: inj_onD)
    then have "peek hash ?c u = Some v"
      using lru.put_peek_other [OF inv, of hash t u out rep] that(2) by auto
    then show ?thesis using step_store(2) that(1) unfolding world_inv_def by blast
  qed
  then show ?case
    using step_store t Put_inv [OF inv] by (auto simp: world_inv_def)
next
  case (step_reconfigure c' w enabled exts cp)
  then show ?case
    by (auto simp: world_inv_def Coordinator_Reconfigure_def Pipeline_Reconfigure_def Invalidate_inv
        lru.clear_peek list_all_iff good_layer_apply)
next
  case (step_words c' w ws)
  then show ?case by (auto simp: world_inv_def SetAllowedWords_def)
qed

lemma start_world_inv:
  "cache_inv (co_cache c) \<Longrightarrow> contents (co_cache c) = [] \<Longrightarrow>
   list_all good_layer (layers (co_pipeline c)) \<Longrightarrow> world_inv hash S (start_world c)"
  by (simp add: world_inv_def start_world_def peek_def)

lemma reachable_inv:
  assumes "finding_sorts srt" "inj_on hash S" "reachable srt T hash S c w" "world_inv hash S (start_world c)"
  shows "world_inv hash S w"
  using assms(3) unfolding reachable_def
  by (induction rule: rtranclp_induct) (auto intro: assms(4) call_step_inv [OF assms(1,2)])


definition off_coordinator :: coordinator where
  "off_coordinator = New_coordinator (NewPipeline [toggle_layer]) (NewCache 2) (New_blocker latin1 [] False)"

lemma off_coordinator_simps [simp]:
  "co_pipeline off_coordinator = NewPipeline [toggle_layer]" "co_cache off_coordinator = NewCache 2"
  "allowedWords off_coordinator = {}" "layers (NewPipeline ls) = ls"
  by (simp_all add: off_coordinator_def New_coordinator_def NewPipeline_def)

lemma toggle_good: "good_layer toggle_layer"
  by (auto simp: good_layer_def toggle_layer_def toggle_bounded toggle_no_panic)

lemma off_scan:
  "\<exists>rep. scan_fresh insertion_sort latin1 demo_clock (NewPipeline [toggle_layer]) {} ''k9'' = Some (''k9'', rep)"
proof -
  have "map_option fst (scan_fresh insertion_sort latin1 demo_clock (NewPipeline [toggle_layer]) {} ''k9'') =
      Some ''k9''" by code_simp
  then show ?thesis by auto
qed

lemma on_scan:
  "\<exists>rep. scan_fresh insertion_sort latin1 ck (Pipeline_Reconfigure (NewPipeline [toggle_layer]) (\<lambda>_. True)) {} ''k9'' =
     Some (''[REDACTED-SECRET]'', rep)"
proof -
  let ?p = "Pipeline_Reconfigure (NewPipeline [toggle_layer]) (\<lambda>_. True)"
  let ?f = "mk_finding ''SECRET'' ''k9'' 0 2 ''toggle''"
  have "map_option Findings (Scan insertion_sort ck ?p ''k9'') = Some [?f]"
    by (simp add: Scan_def Pipeline_Reconfigure_def NewPipeline_def layer_apply_def toggle_layer_def
        toggle_scan_def scanWithTimeout_def applyRedactions_eq map_finding_def toOriginalPos_def go_len_def Let_def)
  moreover have "map_option (\<lambda>r. Text (fst r)) (Redact insertion_sort ''k9'' [?f]) = Some ''[REDACTED-SECRET]''"
    by code_simp
  ultimately show ?thesis
    by (auto simp: scan_fresh_def filter_allowed_def)
qed

text \<open>The run: look up, scan, reconfigure, store.\<close>

lemma stale_run:
  "\<exists>w rep. reachable insertion_sort latin1 id {''k9''} off_coordinator w \<and>
     peek id (co_cache (w_co w)) ''k9'' = Some (''k9'', rep) \<and> (''k9'', ''k9'') \<in> set (w_answers w) \<and>
     w_calls w = [] \<and> cache_inv (co_cache (w_co w)) \<and> allowedWords (w_co w) = {} \<and>
     co_pipeline (w_co w) = Pipeline_Reconfigure (NewPipeline [toggle_layer]) (\<lambda>_. True)"
proof -
  let ?step = "call_step insertion_sort latin1 id {''k9''}"
  obtain rep where scan: "scan_fresh insertion_sort latin1 demo_clock (NewPipeline [toggle_layer]) {} ''k9'' =
      Some (''k9'', rep)" using off_scan by blast
  define w0 where "w0 = start_world off_coordinator"
  define w1 where "w1 = w0\<lparr>w_co := (w_co w0)\<lparr>co_cache := fst (Get id (NewCache 2) ''k9'')\<rparr>, w_calls := [Waiting ''k9'']\<rparr>"
  define w2 where "w2 = w1\<lparr>w_calls := [Scanned ''k9'' ''k9'' rep]\<rparr>"
  define c3 where "c3 = Coordinator_Reconfigure latin1 (w_co w2) (\<lambda>_. True) [] False"
  define w3 where "w3 = w2\<lparr>w_co := c3, w_past := co_pipeline c3 # w_past w2\<rparr>"
  define w4 where "w4 = w3\<lparr>w_co := (w_co w3)\<lparr>co_cache := Put id (co_cache (w_co w3)) ''k9'' ''k9'' rep\<rparr>,
      w_calls := [], w_answers := (''k9'', ''k9'') # w_answers w3\<rparr>"
  have miss: "Get id (NewCache 2) ''k9'' = (fst (Get id (NewCache 2) ''k9''), None)"
    by (simp add: Get_def NewCache_def)
  have s1: "?step w0 w1"
    using step_miss [of "''k9''" "{''k9''}" id w0] miss by (simp add: w0_def w1_def start_world_def)
  have s2: "?step w1 w2"
    using step_scan [of w1 "[]" "''k9''" "[]" "NewPipeline [toggle_layer]" "{}"] scan
    by (simp add: w0_def w1_def w2_def start_world_def mixed_def)
  have s3: "?step w2 w3"
    unfolding w3_def by (rule step_reconfigure) (rule c3_def)
  have s4: "?step w3 w4"
    using step_store [of w3 "[]" "''k9''" "''k9''" rep "[]"] by (simp add: w4_def w3_def w2_def)
  have inv: "cache_inv (co_cache c3)"
    by (simp add: c3_def Coordinator_Reconfigure_def w2_def w1_def w0_def start_world_def
        Invalidate_inv Get_inv NewCache_inv)
  have "reachable insertion_sort latin1 id {''k9''} off_coordinator w4"
    unfolding reachable_def w0_def [symmetric]
    using s1 s2 s3 s4 by (meson rtranclp.rtrancl_refl rtranclp.rtrancl_into_rtrancl)
  moreover have "peek id (co_cache (w_co w4)) ''k9'' = Some (''k9'', rep)"
    using lru.put_peek_same [OF inv, of id "''k9''" "''k9''"] by (simp add: w4_def w3_def)
  moreover have "cache_inv (co_cache (w_co w4))"
    using inv by (simp add: w4_def w3_def Put_inv)
  moreover have "allowedWords (w_co w4) = {} \<and>
      co_pipeline (w_co w4) = Pipeline_Reconfigure (NewPipeline [toggle_layer]) (\<lambda>_. True)"
    by (simp add: w4_def w3_def c3_def Coordinator_Reconfigure_def w2_def w1_def w0_def start_world_def)
  ultimately show ?thesis by (auto simp: w4_def)
qed


text \<open>
  C34. A scan that started before a reconfiguration and stores its result afterwards leaves a
  stale entry: in a reachable state without pending calls the cache answers a text unredacted
  although every scan under the current rules redacts it. \<open>Reconfigure\<close> invalidates the
  cache, but not the results that are still being computed.
\<close>

theorem stale_result_after_reconfigure:
  "\<exists>w. reachable insertion_sort latin1 id {''k9''} off_coordinator w \<and> w_calls w = [] \<and>
     map_option fst (snd (Get id (co_cache (w_co w)) ''k9'')) = Some ''k9'' \<and>
     (\<forall>ck. map_option fst (scan_fresh insertion_sort latin1 ck (co_pipeline (w_co w))
             (allowedWords (w_co w)) ''k9'') = Some ''[REDACTED-SECRET]'')"
proof -
  obtain w rep where w: "reachable insertion_sort latin1 id {''k9''} off_coordinator w" "w_calls w = []"
    "peek id (co_cache (w_co w)) ''k9'' = Some (''k9'', rep)" "cache_inv (co_cache (w_co w))"
    "allowedWords (w_co w) = {}"
    "co_pipeline (w_co w) = Pipeline_Reconfigure (NewPipeline [toggle_layer]) (\<lambda>_. True)"
    using stale_run by blast
  have "\<forall>ck. map_option fst (scan_fresh insertion_sort latin1 ck (co_pipeline (w_co w))
      (allowedWords (w_co w)) ''k9'') = Some ''[REDACTED-SECRET]''"
    unfolding w(5,6) using on_scan by (metis fst_conv option.simps(9))
  moreover have "map_option fst (snd (Get id (co_cache (w_co w)) ''k9'')) = Some ''k9''"
    using lru.get_answer [OF w(4), of id "''k9''"] w(3) by simp
  ultimately show ?thesis using w(1,2) by blast
qed

end
