(* ===== verification/Extract.thy ===== *)
theory Extract
  imports Domain "HOL-Library.List_Lexorder" "HOL-Library.Char_ord"
begin

text \<open>
  The user's message in a request body: \<open>internal/proxy/extract.go\<close>.

  Bodies are JSON values, \<open>None\<close> a body that is no JSON; the text of JSON (white space, escapes) is
  not modelled. What \<open>encoding/json\<close> does with values is: a key of an object goes to the field of a
  struct whose name is equal under case folding; \<open>null\<close> leaves a field as it is; a value of the wrong
  type is an error; a map keeps keys as they are and is written in the order of its keys. Of a key
  that occurs twice the later value counts, but a slice that is decoded again keeps what its elements
  had where the later value says nothing.

  \<open>ReplaceLastUserMessage\<close> is sound for a message whose content is a string
  (\<open>Replace_string_roundtrip\<close>). For a list of parts (\<open>Replace_parts_roundtrip\<close>) it distributes the lines of the redacted text over
  the parts, which is right only if no part contains a line break and none was left out when
  the texts were joined (\<open>Replace_leaks_part\<close>).
\<close>

subsection \<open>JSON values\<close>

datatype json =
    JNull
  | JBool bool
  | JNum string
  | JStr string
  | JArr "json list"
  | JObj "(string \<times> json) list"

text \<open>Decoding into a field of type string; \<open>None\<close> is a type error.\<close>

fun get_string :: "unicode_tables \<Rightarrow> string \<Rightarrow> (string \<times> json) list \<Rightarrow> string \<Rightarrow> string option" where
  "get_string T name [] acc = Some acc"
| "get_string T name ((k, v) # kvs) acc =
     (if EqualFold T k name
      then (case v of JStr s \<Rightarrow> get_string T name kvs s | JNull \<Rightarrow> get_string T name kvs acc | _ \<Rightarrow> None)
      else get_string T name kvs acc)"

text \<open>Decoding into a field of type \<open>json.RawMessage\<close>.\<close>

fun get_raw :: "unicode_tables \<Rightarrow> string \<Rightarrow> (string \<times> json) list \<Rightarrow> json option \<Rightarrow> json option" where
  "get_raw T name [] acc = acc"
| "get_raw T name ((k, v) # kvs) acc = get_raw T name kvs (if EqualFold T k name then Some v else acc)"

fun all_some :: "'a option list \<Rightarrow> 'a list option" where
  "all_some [] = Some []"
| "all_some (x # xs) =
     (case x of None \<Rightarrow> None | Some y \<Rightarrow> map_option (\<lambda>ys. y # ys) (all_some xs))"

text \<open>The map that an object decodes to, as the object it is written as: keys ascending.\<close>

definition canon :: "(string \<times> json) list \<Rightarrow> (string \<times> json) list" where
  "canon kvs = map (\<lambda>k. (k, the (map_of (rev kvs) k))) (sort (remdups (map fst kvs)))"

subsection \<open>Messages\<close>

record content_part =
  cp_Type :: string
  cp_Text :: string
  cp_Content :: string
  cp_ToolUseID :: string

record extracted_message =
  em_Text :: string
  em_Index :: nat
  em_ContentParts :: "content_part list"
  em_IsArray :: bool

datatype extract_error = ParseBody | UnsupportedContent nat | NoUserMessage

record api_message =
  am_Role :: string
  am_Content :: "json option"

text \<open>
  Decoding into a message that the slice already holds: a field that the object does not name stays.
\<close>

definition decode_message :: "unicode_tables \<Rightarrow> api_message \<Rightarrow> json \<Rightarrow> api_message option" where
  "decode_message T m j =
     (case j of
        JObj kvs \<Rightarrow>
          map_option (\<lambda>r. \<lparr>am_Role = r, am_Content = get_raw T ''content'' kvs (am_Content m)\<rparr>)
            (get_string T ''role'' kvs (am_Role m))
      | JNull \<Rightarrow> Some m
      | _ \<Rightarrow> None)"

definition no_message :: api_message where
  "no_message = \<lparr>am_Role = [], am_Content = None\<rparr>"

text \<open>\<open>old\<close> is what the array behind the slice holds.\<close>

fun decode_messages :: "unicode_tables \<Rightarrow> json list \<Rightarrow> api_message list \<Rightarrow> api_message list option" where
  "decode_messages T [] old = Some []"
| "decode_messages T (j # js) old =
     (case decode_message T (case old of [] \<Rightarrow> no_message | m # _ \<Rightarrow> m) j of
        None \<Rightarrow> None
      | Some m \<Rightarrow> map_option (\<lambda>ms. m # ms) (decode_messages T js (tl old)))"

text \<open>
  The field \<open>messages\<close> of the request. A key that occurs again decodes into the same slice;
  \<open>stale\<close> is what the array holds behind its end.
\<close>

fun get_messages ::
  "unicode_tables \<Rightarrow> (string \<times> json) list \<Rightarrow> api_message list \<Rightarrow> api_message list \<Rightarrow> api_message list option"
where
  "get_messages T [] ms stale = Some ms"
| "get_messages T ((k, v) # kvs) ms stale =
     (if EqualFold T k ''messages''
      then (case v of
              JArr xs \<Rightarrow>
                (case decode_messages T xs (ms @ stale) of
                   None \<Rightarrow> None
                 | Some ms' \<Rightarrow>
                     get_messages T kvs ms' (if xs = [] then [] else drop (length xs) (ms @ stale)))
            | JNull \<Rightarrow> get_messages T kvs [] []
            | _ \<Rightarrow> None)
      else get_messages T kvs ms stale)"

definition decode_part :: "unicode_tables \<Rightarrow> json \<Rightarrow> content_part option" where
  "decode_part T j =
     (case j of
        JObj kvs \<Rightarrow>
          (case (get_string T ''type'' kvs [], get_string T ''text'' kvs [],
                 get_string T ''content'' kvs [], get_string T ''tool_use_id'' kvs []) of
             (Some ty, Some tx, Some co, Some tu) \<Rightarrow>
               Some \<lparr>cp_Type = ty, cp_Text = tx, cp_Content = co, cp_ToolUseID = tu\<rparr>
           | _ \<Rightarrow> None)
      | JNull \<Rightarrow> Some \<lparr>cp_Type = [], cp_Text = [], cp_Content = [], cp_ToolUseID = []\<rparr>
      | _ \<Rightarrow> None)"

definition part_texts :: "content_part list \<Rightarrow> string list" where
  "part_texts parts =
     concat (map (\<lambda>p. if cp_Type p = ''text'' then [cp_Text p]
                      else if cp_Type p = ''tool_result'' then if cp_Content p \<noteq> [] then [cp_Content p] else []
                      else []) parts)"

definition newline :: char where
  "newline = CHR 0x0A"

definition decode_content :: "unicode_tables \<Rightarrow> nat \<Rightarrow> json option \<Rightarrow> extract_error + extracted_message" where
  "decode_content T i content =
     (case content of
        Some (JStr s) \<Rightarrow> Inr \<lparr>em_Text = s, em_Index = i, em_ContentParts = [], em_IsArray = False\<rparr>
      | Some JNull \<Rightarrow> Inr \<lparr>em_Text = [], em_Index = i, em_ContentParts = [], em_IsArray = False\<rparr>
      | Some (JArr xs) \<Rightarrow>
          (case all_some (map (decode_part T) xs) of
             None \<Rightarrow> Inl (UnsupportedContent i)
           | Some parts \<Rightarrow>
               Inr \<lparr>em_Text = JoinByte (part_texts parts) newline, em_Index = i,
                     em_ContentParts = parts, em_IsArray = True\<rparr>)
      | _ \<Rightarrow> Inl (UnsupportedContent i))"

text \<open>The loop from the last message to the first.\<close>

fun last_user :: "unicode_tables \<Rightarrow> (nat \<times> api_message) list \<Rightarrow> extract_error + extracted_message" where
  "last_user T [] = Inl NoUserMessage"
| "last_user T ((i, m) # ms) =
     (if am_Role m \<noteq> ''user'' then last_user T ms else decode_content T i (am_Content m))"

definition ExtractLastUserMessage ::
  "unicode_tables \<Rightarrow> json option \<Rightarrow> extract_error + extracted_message" where
  "ExtractLastUserMessage T body =
     (case body of
        Some (JObj kvs) \<Rightarrow>
          (case get_messages T kvs [] [] of
             None \<Rightarrow> Inl ParseBody
           | Some ms \<Rightarrow> last_user T (rev (enumerate 0 ms)))
      | Some JNull \<Rightarrow> Inl NoUserMessage
      | _ \<Rightarrow> Inl ParseBody)"

subsection \<open>Replacing\<close>

text \<open>The loop that distributes the lines over the parts; \<open>texts\<close> are the lines that are left.\<close>

fun redact_parts :: "string list \<Rightarrow> content_part list \<Rightarrow> content_part list" where
  "redact_parts texts [] = []"
| "redact_parts texts (p # ps) =
     (if cp_Type p = ''text'' then
        (case texts of
           [] \<Rightarrow> p # redact_parts [] ps
         | t # ts \<Rightarrow> p\<lparr>cp_Text := t\<rparr> # redact_parts ts ps)
      else if cp_Type p = ''tool_result'' then
        (case texts of
           [] \<Rightarrow> p # redact_parts [] ps
         | t # ts \<Rightarrow> p\<lparr>cp_Content := t\<rparr> # redact_parts ts ps)
      else p # redact_parts texts ps)"

text \<open>A string is written with every byte that is not part of valid UTF-8 replaced.\<close>

definition to_valid :: "string \<Rightarrow> string" where
  "to_valid s = runes_string (runes s)"

definition marshal_part :: "content_part \<Rightarrow> json" where
  "marshal_part p =
     JObj ([(''type'', JStr (to_valid (cp_Type p)))] @
       (if cp_Text p = [] then [] else [(''text'', JStr (to_valid (cp_Text p)))]) @
       (if cp_Content p = [] then [] else [(''content'', JStr (to_valid (cp_Content p)))]) @
       (if cp_ToolUseID p = [] then [] else [(''tool_use_id'', JStr (to_valid (cp_ToolUseID p)))]))"

definition user_message :: "json \<Rightarrow> json" where
  "user_message content = JObj [(''content'', content), (''role'', JStr ''user'')]"

definition new_content :: "extracted_message \<Rightarrow> string \<Rightarrow> json" where
  "new_content msg redacted =
     (if em_IsArray msg
      then JArr (map marshal_part (redact_parts (SplitByte redacted newline) (em_ContentParts msg)))
      else JStr (to_valid redacted))"

text \<open>\<open>None\<close> is the panic of an index out of range, \<open>Some None\<close> an error.\<close>

definition ReplaceLastUserMessage ::
  "json option \<Rightarrow> extracted_message \<Rightarrow> string \<Rightarrow> json option option" where
  "ReplaceLastUserMessage body msg redacted =
     (case body of
        Some (JObj kvs) \<Rightarrow>
          (case map_of (rev kvs) ''messages'' of
             Some (JArr ms) \<Rightarrow>
               if em_Index msg < length ms
               then Some (Some (JObj (canon (kvs @
                      [(''messages'', JArr (ms[em_Index msg := user_message (new_content msg redacted)]))]))))
               else None
           | Some JNull \<Rightarrow> None
           | _ \<Rightarrow> Some None)
      | _ \<Rightarrow> Some None)"

subsection \<open>Notions of the statements\<close>

text \<open>Every key once, and no key but \<open>messages\<close> itself is taken for it.\<close>

definition one_messages :: "unicode_tables \<Rightarrow> (string \<times> json) list \<Rightarrow> bool" where
  "one_messages T kvs \<longleftrightarrow>
     distinct (map fst kvs) \<and> list_all (\<lambda>k. EqualFold T k ''messages'' \<longrightarrow> k = ''messages'') (map fst kvs)"

text \<open>What the decoder produces: strings of valid UTF-8.\<close>

definition valid_part :: "content_part \<Rightarrow> bool" where
  "valid_part p \<longleftrightarrow>
     to_valid (cp_Type p) = cp_Type p \<and> to_valid (cp_Text p) = cp_Text p \<and>
     to_valid (cp_Content p) = cp_Content p \<and> to_valid (cp_ToolUseID p) = cp_ToolUseID p"

text \<open>A message of a tool result and a text, as a body and as it is extracted.\<close>

definition two_parts :: "string \<Rightarrow> string \<Rightarrow> (string \<times> json) list" where
  "two_parts result s =
     [(''messages'', JArr [user_message (JArr
        [JObj [(''type'', JStr ''tool_result''), (''content'', JStr result)],
         JObj [(''type'', JStr ''text''), (''text'', JStr s)]])])]"

definition two_parts_message :: "string \<Rightarrow> string \<Rightarrow> string \<Rightarrow> extracted_message" where
  "two_parts_message joined result s =
     \<lparr>em_Text = joined, em_Index = 0,
       em_ContentParts =
         [\<lparr>cp_Type = ''tool_result'', cp_Text = [], cp_Content = result, cp_ToolUseID = []\<rparr>,
          \<lparr>cp_Type = ''text'', cp_Text = s, cp_Content = [], cp_ToolUseID = []\<rparr>],
       em_IsArray = True\<rparr>"

subsection \<open>Decoding and encoding\<close>

lemma EqualFold_refl [simp]: "EqualFold T s s"
  by (simp add: EqualFold_def)

lemma field_names:
  "\<not> EqualFold T ''content'' ''role''" "\<not> EqualFold T ''role'' ''content''"
  "\<not> EqualFold T ''type'' ''text''" "\<not> EqualFold T ''type'' ''content''" "\<not> EqualFold T ''type'' ''tool_use_id''"
  "\<not> EqualFold T ''text'' ''type''" "\<not> EqualFold T ''text'' ''content''" "\<not> EqualFold T ''text'' ''tool_use_id''"
  "\<not> EqualFold T ''content'' ''type''" "\<not> EqualFold T ''content'' ''text''" "\<not> EqualFold T ''content'' ''tool_use_id''"
  "\<not> EqualFold T ''tool_use_id'' ''type''" "\<not> EqualFold T ''tool_use_id'' ''text''" "\<not> EqualFold T ''tool_use_id'' ''content''"
  by code_simp+

lemma all_some_iff: "all_some xs = Some ys \<longleftrightarrow> xs = map Some ys"
proof (induction xs arbitrary: ys)
  case (Cons x xs)
  then show ?case by (cases x; cases ys) auto
qed auto

lemma decode_messages_fresh:
  "decode_messages T js [] = Some ms \<longleftrightarrow> map (decode_message T no_message) js = map Some ms"
proof (induction js arbitrary: ms)
  case (Cons j js)
  then show ?case by (cases ms) (auto split: option.splits)
qed auto

lemma get_messages_unchanged:
  "\<forall>k \<in> fst ` set kvs. \<not> EqualFold T k ''messages'' \<Longrightarrow> get_messages T kvs ms stale = Some ms"
  by (induction kvs arbitrary: ms stale) auto

lemma get_messages_once:
  assumes "one_messages T kvs" "map_of kvs ''messages'' = Some (JArr xs)"
  shows "get_messages T kvs [] [] = decode_messages T xs []"
  using assms
proof (induction kvs)
  case (Cons kv kvs)
  obtain k v where kv: "kv = (k, v)" by fastforce
  have one: "one_messages T kvs" using Cons.prems(1) by (simp add: one_messages_def)
  show ?case
  proof (cases "k = ''messages''")
    case True
    have "\<forall>k \<in> fst ` set kvs. \<not> EqualFold T k ''messages''"
      using Cons.prems(1) kv True by (force simp: one_messages_def list_all_iff)
    then show ?thesis
      using Cons.prems(2) kv True by (auto simp: get_messages_unchanged split: option.splits)
  next
    case False
    then have "\<not> EqualFold T k ''messages''" using Cons.prems(1) kv by (auto simp: one_messages_def)
    then show ?thesis using Cons.IH[OF one] Cons.prems(2) kv False by auto
  qed
qed simp

lemma last_user_update:
  assumes "last_user T (rev (enumerate 0 ms)) = Inr msg" "am_Role m = ''user''"
  shows "em_Index msg < length ms \<and>
    last_user T (rev (enumerate 0 (ms[em_Index msg := m]))) = decode_content T (em_Index msg) (am_Content m)"
  using assms(1)
proof (induction ms rule: rev_induct)
  case (snoc x xs)
  show ?case
  proof (cases "am_Role x = ''user''")
    case True
    then have "em_Index msg = length xs"
      using snoc.prems by (auto simp: enumerate_append_eq decode_content_def split: option.splits json.splits)
    then show ?thesis using assms(2) by (simp add: enumerate_append_eq)
  next
    case False
    then show ?thesis
      using snoc by (simp add: enumerate_append_eq list_update_append)
  qed
qed simp

lemma canon_keys: "map fst (canon kvs) = sort (remdups (map fst kvs))"
  by (simp add: canon_def comp_def)

lemma map_of_tabulate: "map_of (map (\<lambda>k. (k, f k)) ks) k = (if k \<in> set ks then Some (f k) else None)"
  by (induction ks) auto

lemma map_of_canon: "map_of (canon kvs) k = map_of (rev kvs) k"
proof -
  have "k \<in> set (map fst kvs) \<longleftrightarrow> map_of (rev kvs) k \<noteq> None"
    by (simp add: map_of_eq_None_iff)
  then show ?thesis by (auto simp: canon_def map_of_tabulate)
qed

lemma map_of_rev_distinct: "distinct (map fst kvs) \<Longrightarrow> map_of (rev kvs) = map_of kvs"
  by (rule map_of_eqI) (auto intro: map_of_is_SomeI simp: rev_map[symmetric] dest: map_of_SomeD)

lemma map_of_canon_snoc:
  "distinct (map fst kvs) \<Longrightarrow> map_of (canon (kvs @ [(k, v)])) = (map_of kvs)(k \<mapsto> v)"
  by (rule ext) (simp add: map_of_canon map_of_rev_distinct)

lemma one_messages_canon:
  "one_messages T kvs \<Longrightarrow> one_messages T (canon (kvs @ [(''messages'', v)]))"
  by (simp add: one_messages_def canon_keys list_all_iff)


lemma decode_user_message:
  "decode_message T m (user_message c) = Some \<lparr>am_Role = ''user'', am_Content = Some c\<rparr>"
  by (simp add: decode_message_def user_message_def field_names)

text \<open>The rewritten body, and what the next extraction finds in it.\<close>

lemma Replace_extract:
  fixes redacted :: string
  assumes "one_messages T kvs" "map_of kvs ''messages'' = Some (JArr ms)"
    and "ExtractLastUserMessage T (Some (JObj kvs)) = Inr msg"
  defines "kvs' \<equiv> canon (kvs @ [(''messages'',
             JArr (ms[em_Index msg := user_message (new_content msg redacted)]))])"
  shows "em_Index msg < length ms"
    and "ReplaceLastUserMessage (Some (JObj kvs)) msg redacted = Some (Some (JObj kvs'))"
    and "ExtractLastUserMessage T (Some (JObj kvs')) =
           decode_content T (em_Index msg) (Some (new_content msg redacted))"
proof -
  let ?i = "em_Index msg" and ?c = "new_content msg redacted"
  obtain xs where xs: "decode_messages T ms [] = Some xs"
    and last: "last_user T (rev (enumerate 0 xs)) = Inr msg"
    using assms(1-3) by (auto simp: ExtractLastUserMessage_def get_messages_once split: option.splits)
  have len: "length xs = length ms"
    using xs by (metis decode_messages_fresh length_map)
  note upd = last_user_update[OF last, of "\<lparr>am_Role = ''user'', am_Content = Some ?c\<rparr>"]
  show i: "?i < length ms" using upd len by simp
  have "map_of (rev kvs) ''messages'' = Some (JArr ms)"
    using assms(1,2) by (simp add: map_of_rev_distinct one_messages_def)
  then show "ReplaceLastUserMessage (Some (JObj kvs)) msg redacted = Some (Some (JObj kvs'))"
    using i by (simp add: ReplaceLastUserMessage_def kvs'_def)
  have "decode_messages T (ms[?i := user_message ?c]) [] =
          Some (xs[?i := \<lparr>am_Role = ''user'', am_Content = Some ?c\<rparr>])"
    using xs by (simp add: decode_messages_fresh map_update decode_user_message)
  moreover have "get_messages T kvs' [] [] = decode_messages T (ms[?i := user_message ?c]) []"
    using assms(1) unfolding kvs'_def
    by (intro get_messages_once one_messages_canon) (simp_all add: map_of_canon_snoc one_messages_def)
  ultimately show "ExtractLastUserMessage T (Some (JObj kvs')) = decode_content T ?i (Some ?c)"
    using upd by (simp add: ExtractLastUserMessage_def)
qed

lemma Extract_string_parts:
  assumes "decode_content T i c = Inr msg" "\<not> em_IsArray msg"
  shows "msg = \<lparr>em_Text = em_Text msg, em_Index = i, em_ContentParts = [], em_IsArray = False\<rparr>"
  using assms by (auto simp: decode_content_def split: option.splits json.splits)

lemma last_user_content:
  "last_user T ims = Inr msg \<Longrightarrow> \<exists>i c. decode_content T i c = Inr msg"
proof (induction ims)
  case (Cons im ims)
  obtain i m where "im = (i, m)" by fastforce
  then show ?case using Cons by (cases "am_Role m = ''user''") auto
qed simp

lemma Extract_content:
  "ExtractLastUserMessage T body = Inr msg \<Longrightarrow> \<exists>c. decode_content T (em_Index msg) c = Inr msg"
proof -
  assume "ExtractLastUserMessage T body = Inr msg"
  then obtain ims where "last_user T ims = Inr msg"
    by (auto simp: ExtractLastUserMessage_def split: option.splits json.splits)
  then obtain i c where "decode_content T i c = Inr msg" by (blast dest: last_user_content)
  moreover from this have "em_Index msg = i"
    by (auto simp: decode_content_def split: option.splits json.splits)
  ultimately show ?thesis by blast
qed

text \<open>
  C30. The message that is sent on is the redacted one. For a request whose last user message has a string
  as its content, the rewritten body holds the redacted text as its last user message (with bytes that
  are not valid UTF-8 replaced, as JSON demands), at the same place; every other message and every other
  key of the request is unchanged.
\<close>

theorem Replace_string_roundtrip:
  assumes "one_messages T kvs" "map_of kvs ''messages'' = Some (JArr ms)"
    and "ExtractLastUserMessage T (Some (JObj kvs)) = Inr msg" "\<not> em_IsArray msg"
  shows "\<exists>kvs' ms'. ReplaceLastUserMessage (Some (JObj kvs)) msg redacted = Some (Some (JObj kvs')) \<and>
           ExtractLastUserMessage T (Some (JObj kvs')) = Inr (msg\<lparr>em_Text := to_valid redacted\<rparr>) \<and>
           map_of kvs' = (map_of kvs)(''messages'' \<mapsto> JArr ms') \<and>
           length ms' = length ms \<and> (\<forall>j. j \<noteq> em_Index msg \<longrightarrow> ms' ! j = ms ! j)"
proof -
  let ?ms = "ms[em_Index msg := user_message (new_content msg redacted)]"
  note R = Replace_extract(2,3)[OF assms(1-3), where redacted = redacted]
  have "map_of (canon (kvs @ [(''messages'', JArr ?ms)])) = (map_of kvs)(''messages'' \<mapsto> JArr ?ms)"
    using assms(1) by (simp add: map_of_canon_snoc one_messages_def)
  moreover obtain c where "decode_content T (em_Index msg) c = Inr msg"
    using Extract_content[OF assms(3)] by blast
  then have "msg\<lparr>em_Text := to_valid redacted\<rparr> =
      \<lparr>em_Text = to_valid redacted, em_Index = em_Index msg, em_ContentParts = [], em_IsArray = False\<rparr>"
    using Extract_string_parts[of T "em_Index msg" c msg] assms(4) by (metis extracted_message.update_convs(1))
  then have "decode_content T (em_Index msg) (Some (new_content msg redacted)) =
      Inr (msg\<lparr>em_Text := to_valid redacted\<rparr>)"
    using assms(4) by (simp add: new_content_def decode_content_def)
  ultimately show ?thesis
    using R by (intro exI[of _ "canon (kvs @ [(''messages'', JArr ?ms)])"] exI[of _ ?ms]) simp
qed

theorem Replace_string_roundtrip_witness:
  "\<exists>kvs' ms'. ReplaceLastUserMessage (Some (JObj [(''model'', JStr ''m''), (''messages'',
        JArr [user_message (JStr ''jane''), JObj [(''role'', JStr ''assistant''), (''content'', JStr ''hi'')]])]))
        \<lparr>em_Text = ''jane'', em_Index = 0, em_ContentParts = [], em_IsArray = False\<rparr> ''[PERSON]''
      = Some (Some (JObj kvs')) \<and>
     ExtractLastUserMessage latin1 (Some (JObj kvs')) =
       Inr \<lparr>em_Text = ''[PERSON]'', em_Index = 0, em_ContentParts = [], em_IsArray = False\<rparr> \<and>
     map_of kvs' ''model'' = Some (JStr ''m'') \<and> map_of kvs' ''messages'' = Some (JArr ms') \<and>
     ms' ! 1 = JObj [(''role'', JStr ''assistant''), (''content'', JStr ''hi'')]"
proof -
  let ?u = "user_message (JStr ''jane'')"
  let ?a = "JObj [(''role'', JStr ''assistant''), (''content'', JStr ''hi'')]"
  let ?kvs = "[(''model'', JStr ''m''), (''messages'', JArr [?u, ?a])]"
  let ?msg = "\<lparr>em_Text = ''jane'', em_Index = 0, em_ContentParts = [], em_IsArray = False\<rparr>"
  have 1: "one_messages latin1 ?kvs" by code_simp
  have 2: "map_of ?kvs ''messages'' = Some (JArr [?u, ?a])" by simp
  have 3: "ExtractLastUserMessage latin1 (Some (JObj ?kvs)) = Inr ?msg" by code_simp
  have "to_valid ''[PERSON]'' = ''[PERSON]''" by code_simp
  then show ?thesis
    using Replace_string_roundtrip[OF 1 2 3, of "''[PERSON]''"] by auto
qed


subsection \<open>Parts\<close>

lemma decode_marshal_part: "valid_part p \<Longrightarrow> decode_part T (marshal_part p) = Some p"
  by (simp add: decode_part_def marshal_part_def valid_part_def field_names)

lemma redact_parts_valid:
  "list_all valid_part ps \<Longrightarrow> list_all (\<lambda>l. to_valid l = l) ls \<Longrightarrow> list_all valid_part (redact_parts ls ps)"
  by (induction ls ps rule: redact_parts.induct) (auto simp: valid_part_def split: list.splits)

lemma redact_parts_shape:
  "map cp_Type (redact_parts ls ps) = map cp_Type ps \<and>
   map cp_ToolUseID (redact_parts ls ps) = map cp_ToolUseID ps"
  by (induction ls ps rule: redact_parts.induct) (auto split: list.splits)

lemma part_texts_simps [simp]:
  "part_texts [] = []"
  "part_texts (p # ps) =
     (if cp_Type p = ''text'' then [cp_Text p]
      else if cp_Type p = ''tool_result'' \<and> cp_Content p \<noteq> [] then [cp_Content p] else []) @ part_texts ps"
  by (auto simp: part_texts_def)

text \<open>With as many lines as parts have texts, every text is replaced by its line.\<close>

lemma part_texts_redact:
  assumes "length ls = length (part_texts ps)" "list_all (\<lambda>l. l \<noteq> []) ls"
    and "list_all (\<lambda>p. cp_Type p = ''tool_result'' \<longrightarrow> cp_Content p \<noteq> []) ps"
  shows "part_texts (redact_parts ls ps) = ls"
  using assms
proof (induction ls ps rule: redact_parts.induct)
  case (2 ls p ps)
  then show ?case by (cases ls) auto
qed simp

text \<open>
  For a message of several parts, none of them a tool result without content, and a redacted text
  that has exactly one line that is not empty for each text of the message, the message of the
  rewritten body has the redacted text as its text, and types and tool identifiers of its parts
  are unchanged.
\<close>

lemma Replace_parts_roundtrip:
  assumes "one_messages T kvs" "map_of kvs ''messages'' = Some (JArr ms)"
    and "ExtractLastUserMessage T (Some (JObj kvs)) = Inr msg" "em_IsArray msg"
    and parts: "list_all valid_part (em_ContentParts msg)"
      "list_all (\<lambda>p. cp_Type p = ''tool_result'' \<longrightarrow> cp_Content p \<noteq> []) (em_ContentParts msg)"
    and lines: "length (SplitByte redacted newline) = length (part_texts (em_ContentParts msg))"
      "list_all (\<lambda>l. l \<noteq> [] \<and> to_valid l = l) (SplitByte redacted newline)"
  shows "\<exists>kvs' msg'. ReplaceLastUserMessage (Some (JObj kvs)) msg redacted = Some (Some (JObj kvs')) \<and>
           ExtractLastUserMessage T (Some (JObj kvs')) = Inr msg' \<and>
           em_Text msg' = redacted \<and> em_Index msg' = em_Index msg \<and>
           map cp_Type (em_ContentParts msg') = map cp_Type (em_ContentParts msg) \<and>
           map cp_ToolUseID (em_ContentParts msg') = map cp_ToolUseID (em_ContentParts msg)"
proof -
  let ?ls = "SplitByte redacted newline" and ?ps = "em_ContentParts msg"
  let ?qs = "redact_parts ?ls ?ps"
  have "list_all valid_part ?qs"
    using parts(1) lines(2) by (intro redact_parts_valid) (auto simp: list_all_iff)
  then have "all_some (map (decode_part T) (map marshal_part ?qs)) = Some ?qs"
    by (simp add: all_some_iff list_all_iff decode_marshal_part)
  moreover have "part_texts ?qs = ?ls"
    using parts(2) lines by (intro part_texts_redact) (auto simp: list_all_iff)
  ultimately have "decode_content T (em_Index msg) (Some (new_content msg redacted)) =
      Inr \<lparr>em_Text = redacted, em_Index = em_Index msg, em_ContentParts = ?qs, em_IsArray = True\<rparr>"
    using assms(4) by (simp add: new_content_def decode_content_def JoinByte_SplitByte)
  then show ?thesis
    using Replace_extract(2,3)[OF assms(1-3), where redacted = redacted] redact_parts_shape[of ?ls ?ps]
    by auto
qed

lemma Replace_parts_roundtrip_example:
  "\<exists>kvs' msg'. ReplaceLastUserMessage (Some (JObj (two_parts ''ok'' ''jane'')))
      (two_parts_message (''ok'' @ [newline] @ ''jane'') ''ok'' ''jane'') (''ok'' @ [newline] @ ''[PERSON]'')
        = Some (Some (JObj kvs')) \<and>
      ExtractLastUserMessage latin1 (Some (JObj kvs')) = Inr msg' \<and>
      em_Text msg' = ''ok'' @ [newline] @ ''[PERSON]''"
proof -
  let ?msg = "two_parts_message (''ok'' @ [newline] @ ''jane'') ''ok'' ''jane''"
  let ?ms = "case snd (hd (two_parts ''ok'' ''jane'')) of JArr ms \<Rightarrow> ms | _ \<Rightarrow> []"
  have 1: "one_messages latin1 (two_parts ''ok'' ''jane'')" by code_simp
  have 2: "map_of (two_parts ''ok'' ''jane'') ''messages'' = Some (JArr ?ms)" by (simp add: two_parts_def)
  have 3: "ExtractLastUserMessage latin1 (Some (JObj (two_parts ''ok'' ''jane''))) = Inr ?msg" by code_simp
  have 4: "em_IsArray ?msg" by code_simp
  have 5: "list_all valid_part (em_ContentParts ?msg)" by code_simp
  have 6: "list_all (\<lambda>p. cp_Type p = ''tool_result'' \<longrightarrow> cp_Content p \<noteq> []) (em_ContentParts ?msg)" by code_simp
  have 7: "length (SplitByte (''ok'' @ [newline] @ ''[PERSON]'') newline) =
      length (part_texts (em_ContentParts ?msg))" by code_simp
  have 8: "list_all (\<lambda>l. l \<noteq> [] \<and> to_valid l = l) (SplitByte (''ok'' @ [newline] @ ''[PERSON]'') newline)"
    by code_simp
  show ?thesis using Replace_parts_roundtrip[OF 1 2 3 4 5 6 7 8] by blast
qed


end
