(* ===== verification/ReportStore.thy ===== *)
theory ReportStore
  imports Extract "HOL-Library.Finite_Map"
begin

text \<open>
  The local store of scan reports: \<open>internal/store/store.go\<close>.

  The database is bbolt, which is not part of the repository: a bucket is a parameter \<open>bolt\<close> with the
  operations the store calls, and \<open>bolt_ok\<close> is what its documentation promises of them (a value put is
  the one got, \<open>ForEach\<close> visits every key once in byte order). A stored value is what decoding
  gives for it, \<open>None\<close> where it is no report. Writing a report as JSON replaces bytes that are not valid
  UTF-8 (\<open>stored_report\<close>).

  A time is its number of nanoseconds since the epoch, \<open>None\<close> the zero time of a filter. The order of
  equal elements after \<open>sort.Slice\<close> is not determined, so sorting is a parameter.
\<close>

subsection \<open>Data\<close>

record redaction =
  rd_Label :: string
  rd_Original :: string
  rd_Start :: int
  rd_End :: int
  rd_Layer :: string

record layer_result =
  lr_Name :: string
  lr_FindingsCount :: int
  lr_LatencyMs :: int

record scan_report =
  sr_ID :: string
  sr_Timestamp :: int
  sr_Provider :: string
  sr_Source :: string
  sr_LatencyMs :: int
  sr_Redactions :: "redaction list"
  sr_Layers :: "layer_result list"
  sr_Blocked :: bool
  sr_Reason :: string

record query_filter =
  qf_Provider :: string
  qf_Source :: string
  qf_Blocked :: "bool option"
  qf_Since :: "int option"
  qf_Until :: "int option"
  qf_Limit :: int

record store_stats =
  TotalScanned :: int
  TotalRedactions :: int
  TotalBlocked :: int
  AvgLatencyMs :: real

record 'd bolt =
  bolt_Put :: "'d \<Rightarrow> string \<Rightarrow> scan_report option \<Rightarrow> 'd option"
  bolt_Get :: "'d \<Rightarrow> string \<Rightarrow> scan_report option option"
  bolt_ForEach :: "'d \<Rightarrow> (string \<times> scan_report option) list"

datatype store_error = UpdateFailed | ReportNotFound string | BadReport

definition bolt_ok :: "'d bolt \<Rightarrow> bool" where
  "bolt_ok B \<longleftrightarrow>
     (\<forall>d k v d'. bolt_Put B d k v = Some d' \<longrightarrow> bolt_Get B d' = (bolt_Get B d)(k \<mapsto> v)) \<and>
     (\<forall>d. map_of (bolt_ForEach B d) = bolt_Get B d \<and> sorted_wrt (<) (map fst (bolt_ForEach B d)))"

subsection \<open>Operations\<close>

text \<open>
  Opening: \<open>opened\<close> is the database of the file, if it can be opened in the time that is allowed, and \<open>create\<close> the
  transaction that creates the bucket. With the store comes whether the file stays open.
\<close>

definition New_report_store :: "'d option \<Rightarrow> ('d \<Rightarrow> 'd option) \<Rightarrow> 'd option \<times> bool" where
  "New_report_store opened create =
     (case opened of
        None \<Rightarrow> (None, False)
      | Some db \<Rightarrow> (case create db of None \<Rightarrow> (None, False) | Some db' \<Rightarrow> (Some db', True)))"

lemma New_report_store_handle: "snd (New_report_store opened create) \<longleftrightarrow> fst (New_report_store opened create) \<noteq> None"
  by (simp add: New_report_store_def split: option.split)

definition stored_redaction :: "redaction \<Rightarrow> redaction" where
  "stored_redaction r =
     r\<lparr>rd_Label := to_valid (rd_Label r), rd_Original := to_valid (rd_Original r), rd_Layer := to_valid (rd_Layer r)\<rparr>"

definition stored_report :: "scan_report \<Rightarrow> scan_report" where
  "stored_report r =
     r\<lparr>sr_ID := to_valid (sr_ID r), sr_Provider := to_valid (sr_Provider r), sr_Source := to_valid (sr_Source r),
       sr_Redactions := map stored_redaction (sr_Redactions r),
       sr_Layers := map (\<lambda>l. l\<lparr>lr_Name := to_valid (lr_Name l)\<rparr>) (sr_Layers r),
       sr_Reason := to_valid (sr_Reason r)\<rparr>"

text \<open>The database afterwards, the report with its identifier, and the identifier or the error.\<close>

definition SaveReport :: "'d bolt \<Rightarrow> 'd \<Rightarrow> scan_report \<Rightarrow> 'd \<times> scan_report \<times> (store_error + string)" where
  "SaveReport B d rep =
     (let i = fmt_int (sr_Timestamp rep);
          rep' = rep\<lparr>sr_ID := i\<rparr>
      in case bolt_Put B d i (Some (stored_report rep')) of
           None \<Rightarrow> (d, rep', Inl UpdateFailed)
         | Some d' \<Rightarrow> (d', rep', Inr i))"

definition GetReport :: "'d bolt \<Rightarrow> 'd \<Rightarrow> string \<Rightarrow> store_error + scan_report" where
  "GetReport B d i =
     (case bolt_Get B d i of
        None \<Rightarrow> Inl (ReportNotFound i)
      | Some None \<Rightarrow> Inl BadReport
      | Some (Some rep) \<Rightarrow> Inr rep)"

definition matches_filter :: "query_filter \<Rightarrow> scan_report \<Rightarrow> bool" where
  "matches_filter q r \<longleftrightarrow>
     \<not> (qf_Provider q \<noteq> [] \<and> sr_Provider r \<noteq> qf_Provider q) \<and>
     \<not> (qf_Source q \<noteq> [] \<and> sr_Source r \<noteq> qf_Source q) \<and>
     (case qf_Blocked q of None \<Rightarrow> True | Some b \<Rightarrow> sr_Blocked r = b) \<and>
     (case qf_Since q of None \<Rightarrow> True | Some t \<Rightarrow> \<not> sr_Timestamp r < t) \<and>
     (case qf_Until q of None \<Rightarrow> True | Some t \<Rightarrow> \<not> sr_Timestamp r > t)"

text \<open>The loop over the bucket: what does not decode is passed over.\<close>

definition visit :: "('d bolt) \<Rightarrow> 'd \<Rightarrow> (scan_report \<Rightarrow> bool) \<Rightarrow> scan_report list" where
  "visit B d P = concat (map (\<lambda>(_, v). case v of None \<Rightarrow> [] | Some r \<Rightarrow> if P r then [r] else []) (bolt_ForEach B d))"

definition newer :: "scan_report \<Rightarrow> scan_report \<Rightarrow> bool" where
  "newer r s \<longleftrightarrow> sr_Timestamp r > sr_Timestamp s"

definition QueryReports ::
  "((scan_report \<Rightarrow> scan_report \<Rightarrow> bool) \<Rightarrow> scan_report list \<Rightarrow> scan_report list) \<Rightarrow>
   'd bolt \<Rightarrow> 'd \<Rightarrow> query_filter \<Rightarrow> scan_report list" where
  "QueryReports srt B d q =
     (let results = srt newer (visit B d (matches_filter q))
      in if qf_Limit q > 0 \<and> go_len results > qf_Limit q then take (nat (qf_Limit q)) results else results)"

definition GetStats :: "'d bolt \<Rightarrow> 'd \<Rightarrow> int \<Rightarrow> int \<Rightarrow> store_stats" where
  "GetStats B d since until =
     (let rs = visit B d (\<lambda>r. \<not> (sr_Timestamp r < since \<or> sr_Timestamp r > until));
          n = go_len rs;
          latency = sum_list (map sr_LatencyMs rs)
      in \<lparr>TotalScanned = n,
          TotalRedactions = sum_list (map (\<lambda>r. go_len (sr_Redactions r)) rs),
          TotalBlocked = go_len (filter sr_Blocked rs),
          AvgLatencyMs = (if n > 0 then real_of_int latency / real_of_int n else 0)\<rparr>)"

subsection \<open>What is read is what was written\<close>

lemma GetReport_SaveReport:
  assumes "bolt_ok B" "SaveReport B d rep = (d', rep', Inr i)"
  shows "GetReport B d' i = Inr (stored_report rep')"
    and "j \<noteq> i \<Longrightarrow> GetReport B d' j = GetReport B d j"
proof -
  have i: "i = fmt_int (sr_Timestamp rep)" and rep': "rep' = rep\<lparr>sr_ID := i\<rparr>"
    and put: "bolt_Put B d i (Some (stored_report rep')) = Some d'"
    using assms(2) by (auto simp: SaveReport_def Let_def split: option.splits)
  have "bolt_Get B d' = (bolt_Get B d)(i \<mapsto> Some (stored_report rep'))"
    using assms(1) put unfolding bolt_ok_def by blast
  then show "GetReport B d' i = Inr (stored_report rep')" "j \<noteq> i \<Longrightarrow> GetReport B d' j = GetReport B d j"
    by (simp_all add: GetReport_def)
qed

lemma set_visit:
  assumes "bolt_ok B"
  shows "r \<in> set (visit B d P) \<longleftrightarrow> P r \<and> (\<exists>i. GetReport B d i = Inr r)"
proof -
  have m: "map_of (bolt_ForEach B d) = bolt_Get B d" and "distinct (map fst (bolt_ForEach B d))"
    using assms by (auto simp: bolt_ok_def strict_sorted_iff)
  then have each: "(i, v) \<in> set (bolt_ForEach B d) \<longleftrightarrow> bolt_Get B d i = Some v" for i v
    by (metis map_of_eq_Some_iff)
  have "GetReport B d i = Inr r \<longleftrightarrow> bolt_Get B d i = Some (Some r)" for i
    by (auto simp: GetReport_def split: option.splits)
  moreover have "r \<in> set (visit B d P) \<longleftrightarrow> (\<exists>i. (i, Some r) \<in> set (bolt_ForEach B d)) \<and> P r"
    by (force simp: visit_def split: option.splits if_splits)
  ultimately show ?thesis by (auto simp: each)
qed

text \<open>
  A bucket in memory, for the concrete inputs below.
\<close>

definition mem_bolt :: "(string, scan_report option) fmap bolt" where
  "mem_bolt = \<lparr>bolt_Put = (\<lambda>d k v. Some (fmupd k v d)), bolt_Get = fmlookup,
     bolt_ForEach = (\<lambda>d. map (\<lambda>k. (k, the (fmlookup d k))) (sorted_list_of_fset (fmdom d)))\<rparr>"

lemma bolt_ok_mem: "bolt_ok mem_bolt"
proof -
  have "map_of (bolt_ForEach mem_bolt d) = bolt_Get mem_bolt d" for d
    by (rule ext) (auto simp: mem_bolt_def map_of_tabulate fmlookup_dom_iff dest: fmdom_notD)
  moreover have "sorted_wrt (<) (map fst (bolt_ForEach mem_bolt d))" for d
    by (simp add: mem_bolt_def comp_def sorted_list_of_fset.rep_eq)
  moreover have "bolt_Get mem_bolt d' = (bolt_Get mem_bolt d)(k \<mapsto> v)" if "bolt_Put mem_bolt d k v = Some d'" for d k v d'
    using that by (auto simp: mem_bolt_def)
  ultimately show ?thesis unfolding bolt_ok_def by blast
qed

definition demo_report :: "int \<Rightarrow> string \<Rightarrow> scan_report" where
  "demo_report t p =
     \<lparr>sr_ID = [], sr_Timestamp = t, sr_Provider = p, sr_Source = ''proxy'', sr_LatencyMs = 3,
       sr_Redactions = [], sr_Layers = [], sr_Blocked = False, sr_Reason = []\<rparr>"

definition demo_query :: query_filter where
  "demo_query = \<lparr>qf_Provider = [], qf_Source = [], qf_Blocked = None, qf_Since = None, qf_Until = None, qf_Limit = 1\<rparr>"

text \<open>
  A query returns the newest reports that match it: what it returns matches and is stored, newest
  first, and a stored report that matches is missing only if the limit is reached by reports that
  are not older.
\<close>

lemma QueryReports_newest:
  assumes "bolt_ok B" "slice_sort newer (srt newer)"
  shows "sorted_wrt (\<lambda>r s. sr_Timestamp r \<ge> sr_Timestamp s) (QueryReports srt B d q) \<and>
    (\<forall>r \<in> set (QueryReports srt B d q). matches_filter q r \<and> (\<exists>i. GetReport B d i = Inr r)) \<and>
    (\<forall>r i. matches_filter q r \<longrightarrow> GetReport B d i = Inr r \<longrightarrow> r \<notin> set (QueryReports srt B d q) \<longrightarrow>
       go_len (QueryReports srt B d q) = qf_Limit q \<and>
       (\<forall>s \<in> set (QueryReports srt B d q). sr_Timestamp s \<ge> sr_Timestamp r))"
proof -
  let ?rs = "srt newer (visit B d (matches_filter q))"
  let ?out = "QueryReports srt B d q"
  define n where "n = (if qf_Limit q > 0 \<and> go_len ?rs > qf_Limit q then nat (qf_Limit q) else length ?rs)"
  have out: "?out = take n ?rs" by (simp add: QueryReports_def n_def Let_def)
  have sorted: "sorted_wrt (\<lambda>r s. sr_Timestamp r \<ge> sr_Timestamp s) ?rs"
    using slice_sort.srt_ordered[OF assms(2), of "visit B d (matches_filter q)"]
    by (rule sorted_wrt_mono_rel[rotated]) (simp add: newer_def)
  have mem: "r \<in> set ?rs \<longleftrightarrow> matches_filter q r \<and> (\<exists>i. GetReport B d i = Inr r)" for r
    by (simp add: slice_sort.set_srt[OF assms(2)] set_visit[OF assms(1)])
  have missing: "go_len ?out = qf_Limit q \<and> (\<forall>s \<in> set ?out. sr_Timestamp s \<ge> sr_Timestamp r)"
    if r: "r \<in> set ?rs" "r \<notin> set ?out" for r
  proof -
    have "n \<noteq> length ?rs" using r out by auto
    then have n: "n = nat (qf_Limit q)" "0 < qf_Limit q" "qf_Limit q < go_len ?rs"
      by (auto simp: n_def split: if_splits)
    have "r \<in> set (drop n ?rs)" using r out by (metis Un_iff append_take_drop_id set_append)
    moreover have "sorted_wrt (\<lambda>r s. sr_Timestamp r \<ge> sr_Timestamp s) (take n ?rs @ drop n ?rs)"
      using sorted by simp
    ultimately have "\<forall>s \<in> set (take n ?rs). sr_Timestamp s \<ge> sr_Timestamp r"
      unfolding sorted_wrt_append by blast
    then show ?thesis using n out by (simp add: go_len_def)
  qed
  show ?thesis
    using sorted mem missing by (auto simp: out sorted_wrt_take dest: in_set_takeD)
qed

interpretation newest_first: strict_weak_order newer
  by unfold_locales (auto simp: newer_def)

lemma newer_sort: "slice_sort newer (insertion_sort newer)"
  by (rule newest_first.slice_sort_axioms)

lemma QueryReports_newest_example:
  "let d = fst (SaveReport mem_bolt (fst (SaveReport mem_bolt fmempty (demo_report 5 ''a''))) (demo_report 7 ''b''))
   in sorted_wrt (\<lambda>r s. sr_Timestamp r \<ge> sr_Timestamp s) (QueryReports insertion_sort mem_bolt d demo_query) \<and>
      map sr_Provider (QueryReports insertion_sort mem_bolt d demo_query) = [''b'']"
proof -
  let ?d = "fst (SaveReport mem_bolt (fst (SaveReport mem_bolt fmempty (demo_report 5 ''a''))) (demo_report 7 ''b''))"
  have "map sr_Provider (QueryReports insertion_sort mem_bolt ?d demo_query) = [''b'']" by code_simp
  then show ?thesis
    using QueryReports_newest[of mem_bolt insertion_sort ?d demo_query] bolt_ok_mem newer_sort by (simp add: Let_def)
qed

end
