(* ===== verification/ProxyHandler.thy ===== *)
theory ProxyHandler
  imports Coordinator ReportStore
begin

text \<open>
  The proxy: \<open>internal/proxy/proxy.go\<close>, with the interface \<open>ScanPipeline\<close> of \<open>rewrite.go\<close>.

  \<open>NewProxy\<close> registers three handlers with goproxy; they are \<open>handle_connect\<close>, \<open>handle_request\<close> and
  \<open>handle_response\<close>. A body is the text of a JSON value or other bytes. \<open>handle_request\<close> returns the
  state of the pipeline, the request that goes on to the provider, the status for the
  response header and everything it does besides (log lines, metrics, the report handed to \<open>onScan\<close>),
  in order; \<open>None\<close> is a panic. The clock, the random identifier of the request and the length
  of a body in bytes are parameters.

  The locale \<open>scan_pipeline\<close> is what the handler relies on; its lemma \<open>forwards_redaction\<close> is the
  correctness of the handler for every such pipeline, and the interpretation \<open>coordinated\<close> shows that
  the coordinator is one.
\<close>

subsection \<open>Requests\<close>

datatype payload = JsonText json | OtherText string

datatype req_body = NilBody | ReadOk payload | ReadErr payload

record request =
  rq_Host :: string
  rq_Method :: string
  rq_Path :: string
  rq_Body :: req_body
  rq_ContentLength :: int

definition body_json :: "payload \<Rightarrow> json option" where
  "body_json b = (case b of JsonText j \<Rightarrow> Some j | OtherText _ \<Rightarrow> None)"

datatype event =
    LogBypass string string string
  | LogScanError string string string
  | LogRewriteError string string
  | LogRedacted string string string real string
  | LogProcessed string int int int int string string
  | IncRequests string string
  | IncErrors string string
  | ObserveRequest string int
  | IncEntities string string
  | ObserveDetection string int
  | OnScan scan_report

subsection \<open>The proxy\<close>

datatype connect_action = ConnectAccept | ConnectReject | ConnectMitm

record proxy =
  px_domains :: domain_filter
  px_bypass :: "bypass_matcher option"
  px_onScan :: bool
  px_listener :: "string option"
  px_server :: "string option"
  px_running :: bool
  px_open :: "string list"
  OkConnect :: connect_action
  MitmConnect :: connect_action
  RejectConnect :: connect_action

text \<open>\<open>NewProxy\<close>, where the certificate can be loaded. It sets the actions of goproxy.\<close>

definition NewProxy :: "domain_filter \<Rightarrow> bypass_matcher option \<Rightarrow> bool \<Rightarrow> proxy" where
  "NewProxy domains bypass onScan =
     \<lparr>px_domains = domains, px_bypass = bypass, px_onScan = onScan, px_listener = None, px_server = None, px_running = False,
       px_open = [],
       OkConnect = ConnectMitm, MitmConnect = ConnectMitm, RejectConnect = ConnectReject\<rparr>"

definition handle_connect :: "unicode_tables \<Rightarrow> proxy \<Rightarrow> string \<Rightarrow> connect_action \<times> string" where
  "handle_connect T p host =
     (if IsBlocked T (px_domains p) host then (RejectConnect p, host)
      else if ShouldIntercept T (px_domains p) host then (MitmConnect p, host)
      else (OkConnect p, host))"

text \<open>The status of a request whose scan gave a report.\<close>

definition status_of :: "report \<Rightarrow> string" where
  "status_of rep =
     (let (status, allSkipped) =
            foldl (\<lambda>(status, allSkipped) lr.
                     (if info_Skipped lr then ''partial'' else status, if \<not> info_Skipped lr then False else allSkipped))
              (''full'', True) (LayerResults rep);
          status = (if allSkipped then ''passthrough'' else status)
      in if status = ''full'' \<and> Findings rep = [] then ''clean'' else status)"

record handler_env =
  he_reqID :: string
  he_totalMs :: int
  he_now :: int

definition report_events :: "handler_env \<Rightarrow> string \<Rightarrow> report \<Rightarrow> event list" where
  "report_events env host rep =
     map (\<lambda>f. LogRedacted (he_reqID env) (Label f) (Layer f) (Confidence f) host) (Findings rep) @
     [LogProcessed (he_reqID env) (go_len (Findings rep)) (go_len (Findings rep)) (TotalMs rep) (he_totalMs env)
        (status_of rep) host,
      IncRequests host (status_of rep),
      ObserveRequest host (he_totalMs env)] @
     map (\<lambda>f. IncEntities (Label f) (Layer f)) (Findings rep) @
     concat (map (\<lambda>lr. ObserveDetection (info_Name lr) (info_LatencyMs lr) #
                   (if info_Skipped lr then [IncErrors (info_Name lr) ''skipped''] else [])) (LayerResults rep))"

definition scan_report_of :: "handler_env \<Rightarrow> string \<Rightarrow> report \<Rightarrow> scan_report" where
  "scan_report_of env host rep =
     \<lparr>sr_ID = [], sr_Timestamp = he_now env, sr_Provider = host, sr_Source = ''proxy'', sr_LatencyMs = he_totalMs env,
       sr_Redactions = map (\<lambda>f. \<lparr>rd_Label = Label f, rd_Original = Value f, rd_Start = Start f, rd_End = End f,
                                 rd_Layer = Layer f\<rparr>) (Findings rep),
       sr_Layers = map (\<lambda>lr. \<lparr>lr_Name = info_Name lr, lr_FindingsCount = info_FindingsCount lr,
                             lr_LatencyMs = info_LatencyMs lr\<rparr>) (LayerResults rep),
       sr_Blocked = False, sr_Reason = []\<rparr>"

text \<open>The text, the report and the error of \<open>ScanAndRedact\<close>; \<open>None\<close> for nil.\<close>

type_synonym 's pipeline_fn = "'s \<Rightarrow> string \<Rightarrow> ('s \<times> string \<times> report option \<times> string option) option"

definition finish ::
  "handler_env \<Rightarrow> proxy \<Rightarrow> 's \<Rightarrow> request \<Rightarrow> report option \<Rightarrow> 's \<times> request \<times> string option \<times> event list" where
  "finish env p s req report =
     (case report of
        None \<Rightarrow> (s, req, None, [])
      | Some rep \<Rightarrow>
          (s, req, Some (status_of rep),
           report_events env (rq_Host req) rep @
           (if px_onScan p then [OnScan (scan_report_of env (rq_Host req) rep)] else [])))"

definition handle_message ::
  "(payload \<Rightarrow> int) \<Rightarrow> handler_env \<Rightarrow> proxy \<Rightarrow> 's pipeline_fn \<Rightarrow> 's \<Rightarrow> request \<Rightarrow> payload \<Rightarrow>
   extracted_message \<Rightarrow> ('s \<times> request \<times> string option \<times> event list) option" where
  "handle_message blen env p scan s req body msg =
     (case scan s (em_Text msg) of
        None \<Rightarrow> None
      | Some (s', redacted, report, Some err) \<Rightarrow>
          Some (s', req, Some ''passthrough'',
                [LogScanError (he_reqID env) (rq_Host req) err, IncRequests (rq_Host req) ''passthrough'',
                 IncErrors ''pipeline'' ''scan_error''])
      | Some (s', redacted, report, None) \<Rightarrow>
          if redacted \<noteq> em_Text msg then
            (case ReplaceLastUserMessage (body_json body) msg redacted of
               None \<Rightarrow> None
             | Some None \<Rightarrow> Some (s', req, None, [LogRewriteError (he_reqID env) (rq_Host req)])
             | Some (Some j) \<Rightarrow>
                 Some (finish env p s' (req\<lparr>rq_Body := ReadOk (JsonText j), rq_ContentLength := blen (JsonText j)\<rparr>) report))
          else Some (finish env p s' req report))"

definition handle_request ::
  "unicode_tables \<Rightarrow> (payload \<Rightarrow> int) \<Rightarrow> handler_env \<Rightarrow> proxy \<Rightarrow> 's pipeline_fn \<Rightarrow> 's \<Rightarrow> request \<Rightarrow>
   ('s \<times> request \<times> string option \<times> event list) option" where
  "handle_request T blen env p scan s req =
     (if \<not> ShouldIntercept T (px_domains p) (rq_Host req) then Some (s, req, None, [])
      else case (case px_bypass p of None \<Rightarrow> (False, []) | Some b \<Rightarrow> Match T b (rq_Method req) (rq_Path req)) of
        (True, rule) \<Rightarrow> Some (s, req, None, [LogBypass (rq_Path req) (rq_Method req) rule])
      | (False, _) \<Rightarrow>
          (case rq_Body req of
             NilBody \<Rightarrow> Some (s, req, Some ''passthrough'', [])
           | ReadErr body \<Rightarrow> Some (s, req\<lparr>rq_Body := ReadOk body\<rparr>, None, [])
           | ReadOk body \<Rightarrow>
               (case ExtractLastUserMessage T (body_json body) of
                  Inl _ \<Rightarrow> Some (s, req, None, [])
                | Inr msg \<Rightarrow> handle_message blen env p scan s req body msg)))"

definition handle_response :: "string option \<Rightarrow> (string \<times> string) list option \<Rightarrow> (string \<times> string) list option" where
  "handle_response userData resp =
     (case (resp, userData) of
        (Some headers, Some status) \<Rightarrow>
          Some ((''X-Redactr-Status'', status) # filter (\<lambda>(k, _). k \<noteq> ''X-Redactr-Status'') headers)
      | _ \<Rightarrow> resp)"

text \<open>
  Starting and stopping; the argument of \<open>Start\<close> is the address that is bound, if one is. A server is named by the address it listens
  on, and \<open>px_open\<close> lists the servers whose listener is open: closing a server closes its own listener only.
\<close>

definition Start_proxy :: "proxy \<Rightarrow> string option \<Rightarrow> proxy \<times> string option" where
  "Start_proxy p bound =
     (case bound of
        None \<Rightarrow> (p\<lparr>px_listener := None\<rparr>, None)
      | Some addr \<Rightarrow>
          (p\<lparr>px_listener := Some addr, px_server := Some addr, px_running := True, px_open := addr # px_open p\<rparr>, Some addr))"

definition Stop_proxy :: "proxy \<Rightarrow> proxy" where
  "Stop_proxy p =
     (if \<not> px_running p then p
      else p\<lparr>px_running := False, px_open := filter (\<lambda>a. px_server p \<noteq> Some a) (px_open p)\<rparr>)"

definition Addr_proxy :: "proxy \<Rightarrow> string" where
  "Addr_proxy p = (case px_listener p of None \<Rightarrow> [] | Some addr \<Rightarrow> addr)"

text \<open>The coordinator as the proxy sees it: \<open>Scan\<close> never returns an error.\<close>

definition coordinator_scan ::
  "finding_sort \<Rightarrow> unicode_tables \<Rightarrow> (string \<Rightarrow> string) \<Rightarrow> clock \<Rightarrow> coordinator pipeline_fn" where
  "coordinator_scan srt T hash ck c t =
     map_option (\<lambda>(c', out, rep). (c', out, Some rep, None)) (ScanAndRedact srt T hash ck c t)"

subsection \<open>The status of a request\<close>

lemma status_fold:
  "foldl (\<lambda>(status, allSkipped) lr.
      (if info_Skipped lr then ''partial'' else status, if \<not> info_Skipped lr then False else allSkipped)) (st, al) lrs =
   (if list_ex info_Skipped lrs then ''partial'' else st, al \<and> list_all info_Skipped lrs)"
  by (induction lrs arbitrary: st al) auto

lemma status_of_eq:
  "status_of rep =
     (if list_all info_Skipped (LayerResults rep) then ''passthrough''
      else if list_ex info_Skipped (LayerResults rep) then ''partial''
      else if Findings rep = [] then ''clean'' else ''full'')"
  by (simp add: status_of_def status_fold)

subsection \<open>What the handler relies on, and what it gives\<close>

text \<open>What \<open>handle_request\<close> makes of the answer of the scan; \<open>None\<close> for a panic.\<close>

lemma handle_request_run:
  assumes "ShouldIntercept T (px_domains p) (rq_Host req)"
    and "\<forall>b. px_bypass p = Some b \<longrightarrow> \<not> fst (Match T b (rq_Method req) (rq_Path req))"
    and "rq_Body req = ReadOk body" "ExtractLastUserMessage T (body_json body) = Inr msg"
  shows "handle_request T blen env p scan s req = handle_message blen env p scan s req body msg"
proof -
  have "\<exists>r. (case px_bypass p of None \<Rightarrow> (False, []) | Some b \<Rightarrow> Match T b (rq_Method req) (rq_Path req)) = (False, r)"
    using assms(2) by (cases "px_bypass p") (auto, metis fst_conv prod.collapse)
  then show ?thesis using assms by (auto simp: handle_request_def)
qed

lemma handle_message_rewrites:
  assumes "one_messages T kvs" "map_of kvs ''messages'' = Some (JArr ms)"
    and "ExtractLastUserMessage T (Some (JObj kvs)) = Inr msg" "\<not> em_IsArray msg" "rq_Body req = ReadOk (JsonText (JObj kvs))"
    and "scan s (em_Text msg) = Some (s', out, Some rep, None)"
  shows "\<exists>req' evs kvs' msg'. handle_message blen env p scan s req (JsonText (JObj kvs)) msg = Some (s', req', Some (status_of rep), evs) \<and>
    rq_Body req' = ReadOk (JsonText (JObj kvs')) \<and> rq_Host req' = rq_Host req \<and>
    ExtractLastUserMessage T (Some (JObj kvs')) = Inr msg' \<and> em_Text msg' = (if out = em_Text msg then out else to_valid out) \<and>
    (\<forall>k. k \<noteq> ''messages'' \<longrightarrow> map_of kvs' k = map_of kvs k)"
proof (cases "out = em_Text msg")
  case True
  then have "handle_message blen env p scan s req (JsonText (JObj kvs)) msg = Some (finish env p s' req (Some rep))"
    using assms(6) by (simp add: handle_message_def)
  then show ?thesis using True assms(3,5) by (auto simp: finish_def)
next
  case False
  let ?ms = "ms[em_Index msg := user_message (new_content msg out)]"
  let ?kvs = "canon (kvs @ [(''messages'', JArr ?ms)])"
  note R = Replace_extract(2,3)[OF assms(1,2,3), where redacted = out]
  have "ExtractLastUserMessage T (Some (JObj ?kvs)) =
      Inr \<lparr>em_Text = to_valid out, em_Index = em_Index msg, em_ContentParts = [], em_IsArray = False\<rparr>"
    using R(2) assms(4) by (simp add: new_content_def decode_content_def)
  moreover have "\<forall>k. k \<noteq> ''messages'' \<longrightarrow> map_of ?kvs k = map_of kvs k"
    using assms(1) by (simp add: map_of_canon_snoc one_messages_def)
  moreover have "handle_message blen env p scan s req (JsonText (JObj kvs)) msg =
      Some (finish env p s' (req\<lparr>rq_Body := ReadOk (JsonText (JObj ?kvs)),
                                rq_ContentLength := blen (JsonText (JObj ?kvs))\<rparr>) (Some rep))"
    using assms(6) False R(1) by (simp add: handle_message_def body_json_def)
  ultimately show ?thesis using False by (auto simp: finish_def)
qed

locale scan_pipeline =
  fixes scan :: "'s pipeline_fn" and good :: "'s \<Rightarrow> bool" and texts :: "string set"
  assumes scan_redacts: "good s \<Longrightarrow> t \<in> texts \<Longrightarrow>
    \<exists>s' out rep. scan s t = Some (s', out, Some rep, None) \<and> good s' \<and> redaction_of t (Findings rep) out"
begin

lemma forwards_redaction:
  assumes "good s" "ShouldIntercept T (px_domains p) (rq_Host req)"
    and "\<forall>b. px_bypass p = Some b \<longrightarrow> \<not> fst (Match T b (rq_Method req) (rq_Path req))"
    and "rq_Body req = ReadOk (JsonText (JObj kvs))" "one_messages T kvs"
    and "map_of kvs ''messages'' = Some (JArr ms)"
    and "ExtractLastUserMessage T (Some (JObj kvs)) = Inr msg" "\<not> em_IsArray msg" "em_Text msg \<in> texts"
  shows "\<exists>s' req' evs rep out kvs' msg'.
    handle_request T blen env p scan s req = Some (s', req', Some (status_of rep), evs) \<and> good s' \<and>
    redaction_of (em_Text msg) (Findings rep) out \<and>
    rq_Body req' = ReadOk (JsonText (JObj kvs')) \<and> rq_Host req' = rq_Host req \<and>
    ExtractLastUserMessage T (Some (JObj kvs')) = Inr msg' \<and>
    em_Text msg' = (if out = em_Text msg then out else to_valid out) \<and>
    (\<forall>k. k \<noteq> ''messages'' \<longrightarrow> map_of kvs' k = map_of kvs k)"
proof -
  obtain s' out rep where scan: "scan s (em_Text msg) = Some (s', out, Some rep, None)"
    and good: "good s'" and red: "redaction_of (em_Text msg) (Findings rep) out"
    using scan_redacts assms(1,9) by blast
  show ?thesis
    using handle_message_rewrites[OF assms(5,6,7,8,4), where scan = scan and s = s and s' = s' and out = out and rep = rep and blen = blen and env = env and p = p]
      scan good red handle_request_run[OF assms(2,3,4), where msg = msg and blen = blen and env = env and scan = scan and s = s] assms(7)
    by (fastforce simp: body_json_def)
qed

end

text \<open>
  The invariant of the coordinator on which the handler rests; \<open>S\<close> are the texts that occur.
\<close>

definition good_coordinator ::
  "finding_sort \<Rightarrow> unicode_tables \<Rightarrow> (string \<Rightarrow> string) \<Rightarrow> string set \<Rightarrow> coordinator \<Rightarrow> bool" where
  "good_coordinator srt T hash S c \<longleftrightarrow>
     finding_sorts srt \<and> inj_on hash S \<and> cache_current srt T hash S c \<and>
     list_all good_layer (layers (co_pipeline c))"

lemma good_layer_now:
  "list_all good_layer ls \<Longrightarrow> \<forall>l \<in> set ls. bounded_layer (layer_Scan l) \<and> (\<forall>t. layer_Scan l t \<noteq> ScanPanic)"
  by (auto simp: good_layer_def list_all_iff)

lemma ScanAndRedact_returns:
  assumes "finding_sorts srt" "list_all good_layer (layers (co_pipeline c))"
  shows "\<exists>c' out rep. ScanAndRedact srt T hash ck c t = Some (c', out, rep) \<and> co_pipeline c' = co_pipeline c"
proof -
  obtain cache' r where "Get hash (co_cache c) t = (cache', r)" by fastforce
  moreover obtain out rep where "scan_fresh srt T ck (co_pipeline c) (allowedWords c) t = Some (out, rep)"
    using scan_fresh_in_range[OF assms(1) good_layer_now[OF assms(2)]] by blast
  ultimately show ?thesis by (cases r) (auto simp: ScanAndRedact_def)
qed

interpretation coordinated: scan_pipeline "coordinator_scan srt T hash ck" "good_coordinator srt T hash S" S
proof
  fix c t assume good: "good_coordinator srt T hash S c" and t: "t \<in> S"
  have fs: "finding_sorts srt" and inj: "inj_on hash S" and cur: "cache_current srt T hash S c"
    and layers: "list_all good_layer (layers (co_pipeline c))"
    using good by (auto simp: good_coordinator_def)
  obtain c' out rep where run: "ScanAndRedact srt T hash ck c t = Some (c', out, rep)"
    and same: "co_pipeline c' = co_pipeline c"
    using ScanAndRedact_returns[OF fs layers] by blast
  have "cache_current srt T hash S c'" by (rule ScanAndRedact_current[OF inj cur t run])
  moreover obtain ck' where fresh: "scan_fresh srt T ck' (co_pipeline c) (allowedWords c) t = Some (out, rep)"
    using ScanAndRedact_answer[OF cur t run] by blast
  have "redaction_of t (Findings rep) out"
    using scan_fresh_in_range[OF fs good_layer_now[OF layers], of T ck' "allowedWords c" t] fresh by auto
  ultimately show "\<exists>s' out rep. coordinator_scan srt T hash ck c t = Some (s', out, Some rep, None) \<and>
      good_coordinator srt T hash S s' \<and> redaction_of t (Findings rep) out"
    using run same fs inj layers by (auto simp: coordinator_scan_def good_coordinator_def)
qed


definition demo_proxy :: proxy where
  "demo_proxy = NewProxy (New_filter latin1 [''api.anthropic.com''] []) None True"

definition demo_request :: request where
  "demo_request = \<lparr>rq_Host = ''api.anthropic.com'', rq_Method = ''POST'', rq_Path = ''/v1/messages'',
     rq_Body = ReadOk (JsonText (JObj [(''messages'', JArr [user_message (JStr ''k9'')])])), rq_ContentLength = 9\<rparr>"

definition demo_env :: handler_env where
  "demo_env = \<lparr>he_reqID = ''r1'', he_totalMs = 2, he_now = 7\<rparr>"

lemma demo_good: "good_coordinator insertion_sort latin1 id S demo_enabled"
proof -
  have "good_layer (layer_apply (\<lambda>_. True) toggle_layer)"
    by (auto simp: good_layer_def layer_apply_def toggle_layer_def toggle_bounded toggle_no_panic)
  then show ?thesis
    using serial_current[OF _ demo_serial, of id S insertion_sort] insertion.finding_sorts_axioms
    by (simp add: good_coordinator_def)
qed


text \<open>
  The action for hosts that are not intercepted is the one that decrypts, so no connection is only tunnelled.
\<close>

lemma every_host_decrypted:
  "fst (handle_connect T (NewProxy f b os) host) = (if IsBlocked T f host then ConnectReject else ConnectMitm)"
  by (simp add: handle_connect_def NewProxy_def)


text \<open>
  The ways a message is sent on as it is: the host or the rules exempt it, it is not found in the
  body, the scan fails, it finds nothing, the body cannot be rewritten, or rewriting gives the same body.
\<close>

lemma sent_unchanged:
  assumes "handle_request T blen env p scan s req = Some (s', req', user, evs)"
    and "rq_Body req = ReadOk body" "rq_Body req' = ReadOk body"
  shows "\<not> ShouldIntercept T (px_domains p) (rq_Host req) \<or>
    (\<exists>b. px_bypass p = Some b \<and> fst (Match T b (rq_Method req) (rq_Path req))) \<or>
    (\<exists>e. ExtractLastUserMessage T (body_json body) = Inl e) \<or>
    (\<exists>msg out rep err. ExtractLastUserMessage T (body_json body) = Inr msg \<and>
       scan s (em_Text msg) = Some (s', out, rep, err) \<and>
       (err \<noteq> None \<or> out = em_Text msg \<or> ReplaceLastUserMessage (body_json body) msg out = Some None \<or>
        ReplaceLastUserMessage (body_json body) msg out = Some (body_json body)))"
  using assms
  by (auto simp: handle_request_def handle_message_def finish_def body_json_def
      split: if_splits option.splits sum.splits prod.splits bool.splits)

end
