(* ===== verification/Firewall.thy ===== *)
theory Firewall
  imports GoStrings "HOL-Library.List_Lexorder" "HOL-Library.Char_ord"
begin

text \<open>
  The firewall: \<open>internal/firewall\<close>. The controller resolves the domains, has the manager of the platform
  install redirection rules, and keeps a state file.

  The locale \<open>redirector\<close> is the interface \<open>Manager\<close> as the controller uses it: a redirection that
  succeeds replaces all rules, one that fails leaves them. It is interpreted on the managers for macOS
  and Linux. On macOS the rules are installed by a script that runs with the privileges of an administrator;
  \<open>sh_run\<close> gives the meaning of the few commands it has, \<open>pfctl -f\<close> replaces the rules of the anchor (as
  its manual says). Whether the user grants the prompt and whether \<open>pfctl\<close> accepts the
  rules are parameters; the interpretation is for a \<open>pfctl\<close> that accepts them, because the script reports
  success in any case (\<open>Redirect_ignores_pf_errors\<close>).

  The manager of Windows has one rule per domain (\<open>netsh\<close> is whether the command adds it) and no redirection.
  The name service, the success of the commands and that of writing the state file are parameters.
\<close>

subsection \<open>Name resolution\<close>

text \<open>\<open>None\<close> is a lookup that fails. The set of addresses is the list of its elements; the loop counts failures.\<close>

fun resolve_loop :: "(string \<Rightarrow> string list option) \<Rightarrow> string list \<Rightarrow> string set \<Rightarrow> nat \<Rightarrow> string set \<times> nat" where
  "resolve_loop r [] acc failures = (acc, failures)"
| "resolve_loop r (d # ds) acc failures =
     (case r d of
        None \<Rightarrow> resolve_loop r ds acc (failures + 1)
      | Some addrs \<Rightarrow> resolve_loop r ds (acc \<union> set addrs) failures)"

datatype fw_error = LookupsFailed nat | ErrNotImplemented | InvalidPort int | SudoFailed

definition resolveAll :: "(string \<Rightarrow> string list option) \<Rightarrow> string list \<Rightarrow> fw_error + string list" where
  "resolveAll r domains =
     (let (ips, failures) = resolve_loop r domains {} 0
      in if failures = length domains \<and> domains \<noteq> [] then Inl (LookupsFailed failures)
         else Inr (sorted_list_of_set ips))"

definition ipSetsEqual :: "string list \<Rightarrow> string list \<Rightarrow> bool" where
  "ipSetsEqual a b =
     (if length a \<noteq> length b then False
      else if a = [] then True
      else
        (let seen = foldl (\<lambda>m v. m(v := m v + 1)) (\<lambda>_. 0 :: int) a;
             seen = foldl (\<lambda>m v. m(v := m v - 1)) seen b
         in list_all (\<lambda>v. seen v = 0) (a @ b)))"

subsection \<open>The controller\<close>

record controller =
  ct_domains :: "string list"
  ct_proxyAddr :: string
  ct_transparentPort :: int
  ct_currentIPs :: "string list"
  ct_enabled :: bool

record fw_state =
  fs_Active :: bool
  fs_ProxyAddr :: string
  fs_TransparentAddr :: string
  fs_IPs :: "string list"
  fs_LastReconciled :: int
  fs_CAInstalled :: bool

definition NewController :: controller where
  "NewController = \<lparr>ct_domains = [], ct_proxyAddr = [], ct_transparentPort = 0, ct_currentIPs = [], ct_enabled = False\<rparr>"

text \<open>The state file: \<open>None\<close> is a missing file, \<open>Some None\<close> one that cannot be read or decoded.\<close>

definition LoadState :: "fw_state option option \<Rightarrow> fw_state option" where
  "LoadState file =
     (case file of
        None \<Rightarrow> Some \<lparr>fs_Active = False, fs_ProxyAddr = [], fs_TransparentAddr = [], fs_IPs = [],
                      fs_LastReconciled = 0, fs_CAInstalled = False\<rparr>
      | Some s \<Rightarrow> s)"

definition SaveState :: "bool \<Rightarrow> fw_state option option \<Rightarrow> fw_state \<Rightarrow> fw_state option option" where
  "SaveState writable file s = (if writable then Some (Some s) else file)"

record fw_env =
  fe_resolve :: "string \<Rightarrow> string list option"
  fe_writable :: bool
  fe_now :: int

definition persist :: "fw_env \<Rightarrow> controller \<Rightarrow> fw_state option option \<Rightarrow> fw_state option option" where
  "persist env c file =
     SaveState (fe_writable env) file
       \<lparr>fs_Active = ct_enabled c, fs_ProxyAddr = ct_proxyAddr c, fs_TransparentAddr = [], fs_IPs = ct_currentIPs c,
         fs_LastReconciled = fe_now env, fs_CAInstalled = ct_enabled c\<rparr>"

text \<open>The controller, the state of the manager and the file.\<close>

type_synonym 'm fw_world = "controller \<times> 'm \<times> fw_state option option"

definition Enable ::
  "('m \<Rightarrow> string list \<Rightarrow> int \<Rightarrow> 'm \<times> fw_error option) \<Rightarrow> fw_env \<Rightarrow> string list \<Rightarrow> string \<Rightarrow> int \<Rightarrow>
   'm fw_world \<Rightarrow> 'm fw_world \<times> fw_error option" where
  "Enable redirect env domains proxyAddr port = (\<lambda>(c, m, file).
     (case resolveAll (fe_resolve env) domains of
        Inl e \<Rightarrow> ((c, m, file), Some e)
      | Inr ips \<Rightarrow>
          (case redirect m ips port of
             (m', Some e) \<Rightarrow> ((c, m', file), Some e)
           | (m', None) \<Rightarrow>
               (let c' = c\<lparr>ct_domains := domains, ct_proxyAddr := proxyAddr, ct_transparentPort := port,
                           ct_currentIPs := ips, ct_enabled := True\<rparr>
                in ((c', m', persist env c' file), None)))))"

definition Disable ::
  "('m \<Rightarrow> 'm \<times> fw_error option) \<Rightarrow> fw_env \<Rightarrow> 'm fw_world \<Rightarrow> 'm fw_world \<times> fw_error option" where
  "Disable unredirect env = (\<lambda>(c, m, file).
     (if \<not> ct_enabled c then ((c, m, file), None)
      else case unredirect m of
             (m', Some e) \<Rightarrow> ((c, m', file), Some e)
           | (m', None) \<Rightarrow>
               (let c' = c\<lparr>ct_enabled := False, ct_currentIPs := []\<rparr> in ((c', m', persist env c' file), None))))"

definition Reconcile ::
  "('m \<Rightarrow> string list \<Rightarrow> int \<Rightarrow> 'm \<times> fw_error option) \<Rightarrow> fw_env \<Rightarrow> 'm fw_world \<Rightarrow> 'm fw_world \<times> fw_error option" where
  "Reconcile redirect env = (\<lambda>(c, m, file).
     (if \<not> ct_enabled c then ((c, m, file), None)
      else case resolveAll (fe_resolve env) (ct_domains c) of
             Inl e \<Rightarrow> ((c, m, file), Some e)
           | Inr ips \<Rightarrow>
               if ipSetsEqual ips (ct_currentIPs c) then ((c, m, file), None)
               else case redirect m ips (ct_transparentPort c) of
                      (m', Some e) \<Rightarrow> ((c, m', file), Some e)
                    | (m', None) \<Rightarrow>
                        (let c' = c\<lparr>ct_currentIPs := ips\<rparr> in ((c', m', persist env c' file), None))))"

definition fw_IsActive :: "'m fw_world \<Rightarrow> bool" where
  "fw_IsActive = (\<lambda>(c, _, _). ct_enabled c)"

subsection \<open>The scripts for macOS\<close>

text \<open>What the quoting verb \<open>%q\<close> gives for a string of plain characters.\<close>

definition quoted :: "string \<Rightarrow> string" where
  "quoted s = CHR 0x22 # s @ [CHR 0x22]"

definition nl :: string where
  "nl = [CHR 0x0A]"

definition rdr_line :: "int \<Rightarrow> string \<Rightarrow> string" where
  "rdr_line port ip =
     ''rdr pass on lo0 inet proto tcp from any to '' @ ip @ '' port 443 -> 127.0.0.1 port '' @ fmt_int port"

text \<open>Commands of a script: flush the anchor, load rules from a here-document, switch the filter on.\<close>

datatype sh_cmd = Flush string | Load string "string list" | EnablePf

fun render :: "sh_cmd \<Rightarrow> string" where
  "render (Flush anchor) = ''pfctl -a '' @ quoted anchor @ '' -F all 2>/dev/null || true'' @ nl"
| "render (Load anchor rules) =
     ''pfctl -a '' @ quoted anchor @ '' -f - <<'' @ CHR 0x27 # ''__REDACTR_RULES__'' @ CHR 0x27 # nl @
     concat (map (\<lambda>l. l @ nl) rules) @ ''__REDACTR_RULES__'' @ nl"
| "render EnablePf = ''pfctl -E 2>/dev/null || true'' @ nl"

definition apply_commands :: "string \<Rightarrow> string list \<Rightarrow> int \<Rightarrow> sh_cmd list" where
  "apply_commands anchor ips port = [Flush anchor, Load anchor (map (rdr_line port) ips), EnablePf]"

definition buildApplyScript :: "string \<Rightarrow> string list \<Rightarrow> int \<Rightarrow> string" where
  "buildApplyScript anchor ips port =
     ''#!/bin/sh'' @ nl @
     ''pfctl -a '' @ quoted anchor @ '' -F all 2>/dev/null || true'' @ nl @
     (let rules = concat (map (\<lambda>ip. rdr_line port ip @ nl) ips)
      in ''pfctl -a '' @ quoted anchor @ '' -f - <<'' @ CHR 0x27 # ''__REDACTR_RULES__'' @ CHR 0x27 # nl @ rules @
         ''__REDACTR_RULES__'' @ nl) @
     ''pfctl -E 2>/dev/null || true'' @ nl"

definition buildRemoveScript :: "string \<Rightarrow> string" where
  "buildRemoveScript anchor =
     ''#!/bin/sh'' @ nl @ ''set -e'' @ nl @ ''pfctl -a '' @ quoted anchor @ '' -F all 2>/dev/null || true'' @ nl"

lemma buildApplyScript_render:
  "buildApplyScript anchor ips port = ''#!/bin/sh'' @ nl @ concat (map render (apply_commands anchor ips port))"
  by (simp add: buildApplyScript_def apply_commands_def comp_def Let_def)

lemma buildRemoveScript_render:
  "buildRemoveScript anchor = ''#!/bin/sh'' @ nl @ ''set -e'' @ nl @ concat (map render [Flush anchor])"
  by (simp add: buildRemoveScript_def)

text \<open>
  The effect of a command on the rules of the anchor, and whether its line succeeds: a line that ends in
  \<open>|| true\<close> always does. \<open>loads\<close> is whether \<open>pfctl\<close> accepts the rules.
\<close>

fun sh_cmd_run :: "bool \<Rightarrow> sh_cmd \<Rightarrow> string list \<Rightarrow> string list \<times> bool" where
  "sh_cmd_run loads (Flush anchor) rules = ([], True)"
| "sh_cmd_run loads (Load anchor new) rules = (if loads then (new, True) else (rules, False))"
| "sh_cmd_run loads EnablePf rules = (rules, True)"

text \<open>Without \<open>set -e\<close> every line runs and the status is that of the last one; with it the first failure ends the script.\<close>

fun sh_run :: "bool \<Rightarrow> bool \<Rightarrow> sh_cmd list \<Rightarrow> string list \<Rightarrow> bool \<Rightarrow> string list \<times> bool" where
  "sh_run loads errexit [] rules status = (rules, status)"
| "sh_run loads errexit (c # cs) rules status =
     (case sh_cmd_run loads c rules of
        (rules', ok) \<Rightarrow> if errexit \<and> \<not> ok then (rules', False) else sh_run loads errexit cs rules' ok)"

subsection \<open>Managers\<close>

text \<open>
  macOS. \<open>dw_active\<close> is the field of the manager, which blocking sets; \<open>dw_redirecting\<close> and \<open>dw_caPath\<close> are the
  variables \<open>darwinActive\<close> and \<open>caPath\<close> of the process. \<open>grants\<close> is whether the user grants the n-th prompt; a
  script that is not granted is not run.
\<close>

record darwin =
  dw_active :: bool
  dw_redirecting :: bool
  dw_caPath :: "string option"
  dw_rules :: "string list"
  dw_calls :: nat

definition redactrAnchor :: string where
  "redactrAnchor = ''com.redactr''"

definition runWithSudo ::
  "(nat \<Rightarrow> bool) \<Rightarrow> bool \<Rightarrow> bool \<Rightarrow> sh_cmd list \<Rightarrow> darwin \<Rightarrow> darwin \<times> bool" where
  "runWithSudo grants loads errexit cmds m =
     (if \<not> grants (dw_calls m) then (m\<lparr>dw_calls := dw_calls m + 1\<rparr>, False)
      else case sh_run loads errexit cmds (dw_rules m) True of
             (rules, ok) \<Rightarrow> (m\<lparr>dw_rules := rules, dw_calls := dw_calls m + 1\<rparr>, ok))"

definition darwin_Redirect ::
  "(nat \<Rightarrow> bool) \<Rightarrow> bool \<Rightarrow> darwin \<Rightarrow> string list \<Rightarrow> int \<Rightarrow> darwin \<times> fw_error option" where
  "darwin_Redirect grants loads m ips port =
     (if port \<le> 0 \<or> port > 65535 then (m, Some (InvalidPort port))
      else case runWithSudo grants loads False (apply_commands redactrAnchor ips port) m of
             (m', False) \<Rightarrow> (m'\<lparr>dw_redirecting := False\<rparr>, Some SudoFailed)
           | (m', True) \<Rightarrow> (m'\<lparr>dw_redirecting := True\<rparr>, None))"

definition darwin_Unredirect :: "(nat \<Rightarrow> bool) \<Rightarrow> bool \<Rightarrow> darwin \<Rightarrow> darwin \<times> fw_error option" where
  "darwin_Unredirect grants loads m =
     (case runWithSudo grants loads True [Flush redactrAnchor] m of
        (m', False) \<Rightarrow> (m', Some SudoFailed)
      | (m', True) \<Rightarrow> (m'\<lparr>dw_redirecting := False\<rparr>, None))"

definition darwin_IsActive :: "darwin \<Rightarrow> bool" where
  "darwin_IsActive m = dw_redirecting m"

definition SetCAPath :: "string \<Rightarrow> darwin \<Rightarrow> darwin" where
  "SetCAPath p m = m\<lparr>dw_caPath := Some p\<rparr>"

definition CACertPath :: "darwin \<Rightarrow> string" where
  "CACertPath m = (case dw_caPath m of None \<Rightarrow> [] | Some p \<Rightarrow> p)"

definition redactrCASubject :: string where
  "redactrCASubject = ''Redactr Root CA''"

text \<open>\<open>exec\<close> is whether a command exits with status 0.\<close>

definition IsCATrusted :: "(string list \<Rightarrow> bool) \<Rightarrow> bool" where
  "IsCATrusted exec =
     exec [''security'', ''find-certificate'', ''-c'', redactrCASubject, ''/Library/Keychains/System.keychain'']"

text \<open>Blocking on macOS: one call of \<open>pfctl -f -\<close> per address; \<open>pf\<close> is whether it accepts the rule. A failure is logged.\<close>

definition block_rule :: "string \<Rightarrow> string" where
  "block_rule ip = ''block drop out proto tcp from any to '' @ ip @ '' port 443''"

fun darwin_block_ips :: "(string \<Rightarrow> bool) \<Rightarrow> string list \<Rightarrow> string list \<Rightarrow> string list" where
  "darwin_block_ips pf [] rules = rules"
| "darwin_block_ips pf (ip # ips) rules =
     darwin_block_ips pf ips (fst (sh_cmd_run (pf (block_rule ip)) (Load redactrAnchor [block_rule ip]) rules))"

fun darwin_BlockDirect :: "(string \<Rightarrow> string list option) \<Rightarrow> (string \<Rightarrow> bool) \<Rightarrow> string list \<Rightarrow> darwin \<Rightarrow> darwin" where
  "darwin_BlockDirect r pf [] m = m\<lparr>dw_active := True\<rparr>"
| "darwin_BlockDirect r pf (d # ds) m =
     (case r d of
        None \<Rightarrow> darwin_BlockDirect r pf ds m
      | Some ips \<Rightarrow> darwin_BlockDirect r pf ds (m\<lparr>dw_rules := darwin_block_ips pf ips (dw_rules m)\<rparr>))"

text \<open>The flag is cleared before the command runs; its failure is the error that is returned.\<close>

definition darwin_Unblock :: "bool \<Rightarrow> darwin \<Rightarrow> darwin \<times> bool" where
  "darwin_Unblock flushes m = (m\<lparr>dw_active := False, dw_rules := (if flushes then [] else dw_rules m)\<rparr>, flushes)"

definition darwin_Cleanup :: "bool \<Rightarrow> darwin \<Rightarrow> darwin \<times> bool" where
  "darwin_Cleanup flushes m = darwin_Unblock flushes m"

text \<open>\<open>listing\<close> is what \<open>pfctl -sr\<close> prints for the rules of the anchor, or its failure.\<close>

record fw_rule =
  fr_Domain :: string
  fr_IP :: string
  fr_Active :: bool

definition darwin_Status :: "(string list \<Rightarrow> string option) \<Rightarrow> darwin \<Rightarrow> fw_rule list option" where
  "darwin_Status listing m =
     (if \<not> dw_active m then Some []
      else case listing (dw_rules m) of
             None \<Rightarrow> None
           | Some out \<Rightarrow>
               Some (map (\<lambda>_. \<lparr>fr_Domain = ''parsed-from-rule'', fr_IP = [], fr_Active = True\<rparr>)
                 (filter (\<lambda>l. l \<noteq> []) (SplitByte out CHR 0x0A))))"

text \<open>
  Linux: the addresses the manager remembers and the rules in the kernel. \<open>ipt\<close> is whether \<open>iptables\<close> adds the
  rule for an address; the address is remembered in any case.
\<close>

record linux =
  lx_blockedIPs :: "string list"
  lx_drops :: "string list"

fun linux_BlockDirect :: "(string \<Rightarrow> string list option) \<Rightarrow> (string \<Rightarrow> bool) \<Rightarrow> string list \<Rightarrow> linux \<Rightarrow> linux" where
  "linux_BlockDirect r ipt [] m = m"
| "linux_BlockDirect r ipt (d # ds) m =
     (case r d of
        None \<Rightarrow> linux_BlockDirect r ipt ds m
      | Some ips \<Rightarrow>
          linux_BlockDirect r ipt ds
            (m\<lparr>lx_drops := lx_drops m @ filter ipt ips, lx_blockedIPs := lx_blockedIPs m @ ips\<rparr>))"

definition linux_Unblock :: "linux \<Rightarrow> linux" where
  "linux_Unblock m = m\<lparr>lx_drops := foldl (\<lambda>ds ip. remove1 ip ds) (lx_drops m) (lx_blockedIPs m), lx_blockedIPs := []\<rparr>"

definition linux_Redirect :: "linux \<Rightarrow> string list \<Rightarrow> int \<Rightarrow> linux \<times> fw_error option" where
  "linux_Redirect m ips port = (m, Some ErrNotImplemented)"

definition linux_Unredirect :: "linux \<Rightarrow> linux \<times> fw_error option" where
  "linux_Unredirect m = (m, Some ErrNotImplemented)"

definition linux_Cleanup :: "linux \<Rightarrow> linux" where
  "linux_Cleanup m = linux_Unblock m"

definition linux_Status :: "linux \<Rightarrow> fw_rule list" where
  "linux_Status m = map (\<lambda>ip. \<lparr>fr_Domain = [], fr_IP = ip, fr_Active = True\<rparr>) (lx_blockedIPs m)"

definition linux_IsActive :: "linux \<Rightarrow> bool" where
  "linux_IsActive m = False"

text \<open>Windows: \<open>ww_rules\<close> are the rules of the system, by name; the manager remembers the names it used.\<close>

record windows =
  ww_ruleNames :: "string list"
  ww_rules :: "(string \<times> string) list"

fun windows_BlockDirect :: "(string \<Rightarrow> string list option) \<Rightarrow> (string \<Rightarrow> bool) \<Rightarrow> string list \<Rightarrow> windows \<Rightarrow> windows" where
  "windows_BlockDirect r netsh [] m = m"
| "windows_BlockDirect r netsh (d # ds) m =
     (case r d of
        None \<Rightarrow> windows_BlockDirect r netsh ds m
      | Some ips \<Rightarrow>
          (let name = ''Redactr-Block-'' @ d;
               rules = (if netsh name then ww_rules m @ [(name, JoinByte ips CHR '','')] else ww_rules m)
           in windows_BlockDirect r netsh ds \<lparr>ww_ruleNames = ww_ruleNames m @ [name], ww_rules = rules\<rparr>))"

definition windows_Unblock :: "windows \<Rightarrow> windows" where
  "windows_Unblock m = \<lparr>ww_ruleNames = [], ww_rules = filter (\<lambda>(n, _). n \<notin> set (ww_ruleNames m)) (ww_rules m)\<rparr>"

definition windows_Redirect :: "windows \<Rightarrow> string list \<Rightarrow> int \<Rightarrow> windows \<times> fw_error option" where
  "windows_Redirect m ips port = (m, Some ErrNotImplemented)"

definition windows_Unredirect :: "windows \<Rightarrow> windows \<times> fw_error option" where
  "windows_Unredirect m = (m, Some ErrNotImplemented)"

definition windows_Cleanup :: "windows \<Rightarrow> windows" where
  "windows_Cleanup m = windows_Unblock m"

definition windows_Status :: "windows \<Rightarrow> fw_rule list" where
  "windows_Status m = map (\<lambda>n. \<lparr>fr_Domain = n, fr_IP = [], fr_Active = True\<rparr>) (ww_ruleNames m)"

definition windows_IsActive :: "windows \<Rightarrow> bool" where
  "windows_IsActive m = False"

datatype platform = Darwin | Linux | Windows

definition New_firewall :: "string \<Rightarrow> platform option" where
  "New_firewall goos =
     (if goos = ''darwin'' then Some Darwin else if goos = ''linux'' then Some Linux else if goos = ''windows'' then Some Windows else None)"

subsection \<open>Sets of addresses\<close>

lemma seen_plus: "foldl (\<lambda>m v. m(v := m v + 1)) f a x = f x + int (count (mset a) x)"
  by (induction a arbitrary: f) auto

lemma seen_minus: "foldl (\<lambda>m v. m(v := m v - 1)) f b x = f x - int (count (mset b) x)"
  by (induction b arbitrary: f) auto

text \<open>The comparison is that of the multisets of addresses.\<close>

lemma ipSetsEqual_iff: "ipSetsEqual a b \<longleftrightarrow> mset a = mset b"
proof -
  have "(\<forall>v \<in> set a \<union> set b. count (mset a) v = count (mset b) v) \<longleftrightarrow> mset a = mset b"
    by (metis Un_iff count_mset_0_iff multiset_eqI)
  then show ?thesis
    using size_mset[of a] size_mset[of b]
    by (auto simp: ipSetsEqual_def Let_def seen_plus seen_minus list_all_iff dest: mset_eq_length)
qed

lemma resolve_loop_eq:
  "resolve_loop r ds acc n =
     (acc \<union> \<Union> (set (map (\<lambda>d. case r d of None \<Rightarrow> {} | Some a \<Rightarrow> set a) ds)), n + length (filter (\<lambda>d. r d = None) ds))"
  by (induction ds arbitrary: acc n) (auto split: option.splits)

lemma resolveAll_Inr:
  assumes "resolveAll r ds = Inr ips"
  shows "sorted_wrt (<) ips" and "set ips = {ip. \<exists>d \<in> set ds. \<exists>a. r d = Some a \<and> ip \<in> set a}"
proof -
  let ?S = "{ip. \<exists>d \<in> set ds. \<exists>a. r d = Some a \<and> ip \<in> set a}"
  have S: "\<Union> (set (map (\<lambda>d. case r d of None \<Rightarrow> {} | Some a \<Rightarrow> set a) ds)) = ?S"
    by (force split: option.splits)
  have "finite ?S" unfolding S[symmetric] by (auto split: option.splits)
  moreover have "ips = sorted_list_of_set ?S"
    using assms unfolding S[symmetric] by (simp add: resolveAll_def resolve_loop_eq Let_def split: if_splits)
  ultimately show "sorted_wrt (<) ips" "set ips = ?S" by simp_all
qed

lemma resolveAll_error:
  "resolveAll r ds = Inl e \<longleftrightarrow> ds \<noteq> [] \<and> (\<forall>d \<in> set ds. r d = None) \<and> e = LookupsFailed (length ds)"
proof -
  have "length (filter (\<lambda>d. r d = None) ds) = length ds \<longleftrightarrow> (\<forall>d \<in> set ds. r d = None)"
  proof
    assume all: "length (filter (\<lambda>d. r d = None) ds) = length ds"
    show "\<forall>d \<in> set ds. r d = None"
      using length_filter_less[of _ ds "\<lambda>d. r d = None"] all by (metis less_irrefl)
  qed simp
  then show ?thesis by (auto simp: resolveAll_def resolve_loop_eq Let_def)
qed

subsection \<open>The controller and its manager\<close>

text \<open>What can happen to a controller that starts on the manager state \<open>m0\<close>; its operations hold a mutex.\<close>

inductive fw_reach ::
  "('m \<Rightarrow> string list \<Rightarrow> int \<Rightarrow> 'm \<times> fw_error option) \<Rightarrow> ('m \<Rightarrow> 'm \<times> fw_error option) \<Rightarrow> 'm \<Rightarrow> 'm fw_world \<Rightarrow> bool"
  for redirect unredirect m0 where
  fw_start: "fw_reach redirect unredirect m0 (NewController, m0, file)"
| fw_enable: "fw_reach redirect unredirect m0 w \<Longrightarrow> Enable redirect env ds addr port w = (w', e) \<Longrightarrow>
    fw_reach redirect unredirect m0 w'"
| fw_disable: "fw_reach redirect unredirect m0 w \<Longrightarrow> Disable unredirect env w = (w', e) \<Longrightarrow>
    fw_reach redirect unredirect m0 w'"
| fw_reconcile: "fw_reach redirect unredirect m0 w \<Longrightarrow> Reconcile redirect env w = (w', e) \<Longrightarrow>
    fw_reach redirect unredirect m0 w'"

definition expected_rules :: "controller \<Rightarrow> string list" where
  "expected_rules c = (if ct_enabled c then map (rdr_line (ct_transparentPort c)) (ct_currentIPs c) else [])"

locale redirector =
  fixes redirect :: "'m \<Rightarrow> string list \<Rightarrow> int \<Rightarrow> 'm \<times> fw_error option"
    and unredirect :: "'m \<Rightarrow> 'm \<times> fw_error option"
    and rules :: "'m \<Rightarrow> string list"
  assumes redirect_ok: "redirect m ips port = (m', None) \<Longrightarrow> rules m' = map (rdr_line port) ips"
    and redirect_fail: "redirect m ips port = (m', Some e) \<Longrightarrow> rules m' = rules m"
    and unredirect_ok: "unredirect m = (m', None) \<Longrightarrow> rules m' = []"
    and unredirect_fail: "unredirect m = (m', Some e) \<Longrightarrow> rules m' = rules m"
begin

lemma enable_rules:
  "Enable redirect env ds addr port (c, m, file) = ((c', m', file'), e) \<Longrightarrow> rules m = expected_rules c \<Longrightarrow>
   rules m' = expected_rules c'"
  by (auto simp: Enable_def expected_rules_def Let_def split: sum.splits prod.splits option.splits
      dest: redirect_ok redirect_fail)

lemma disable_rules:
  "Disable unredirect env (c, m, file) = ((c', m', file'), e) \<Longrightarrow> rules m = expected_rules c \<Longrightarrow>
   rules m' = expected_rules c'"
  by (auto simp: Disable_def expected_rules_def Let_def split: prod.splits option.splits if_splits
      dest: unredirect_ok unredirect_fail)

lemma reconcile_rules:
  "Reconcile redirect env (c, m, file) = ((c', m', file'), e) \<Longrightarrow> rules m = expected_rules c \<Longrightarrow>
   rules m' = expected_rules c'"
  by (auto simp: Reconcile_def expected_rules_def Let_def split: sum.splits prod.splits option.splits if_splits
      dest: redirect_ok redirect_fail)

lemma reach_rules:
  assumes "fw_reach redirect unredirect m0 (c, m, f)" "rules m0 = []"
  shows "rules m = expected_rules c"
  using assms(1)
proof (induction "(c, m, f)" arbitrary: c m f rule: fw_reach.induct)
  case (fw_start f)
  then show ?case using assms(2) by (simp add: expected_rules_def NewController_def)
next
  case (fw_enable w env ds addr port e)
  obtain c0 m1 f0 where "w = (c0, m1, f0)" by (cases w)
  then show ?case using fw_enable enable_rules by metis
next
  case (fw_disable w env e)
  obtain c0 m1 f0 where "w = (c0, m1, f0)" by (cases w)
  then show ?case using fw_disable disable_rules by metis
next
  case (fw_reconcile w env e)
  obtain c0 m1 f0 where "w = (c0, m1, f0)" by (cases w)
  then show ?case using fw_reconcile reconcile_rules by metis
qed

end

lemma apply_commands_run: "sh_run True False (apply_commands anchor ips port) rules st = (map (rdr_line port) ips, True)"
  by (simp add: apply_commands_def)

interpretation pf: redirector "darwin_Redirect grants True" "darwin_Unredirect grants True" dw_rules
  by unfold_locales
     (auto simp: darwin_Redirect_def darwin_Unredirect_def runWithSudo_def apply_commands_run
       split: if_splits prod.splits bool.splits)

interpretation iptables: redirector linux_Redirect linux_Unredirect "\<lambda>_. []"
  by unfold_locales (auto simp: linux_Redirect_def linux_Unredirect_def)

text \<open>On Linux the controller never becomes active.\<close>

lemma linux_never_enabled:
  assumes "fw_reach linux_Redirect linux_Unredirect m0 (c, m, f)"
  shows "\<not> ct_enabled c"
  using assms
proof (induction "(c, m, f)" arbitrary: c m f rule: fw_reach.induct)
  case (fw_enable w env ds addr port e)
  obtain c0 m1 f0 where "w = (c0, m1, f0)" by (cases w)
  then show ?case
    using fw_enable by (auto simp: Enable_def linux_Redirect_def split: sum.splits)
next
  case (fw_disable w env e)
  obtain c0 m1 f0 where "w = (c0, m1, f0)" by (cases w)
  then show ?case using fw_disable by (auto simp: Disable_def)
next
  case (fw_reconcile w env e)
  obtain c0 m1 f0 where "w = (c0, m1, f0)" by (cases w)
  then show ?case using fw_reconcile by (auto simp: Reconcile_def)
qed (simp add: NewController_def)


definition demo_fw_env :: fw_env where
  "demo_fw_env = \<lparr>fe_resolve = (\<lambda>_. Some [''1.2.3.4'', ''1.2.3.4'']), fe_writable = True, fe_now = 0\<rparr>"


text \<open>
  The script's last line always succeeds and nothing stops it before, so that a rejected set of rules is
  reported as installed.
\<close>

lemma Redirect_ignores_pf_errors:
  "darwin_Redirect (\<lambda>_. True) False \<lparr>dw_active = False, dw_redirecting = False, dw_caPath = None, dw_rules = [], dw_calls = 0\<rparr> [''1.2.3.4''] 8443 =
   (\<lparr>dw_active = False, dw_redirecting = True, dw_caPath = None, dw_rules = [], dw_calls = 1\<rparr>, None)"
  by code_simp

text \<open>Blocking loads one rule at a time into the anchor, and each load replaces the one before.\<close>

lemma BlockDirect_keeps_last:
  "ips \<noteq> [] \<Longrightarrow> dw_rules (darwin_BlockDirect (\<lambda>_. Some ips) (\<lambda>_. True) [d] m) = [block_rule (last ips)]"
proof -
  assume "ips \<noteq> []"
  then have "darwin_block_ips (\<lambda>_. True) ips rs = [block_rule (last ips)]" for rs
    by (induction ips arbitrary: rs) (auto split: if_splits)
  then show ?thesis by simp
qed

text \<open>
  \<open>IsActive\<close> is about redirection only, and it remembers the last call of \<open>Redirect\<close> or \<open>Unredirect\<close>: clearing the
  anchor with \<open>Cleanup\<close> removes the rules and leaves it. \<open>Status\<close> is about blocking only.
\<close>

lemma Cleanup_leaves_IsActive:
  "darwin_Redirect (\<lambda>_. True) True m ips 8443 = (m', None) \<Longrightarrow>
   dw_rules (fst (darwin_Cleanup True m')) = [] \<and> darwin_IsActive (fst (darwin_Cleanup True m'))"
  by (auto simp: darwin_Redirect_def darwin_Cleanup_def darwin_Unblock_def darwin_IsActive_def split: prod.splits bool.splits)

lemma Status_ignores_redirects:
  "darwin_Redirect grants loads m ips port = (m', e) \<Longrightarrow> \<not> dw_active m \<Longrightarrow> darwin_Status listing m' = Some []"
  by (auto simp: darwin_Redirect_def darwin_Status_def runWithSudo_def split: prod.splits bool.splits if_splits)

text \<open>A redirection does not look at the path of the certificate.\<close>

lemma Redirect_without_CA:
  "darwin_Redirect (\<lambda>_. True) True \<lparr>dw_active = False, dw_redirecting = False, dw_caPath = None, dw_rules = [], dw_calls = 0\<rparr>
     [''1.2.3.4''] 8443 =
   (\<lparr>dw_active = False, dw_redirecting = True, dw_caPath = None, dw_rules = [rdr_line 8443 ''1.2.3.4''], dw_calls = 1\<rparr>, None)"
  by code_simp

text \<open>Unblocking on Linux removes as many rules as were added, and leaves the others.\<close>

lemma remove_all: "foldl (\<lambda>ds ip. remove1 ip ds) ds ips = fold remove1 ips ds"
  by (simp add: foldl_conv_fold)

lemma linux_Unblock_restores:
  "mset (lx_drops (linux_Unblock m)) = mset (lx_drops m) - mset (lx_blockedIPs m)"
proof -
  have "mset (fold remove1 ips ds) = mset ds - mset ips" for ips ds :: "string list"
    by (induction ips arbitrary: ds) auto
  then show ?thesis by (simp add: linux_Unblock_def remove_all)
qed

lemma linux_Unblock_blocked:
  "list_all ipt (concat (List.map_filter r ds)) \<Longrightarrow>
   mset (lx_drops (linux_Unblock (linux_BlockDirect r ipt ds m))) = mset (lx_drops (linux_Unblock m))"
proof (induction r ipt ds m rule: linux_BlockDirect.induct)
  case (2 r ipt d ds m)
  show ?case
  proof (cases "r d")
    case (Some ips)
    then have "filter_mset ipt (mset ips) = mset ips" using 2(3) by (simp add: List.map_filter_simps list_all_iff flip: mset_filter)
    then show ?thesis using 2 Some by (simp add: List.map_filter_simps linux_Unblock_restores)
  qed (use 2 in \<open>simp add: List.map_filter_simps\<close>)
qed simp

text \<open>An address is remembered although its rule was refused, and unblocking then takes a rule of somebody else away.\<close>

lemma linux_Unblock_foreign:
  "lx_drops (linux_Unblock (linux_BlockDirect (\<lambda>_. Some [''1.2.3.4'']) (\<lambda>_. False) [''a.org'']
     \<lparr>lx_blockedIPs = [], lx_drops = [''1.2.3.4'']\<rparr>)) = []"
  by code_simp

text \<open>The names of the rules live in the process alone: what an earlier one blocked stays blocked.\<close>

lemma windows_restart_keeps_rules: "ww_rules (windows_Unblock \<lparr>ww_ruleNames = [], ww_rules = rules\<rparr>) = rules"
  by (simp add: windows_Unblock_def)

lemma windows_Unblock_own:
  "ww_rules (windows_Unblock (windows_BlockDirect r netsh ds m)) =
   filter (\<lambda>(n, _). n \<notin> set (ww_ruleNames m) \<and> (\<forall>d \<in> set ds. r d \<noteq> None \<longrightarrow> n \<noteq> ''Redactr-Block-'' @ d)) (ww_rules m)"
proof (induction r netsh ds m rule: windows_BlockDirect.induct)
  case (2 r netsh d ds m)
  show ?case
  proof (cases "r d")
    case None
    then show ?thesis using 2(1) by (auto intro: filter_cong)
  next
    case (Some ips)
    then show ?thesis using 2(2)[OF Some refl refl] by (auto simp: Let_def intro!: filter_cong)
  qed
qed (simp add: windows_Unblock_def)

end
