(* ===== verification/Base64.thy ===== *)
theory Base64
  imports GoStrings
begin

text \<open>
  The encoding \<open>base64.RawURLEncoding\<close> of the standard library, which the device tokens, the signatures
  of policies and the licenses use: the alphabet for URLs, no padding, line breaks skipped when decoding.
  \<open>None\<close> is the error of corrupt input. Decoding inverts encoding (\<open>Decode_Encode\<close>), and what is
  encoded contains no separator (\<open>Encode_chars\<close>).
\<close>

definition b64_alphabet :: string where
  "b64_alphabet = ''ABCDEFGHIJKLMNOPQRSTUVWXYZabcdefghijklmnopqrstuvwxyz0123456789-_''"

fun b64_sextets :: "nat list \<Rightarrow> nat list" where
  "b64_sextets [] = []"
| "b64_sextets [a] = [a div 4, a mod 4 * 16]"
| "b64_sextets [a, b] = [a div 4, a mod 4 * 16 + b div 16, b mod 16 * 4]"
| "b64_sextets (a # b # c # r) =
     a div 4 # (a mod 4 * 16 + b div 16) # (b mod 16 * 4 + c div 64) # c mod 64 # b64_sextets r"

fun b64_bytes :: "nat list \<Rightarrow> nat list option" where
  "b64_bytes [] = Some []"
| "b64_bytes [p] = None"
| "b64_bytes [p, q] = Some [p * 4 + q div 16]"
| "b64_bytes [p, q, r] = Some [p * 4 + q div 16, q mod 16 * 16 + r div 4]"
| "b64_bytes (p # q # r # s # t) =
     map_option (\<lambda>bs. (p * 4 + q div 16) # (q mod 16 * 16 + r div 4) # (r mod 4 * 64 + s) # bs) (b64_bytes t)"

fun find_index :: "'a \<Rightarrow> 'a list \<Rightarrow> nat option" where
  "find_index x [] = None"
| "find_index x (y # ys) = (if x = y then Some 0 else map_option Suc (find_index x ys))"

fun b64_values :: "string \<Rightarrow> nat list option" where
  "b64_values [] = Some []"
| "b64_values (c # s) =
     (if c = CHR 0x0A \<or> c = CHR 0x0D then b64_values s
      else case find_index c b64_alphabet of
             None \<Rightarrow> None
           | Some v \<Rightarrow> map_option (\<lambda>vs. v # vs) (b64_values s))"

definition EncodeToString :: "string \<Rightarrow> string" where
  "EncodeToString s = map (\<lambda>v. b64_alphabet ! v) (b64_sextets (map of_char s))"

definition DecodeString :: "string \<Rightarrow> string option" where
  "DecodeString s = map_option (map char_of) (Option.bind (b64_values s) b64_bytes)"

subsection \<open>Round trip\<close>

lemma find_index_nth: "distinct xs \<Longrightarrow> v < length xs \<Longrightarrow> find_index (xs ! v) xs = Some v"
proof (induction xs arbitrary: v)
  case (Cons x xs)
  then show ?case by (cases v) auto
qed simp

lemma alphabet: "distinct b64_alphabet" "length b64_alphabet = 64"
  "CHR 0x0A \<notin> set b64_alphabet" "CHR 0x0D \<notin> set b64_alphabet" "CHR ''.'' \<notin> set b64_alphabet"
  by code_simp+

lemma sextets_small: "list_all (\<lambda>b. b < 256) bs \<Longrightarrow> list_all (\<lambda>v. v < 64) (b64_sextets bs)"
  by (induction bs rule: b64_sextets.induct) auto

lemma bytes_sextets: "list_all (\<lambda>b. b < 256) bs \<Longrightarrow> b64_bytes (b64_sextets bs) = Some bs"
proof (induction bs rule: b64_sextets.induct)
  case (4 a b c r)
  have "(a mod 4 * 16 + b div 16) div 16 = a mod 4" "(a mod 4 * 16 + b div 16) mod 16 = b div 16"
    "(b mod 16 * 4 + c div 64) div 4 = b mod 16" "(b mod 16 * 4 + c div 64) mod 4 = c div 64"
    using 4(2) by auto
  then show ?case using 4 by simp
qed auto

lemma b64_values_alphabet:
  assumes "list_all (\<lambda>v. v < 64) vs"
  shows "b64_values (map (\<lambda>v. b64_alphabet ! v) vs) = Some vs"
  using assms
proof (induction vs)
  case (Cons v vs)
  then have v: "v < length b64_alphabet" using alphabet(2) by simp
  then have "b64_alphabet ! v \<noteq> CHR 0x0A" "b64_alphabet ! v \<noteq> CHR 0x0D"
    using alphabet(3,4) nth_mem by metis+
  then show ?case using Cons find_index_nth[OF alphabet(1) v] by simp
qed simp

lemma bytes_of_string: "list_all (\<lambda>b. b < (256 :: nat)) (map of_char s)"
  by (simp add: list_all_iff)

lemma Decode_Encode: "DecodeString (EncodeToString s) = Some s"
proof -
  have "map char_of (map of_char s :: nat list) = s" by (simp add: map_idI)
  then show ?thesis
    using bytes_of_string[of s] sextets_small[OF bytes_of_string]
    by (simp add: DecodeString_def EncodeToString_def b64_values_alphabet bytes_sextets)
qed

lemma Encode_chars: "set (EncodeToString s) \<subseteq> set b64_alphabet"
  using sextets_small[OF bytes_of_string[of s]] alphabet(2)
  by (auto simp: EncodeToString_def list_all_iff)

lemma Encode_no_dot: "CHR ''.'' \<notin> set (EncodeToString s)"
  using Encode_chars alphabet(5) by blast

end
