(* ===== verification/Tokens.thy ===== *)
theory Tokens
  imports Extract Base64
begin

text \<open>
  What signed tokens need, for the control plane and for licenses: the decimal numbers of JSON and of
  \<open>strconv\<close>, the decoding of fields that are numbers or lists of strings, and the cryptography.

  Cryptography is a parameter (\<open>crypto\<close>): SHA-256, signing and verifying with a key (a signature is the 64 bytes
  of its two numbers), and the text of a JSON value; \<open>crypto_ok\<close> is what the code relies on.
\<close>

subsection \<open>Numbers\<close>

definition in_int64 :: "int \<Rightarrow> bool" where
  "in_int64 i \<longleftrightarrow> - (2 ^ 63) \<le> i \<and> i < 2 ^ 63"

definition wrap64 :: "int \<Rightarrow> int" where
  "wrap64 i = (i + 2 ^ 63) mod 2 ^ 64 - 2 ^ 63"

definition digits_value :: "string \<Rightarrow> int" where
  "digits_value s = foldl (\<lambda>n c. n * 10 + (int (of_char c) - 48)) 0 s"

definition all_digits :: "string \<Rightarrow> bool" where
  "all_digits s \<longleftrightarrow> s \<noteq> [] \<and> list_all (\<lambda>c. 48 \<le> (of_char c :: nat) \<and> (of_char c :: nat) \<le> 57) s"

text \<open>A JSON number decoded into an integer of 64 bits.\<close>

definition parse_int64 :: "string \<Rightarrow> int option" where
  "parse_int64 s =
     (let (neg, ds) = (case s of c # t \<Rightarrow> if c = CHR ''-'' then (True, t) else (False, s) | [] \<Rightarrow> (False, s));
          v = (if neg then - digits_value ds else digits_value ds)
      in if all_digits ds \<and> in_int64 v then Some v else None)"

text \<open>The value of \<open>strconv.Atoi\<close>, its error ignored: zero for a bad syntax, the nearest bound out of range.\<close>

definition Atoi :: "string \<Rightarrow> int" where
  "Atoi s =
     (let (neg, ds) = (case s of c # t \<Rightarrow> if c = CHR ''-'' then (True, t) else if c = CHR ''+'' then (False, t) else (False, s)
                              | [] \<Rightarrow> (False, s));
          v = (if neg then - digits_value ds else digits_value ds)
      in if \<not> all_digits ds then 0 else max (- (2 ^ 63)) (min (2 ^ 63 - 1) v))"

text \<open>The same with its error.\<close>

definition Atoi_checked :: "string \<Rightarrow> int option" where
  "Atoi_checked s =
     (let (neg, ds) = (case s of c # t \<Rightarrow> if c = CHR ''-'' then (True, t) else if c = CHR ''+'' then (False, t) else (False, s)
                              | [] \<Rightarrow> (False, s));
          v = (if neg then - digits_value ds else digits_value ds)
      in if all_digits ds \<and> in_int64 v then Some v else None)"

fun get_int :: "unicode_tables \<Rightarrow> string \<Rightarrow> (string \<times> json) list \<Rightarrow> int \<Rightarrow> int option" where
  "get_int T name [] acc = Some acc"
| "get_int T name ((k, v) # kvs) acc =
     (if EqualFold T k name
      then (case v of JNum s \<Rightarrow> (case parse_int64 s of None \<Rightarrow> None | Some i \<Rightarrow> get_int T name kvs i)
                    | JNull \<Rightarrow> get_int T name kvs acc | _ \<Rightarrow> None)
      else get_int T name kvs acc)"

definition decode_string :: "json \<Rightarrow> string option" where
  "decode_string j = (case j of JStr s \<Rightarrow> Some s | JNull \<Rightarrow> Some [] | _ \<Rightarrow> None)"

text \<open>A field that is a slice of strings; \<open>Some None\<close> is the nil slice.\<close>

fun get_strings :: "unicode_tables \<Rightarrow> string \<Rightarrow> (string \<times> json) list \<Rightarrow> string list option \<Rightarrow> string list option option" where
  "get_strings T name [] acc = Some acc"
| "get_strings T name ((k, v) # kvs) acc =
     (if EqualFold T k name
      then (case v of
              JArr xs \<Rightarrow> (case all_some (map decode_string xs) of None \<Rightarrow> None | Some ss \<Rightarrow> get_strings T name kvs (Some ss))
            | JNull \<Rightarrow> get_strings T name kvs None
            | _ \<Rightarrow> None)
      else get_strings T name kvs acc)"

definition or_zero :: "'a \<Rightarrow> 'a option \<Rightarrow> 'a" where
  "or_zero z v = (case v of None \<Rightarrow> z | Some x \<Rightarrow> x)"

subsection \<open>Cryptography\<close>

record crypto =
  cr_sha256 :: "string \<Rightarrow> string"
  cr_sign :: "string \<Rightarrow> string option"
  cr_verify :: "string \<Rightarrow> string \<Rightarrow> bool"
  cr_print :: "json \<Rightarrow> string"
  cr_parse :: "string \<Rightarrow> json option"
  cr_pem :: "string option"

definition crypto_ok :: "crypto \<Rightarrow> bool" where
  "crypto_ok C \<longleftrightarrow>
     (\<forall>h sig. cr_sign C h = Some sig \<longrightarrow> length sig = 64 \<and> cr_verify C h sig) \<and>
     (\<forall>j. cr_parse C (cr_print C j) = Some j)"

text \<open>\<open>strings.SplitN(s, ".", 2)\<close> when there is a dot.\<close>

definition split_dot :: "string \<Rightarrow> (string \<times> string) option" where
  "split_dot s =
     (if CHR ''.'' \<in> set s then Some (takeWhile (\<lambda>c. c \<noteq> CHR ''.'') s, tl (dropWhile (\<lambda>c. c \<noteq> CHR ''.'') s)) else None)"

subsection \<open>Round trips\<close>

lemma fmt_nat_digits: "all_digits (fmt_nat n)"
proof (induction n rule: fmt_nat.induct)
  case (1 n)
  have d: "all_digits [char_of (48 + m)]" if "m < 10" for m :: nat
    using that by (simp add: all_digits_def)
  show ?case
  proof (cases "n < 10")
    case True
    then show ?thesis using d[of n] by (subst fmt_nat.simps) simp
  next
    case False
    then show ?thesis using 1[OF False] d[of "n mod 10"] by (subst fmt_nat.simps) (simp add: all_digits_def)
  qed
qed

lemma digits_value_snoc: "digits_value (s @ [c]) = digits_value s * 10 + (int (of_char c) - 48)"
  by (simp add: digits_value_def)

lemma digits_value_fmt_nat: "digits_value (fmt_nat n) = int n"
proof (induction n rule: fmt_nat.induct)
  case (1 n)
  show ?case
  proof (cases "n < 10")
    case True
    then show ?thesis by (subst fmt_nat.simps) (simp add: digits_value_def)
  next
    case False
    have n: "int (n div 10) * 10 + int (n mod 10) = int n" by presburger
    then show ?thesis using 1 False by (subst fmt_nat.simps) (simp add: digits_value_snoc n)
  qed
qed

lemma parse_fmt_int: "in_int64 i \<Longrightarrow> parse_int64 (fmt_int i) = Some i"
proof -
  assume i: "in_int64 i"
  have "hd (fmt_nat n) \<noteq> CHR ''-''" and ne: "fmt_nat n \<noteq> []" for n
    using fmt_nat_digits[of n] by (cases "fmt_nat n"; auto simp: all_digits_def)+
  then have "(case fmt_nat n of c # t \<Rightarrow> if c = CHR ''-'' then (True, t) else (False, fmt_nat n) | [] \<Rightarrow> (False, fmt_nat n))
      = (False, fmt_nat n)" for n
    by (auto simp: list.case_eq_if)
  then show ?thesis
    using i fmt_nat_digits by (simp add: parse_int64_def fmt_int_def digits_value_fmt_nat Let_def)
qed

lemma split_dot_append: "CHR ''.'' \<notin> set a \<Longrightarrow> split_dot (a @ CHR ''.'' # b) = Some (a, b)"
  by (auto simp: split_dot_def takeWhile_append dropWhile_append)

end
