(* ===== verification/Licensing.thy ===== *)
theory Licensing
  imports Tokens
begin

text \<open>
  Licenses: \<open>internal/licensing/licensing.go\<close>. A license is a JSON web token signed with ES256.

  The verification key is inside the parameter \<open>crypto\<close>; parsing its PEM text is not modelled (\<open>key_ok\<close> says
  whether it succeeds). Times are seconds. The demo token of \<open>demo.go\<close> is an argument. Each operation holds the
  mutex while it changes the state, so that the watcher's tick is a step of its own; \<open>lic_reach\<close> are the
  states that arise, with the tokens presented so far and the time.
\<close>

subsection \<open>Data\<close>

record lic_claims =
  lc_Sub :: string
  lc_Features :: "string list"
  lc_IssuedAt :: int
  lc_ExpiresAt :: int
  lc_Demo :: bool

datatype lic_error = LicInvalidToken | LicUnsupportedAlgorithm string | LicBadSignature | LicTokenExpired

record lic_manager =
  lm_claims :: "lic_claims option"
  lm_valid :: bool
  lm_err :: "lic_error option"
  lm_stopped :: bool

definition claims_HasFeature :: "lic_claims \<Rightarrow> string \<Rightarrow> bool" where
  "claims_HasFeature c f \<longleftrightarrow> list_ex (\<lambda>feat. feat = f) (lc_Features c)"

definition Expired :: "int \<Rightarrow> lic_claims \<Rightarrow> bool" where
  "Expired now c \<longleftrightarrow> now > lc_ExpiresAt c"

subsection \<open>Verification\<close>

fun get_bool :: "unicode_tables \<Rightarrow> string \<Rightarrow> (string \<times> json) list \<Rightarrow> bool \<Rightarrow> bool option" where
  "get_bool T name [] acc = Some acc"
| "get_bool T name ((k, v) # kvs) acc =
     (if EqualFold T k name
      then (case v of JBool b \<Rightarrow> get_bool T name kvs b | JNull \<Rightarrow> get_bool T name kvs acc | _ \<Rightarrow> None)
      else get_bool T name kvs acc)"

definition no_lic_claims :: lic_claims where
  "no_lic_claims = \<lparr>lc_Sub = [], lc_Features = [], lc_IssuedAt = 0, lc_ExpiresAt = 0, lc_Demo = False\<rparr>"

definition decode_lic_claims :: "unicode_tables \<Rightarrow> json \<Rightarrow> lic_claims option" where
  "decode_lic_claims T j =
     (case j of
        JObj kvs \<Rightarrow>
          (case (get_string T ''sub'' kvs [], get_strings T ''features'' kvs None, get_int T ''iat'' kvs 0,
                 get_int T ''exp'' kvs 0, get_bool T ''demo'' kvs False) of
             (Some sub, Some feats, Some iat, Some expi, Some demo) \<Rightarrow>
               Some \<lparr>lc_Sub = sub, lc_Features = or_zero [] feats, lc_IssuedAt = iat, lc_ExpiresAt = expi, lc_Demo = demo\<rparr>
           | _ \<Rightarrow> None)
      | JNull \<Rightarrow> Some no_lic_claims
      | _ \<Rightarrow> None)"

definition decode_header :: "unicode_tables \<Rightarrow> json \<Rightarrow> string option" where
  "decode_header T j = (case j of JObj kvs \<Rightarrow> get_string T ''alg'' kvs [] | JNull \<Rightarrow> Some [] | _ \<Rightarrow> None)"

text \<open>The three parts of \<open>strings.SplitN(token, ".", 3)\<close>; the last one may contain dots.\<close>

definition split3 :: "string \<Rightarrow> (string \<times> string \<times> string) option" where
  "split3 token =
     (case split_dot token of
        None \<Rightarrow> None
      | Some (p0, r) \<Rightarrow> map_option (\<lambda>(p1, p2). (p0, p1, p2)) (split_dot r))"

definition check_signature :: "crypto \<Rightarrow> string \<Rightarrow> string \<Rightarrow> string \<Rightarrow> bool" where
  "check_signature C p0 p1 p2 =
     (case DecodeString p2 of
        None \<Rightarrow> False
      | Some sig \<Rightarrow> length sig = 64 \<and> cr_verify C (cr_sha256 C (p0 @ ''.'' @ p1)) sig)"

definition verify_license :: "unicode_tables \<Rightarrow> crypto \<Rightarrow> int \<Rightarrow> string \<Rightarrow> lic_error + lic_claims" where
  "verify_license T C now token =
     (case split3 token of
        None \<Rightarrow> Inl LicInvalidToken
      | Some (p0, p1, p2) \<Rightarrow>
          (case Option.bind (Option.bind (DecodeString p0) (cr_parse C)) (decode_header T) of
             None \<Rightarrow> Inl LicInvalidToken
           | Some alg \<Rightarrow>
               if alg \<noteq> ''ES256'' then Inl (LicUnsupportedAlgorithm alg)
               else if \<not> check_signature C p0 p1 p2 then Inl LicBadSignature
               else case Option.bind (Option.bind (DecodeString p1) (cr_parse C)) (decode_lic_claims T) of
                      None \<Rightarrow> Inl LicInvalidToken
                    | Some c \<Rightarrow> if Expired now c then Inl LicTokenExpired else Inr c))"

subsection \<open>The manager\<close>

definition NewManager ::
  "unicode_tables \<Rightarrow> crypto \<Rightarrow> bool \<Rightarrow> string \<Rightarrow> int \<Rightarrow> string \<Rightarrow> lic_manager option" where
  "NewManager T C key_ok demoToken now token =
     (if \<not> key_ok then None
      else let token = (if token = [] then demoToken else token)
           in case verify_license T C now token of
                Inl e \<Rightarrow> Some \<lparr>lm_claims = None, lm_valid = False, lm_err = Some e, lm_stopped = False\<rparr>
              | Inr c \<Rightarrow> Some \<lparr>lm_claims = Some c, lm_valid = True, lm_err = None, lm_stopped = False\<rparr>)"

definition HasFeature :: "lic_manager \<Rightarrow> string \<Rightarrow> bool" where
  "HasFeature m f \<longleftrightarrow> lm_valid m \<and> (case lm_claims m of None \<Rightarrow> False | Some c \<Rightarrow> claims_HasFeature c f)"

definition Valid :: "lic_manager \<Rightarrow> bool" where
  "Valid m = lm_valid m"

definition GetClaims :: "lic_manager \<Rightarrow> lic_claims option" where
  "GetClaims m = lm_claims m"

definition Refresh :: "unicode_tables \<Rightarrow> crypto \<Rightarrow> int \<Rightarrow> string \<Rightarrow> lic_manager \<Rightarrow> lic_manager \<times> lic_error option" where
  "Refresh T C now token m =
     (case verify_license T C now token of
        Inl e \<Rightarrow> (m\<lparr>lm_valid := False, lm_err := Some e\<rparr>, Some e)
      | Inr c \<Rightarrow> (m\<lparr>lm_claims := Some c, lm_valid := True, lm_err := None\<rparr>, None))"

text \<open>Closing the channel a second time panics.\<close>

definition Stop_watcher :: "lic_manager \<Rightarrow> lic_manager option" where
  "Stop_watcher m = (if lm_stopped m then None else Some (m\<lparr>lm_stopped := True\<rparr>))"

text \<open>One tick of \<open>expiryWatcher\<close>.\<close>

definition expiry_tick :: "int \<Rightarrow> lic_manager \<Rightarrow> lic_manager" where
  "expiry_tick now m =
     (if lm_stopped m then m
      else case lm_claims m of
             None \<Rightarrow> m
           | Some c \<Rightarrow>
               if Expired now c \<and> lm_valid m then m\<lparr>lm_valid := False, lm_err := Some LicTokenExpired\<rparr> else m)"

subsection \<open>Licensed features\<close>

text \<open>The states of a manager; \<open>toks\<close> are the tokens presented so far, with the time of each.\<close>

inductive lic_reach ::
  "unicode_tables \<Rightarrow> crypto \<Rightarrow> string \<Rightarrow> (int \<times> string) list \<Rightarrow> lic_manager \<Rightarrow> bool" for T C demoToken where
  lic_new: "NewManager T C True demoToken now token = Some m \<Longrightarrow>
    lic_reach T C demoToken [(now, if token = [] then demoToken else token)] m"
| lic_refresh: "lic_reach T C demoToken toks m \<Longrightarrow> Refresh T C now token m = (m', e) \<Longrightarrow>
    lic_reach T C demoToken ((now, token) # toks) m'"
| lic_tick: "lic_reach T C demoToken toks m \<Longrightarrow> lic_reach T C demoToken toks (expiry_tick now m)"
| lic_stop: "lic_reach T C demoToken toks m \<Longrightarrow> Stop_watcher m = Some m' \<Longrightarrow> lic_reach T C demoToken toks m'"

text \<open>The token was signed with the key, and its claims are \<open>c\<close>.\<close>

definition signed_claims :: "unicode_tables \<Rightarrow> crypto \<Rightarrow> string \<Rightarrow> lic_claims \<Rightarrow> bool" where
  "signed_claims T C token c \<longleftrightarrow>
     (\<exists>p0 p1 p2. split3 token = Some (p0, p1, p2) \<and> check_signature C p0 p1 p2 \<and>
        Option.bind (Option.bind (DecodeString p1) (cr_parse C)) (decode_lic_claims T) = Some c)"

lemma verify_license_Inr:
  "verify_license T C now token = Inr c \<Longrightarrow> signed_claims T C token c \<and> now \<le> lc_ExpiresAt c"
  by (auto simp: verify_license_def signed_claims_def Expired_def split: option.splits prod.splits if_splits)

lemma lic_reach_claims:
  "lic_reach T C demoToken toks m \<Longrightarrow> lm_claims m = Some c \<Longrightarrow>
   \<exists>(now, token) \<in> set toks. signed_claims T C token c \<and> now \<le> lc_ExpiresAt c"
proof (induction arbitrary: c rule: lic_reach.induct)
  case (lic_new now token m)
  then show ?case
    by (auto simp: NewManager_def Let_def split: sum.splits if_splits dest!: verify_license_Inr)
next
  case (lic_refresh toks m now token m' e)
  then show ?case
    by (auto simp: Refresh_def split: sum.splits dest!: verify_license_Inr)
next
  case (lic_tick toks m now)
  then show ?case by (auto simp: expiry_tick_def split: if_splits option.splits)
next
  case (lic_stop toks m m')
  then show ?case by (auto simp: Stop_watcher_def split: if_splits)
qed

lemma tick_expires:
  "\<not> lm_stopped m \<Longrightarrow> HasFeature (expiry_tick now m) f \<Longrightarrow> \<exists>c. lm_claims m = Some c \<and> now \<le> lc_ExpiresAt c"
  by (auto simp: HasFeature_def expiry_tick_def Expired_def split: if_splits option.splits)

text \<open>
  C27. A feature is granted only by a signed license. In every state that a manager can reach, a feature it
  grants is listed in the claims of some token that was presented, whose signature verifies and which had not
  expired then; and a tick of the watcher, while it runs, withdraws every feature of a license
  that has expired.
\<close>

theorem license_feature_signed:
  assumes "lic_reach T C demoToken toks m" "HasFeature m f"
  shows "(\<exists>(now, token) \<in> set toks. \<exists>c. lm_claims m = Some c \<and> signed_claims T C token c \<and> f \<in> set (lc_Features c) \<and>
            now \<le> lc_ExpiresAt c) \<and>
    (\<forall>t c. lm_claims m = Some c \<longrightarrow> lc_ExpiresAt c < t \<longrightarrow> \<not> lm_stopped m \<longrightarrow> \<not> HasFeature (expiry_tick t m) f)"
proof -
  obtain c where c: "lm_claims m = Some c" "f \<in> set (lc_Features c)"
    using assms(2) by (auto simp: HasFeature_def claims_HasFeature_def list_ex_iff split: option.splits)
  then show ?thesis using lic_reach_claims[OF assms(1) c(1)] tick_expires[of m _ f] by fastforce
qed

definition demo_lic_crypto :: crypto where
  "demo_lic_crypto = \<lparr>cr_sha256 = id, cr_sign = (\<lambda>_. None), cr_verify = (\<lambda>_ sig. sig = replicate 64 CHR ''s''),
     cr_print = (\<lambda>_. []),
     cr_parse = (\<lambda>s. if s = ''h'' then Some (JObj [(''alg'', JStr ''ES256'')])
                     else Some (JObj [(''features'', JArr [JStr ''opf'']), (''exp'', JNum ''50'')])),
     cr_pem = None\<rparr>"

definition demo_license :: string where
  "demo_license = EncodeToString ''h'' @ ''.'' @ EncodeToString ''c'' @ ''.'' @ EncodeToString (replicate 64 CHR ''s'')"

definition demo_manager :: lic_manager where
  "demo_manager = \<lparr>lm_claims = Some \<lparr>lc_Sub = [], lc_Features = [''opf''], lc_IssuedAt = 0, lc_ExpiresAt = 50, lc_Demo = False\<rparr>,
     lm_valid = True, lm_err = None, lm_stopped = False\<rparr>"

theorem license_feature_signed_witness:
  "HasFeature demo_manager ''opf'' \<and>
   (\<exists>c. signed_claims latin1 demo_lic_crypto demo_license c \<and> ''opf'' \<in> set (lc_Features c)) \<and>
   \<not> HasFeature (expiry_tick 51 demo_manager) ''opf''"
proof -
  have new: "NewManager latin1 demo_lic_crypto True [] 10 demo_license = Some demo_manager" by code_simp
  have "demo_license \<noteq> []" by code_simp
  then have reach: "lic_reach latin1 demo_lic_crypto [] [(10, demo_license)] demo_manager"
    using lic_new[OF new] by simp
  have has: "HasFeature demo_manager ''opf''" by code_simp
  show ?thesis
    using license_feature_signed[OF reach has] has by (auto simp: demo_manager_def)
qed

text \<open>After a failed refresh the old claims are still handed out.\<close>

lemma GetClaims_after_failure:
  "Refresh T C now token m = (m', Some e) \<Longrightarrow> GetClaims m' = GetClaims m \<and> \<not> Valid m'"
  by (auto simp: Refresh_def GetClaims_def Valid_def split: sum.splits)

end
