(* ===== verification/Sessions.thy ===== *)
theory Sessions
  imports GoStrings
begin

text \<open>
  Discovery and classification of running AI tools: \<open>internal/sessions/sessions.go\<close>.

  What the operating system answers (the processes, their environment and connections, the name service) is a
  parameter, \<open>sess_env\<close>. A time is its number of nanoseconds. The list of sessions is sorted by
  \<open>sort.Slice\<close>, a parameter with the contract \<open>slice_sort\<close>.

  \<open>decide_eq\<close> says when a session is called protected, runaway or unknown; \<open>protected_not_direct\<close> and
  \<open>bound_hides_direct\<close> what that is worth: a session is never called protected while it talks to a provider
  directly, unless it carries the tag in its environment. \<open>List_ranked\<close>: runaway sessions come first.
\<close>

subsection \<open>Data\<close>

datatype status = StatusProtected | StatusRunaway | StatusUnknown

record session =
  ss_PID :: int
  ss_PPID :: int
  ss_User :: string
  ss_Command :: string
  ss_Tool :: string
  ss_StartedAt :: int
  ss_Status :: status
  ss_Reason :: string
  ss_HasProxyEnv :: bool
  ss_ProxyEnv :: string
  ss_BoundFlag :: bool
  ss_Connections :: "string list"
  ss_DirectAIConn :: "string list"
  ss_ViaProxy :: bool

record proc =
  pr_PID :: int
  pr_PPID :: int
  pr_User :: string
  pr_Command :: string
  pr_StartedAt :: int

record lister =
  li_proxyAddr :: string
  li_aiHosts :: "string list"
  li_hostIPs :: "string set"
  li_hostIPsAt :: int
  li_currentPID :: int

record sess_env =
  en_processes :: "proc list option"
  en_env :: "int \<Rightarrow> (string \<rightharpoonup> string) option"
  en_connections :: "int \<Rightarrow> string list"
  en_lookup :: "string \<Rightarrow> string list option"
  en_now :: int

definition BoundEnvKey :: string where
  "BoundEnvKey = ''REDACTR_BOUND''"

definition BoundEnvValue :: string where
  "BoundEnvValue = ''1''"

definition aiTools :: "(string \<times> string) list" where
  "aiTools =
     [(''claude'', ''Claude Code''), (''codex'', ''OpenAI Codex''), (''cursor'', ''Cursor''), (''windsurf'', ''Windsurf''),
      (''continue'', ''Continue''), (''aider'', ''Aider''), (''gemini'', ''Gemini CLI''), (''copilot'', ''GitHub Copilot CLI'')]"

definition AIHosts :: "string list" where
  "AIHosts =
     [''api.anthropic.com'', ''api.openai.com'', ''api.githubcopilot.com'', ''copilot-proxy.githubusercontent.com'',
      ''generativelanguage.googleapis.com'', ''api.mistral.ai'', ''api.cohere.ai'']"

text \<open>The zero time is long past, whatever it is counted from; \<open>zero\<close> is its number.\<close>

definition New_lister :: "int \<Rightarrow> int \<Rightarrow> lister" where
  "New_lister zero currentPID =
     \<lparr>li_proxyAddr = [], li_aiHosts = AIHosts, li_hostIPs = {}, li_hostIPsAt = zero, li_currentPID = currentPID\<rparr>"

definition SetProxyAddr :: "lister \<Rightarrow> string \<Rightarrow> lister" where
  "SetProxyAddr l addr = l\<lparr>li_proxyAddr := addr\<rparr>"

definition ProxyAddr :: "lister \<Rightarrow> string" where
  "ProxyAddr l = li_proxyAddr l"

subsection \<open>Strings\<close>

definition baseName :: "string \<Rightarrow> string" where
  "baseName p = (let i = LastIndex p ''/'' in if i \<ge> 0 then drop (nat (i + 1)) p else p)"

fun find_tool :: "(string \<times> string) list \<Rightarrow> string \<Rightarrow> string" where
  "find_tool [] first = []"
| "find_tool ((m, label) # ts) first = (if first = m \<or> HasPrefix first m then label else find_tool ts first)"

definition classifyTool :: "unicode_tables \<Rightarrow> string \<Rightarrow> string" where
  "classifyTool T cmdline =
     (if cmdline = [] then []
      else let idx = Index cmdline '' '';
               first = (if idx > 0 then take (nat idx) cmdline else cmdline)
           in find_tool aiTools (ToLower T (baseName first)))"

definition detectProxyEnv :: "(string \<rightharpoonup> string) \<Rightarrow> bool \<times> string" where
  "detectProxyEnv env =
     (case concat (map (\<lambda>k. case env k of None \<Rightarrow> [] | Some v \<Rightarrow> if v \<noteq> [] then [v] else [])
             [''HTTPS_PROXY'', ''https_proxy'', ''HTTP_PROXY'', ''http_proxy'']) of
        [] \<Rightarrow> (False, [])
      | v # _ \<Rightarrow> (True, v))"

definition trim_brackets :: "string \<Rightarrow> string" where
  "trim_brackets s =
     (let b = (\<lambda>c. c = CHR ''['' \<or> c = CHR '']'') in rev (dropWhile b (rev (dropWhile b s))))"

definition splitHostPort :: "string \<Rightarrow> string \<times> string" where
  "splitHostPort addr =
     (if addr = [] then ([], [])
      else let idx = LastIndex addr '':''
           in if idx > 0 then (trim_brackets (take (nat idx) addr), drop (nat (idx + 1)) addr) else (addr, []))"

definition truncateCommand :: "string \<Rightarrow> int \<Rightarrow> string" where
  "truncateCommand s n = (if go_len s \<le> n then s else take (nat n) s @ [CHR 0xE2, CHR 0x80, CHR 0xA6])"

subsection \<open>Classification\<close>

definition refreshHostIPs :: "sess_env \<Rightarrow> lister \<Rightarrow> lister" where
  "refreshHostIPs env l =
     (if en_now env - li_hostIPsAt l < 60000000000 \<and> li_hostIPs l \<noteq> {} then l
      else let fresh = \<Union> (set (map (\<lambda>h. case en_lookup env h of None \<Rightarrow> {} | Some ips \<Rightarrow> set ips) (li_aiHosts l)))
           in if fresh \<noteq> {} then l\<lparr>li_hostIPs := fresh, li_hostIPsAt := en_now env\<rparr> else l)"

fun classify_conns :: "lister \<Rightarrow> string list \<Rightarrow> session \<Rightarrow> session" where
  "classify_conns l [] s = s"
| "classify_conns l (c # cs) s =
     (let (proxyHost, proxyPort) = splitHostPort (li_proxyAddr l);
          (host, port) = splitHostPort c
      in if host = [] then classify_conns l cs s
         else if (host = ''127.0.0.1'' \<or> host = ''::1'' \<or> host = ''localhost'' \<or> host = proxyHost) \<and> port = proxyPort \<and> proxyPort \<noteq> []
         then classify_conns l cs (s\<lparr>ss_ViaProxy := True\<rparr>)
         else if host \<in> li_hostIPs l \<and> (port = ''443'' \<or> port = ''80'')
         then classify_conns l cs (s\<lparr>ss_DirectAIConn := ss_DirectAIConn s @ [c]\<rparr>)
         else classify_conns l cs s)"

definition classifyConnections :: "lister \<Rightarrow> session \<Rightarrow> session" where
  "classifyConnections l s = classify_conns l (ss_Connections s) s"

definition em_dash_utf8 :: string where
  "em_dash_utf8 = [CHR 0xE2, CHR 0x80, CHR 0x94]"

definition decide :: "session \<Rightarrow> session" where
  "decide s =
     (if ss_BoundFlag s then s\<lparr>ss_Status := StatusProtected, ss_Reason := ''tagged with REDACTR_BOUND=1''\<rparr>
      else if ss_HasProxyEnv s \<and> ss_DirectAIConn s = []
      then s\<lparr>ss_Status := StatusProtected, ss_Reason := ''HTTPS_PROXY points at Redactr''\<rparr>
      else if ss_ViaProxy s \<and> ss_DirectAIConn s = []
      then s\<lparr>ss_Status := StatusProtected, ss_Reason := ''TCP connection to Redactr proxy''\<rparr>
      else if ss_DirectAIConn s \<noteq> []
      then s\<lparr>ss_Status := StatusRunaway,
             ss_Reason := ''direct connection to AI provider '' @ em_dash_utf8 @ '' bypassing the proxy''\<rparr>
      else if ss_HasProxyEnv s \<and> ss_DirectAIConn s \<noteq> []
      then s\<lparr>ss_Status := StatusRunaway, ss_Reason := ''proxy env set but traffic is going direct anyway''\<rparr>
      else s\<lparr>ss_Status := StatusUnknown, ss_Reason := ''no AI traffic observed yet''\<rparr>)"

definition session_of :: "sess_env \<Rightarrow> lister \<Rightarrow> proc \<Rightarrow> string \<Rightarrow> session" where
  "session_of env l p tool =
     (let (hasProxy, proxyEnv, bound) =
            (case en_env env (pr_PID p) of
               None \<Rightarrow> (False, [], False)
             | Some e \<Rightarrow> (fst (detectProxyEnv e), snd (detectProxyEnv e), e BoundEnvKey = Some BoundEnvValue));
          s = \<lparr>ss_PID = pr_PID p, ss_PPID = pr_PPID p, ss_User = pr_User p, ss_Command = truncateCommand (pr_Command p) 240,
               ss_Tool = tool, ss_StartedAt = pr_StartedAt p, ss_Status = StatusUnknown, ss_Reason = [],
               ss_HasProxyEnv = hasProxy, ss_ProxyEnv = proxyEnv, ss_BoundFlag = bound,
               ss_Connections = en_connections env (pr_PID p), ss_DirectAIConn = [], ss_ViaProxy = False\<rparr>
      in decide (classifyConnections l s))"

fun sessions_of :: "unicode_tables \<Rightarrow> sess_env \<Rightarrow> lister \<Rightarrow> proc list \<Rightarrow> session list" where
  "sessions_of T env l [] = []"
| "sessions_of T env l (p # ps) =
     (if pr_PID p = li_currentPID l then sessions_of T env l ps
      else let tool = classifyTool T (pr_Command p)
           in if tool = [] then sessions_of T env l ps else session_of env l p tool # sessions_of T env l ps)"

definition rank :: "status \<Rightarrow> nat" where
  "rank st = (case st of StatusRunaway \<Rightarrow> 0 | StatusUnknown \<Rightarrow> 1 | StatusProtected \<Rightarrow> 2)"

definition session_less :: "session \<Rightarrow> session \<Rightarrow> bool" where
  "session_less x y =
     (if ss_Status x \<noteq> ss_Status y then rank (ss_Status x) < rank (ss_Status y) else ss_StartedAt x > ss_StartedAt y)"

text \<open>The lister afterwards and the sessions; \<open>None\<close> when the processes cannot be read.\<close>

definition List_sessions ::
  "unicode_tables \<Rightarrow> ((session \<Rightarrow> session \<Rightarrow> bool) \<Rightarrow> session list \<Rightarrow> session list) \<Rightarrow> sess_env \<Rightarrow> lister \<Rightarrow>
   lister \<times> session list option" where
  "List_sessions T srt env l =
     (case en_processes env of
        None \<Rightarrow> (l, None)
      | Some procs \<Rightarrow>
          (let l' = refreshHostIPs env l in (l', Some (srt session_less (sessions_of T env l' procs)))))"

subsection \<open>What the classification says\<close>

text \<open>The fifth case of the switch is never reached.\<close>

lemma decide_eq:
  "ss_Status (decide s) =
     (if ss_BoundFlag s then StatusProtected
      else if ss_DirectAIConn s \<noteq> [] then StatusRunaway
      else if ss_HasProxyEnv s \<or> ss_ViaProxy s then StatusProtected else StatusUnknown)"
  "ss_Reason (decide s) \<noteq> ''proxy env set but traffic is going direct anyway''"
  by (auto simp: decide_def)

lemma protected_not_direct:
  "ss_Status (decide s) = StatusProtected \<Longrightarrow> \<not> ss_BoundFlag s \<Longrightarrow> ss_DirectAIConn (decide s) = []"
  by (auto simp: decide_def split: if_splits)

lemma bound_hides_direct: "ss_BoundFlag s \<Longrightarrow> ss_Status (decide s) = StatusProtected"
  by (simp add: decide_def)

interpretation ranked: strict_weak_order session_less
proof
  show "\<not> session_less y x" if "session_less x y" for x y
    using that by (auto simp: session_less_def split: if_splits)
  show "\<not> session_less x z" if "\<not> session_less x y" "\<not> session_less y z" for x y z
    using that by (auto simp: session_less_def rank_def split: if_splits status.splits)
qed

lemma List_ranked:
  assumes "slice_sort session_less (srt session_less)" "List_sessions T srt env l = (l', Some out)"
  shows "sorted_wrt (\<lambda>x y. rank (ss_Status x) \<le> rank (ss_Status y)) out"
proof -
  have out: "out = srt session_less (sessions_of T env (refreshHostIPs env l) (the (en_processes env)))"
    using assms(2) by (auto simp: List_sessions_def Let_def split: option.splits)
  show ?thesis
    unfolding out by (rule sorted_wrt_mono_rel[OF _ slice_sort.srt_ordered[OF assms(1)]])
      (auto simp: session_less_def rank_def split: if_splits status.splits)
qed

end
