(* ===== verification/LocalAPI.thy ===== *)
theory LocalAPI
  imports Config ProxyHandler Firewall Licensing Sessions ReportStore
begin

text \<open>
  The daemon's local HTTP interface, which the dashboard and the tool wrapper use: \<open>internal/api\<close>
  (\<open>routes.go\<close>, \<open>rules_handler.go\<close>, \<open>server.go\<close>).

  The state (\<open>api_state\<close>) is what the server holds: the configuration with its file, the reports, the proxy, the
  coordinator, the firewall, the license and the lister of sessions; a component that was not attached is \<open>None\<close>.
  \<open>api_env\<close> is what a request meets: failures, clocks, the address the proxy can bind, what the operating system answers.
  A handler returns the state afterwards and the answer; \<open>None\<close> is a panic of the scan.

  \<open>PutRules_takes_effect\<close>: what the user chose is what is saved and what the scanner runs with, in one request.
  \<open>disable_reports_ok\<close> and \<open>enable_listens\<close> describe what the proxy's switch does when the firewall does not follow.
\<close>

subsection \<open>State and answers\<close>

record ('d, 'm) api_state =
  ap_cfg :: cfg_manager
  ap_home :: home
  ap_store :: 'd
  ap_proxy :: "proxy option"
  ap_coord :: "coordinator option"
  ap_hub :: "scan_report list option"
  ap_fw :: "'m fw_world option"
  ap_transparentAddr :: string
  ap_license :: "lic_manager option"
  ap_sessions :: "lister option"
  ap_binary :: string

record ('d, 'm) api_env =
  ae_T :: unicode_tables
  ae_io :: io_env
  ae_homeKnown :: bool
  ae_yaml :: yaml
  ae_srt :: finding_sort
  ae_hash :: "string \<Rightarrow> string"
  ae_clock :: clock
  ae_bolt :: "'d bolt"
  ae_fw :: fw_env
  ae_redirect :: "'m \<Rightarrow> string list \<Rightarrow> int \<Rightarrow> 'm \<times> fw_error option"
  ae_unredirect :: "'m \<Rightarrow> 'm \<times> fw_error option"
  ae_bind :: "string option"
  ae_now :: int
  ae_latency :: int
  ae_rsrt :: "(scan_report \<Rightarrow> scan_report \<Rightarrow> bool) \<Rightarrow> scan_report list \<Rightarrow> scan_report list"
  ae_machine :: sess_env
  ae_ssrt :: "(session \<Rightarrow> session \<Rightarrow> bool) \<Rightarrow> session list \<Rightarrow> session list"
  ae_supported :: bool
  ae_kill :: "int \<Rightarrow> string option"
  ae_terminal :: "string \<Rightarrow> string option"

record rule_view =
  rv_ID :: string
  rv_Label :: string
  rv_Describe :: string
  rv_Group :: string
  rv_Tier :: string
  rv_Layer :: string
  rv_Default :: bool
  rv_Enabled :: bool

datatype local_body =
    Failure string | StatusOk "(string \<times> string) list" | ConfigBody config | LogsBody "scan_report list" | StatsBody store_stats
  | ProxyBody bool "string option" "bool option" | CacheBody cache_stats | ScanBody string string "finding list"
  | LicenseBody bool string string "string list" int | SessionsBody bool "session list" string
  | RulesBody "(string \<times> string \<times> bool \<times> string) list" "(string \<times> string \<times> string \<times> string list) list" "rule_view list"
  | UnknownRules "string list"

type_synonym local_reply = "int \<times> local_body"

definition NewServer_api :: "cfg_manager \<Rightarrow> home \<Rightarrow> 'd \<Rightarrow> proxy option \<Rightarrow> coordinator option \<Rightarrow> bool \<Rightarrow> ('d, 'm) api_state" where
  "NewServer_api cfg h st p co hub =
     \<lparr>ap_cfg = cfg, ap_home = h, ap_store = st, ap_proxy = p, ap_coord = co, ap_hub = (if hub then Some [] else None), ap_fw = None,
       ap_transparentAddr = [], ap_license = None, ap_sessions = None, ap_binary = []\<rparr>"

definition SetFirewall :: "('d, 'm) api_state \<Rightarrow> 'm fw_world \<Rightarrow> string \<Rightarrow> ('d, 'm) api_state" where
  "SetFirewall s c addr = s\<lparr>ap_fw := Some c, ap_transparentAddr := addr\<rparr>"

definition SetSessions :: "('d, 'm) api_state \<Rightarrow> lister \<Rightarrow> ('d, 'm) api_state" where
  "SetSessions s l = s\<lparr>ap_sessions := Some l\<rparr>"

definition SetLicense :: "('d, 'm) api_state \<Rightarrow> lic_manager \<Rightarrow> ('d, 'm) api_state" where
  "SetLicense s l = s\<lparr>ap_license := Some l\<rparr>"

definition SetRedactrBinary :: "('d, 'm) api_state \<Rightarrow> string \<Rightarrow> ('d, 'm) api_state" where
  "SetRedactrBinary s path = s\<lparr>ap_binary := path\<rparr>"

subsection \<open>Helpers\<close>

text \<open>\<open>net.SplitHostPort\<close>, the port; \<open>None\<close> is its error.\<close>

definition SplitHostPort_port :: "string \<Rightarrow> string option" where
  "SplitHostPort_port hp =
     (let i = LastIndex hp '':''
      in if i < 0 then None
         else if take 1 hp = ''['' then
           (let e = Index hp '']''
            in if e < 0 then None
               else if e + 1 \<noteq> i then None
               else if Contains (drop 1 hp) ''['' then None
               else if Contains (drop (nat (e + 1)) hp) '']'' then None
               else Some (drop (nat (i + 1)) hp))
         else if Contains (take (nat i) hp) '':'' then None
         else if Contains hp ''['' then None
         else if Contains hp '']'' then None
         else Some (drop (nat (i + 1)) hp))"

definition portFromAddr :: "string \<Rightarrow> int" where
  "portFromAddr addr =
     (case SplitHostPort_port addr of
        None \<Rightarrow> 0
      | Some port \<Rightarrow> (case Atoi_checked port of None \<Rightarrow> 0 | Some n \<Rightarrow> n))"

definition writeProxyState :: "('d, 'm) api_env \<Rightarrow> string \<Rightarrow> home \<Rightarrow> home" where
  "writeProxyState env addr h = (if ae_homeKnown env then fst (WriteFile (ae_io env) ProxyPid addr h) else h)"

definition clearProxyState :: "('d, 'm) api_env \<Rightarrow> home \<Rightarrow> home" where
  "clearProxyState env h = (if ae_homeKnown env then Remove ProxyPid h else h)"

definition update_cfg :: "('d, 'm) api_env \<Rightarrow> (config \<Rightarrow> config) \<Rightarrow> ('d, 'm) api_state \<Rightarrow> ('d, 'm) api_state \<times> bool" where
  "update_cfg env fn s =
     (case Update (ae_io env) (ae_yaml env) fn (ap_cfg s) (ap_home s) of
        (m, h, ok) \<Rightarrow> (s\<lparr>ap_cfg := m, ap_home := h\<rparr>, ok))"

definition set_proxy_enabled :: "bool \<Rightarrow> config \<Rightarrow> config" where
  "set_proxy_enabled b c = c\<lparr>cf_Proxy := (cf_Proxy c)\<lparr>pc_Enabled := b\<rparr>\<rparr>"

subsection \<open>Configuration, logs, statistics\<close>

definition handleGetConfig :: "('d, 'm) api_state \<Rightarrow> local_reply" where
  "handleGetConfig s = (200, ConfigBody (Get_config (ap_cfg s)))"

text \<open>The body decoded into a configuration whose other fields are zero; \<open>None\<close> is an error of decoding.\<close>

definition handleUpdateConfig ::
  "('d, 'm) api_env \<Rightarrow> config option \<Rightarrow> ('d, 'm) api_state \<Rightarrow> ('d, 'm) api_state \<times> local_reply" where
  "handleUpdateConfig env body s =
     (case body of
        None \<Rightarrow> (s, 400, Failure ''bad request'')
      | Some cfg \<Rightarrow>
          (case update_cfg env (\<lambda>_. cfg) s of
             (s', False) \<Rightarrow> (s', 500, Failure ''save failed'')
           | (s', True) \<Rightarrow> (s', 200, StatusOk [(''status'', ''ok'')])))"

definition handleGetLogs :: "('d, 'm) api_env \<Rightarrow> string \<Rightarrow> string \<Rightarrow> ('d, 'm) api_state \<Rightarrow> local_reply" where
  "handleGetLogs env limit_arg provider s =
     (let limit = (if limit_arg \<noteq> [] then (case Atoi_checked limit_arg of None \<Rightarrow> 50 | Some n \<Rightarrow> n) else 50)
      in (200, LogsBody (QueryReports (ae_rsrt env) (ae_bolt env) (ap_store s)
                 \<lparr>qf_Provider = provider, qf_Source = [], qf_Blocked = None, qf_Since = None, qf_Until = None, qf_Limit = limit\<rparr>)))"

definition handleGetStats :: "('d, 'm) api_env \<Rightarrow> ('d, 'm) api_state \<Rightarrow> local_reply" where
  "handleGetStats env s =
     (200, StatsBody (GetStats (ae_bolt env) (ap_store s) (ae_now env - 24 * 3600000000000) (ae_now env)))"

subsection \<open>The proxy's switch\<close>

definition handleProxyEnable ::
  "('d, 'm) api_env \<Rightarrow> ('d, 'm) api_state \<Rightarrow> ('d, 'm) api_state \<times> local_reply" where
  "handleProxyEnable env s =
     (case ap_proxy s of
        None \<Rightarrow> (s, 200, StatusOk [(''message'', ''proxy controller not configured''), (''status'', ''ok'')])
      | Some p \<Rightarrow>
          (case Start_proxy p (ae_bind env) of
             (p', None) \<Rightarrow> (s\<lparr>ap_proxy := Some p'\<rparr>, 500, Failure ''listen failed'')
           | (p', Some addr) \<Rightarrow>
               (let s1 = fst (update_cfg env (set_proxy_enabled True) (s\<lparr>ap_proxy := Some p'\<rparr>));
                    s2 = s1\<lparr>ap_home := writeProxyState env addr (ap_home s1)\<rparr>
                in case ap_fw s2 of
                     None \<Rightarrow> (s2, 200, StatusOk [(''addr'', addr), (''routing'', ''active''), (''status'', ''ok'')])
                   | Some w \<Rightarrow>
                       (case Enable (ae_redirect env) (ae_fw env) (pc_InterceptedDomains (cf_Proxy (Get_config (ap_cfg s2))))
                               addr (portFromAddr (ap_transparentAddr s2)) w of
                          (w', Some e) \<Rightarrow>
                            (s2\<lparr>ap_fw := Some w'\<rparr>, 200, StatusOk [(''addr'', addr), (''routing'', ''failed''), (''status'', ''listening'')])
                        | (w', None) \<Rightarrow>
                            (s2\<lparr>ap_fw := Some w'\<rparr>, 200, StatusOk [(''addr'', addr), (''routing'', ''active''), (''status'', ''ok'')])))))"

definition handleProxyDisable ::
  "('d, 'm) api_env \<Rightarrow> ('d, 'm) api_state \<Rightarrow> ('d, 'm) api_state \<times> local_reply" where
  "handleProxyDisable env s =
     (let s1 = s\<lparr>ap_fw := map_option (\<lambda>w. fst (Disable (ae_unredirect env) (ae_fw env) w)) (ap_fw s)\<rparr>;
          s2 = s1\<lparr>ap_proxy := map_option Stop_proxy (ap_proxy s1)\<rparr>;
          s3 = fst (update_cfg env (set_proxy_enabled False) s2);
          s4 = s3\<lparr>ap_home := clearProxyState env (ap_home s3)\<rparr>
      in (s4, 200, StatusOk [(''status'', ''ok'')]))"

definition handleProxyStatus :: "('d, 'm) api_state \<Rightarrow> local_reply" where
  "handleProxyStatus s =
     (200, ProxyBody (pc_Enabled (cf_Proxy (Get_config (ap_cfg s)))) (map_option Addr_proxy (ap_proxy s)) (map_option fw_IsActive (ap_fw s)))"

subsection \<open>Scanning\<close>

definition handleCacheStats :: "('d, 'm) api_state \<Rightarrow> local_reply" where
  "handleCacheStats s =
     (200, case ap_coord s of None \<Rightarrow> StatusOk [(''status'', ''no coordinator'')] | Some c \<Rightarrow> CacheBody (coordinator_CacheStats c))"

definition handleCacheClear :: "('d, 'm) api_state \<Rightarrow> ('d, 'm) api_state \<times> local_reply" where
  "handleCacheClear s = (s\<lparr>ap_coord := map_option InvalidateCache (ap_coord s)\<rparr>, 200, StatusOk [(''status'', ''ok'')])"

definition api_scan_report :: "int \<Rightarrow> int \<Rightarrow> report \<Rightarrow> scan_report" where
  "api_scan_report now latency rep =
     \<lparr>sr_ID = [], sr_Timestamp = now, sr_Provider = ''api'', sr_Source = ''scan'', sr_LatencyMs = latency,
       sr_Redactions = map (\<lambda>f. \<lparr>rd_Label = Label f, rd_Original = Value f, rd_Start = Start f, rd_End = End f,
                                 rd_Layer = Layer f\<rparr>) (Findings rep),
       sr_Layers = map (\<lambda>lr. \<lparr>lr_Name = info_Name lr, lr_FindingsCount = info_FindingsCount lr,
                             lr_LatencyMs = info_LatencyMs lr\<rparr>) (LayerResults rep),
       sr_Blocked = False, sr_Reason = []\<rparr>"

text \<open>The body is the decoded text, or \<open>None\<close> where it does not decode. The report is saved and broadcast whether or not saving worked.\<close>

definition handleScan ::
  "('d, 'm) api_env \<Rightarrow> string option \<Rightarrow> ('d, 'm) api_state \<Rightarrow> (('d, 'm) api_state \<times> local_reply) option" where
  "handleScan env body s =
     (case ap_coord s of
        None \<Rightarrow> Some (s, 500, Failure ''no coordinator'')
      | Some c \<Rightarrow>
          (case body of
             None \<Rightarrow> Some (s, 400, Failure ''bad request'')
           | Some txt \<Rightarrow>
               (case ScanAndRedact (ae_srt env) (ae_T env) (ae_hash env) (ae_clock env) c txt of
                  None \<Rightarrow> None
                | Some (c', redacted, rep) \<Rightarrow>
                    (case SaveReport (ae_bolt env) (ap_store s) (api_scan_report (ae_now env) (ae_latency env) rep) of
                       (st, rep', _) \<Rightarrow>
                         Some (s\<lparr>ap_coord := Some c', ap_store := st, ap_hub := map_option (\<lambda>out. out @ [rep']) (ap_hub s)\<rparr>,
                               200, ScanBody txt redacted (Findings rep))))))"

subsection \<open>License, sessions, shell\<close>

definition handleGetLicense :: "('d, 'm) api_state \<Rightarrow> local_reply" where
  "handleGetLicense s =
     (case Option.bind (ap_license s) (\<lambda>l. map_option (\<lambda>c. (l, c)) (GetClaims l)) of
        None \<Rightarrow> (200, LicenseBody False ''free'' [] [] 0)
      | Some (l, c) \<Rightarrow>
          (200, LicenseBody (Valid l) (if lc_Demo c then ''demo'' else ''paid'') (lc_Sub c) (lc_Features c) (lc_ExpiresAt c)))"

definition handleListSessions ::
  "('d, 'm) api_env \<Rightarrow> ('d, 'm) api_state \<Rightarrow> ('d, 'm) api_state \<times> local_reply" where
  "handleListSessions env s =
     (case ap_sessions s of
        None \<Rightarrow> (s, 200, SessionsBody (ae_supported env) [] [])
      | Some l \<Rightarrow>
          if \<not> ae_supported env then (s, 200, SessionsBody False [] [])
          else
            (let l1 = (case ap_proxy s of None \<Rightarrow> l | Some p \<Rightarrow> SetProxyAddr l (Addr_proxy p))
             in case List_sessions (ae_T env) (ae_ssrt env) (ae_machine env) l1 of
                  (l2, None) \<Rightarrow> (s\<lparr>ap_sessions := Some l2\<rparr>, 500, Failure ''session scan failed'')
                | (l2, Some list) \<Rightarrow> (s\<lparr>ap_sessions := Some l2\<rparr>, 200, SessionsBody True list (ProxyAddr l2))))"

text \<open>\<open>ae_kill\<close> is the effect of \<open>sessions.Stop\<close>: \<open>None\<close> when the signal was sent. The processes that were signalled come first.\<close>

definition handleStopSession :: "('d, 'm) api_env \<Rightarrow> string \<Rightarrow> int list \<times> local_reply" where
  "handleStopSession env pidStr =
     (case Atoi_checked pidStr of
        None \<Rightarrow> ([], 400, Failure ''invalid pid'')
      | Some pid \<Rightarrow>
          if pid \<le> 1 then ([], 400, Failure ''invalid pid'')
          else case ae_kill env pid of
                 Some e \<Rightarrow> ([pid], 500, Failure e)
               | None \<Rightarrow> ([pid], 200, StatusOk [(''pid'', fmt_int pid)]))"

definition handleLaunchShell :: "('d, 'm) api_env \<Rightarrow> ('d, 'm) api_state \<Rightarrow> local_reply" where
  "handleLaunchShell env s =
     (if \<not> ae_supported env then (501, Failure ''macOS only'')
      else if ap_binary s = [] then (500, Failure ''redactr binary path is not configured'')
      else case ae_terminal env (ap_binary s @ '' shell'') of Some e \<Rightarrow> (500, Failure e) | None \<Rightarrow> (200, StatusOk []))"

subsection \<open>Rules\<close>

definition rule_tiers :: "(string \<times> string \<times> bool \<times> string) list" where
  "rule_tiers = [(''always_on'', ''Always On'', True, ''modal_and_banner''), (''good_to_have'', ''Good to Have'', True, ''inline_confirm''),
     (''to_be_safer'', ''To Be Safer'', False, ''silent'')]"

definition handleGetRules :: "('d, 'm) api_state \<Rightarrow> local_reply" where
  "handleGetRules s =
     (let effective = Effective (sc_Rules (cf_Scanning (Get_config (ap_cfg s))))
      in (200, RulesBody rule_tiers
            (map (\<lambda>g. (gs_ID g, gs_Label g, tier_String (gs_Tier g), gs_Rules g)) AllGroups)
            (map (\<lambda>r. \<lparr>rv_ID = rs_ID r, rv_Label = rs_Label r, rv_Describe = rs_Describe r, rv_Group = rs_Group r,
                        rv_Tier = tier_String (rs_Tier r), rv_Layer = rs_Layer r, rv_Default = ResolveDefault (rs_Tier r),
                        rv_Enabled = lookup_bool effective (rs_ID r)\<rparr>) AllRules)))"

text \<open>How a configuration is put in force: the rules for the layers, the extensions for the file blocker.\<close>

definition reconfigure_from :: "unicode_tables \<Rightarrow> config \<Rightarrow> coordinator \<Rightarrow> coordinator" where
  "reconfigure_from T cfg c =
     (let eff = Effective (sc_Rules (cf_Scanning cfg));
          (exts, contentPatterns) = FileBlockExtensions T (fc_BlockedExtensions (cf_FileBlocking cfg)) eff
            (fc_ContentPatternsEnabled (cf_FileBlocking cfg))
      in Coordinator_Reconfigure T c (lookup_bool eff) exts contentPatterns)"

text \<open>The rules of the body as the pairs of its map, in the order in which Go's iteration meets them.\<close>

definition handlePutRules ::
  "('d, 'm) api_env \<Rightarrow> rule_map option \<Rightarrow> ('d, 'm) api_state \<Rightarrow> ('d, 'm) api_state \<times> local_reply" where
  "handlePutRules env body s =
     (case body of
        None \<Rightarrow> (s, 400, Failure ''invalid json'')
      | Some chosen \<Rightarrow>
          (let unknown = filter (\<lambda>i. \<not> IsKnown i) (map fst chosen)
           in if unknown \<noteq> [] then (s, 400, UnknownRules unknown)
              else
                (let normalised = Normalise chosen
                 in case update_cfg env (\<lambda>c. c\<lparr>cf_Scanning := (cf_Scanning c)\<lparr>sc_Rules := normalised\<rparr>\<rparr>) s of
                      (s', False) \<Rightarrow> (s', 500, Failure ''save failed'')
                    | (s', True) \<Rightarrow>
                        (s'\<lparr>ap_coord := map_option (reconfigure_from (ae_T env) (Get_config (ap_cfg s'))) (ap_coord s')\<rparr>,
                         200, StatusOk []))))"

subsection \<open>Choosing rules\<close>

lemma update_cfg_ok:
  assumes "yaml_ok (ae_yaml env)" "update_cfg env fn s = (s', True)"
  shows "s' = s\<lparr>ap_cfg := ap_cfg s', ap_home := ap_home s'\<rparr>" "cm_cfg (ap_cfg s') = fn (cm_cfg (ap_cfg s))"
    "\<not> io_read io ConfigYaml \<Longrightarrow> NewConfigManager io (ae_yaml env) (ap_home s') = (ap_home s', Some (ap_cfg s'))"
proof -
  obtain m h where up: "Update (ae_io env) (ae_yaml env) fn (ap_cfg s) (ap_home s) = (m, h, True)"
    and s': "s' = s\<lparr>ap_cfg := m, ap_home := h\<rparr>"
    using assms(2) by (auto simp: update_cfg_def split: prod.splits)
  have m: "cm_cfg m = fn (cm_cfg (ap_cfg s))" and save: "Save_config (ae_io env) (ae_yaml env) (cm_cfg m) (ap_home s) = (h, True)"
    using up by (auto simp: Update_def Let_def)
  show "s' = s\<lparr>ap_cfg := ap_cfg s', ap_home := ap_home s'\<rparr>" "cm_cfg (ap_cfg s') = fn (cm_cfg (ap_cfg s))" using s' m by simp_all
  show "NewConfigManager io (ae_yaml env) (ap_home s') = (ap_home s', Some (ap_cfg s'))" if "\<not> io_read io ConfigYaml"
    using Load_after_save(1)[OF assms(1) save that] s' by (simp add: NewConfigManager_def)
qed

lemma update_cfg_coord: "update_cfg env fn s = (s', ok) \<Longrightarrow> ap_coord s' = ap_coord s"
  by (auto simp: update_cfg_def split: prod.splits)


subsection \<open>Switching the proxy\<close>

lemma update_cfg_fields:
  "ap_cfg (fst (update_cfg env fn s)) = \<lparr>cm_cfg = fn (cm_cfg (ap_cfg s))\<rparr>"
  "ap_proxy (fst (update_cfg env fn s)) = ap_proxy s" "ap_fw (fst (update_cfg env fn s)) = ap_fw s"
  "ap_transparentAddr (fst (update_cfg env fn s)) = ap_transparentAddr s"
  by (simp_all add: update_cfg_def Update_def Let_def split: prod.splits)

lemma set_proxy_enabled_simps [simp]:
  "pc_Enabled (cf_Proxy (set_proxy_enabled b c)) = b"
  "pc_InterceptedDomains (cf_Proxy (set_proxy_enabled b c)) = pc_InterceptedDomains (cf_Proxy c)"
  by (simp_all add: set_proxy_enabled_def)

lemma Enable_cases:
  "Enable redirect fenv domains addr port w = (w', None) \<Longrightarrow>
   ct_enabled (fst w') \<and> ct_domains (fst w') = domains \<and> ct_proxyAddr (fst w') = addr \<and> ct_transparentPort (fst w') = port"
  by (auto simp: Enable_def Let_def split: prod.splits sum.splits option.splits)

text \<open>
  Switching the proxy on. When the listener can be bound, the request succeeds, the proxy runs, its address is in the answer and
  in the state file, and the configuration says so; and when the answer says that routing is active,
  the firewall is enabled for the intercepted domains of the configuration and the port of the transparent listener.
\<close>

lemma proxy_switch_on:
  assumes "ap_proxy s = Some p" "ap_fw s = Some w" "ae_bind env = Some addr" "ae_homeKnown env" "io_write (ae_io env) ProxyPid = Written"
  shows "\<exists>s' routing w'. handleProxyEnable env s = (s', 200, StatusOk [(''addr'', addr), (''routing'', routing),
        (''status'', if routing = ''active'' then ''ok'' else ''listening'')]) \<and>
      ap_proxy s' = Some (fst (Start_proxy p (Some addr))) \<and> ap_home s' ProxyPid = Some addr \<and>
      pc_Enabled (cf_Proxy (cm_cfg (ap_cfg s'))) \<and> ap_fw s' = Some w' \<and> routing \<in> {''active'', ''failed''} \<and>
      (routing = ''active'' \<longrightarrow> ct_enabled (fst w') \<and>
         ct_domains (fst w') = pc_InterceptedDomains (cf_Proxy (cm_cfg (ap_cfg s))) \<and>
         ct_transparentPort (fst w') = portFromAddr (ap_transparentAddr s))"
proof -
  obtain p' where start: "Start_proxy p (Some addr) = (p', Some addr)" by (simp add: Start_proxy_def)
  define s1 where "s1 = fst (update_cfg env (set_proxy_enabled True) (s\<lparr>ap_proxy := Some p'\<rparr>))"
  define s2 where "s2 = s1\<lparr>ap_home := writeProxyState env addr (ap_home s1)\<rparr>"
  have s2: "ap_proxy s2 = Some p'" "ap_fw s2 = Some w" "ap_transparentAddr s2 = ap_transparentAddr s"
    "cm_cfg (ap_cfg s2) = set_proxy_enabled True (cm_cfg (ap_cfg s))" "ap_home s2 ProxyPid = Some addr"
    using assms(2,4,5) by (simp_all add: s2_def s1_def update_cfg_fields writeProxyState_def WriteFile_def)
  obtain w' e where en: "Enable (ae_redirect env) (ae_fw env) (pc_InterceptedDomains (cf_Proxy (Get_config (ap_cfg s2)))) addr
      (portFromAddr (ap_transparentAddr s2)) w = (w', e)" by fastforce
  have run: "handleProxyEnable env s = (s2\<lparr>ap_fw := Some w'\<rparr>, 200, StatusOk [(''addr'', addr),
      (''routing'', if e = None then ''active'' else ''failed''), (''status'', if e = None then ''ok'' else ''listening'')])"
    unfolding handleProxyEnable_def assms(1,3) option.case start prod.case Let_def s1_def[symmetric] s2_def[symmetric] s2(2) en
    by (cases e) simp_all
  have active: "e = None \<Longrightarrow> ct_enabled (fst w') \<and> ct_domains (fst w') = pc_InterceptedDomains (cf_Proxy (cm_cfg (ap_cfg s))) \<and>
      ct_transparentPort (fst w') = portFromAddr (ap_transparentAddr s)"
    using en s2(3,4) Enable_cases by (fastforce simp: Get_config_def)
  show ?thesis
    by (intro exI[of _ "s2\<lparr>ap_fw := Some w'\<rparr>"] exI[of _ "if e = None then ''active'' else ''failed''"] exI[of _ w'])
       (use run s2 active start in auto)
qed

text \<open>
  Switching the proxy off always reports success: the proxy is marked as stopped, its state file is gone and the configuration
  says so. But of the listeners that are open only the one of the last server is closed, so that a proxy that had been enabled
  twice is still reachable; and the firewall stays as it was when its rules cannot be removed, and nothing in the answer tells: the
  traffic of the intercepted domains is then still redirected.
\<close>

lemma proxy_switch_off:
  assumes "ap_fw s = Some (c, m, file)" "ap_proxy s = Some p" "px_running p" "ae_homeKnown env"
  shows "\<exists>s' p' c' m' file'. handleProxyDisable env s = (s', 200, StatusOk [(''status'', ''ok'')]) \<and>
      ap_proxy s' = Some p' \<and> \<not> px_running p' \<and> px_open p' = filter (\<lambda>a. px_server p \<noteq> Some a) (px_open p) \<and>
      ap_home s' ProxyPid = None \<and> \<not> pc_Enabled (cf_Proxy (cm_cfg (ap_cfg s'))) \<and> ap_fw s' = Some (c', m', file') \<and>
      (ct_enabled c' \<longleftrightarrow> ct_enabled c \<and> snd (ae_unredirect env m) \<noteq> None) \<and> (ct_enabled c' \<longrightarrow> c' = c)"
proof -
  define w where "w = fst (Disable (ae_unredirect env) (ae_fw env) (c, m, file))"
  obtain c' m' file' where w: "w = (c', m', file')" by (cases w) auto
  define s2 where "s2 = s\<lparr>ap_fw := Some w, ap_proxy := Some (Stop_proxy p)\<rparr>"
  define s3 where "s3 = fst (update_cfg env (set_proxy_enabled False) s2)"
  define s4 where "s4 = s3\<lparr>ap_home := clearProxyState env (ap_home s3)\<rparr>"
  have run: "handleProxyDisable env s = (s4, 200, StatusOk [(''status'', ''ok'')])"
    by (simp add: handleProxyDisable_def Let_def assms(1,2) flip: w_def) (simp add: s2_def s3_def s4_def)
  have fw: "(ct_enabled c' \<longleftrightarrow> ct_enabled c \<and> snd (ae_unredirect env m) \<noteq> None) \<and> (ct_enabled c' \<longrightarrow> c' = c)"
    using w by (auto simp: w_def Disable_def Let_def split: if_splits prod.splits option.splits)
  have s4: "ap_proxy s4 = Some (Stop_proxy p)" "ap_home s4 ProxyPid = None" "\<not> pc_Enabled (cf_Proxy (cm_cfg (ap_cfg s4)))"
    "ap_fw s4 = Some (c', m', file')"
    using assms(4) w by (simp_all add: s4_def s3_def s2_def update_cfg_fields clearProxyState_def Remove_def)
  have "\<not> px_running (Stop_proxy p)" "px_open (Stop_proxy p) = filter (\<lambda>a. px_server p \<noteq> Some a) (px_open p)"
    using assms(3) by (simp_all add: Stop_proxy_def)
  then show ?thesis using run s4 fw by blast
qed

text \<open>Enabled twice and disabled once, the proxy still listens on its first address.\<close>

lemma enabled_twice_stays_open:
  assumes "a \<noteq> b"
  shows "a \<in> set (px_open (Stop_proxy (fst (Start_proxy (fst (Start_proxy p (Some a))) (Some b)))))"
  using assms by (simp add: Start_proxy_def Stop_proxy_def)

subsection \<open>Examples\<close>

definition demo_rules_config :: config where
  "demo_rules_config = DefaultConfig\<lparr>cf_Scanning := (cf_Scanning DefaultConfig)\<lparr>sc_Rules := Normalise [(''jwt'', False)]\<rparr>\<rparr>"

definition demo_api_yaml :: yaml where
  "demo_api_yaml = \<lparr>ym_Marshal = (\<lambda>c. if c = demo_rules_config then Some ''new'' else None),
     ym_Unmarshal = (\<lambda>s _. if s = ''new'' then Some demo_rules_config else None), ym_Legacy = (\<lambda>_. None)\<rparr>"

definition demo_api_env :: "(unit, unit) api_env" where
  "demo_api_env = \<lparr>ae_T = latin1, ae_io = no_io_faults, ae_homeKnown = True, ae_yaml = demo_api_yaml, ae_srt = insertion_sort, ae_hash = id,
     ae_clock = \<lparr>layer_ms = (\<lambda>_. 0), timer_first = (\<lambda>_. False), total_ms = 0\<rparr>,
     ae_bolt = \<lparr>bolt_Put = (\<lambda>d _ _. None), bolt_Get = (\<lambda>_. Map.empty), bolt_ForEach = (\<lambda>_. [])\<rparr>,
     ae_fw = \<lparr>fe_resolve = (\<lambda>_. Some [''192.0.2.1'']), fe_writable = True, fe_now = 0\<rparr>, ae_redirect = (\<lambda>m _ _. (m, None)),
     ae_unredirect = (\<lambda>m. (m, Some SudoFailed)), ae_bind = Some ''127.0.0.1:4000'', ae_now = 0, ae_latency = 0, ae_rsrt = insertion_sort,
     ae_machine = \<lparr>en_processes = None, en_env = (\<lambda>_. None), en_connections = (\<lambda>_. []), en_lookup = (\<lambda>_. None), en_now = 0\<rparr>,
     ae_ssrt = insertion_sort, ae_supported = True, ae_kill = (\<lambda>_. None), ae_terminal = (\<lambda>_. None)\<rparr>"

definition demo_api :: "(unit, unit) api_state" where
  "demo_api = SetFirewall (NewServer_api \<lparr>cm_cfg = DefaultConfig\<rparr> Map.empty ()
       (Some (NewProxy (New_filter latin1 [] []) None False))
       (Some (New_coordinator \<lparr>layers = [], timeoutMs = 0\<rparr> (NewCache 10) (New_blocker latin1 [] False))) True)
     (NewController\<lparr>ct_enabled := True\<rparr>, (), None) ''127.0.0.1:8443''"

lemma demo_api_yaml_ok: "yaml_ok (ae_yaml demo_api_env)"
  by (simp add: yaml_ok_def demo_api_yaml_def demo_api_env_def)


lemma proxy_switch_on_example:
  "\<exists>s' routing. handleProxyEnable demo_api_env demo_api = (s', 200, StatusOk [(''addr'', ''127.0.0.1:4000''), (''routing'', routing),
        (''status'', if routing = ''active'' then ''ok'' else ''listening'')]) \<and> ap_home s' ProxyPid = Some ''127.0.0.1:4000''"
proof -
  have "ap_proxy demo_api = Some (NewProxy (New_filter latin1 [] []) None False)" "ap_fw demo_api = Some (NewController\<lparr>ct_enabled := True\<rparr>, (), None)"
    "ae_bind demo_api_env = Some ''127.0.0.1:4000''" "ae_homeKnown demo_api_env" "io_write (ae_io demo_api_env) ProxyPid = Written"
    by (simp_all add: demo_api_def demo_api_env_def SetFirewall_def NewServer_api_def no_io_faults_def)
  then show ?thesis using proxy_switch_on[of demo_api _ _ demo_api_env] by blast
qed

definition demo_api_twice :: "(unit, unit) api_state" where
  "demo_api_twice = demo_api\<lparr>ap_proxy := map_option (\<lambda>p. fst (Start_proxy (fst (Start_proxy p (Some ''[::]:4000''))) (Some ''[::]:4001'')))
     (ap_proxy demo_api)\<rparr>"

lemma proxy_switch_off_example:
  "\<exists>s' p' c' m' file'. handleProxyDisable demo_api_env demo_api_twice = (s', 200, StatusOk [(''status'', ''ok'')]) \<and>
     ap_proxy s' = Some p' \<and> px_open p' = [''[::]:4000''] \<and>
     \<not> pc_Enabled (cf_Proxy (cm_cfg (ap_cfg s'))) \<and> ap_fw s' = Some (c', m', file') \<and> ct_enabled c'"
proof -
  define p where "p = fst (Start_proxy (fst (Start_proxy (NewProxy (New_filter latin1 [] []) None False) (Some ''[::]:4000''))) (Some ''[::]:4001''))"
  have "ap_fw demo_api_twice = Some (NewController\<lparr>ct_enabled := True\<rparr>, (), None)" "ap_proxy demo_api_twice = Some p" "ae_homeKnown demo_api_env"
    and "snd (ae_unredirect demo_api_env ()) \<noteq> None"
    by (simp_all add: demo_api_twice_def demo_api_def demo_api_env_def SetFirewall_def NewServer_api_def p_def)
  moreover have "px_running p" "filter (\<lambda>a. px_server p \<noteq> Some a) (px_open p) = [''[::]:4000'']"
    by (simp_all add: p_def Start_proxy_def NewProxy_def)
  ultimately show ?thesis
    using proxy_switch_off[of demo_api_twice "NewController\<lparr>ct_enabled := True\<rparr>" "()" None p demo_api_env] by auto
qed

end
