(* ===== verification/Lifecycle.thy ===== *)
theory Lifecycle
  imports Tokens Files Firewall
begin

text \<open>
  One daemon per machine, and cleaning up after one that crashed: \<open>internal/lifecycle/lifecycle.go\<close>.

  \<open>AcquireSingleton\<close> runs in several processes at once, so it is a step relation (\<open>lock_step\<close>): opening the
  pidfile, the two attempts at \<open>flock\<close>, reading the pidfile, signalling the predecessor, truncating and writing are its steps, and a process
  may die between any two of them. The kernel's lock is held by at most one process and lost when that
  dies. \<open>singleton_exclusive\<close>: at most one process has the lock, the pidfile names it, and only processes that pass
  \<open>IsOurProcess\<close> are ever signalled.

  \<open>terminateAndWait\<close> and \<open>ReapOrphans\<close> are functions of what the operating system answers. The results of the system
  calls in the two waiting loops are functions of the number of the call; the first loop ends after \<open>ke_ticks\<close> probes, when the
  grace period is over, the second after forty.
\<close>

subsection \<open>Signals\<close>

datatype kill_result = KillOk | NoSuchProcess | KillFailed

datatype signal = SIGTERM int | SIGKILL int

record kill_env =
  ke_term :: kill_result
  ke_probe :: "nat \<Rightarrow> kill_result"
  ke_ticks :: nat
  ke_kill :: kill_result
  ke_probe9 :: "nat \<Rightarrow> kill_result"

datatype term_error = SigtermFailed | SigkillFailed | StillAlive

definition processAlive :: "int \<Rightarrow> kill_result \<Rightarrow> bool" where
  "processAlive pid r \<longleftrightarrow> \<not> pid \<le> 0 \<and> r \<noteq> NoSuchProcess"

text \<open>Whether one of the next \<open>n\<close> probes finds the process gone.\<close>

fun wait_gone :: "int \<Rightarrow> (nat \<Rightarrow> kill_result) \<Rightarrow> nat \<Rightarrow> nat \<Rightarrow> bool" where
  "wait_gone pid probe i 0 = False"
| "wait_gone pid probe i (Suc n) = (if \<not> processAlive pid (probe i) then True else wait_gone pid probe (Suc i) n)"

definition terminateAndWait :: "kill_env \<Rightarrow> int \<Rightarrow> signal list \<times> term_error option" where
  "terminateAndWait E pid =
     (if ke_term E = NoSuchProcess then ([SIGTERM pid], None)
      else if ke_term E = KillFailed then ([SIGTERM pid], Some SigtermFailed)
      else if wait_gone pid (ke_probe E) 0 (ke_ticks E) then ([SIGTERM pid], None)
      else if ke_kill E = KillFailed then ([SIGTERM pid, SIGKILL pid], Some SigkillFailed)
      else if wait_gone pid (ke_probe9 E) 0 40 then ([SIGTERM pid, SIGKILL pid], None)
      else ([SIGTERM pid, SIGKILL pid], Some StillAlive))"

subsection \<open>The pidfile\<close>

definition newline_char :: char where
  "newline_char = CHR 0x0A"

definition readPid :: "read_result \<Rightarrow> int option" where
  "readPid f =
     (case f of
        FileData data \<Rightarrow>
          (let line = TrimSpace (hd (SplitByte data newline_char))
           in if line = [] then None
              else case Atoi_checked line of None \<Rightarrow> None | Some pid \<Rightarrow> if pid \<le> 0 then None else Some pid)
      | _ \<Rightarrow> None)"

definition pid_line :: "int \<Rightarrow> string" where
  "pid_line pid = fmt_int pid @ [newline_char]"

subsection \<open>Orphans\<close>

fun first_pid :: "string list \<Rightarrow> int option" where
  "first_pid [] = None"
| "first_pid (l # ls) =
     (case Atoi_checked (TrimSpace l) of
        Some pid \<Rightarrow> if pid > 0 then Some pid else first_pid ls
      | None \<Rightarrow> first_pid ls)"

text \<open>\<open>lsof\<close> is the output of that program for a port, \<open>None\<close> where it fails.\<close>

definition findSidecarPid :: "io_env \<Rightarrow> (int \<Rightarrow> string option) \<Rightarrow> home \<Rightarrow> int option" where
  "findSidecarPid io lsof h =
     (case ReadFile io h SidecarPort of
        FileData data \<Rightarrow>
          (case Atoi_checked (TrimSpace data) of
             None \<Rightarrow> None
           | Some port \<Rightarrow>
               if port \<le> 0 then None
               else case lsof port of None \<Rightarrow> None | Some out \<Rightarrow> first_pid (SplitByte (TrimSpace out) newline_char))
      | _ \<Rightarrow> None)"

definition isRedactrProcess :: "unicode_tables \<Rightarrow> (int \<Rightarrow> string option) \<Rightarrow> int \<Rightarrow> bool" where
  "isRedactrProcess T ps pid =
     (case ps pid of
        None \<Rightarrow> False
      | Some out \<Rightarrow>
          (let comm = ToLower T (TrimSpace out)
           in if comm = [] then False
              else let idx = LastIndex comm ''/'';
                       base = (if idx \<ge> 0 then drop (nat (idx + 1)) comm else comm)
                   in Contains base ''redactr'' \<or> base = ''go''))"

datatype reap_error = ReapTerm term_error | ReapFw fw_error

definition reap_sidecar ::
  "io_env \<Rightarrow> (int \<Rightarrow> string option) \<Rightarrow> kill_result \<Rightarrow> kill_env \<Rightarrow> home \<Rightarrow> home \<times> signal list \<times> reap_error option" where
  "reap_sidecar io lsof alive E h =
     (case findSidecarPid io lsof h of
        None \<Rightarrow> (h, [], None)
      | Some pid \<Rightarrow>
          (let (sigs, err) = (if processAlive pid alive then terminateAndWait E pid else ([], None))
           in (Remove SidecarPort h, sigs, map_option ReapTerm err)))"

definition real_error :: "fw_error option \<Rightarrow> reap_error option" where
  "real_error e = (if e = Some ErrNotImplemented then None else map_option ReapFw e)"

definition first_error :: "'e option \<Rightarrow> 'e option \<Rightarrow> 'e option" where
  "first_error e e' = (if e \<noteq> None then e else e')"

definition ReapOrphans ::
  "io_env \<Rightarrow> (int \<Rightarrow> string option) \<Rightarrow> kill_result \<Rightarrow> kill_env \<Rightarrow> (('m \<Rightarrow> 'm \<times> fw_error option) \<times> ('m \<Rightarrow> 'm \<times> fw_error option)) option \<Rightarrow>
   home \<Rightarrow> 'm \<Rightarrow> home \<times> 'm \<times> signal list \<times> reap_error option" where
  "ReapOrphans io lsof alive E fw h m =
     (case reap_sidecar io lsof alive E h of
        (h', sigs, err) \<Rightarrow>
          (case fw of
             None \<Rightarrow> (h', m, sigs, err)
           | Some (unredirect, cleanup) \<Rightarrow>
               (let (m1, e1) = unredirect m;
                    err1 = first_error err (real_error e1);
                    (m2, e2) = cleanup m1
                in (h', m2, sigs, first_error err1 (real_error e2)))))"

subsection \<open>The singleton as a step relation\<close>

datatype phase = Idle | Opened | Blocked | Replacing int | Locked | Truncated | Held | Failed | Released | Dead

record lock_world =
  lw_file :: string
  lw_holder :: "int option"
  lw_phase :: "int \<Rightarrow> phase"
  lw_signals :: "(int \<times> int) list"

definition set_phase :: "int \<Rightarrow> phase \<Rightarrow> lock_world \<Rightarrow> lock_world" where
  "set_phase p ph w = w\<lparr>lw_phase := (lw_phase w)(p := ph)\<rparr>"

text \<open>Closing the file gives the lock up, if it was held.\<close>

definition close_file :: "int \<Rightarrow> lock_world \<Rightarrow> lock_world" where
  "close_file p w = w\<lparr>lw_holder := (if lw_holder w = Some p then None else lw_holder w)\<rparr>"

definition tryFlock :: "int \<Rightarrow> lock_world \<Rightarrow> lock_world \<times> bool" where
  "tryFlock p w = (if lw_holder w = None then (w\<lparr>lw_holder := Some p\<rparr>, True) else (w, False))"

text \<open>What a process does that could not lock: the predecessor is signalled, or the attempt is given up.\<close>

definition confront :: "(int \<Rightarrow> bool) \<Rightarrow> int \<Rightarrow> lock_world \<Rightarrow> lock_world" where
  "confront ours p w =
     (case readPid (FileData (lw_file w)) of
        None \<Rightarrow> set_phase p Failed (close_file p w)
      | Some q \<Rightarrow>
          if q = p then set_phase p Failed (close_file p w)
          else if \<not> ours q then set_phase p Failed (close_file p w)
          else set_phase p (Replacing q) (w\<lparr>lw_signals := lw_signals w @ [(p, q)]\<rparr>))"

text \<open>Writing at the start of the file.\<close>

definition write_pid :: "int \<Rightarrow> lock_world \<Rightarrow> lock_world" where
  "write_pid p w = w\<lparr>lw_file := pid_line p @ drop (length (pid_line p)) (lw_file w)\<rparr>"

inductive lock_step :: "(int \<Rightarrow> bool) \<Rightarrow> lock_world \<Rightarrow> lock_world \<Rightarrow> bool" for ours where
  step_open: "lw_phase w p = Idle \<Longrightarrow> 0 < p \<Longrightarrow> in_int64 p \<Longrightarrow> lock_step ours w (set_phase p Opened w)"
| step_lock: "lw_phase w p = Opened \<Longrightarrow> tryFlock p w = (w', True) \<Longrightarrow> lock_step ours w (set_phase p Locked w')"
| step_block: "lw_phase w p = Opened \<Longrightarrow> tryFlock p w = (w', False) \<Longrightarrow> lock_step ours w (set_phase p Blocked w')"
| step_confront: "lw_phase w p = Blocked \<Longrightarrow> lock_step ours w (confront ours p w)"
| step_relock: "lw_phase w p = Replacing q \<Longrightarrow> lw_phase w q = Dead \<Longrightarrow> tryFlock p w = (w', True) \<Longrightarrow>
    lock_step ours w (set_phase p Locked w')"
| step_lost: "lw_phase w p = Replacing q \<Longrightarrow> lock_step ours w (set_phase p Failed (close_file p w))"
| step_truncate: "lw_phase w p = Locked \<Longrightarrow> lock_step ours w (set_phase p Truncated (w\<lparr>lw_file := []\<rparr>))"
| step_write: "lw_phase w p = Truncated \<Longrightarrow> lock_step ours w (set_phase p Held (write_pid p w))"
| step_torn: "lw_phase w p = Truncated \<Longrightarrow> lock_step ours w (set_phase p Failed (close_file p (w\<lparr>lw_file := part\<rparr>)))"
| step_error: "lw_phase w p \<in> {Opened, Locked} \<Longrightarrow> lock_step ours w (set_phase p Failed (close_file p w))"
| step_release: "lw_phase w p = Held \<Longrightarrow> lock_step ours w (set_phase p Released (close_file p w))"
| step_die: "lock_step ours w (set_phase p Dead (close_file p w))"

definition lock_start :: "string \<Rightarrow> lock_world" where
  "lock_start file = \<lparr>lw_file = file, lw_holder = None, lw_phase = (\<lambda>_. Idle), lw_signals = []\<rparr>"

subsection \<open>The pidfile is read back\<close>

lemma chunks_ascii: "ascii s \<Longrightarrow> chunks s = map (\<lambda>c. (of_char c, [c])) s"
proof (induction s)
  case (Cons c s)
  then have "decode_rune (c # s) = (of_char c, 1)" by (simp add: decode_rune_ascii ascii_def)
  then show ?case using Cons by (simp add: chunks_code ascii_def)
qed (simp add: chunks_code)

lemma TrimSpace_no_space:
  assumes "ascii s" "list_all (\<lambda>c. \<not> rune_IsSpace (of_char c)) s"
  shows "TrimSpace s = s"
proof -
  have keep: "dropWhile (\<lambda>(r, _). rune_IsSpace r) (map (\<lambda>c. (of_char c, [c])) t) = map (\<lambda>c. (of_char c, [c])) t"
    if "list_all (\<lambda>c. \<not> rune_IsSpace (of_char c)) t" for t
    using that by (cases t) auto
  have "list_all (\<lambda>c. \<not> rune_IsSpace (of_char c)) (rev s)" using assms(2) by (simp add: list_all_iff)
  then show ?thesis
    using keep[OF assms(2)] keep[of "rev s"]
    by (simp add: TrimSpace_def chunks_ascii[OF assms(1)] Let_def rev_map comp_def)
qed

lemma digits_plain:
  assumes "all_digits s"
  shows "ascii s" "TrimSpace s = s" "newline_char \<notin> set s"
proof -
  have d: "48 \<le> (of_char c :: nat) \<and> (of_char c :: nat) \<le> 57" if "c \<in> set s" for c
    using assms that by (auto simp: all_digits_def list_all_iff)
  then show a: "ascii s" by (fastforce simp: ascii_def list_all_iff)
  have "\<not> rune_IsSpace n" if "48 \<le> n" "n \<le> 57" for n using that by (auto simp: rune_IsSpace_def rune_between_def)
  then have "list_all (\<lambda>c. \<not> rune_IsSpace (of_char c)) s" using d by (simp add: list_all_iff)
  then show "TrimSpace s = s" by (rule TrimSpace_no_space[OF a])
  show "newline_char \<notin> set s" using d by (fastforce simp: newline_char_def)
qed

lemma hd_SplitByte: "c \<notin> set s \<Longrightarrow> hd (SplitByte (s @ c # t) c) = s"
  by (induction s) (auto split: list.split)

lemma Atoi_checked_digits:
  assumes "all_digits s" "in_int64 (digits_value s)"
  shows "Atoi_checked s = Some (digits_value s)"
proof (cases s)
  case (Cons c t)
  then have "48 \<le> (of_char c :: nat)" using assms(1) by (simp add: all_digits_def)
  then have "c \<noteq> CHR ''-''" "c \<noteq> CHR ''+''" by auto
  then show ?thesis using assms Cons by (simp add: Atoi_checked_def)
qed (use assms(1) in \<open>simp add: all_digits_def\<close>)

lemma readPid_pid_line:
  assumes "0 < p" "in_int64 p"
  shows "readPid (FileData (pid_line p)) = Some p"
proof -
  have d: "fmt_int p = fmt_nat (nat p)" "digits_value (fmt_int p) = p"
    using assms(1) digits_value_fmt_nat by (simp_all add: fmt_int_def)
  have "all_digits (fmt_int p)" using d fmt_nat_digits by simp
  then show ?thesis
    using digits_plain[of "fmt_int p"] Atoi_checked_digits[of "fmt_int p"] d(2) assms
    by (simp add: readPid_def pid_line_def hd_SplitByte all_digits_def)
qed

subsection \<open>Mutual exclusion\<close>

definition holds :: "phase \<Rightarrow> bool" where
  "holds ph \<longleftrightarrow> ph \<in> {Locked, Truncated, Held}"

definition lock_inv :: "(int \<Rightarrow> bool) \<Rightarrow> lock_world \<Rightarrow> bool" where
  "lock_inv ours w \<longleftrightarrow>
     (\<forall>p. holds (lw_phase w p) \<longrightarrow> lw_holder w = Some p) \<and>
     (\<forall>p. lw_phase w p \<noteq> Idle \<and> lw_phase w p \<noteq> Dead \<longrightarrow> 0 < p \<and> in_int64 p) \<and>
     (\<forall>p. lw_phase w p = Truncated \<longrightarrow> lw_file w = []) \<and>
     (\<forall>p. lw_phase w p = Held \<longrightarrow> lw_file w = pid_line p) \<and>
     (\<forall>(p, q) \<in> set (lw_signals w). q \<noteq> p \<and> ours q)"

lemma lock_inv_start: "lock_inv ours (lock_start file)"
  by (simp add: lock_inv_def lock_start_def holds_def)

lemma lock_inv_alone:
  "lock_inv ours w \<Longrightarrow> holds (lw_phase w p) \<Longrightarrow> q \<noteq> p \<Longrightarrow> \<not> holds (lw_phase w q)"
  unfolding lock_inv_def by (metis option.inject)

lemma lock_inv_holds: "lock_inv ours w \<Longrightarrow> holds (lw_phase w p) \<Longrightarrow> lw_holder w = Some p"
  by (simp add: lock_inv_def)

lemma lock_inv_truncated: "lock_inv ours w \<Longrightarrow> lw_phase w p = Truncated \<Longrightarrow> lw_file w = []"
  by (auto simp: lock_inv_def)

lemma lock_inv_pidfile: "lock_inv ours w \<Longrightarrow> lw_phase w p = Held \<Longrightarrow> readPid (FileData (lw_file w)) = Some p"
  using readPid_pid_line by (auto simp: lock_inv_def)

text \<open>A process that holds the lock may change the file; one that does not changes only its own phase.\<close>

lemma lock_inv_holder:
  assumes "lock_inv ours w" "holds (lw_phase w p)" "lw_signals w' = lw_signals w"
    and "\<And>q. q \<noteq> p \<Longrightarrow> lw_phase w' q = lw_phase w q" "holds (lw_phase w' p) \<Longrightarrow> lw_holder w' = Some p"
    and "lw_phase w' p = Truncated \<Longrightarrow> lw_file w' = []" "lw_phase w' p = Held \<Longrightarrow> lw_file w' = pid_line p"
  shows "lock_inv ours w'"
proof -
  have others: "\<not> holds (lw_phase w' q)" if "q \<noteq> p" for q
    using lock_inv_alone[OF assms(1,2) that] assms(4)[OF that] by simp
  have p: "0 < p \<and> in_int64 p" using assms(1,2) unfolding lock_inv_def holds_def by fastforce
  show ?thesis
    unfolding lock_inv_def
  proof (intro conjI allI impI)
    show "lw_holder w' = Some q" if "holds (lw_phase w' q)" for q using that others assms(5) by (cases "q = p") auto
    show "0 < q" "in_int64 q" if "lw_phase w' q \<noteq> Idle \<and> lw_phase w' q \<noteq> Dead" for q
      using that p assms(1,4) unfolding lock_inv_def by (metis+)
    show "lw_file w' = []" if "lw_phase w' q = Truncated" for q
      using that others[of q] assms(6) by (cases "q = p") (auto simp: holds_def)
    show "lw_file w' = pid_line q" if "lw_phase w' q = Held" for q
      using that others[of q] assms(7) by (cases "q = p") (auto simp: holds_def)
    show "\<forall>(p, q) \<in> set (lw_signals w'). q \<noteq> p \<and> ours q" using assms(1,3) by (simp add: lock_inv_def)
  qed
qed

lemma lock_inv_bystander:
  assumes "lock_inv ours w" "\<not> holds ph" "ph \<noteq> Idle \<and> ph \<noteq> Dead \<longrightarrow> 0 < p \<and> in_int64 p"
  shows "lock_inv ours (set_phase p ph w)" "lock_inv ours (set_phase p ph (close_file p w))"
  using assms by (auto simp: lock_inv_def set_phase_def close_file_def holds_def)

lemma lock_inv_locked:
  assumes "lock_inv ours w" "tryFlock p w = (w', True)" "0 < p \<and> in_int64 p"
  shows "lock_inv ours (set_phase p Locked w')"
  using assms by (auto simp: lock_inv_def set_phase_def tryFlock_def holds_def split: if_splits)

lemma lock_inv_pid: "lock_inv ours w \<Longrightarrow> lw_phase w p \<noteq> Idle \<Longrightarrow> lw_phase w p \<noteq> Dead \<Longrightarrow> 0 < p \<and> in_int64 p"
  by (simp add: lock_inv_def)

lemma lock_step_inv:
  assumes "lock_step ours w w'" "lock_inv ours w"
  shows "lock_inv ours w'"
  using assms
proof induction
  case (step_confront w p)
  have p: "0 < p \<and> in_int64 p" using lock_inv_pid[OF step_confront(2), of p] step_confront(1) by simp
  have sig: "lock_inv ours (w\<lparr>lw_signals := lw_signals w @ [(p, q)]\<rparr>)" if "q \<noteq> p" "ours q" for q
    using step_confront(2) that by (simp add: lock_inv_def)
  have fail: "lock_inv ours (set_phase p Failed (close_file p w))"
    using lock_inv_bystander(2)[OF step_confront(2), of Failed p] p by (simp add: holds_def)
  have repl: "lock_inv ours (set_phase p (Replacing q) (w\<lparr>lw_signals := lw_signals w @ [(p, q)]\<rparr>))" if "q \<noteq> p" "ours q" for q
    using lock_inv_bystander(1)[OF sig[OF that], of "Replacing q" p] p by (simp add: holds_def)
  show ?case
  proof (cases "readPid (FileData (lw_file w))")
    case None
    then show ?thesis unfolding confront_def by (simp only: option.case fail)
  next
    case (Some q)
    show ?thesis unfolding confront_def Some option.case using fail repl[of q] by presburger
  qed
next
  case (step_truncate w p)
  then have "holds (lw_phase w p)" by (simp add: holds_def)
  then show ?case using step_truncate lock_inv_holds[of ours w p]
    by - (rule lock_inv_holder[of ours w p], auto simp: set_phase_def)
next
  case (step_write w p)
  then have "holds (lw_phase w p)" by (simp add: holds_def)
  then show ?case using step_write lock_inv_holds[of ours w p] lock_inv_truncated[of ours w p]
    by - (rule lock_inv_holder[of ours w p], auto simp: set_phase_def write_pid_def)
next
  case (step_torn w p part)
  then show ?case by - (rule lock_inv_holder[of ours w p], auto simp: holds_def set_phase_def close_file_def)
next
  case (step_lock w p w')
  then show ?case using lock_inv_locked lock_inv_pid[OF step_lock(3), of p] by simp
next
  case (step_relock w p q w')
  then show ?case using lock_inv_locked lock_inv_pid[OF step_relock(4), of p] by simp
next
  case (step_block w p w')
  then show ?case using lock_inv_pid[OF step_block(3), of p]
    by (auto simp: tryFlock_def holds_def split: if_splits intro: lock_inv_bystander(1))
next
  case (step_error w p)
  then show ?case using lock_inv_pid[OF step_error(2), of p] by - (rule lock_inv_bystander, auto simp: holds_def)
next
  case (step_lost w p q)
  then show ?case using lock_inv_pid[OF step_lost(2), of p] by - (rule lock_inv_bystander, auto simp: holds_def)
next
  case (step_release w p)
  then show ?case using lock_inv_pid[OF step_release(2), of p] by - (rule lock_inv_bystander, auto simp: holds_def)
qed (auto simp: holds_def intro: lock_inv_bystander)

text \<open>
  C19. One daemon per machine. However the starts, failures, releases and deaths of any number of processes interleave, at most one
  of them has acquired the singleton; the pidfile then names exactly this process, so that a
  successor finds the right predecessor; and a process is signalled only if it is another one and passes the check \<open>IsOurProcess\<close>.
\<close>

theorem singleton_exclusive:
  assumes "(lock_step ours)\<^sup>*\<^sup>* (lock_start file) w"
  shows "(\<forall>p q. lw_phase w p = Held \<and> lw_phase w q = Held \<longrightarrow> p = q) \<and>
    (\<forall>p. lw_phase w p = Held \<longrightarrow> readPid (FileData (lw_file w)) = Some p) \<and>
    (\<forall>(p, q) \<in> set (lw_signals w). q \<noteq> p \<and> ours q)"
proof -
  have "lock_inv ours w"
    using assms by (induction rule: rtranclp_induct) (auto intro: lock_inv_start lock_step_inv)
  note inv = this
  have "p = q" if "lw_phase w p = Held" "lw_phase w q = Held" for p q
    using lock_inv_alone[OF inv, of p q] that by (auto simp: holds_def)
  moreover have "\<forall>(p, q) \<in> set (lw_signals w). q \<noteq> p \<and> ours q" using inv by (simp add: lock_inv_def)
  ultimately show ?thesis using lock_inv_pidfile[OF inv] by blast
qed

subsection \<open>Termination of a process, and the reaping of orphans\<close>

lemma wait_gone_seen: "wait_gone pid probe i n \<longleftrightarrow> (\<exists>k < n. \<not> processAlive pid (probe (i + k)))"
proof (induction n arbitrary: i)
  case (Suc n)
  show ?case
  proof (cases "processAlive pid (probe i)")
    case True
    then have "(\<exists>k < Suc n. \<not> processAlive pid (probe (i + k))) \<longleftrightarrow> (\<exists>k < n. \<not> processAlive pid (probe (Suc i + k)))"
      by (metis add_0_right add_Suc_shift less_Suc_eq_0_disj)
    then show ?thesis using Suc True by simp
  qed auto
qed simp

text \<open>Success means that the process was seen to be gone, never that it was only signalled.\<close>

lemma terminateAndWait_gone:
  assumes "0 < pid" "terminateAndWait E pid = (sigs, None)"
  shows "ke_term E = NoSuchProcess \<or> (\<exists>i < ke_ticks E. ke_probe E i = NoSuchProcess) \<or> (\<exists>i < 40. ke_probe9 E i = NoSuchProcess)"
  using assms by (auto simp: terminateAndWait_def wait_gone_seen processAlive_def split: if_splits)

text \<open>SIGKILL is sent only to a process that outlived the whole grace period.\<close>

lemma SIGKILL_last_resort:
  assumes "0 < pid" "SIGKILL pid \<in> set (fst (terminateAndWait E pid))"
  shows "\<forall>i < ke_ticks E. ke_probe E i \<noteq> NoSuchProcess"
  using assms by (auto simp: terminateAndWait_def wait_gone_seen processAlive_def split: if_splits)

text \<open>
  Reaping is best effort. Whatever fails, the attempt to stop an orphaned sidecar, the removal of the redirection and the cleanup of the
  firewall are all made, in this order; the error that is returned is the first that is not merely a missing
  implementation. The process that is terminated is whichever listens on the recorded port: nothing checks that it is the sidecar.
\<close>

lemma ReapOrphans_best_effort:
  assumes "reap_sidecar io lsof alive E h = (h', sigs, err)" "unredirect m = (m1, e1)" "cleanup m1 = (m2, e2)"
  shows "\<exists>result. ReapOrphans io lsof alive E (Some (unredirect, cleanup)) h m = (h', m2, sigs, result) \<and>
    result = (case filter (\<lambda>e. e \<noteq> None) [err, real_error e1, real_error e2] of [] \<Rightarrow> None | e # _ \<Rightarrow> e) \<and>
    (\<forall>pid. findSidecarPid io lsof h = Some pid \<and> processAlive pid alive \<longrightarrow> SIGTERM pid \<in> set sigs \<and> h' SidecarPort = None)"
proof -
  have "SIGTERM pid \<in> set (fst (terminateAndWait E pid))" for pid by (simp add: terminateAndWait_def)
  then have "\<forall>pid. findSidecarPid io lsof h = Some pid \<and> processAlive pid alive \<longrightarrow> SIGTERM pid \<in> set sigs \<and> h' SidecarPort = None"
    using assms(1) by (auto simp: reap_sidecar_def Remove_def split: option.splits prod.splits) (metis fst_conv)
  then show ?thesis
    using assms by (auto simp: ReapOrphans_def first_error_def)
qed

subsection \<open>Examples\<close>

text \<open>Process 7 acquires the singleton, process 8 replaces it.\<close>

definition demo_w1 :: lock_world where
  "demo_w1 = set_phase 7 Held (write_pid 7 (set_phase 7 Truncated ((set_phase 7 Locked (fst (tryFlock 7 (set_phase 7 Opened (lock_start [])))))\<lparr>lw_file := []\<rparr>)))"

definition demo_w2 :: lock_world where
  "demo_w2 = confront (\<lambda>_. True) 8 (set_phase 8 Blocked (set_phase 8 Opened demo_w1))"

definition demo_w3 :: lock_world where
  "demo_w3 = (let w = set_phase 7 Dead (close_file 7 demo_w2) in
     set_phase 8 Held (write_pid 8 (set_phase 8 Truncated ((set_phase 8 Locked (fst (tryFlock 8 w)))\<lparr>lw_file := []\<rparr>))))"

lemma demo_reach1: "(lock_step (\<lambda>_. True))\<^sup>*\<^sup>* (lock_start []) demo_w1"
proof -
  let ?o = "set_phase 7 Opened (lock_start [])"
  let ?l = "set_phase 7 Locked (fst (tryFlock 7 ?o))"
  let ?t = "set_phase 7 Truncated (?l\<lparr>lw_file := []\<rparr>)"
  have s1: "lock_step (\<lambda>_. True) (lock_start []) ?o" by (rule step_open) (simp_all add: lock_start_def in_int64_def)
  have s2: "lock_step (\<lambda>_. True) ?o ?l"
    by (rule step_lock[where w' = "fst (tryFlock 7 ?o)"]) (simp_all add: lock_start_def set_phase_def tryFlock_def)
  have s3: "lock_step (\<lambda>_. True) ?l ?t" by (rule step_truncate) (simp add: set_phase_def)
  have s4: "lock_step (\<lambda>_. True) ?t demo_w1" unfolding demo_w1_def by (rule step_write) (simp add: set_phase_def)
  show ?thesis by (rule rtranclp.rtrancl_into_rtrancl[OF rtranclp.rtrancl_into_rtrancl[OF rtranclp.rtrancl_into_rtrancl[OF r_into_rtranclp[of "lock_step (\<lambda>_. True)", OF s1] s2] s3] s4])
qed

lemma demo_file1: "lw_file demo_w1 = pid_line 7" "lw_holder demo_w1 = Some 7" "lw_phase demo_w1 = (\<lambda>_. Idle)(7 := Held)" "lw_signals demo_w1 = []"
  by (simp_all add: demo_w1_def write_pid_def set_phase_def tryFlock_def lock_start_def)

lemma demo_w2_eq: "demo_w2 = \<lparr>lw_file = pid_line 7, lw_holder = Some 7, lw_phase = (\<lambda>_. Idle)(7 := Held, 8 := Replacing 7), lw_signals = [(8, 7)]\<rparr>"
proof -
  have "readPid (FileData (pid_line 7)) = Some 7" by (rule readPid_pid_line) (simp_all add: in_int64_def)
  then show ?thesis
    by (simp add: demo_w2_def confront_def set_phase_def demo_file1 close_file_def)
qed

lemma demo_reach2: "(lock_step (\<lambda>_. True))\<^sup>*\<^sup>* (lock_start []) demo_w2"
proof -
  let ?o = "set_phase 8 Opened demo_w1"
  have s1: "lock_step (\<lambda>_. True) demo_w1 ?o" by (rule step_open) (simp_all add: demo_file1 in_int64_def)
  have s2: "lock_step (\<lambda>_. True) ?o (set_phase 8 Blocked ?o)"
    by (rule step_block[where w' = ?o]) (simp_all add: set_phase_def tryFlock_def demo_file1)
  have s3: "lock_step (\<lambda>_. True) (set_phase 8 Blocked ?o) demo_w2"
    unfolding demo_w2_def by (rule step_confront) (simp add: set_phase_def)
  show ?thesis by (rule rtranclp.rtrancl_into_rtrancl[OF rtranclp.rtrancl_into_rtrancl[OF rtranclp.rtrancl_into_rtrancl[OF demo_reach1 s1] s2] s3])
qed

lemma demo_reach3: "(lock_step (\<lambda>_. True))\<^sup>*\<^sup>* (lock_start []) demo_w3"
proof -
  let ?d = "set_phase 7 Dead (close_file 7 demo_w2)"
  let ?l = "set_phase 8 Locked (fst (tryFlock 8 ?d))"
  let ?t = "set_phase 8 Truncated (?l\<lparr>lw_file := []\<rparr>)"
  have s1: "lock_step (\<lambda>_. True) demo_w2 ?d" by (rule step_die)
  have s2: "lock_step (\<lambda>_. True) ?d ?l"
    by (rule step_relock[where w' = "fst (tryFlock 8 ?d)" and q = 7]) (simp_all add: demo_w2_eq set_phase_def close_file_def tryFlock_def)
  have s3: "lock_step (\<lambda>_. True) ?l ?t" by (rule step_truncate) (simp add: set_phase_def)
  have s4: "lock_step (\<lambda>_. True) ?t demo_w3" unfolding demo_w3_def Let_def by (rule step_write) (simp add: set_phase_def)
  show ?thesis by (rule rtranclp.rtrancl_into_rtrancl[OF rtranclp.rtrancl_into_rtrancl[OF rtranclp.rtrancl_into_rtrancl[OF rtranclp.rtrancl_into_rtrancl[OF demo_reach2 s1] s2] s3] s4])
qed

theorem singleton_exclusive_witness:
  "lw_phase demo_w3 8 = Held \<and> readPid (FileData (lw_file demo_w3)) = Some 8 \<and> (8, 7) \<in> set (lw_signals demo_w3)"
proof -
  have "lw_phase demo_w3 8 = Held" "(8, 7) \<in> set (lw_signals demo_w3)"
    by (simp_all add: demo_w3_def Let_def set_phase_def write_pid_def tryFlock_def close_file_def demo_w2_eq)
  then show ?thesis using singleton_exclusive[OF demo_reach3] by blast
qed

lemma ReapOrphans_best_effort_example:
  "\<exists>result. ReapOrphans no_io_faults (\<lambda>_. Some ''4711'') KillOk
     \<lparr>ke_term = KillOk, ke_probe = (\<lambda>_. NoSuchProcess), ke_ticks = 60, ke_kill = KillOk, ke_probe9 = (\<lambda>_. KillOk)\<rparr>
     (Some (\<lambda>u. (u, Some SudoFailed), \<lambda>u. (u, None))) [SidecarPort \<mapsto> ''8000''] () =
     (Remove SidecarPort [SidecarPort \<mapsto> ''8000''], (), [SIGTERM 4711], result) \<and> result = Some (ReapFw SudoFailed)"
proof -
  let ?E = "\<lparr>ke_term = KillOk, ke_probe = (\<lambda>_. NoSuchProcess), ke_ticks = 60, ke_kill = KillOk, ke_probe9 = (\<lambda>_. KillOk)\<rparr>"
  let ?h = "[SidecarPort \<mapsto> ''8000'']"
  have pid: "findSidecarPid no_io_faults (\<lambda>_. Some ''4711'') ?h = Some 4711"
  proof -
    have "Atoi_checked (TrimSpace ''8000'') = Some 8000" "first_pid (SplitByte (TrimSpace ''4711'') newline_char) = Some 4711" by code_simp+
    then show ?thesis by (simp add: findSidecarPid_def ReadFile_def no_io_faults_def)
  qed
  have "\<exists>k. k < (60 :: nat)" by (rule exI[of _ 0]) simp
  then have "terminateAndWait ?E 4711 = ([SIGTERM 4711], None)"
    by (auto simp: terminateAndWait_def wait_gone_seen processAlive_def)
  then have reap: "reap_sidecar no_io_faults (\<lambda>_. Some ''4711'') KillOk ?E ?h = (Remove SidecarPort ?h, [SIGTERM 4711], None)"
    by (simp add: reap_sidecar_def pid processAlive_def)
  show ?thesis
    using ReapOrphans_best_effort[OF reap, of "\<lambda>u. (u, Some SudoFailed)" "()" "()" "Some SudoFailed" "\<lambda>u. (u, None)" "()" None]
    by (auto simp: real_error_def)
qed

end
