(* ===== verification/Certs.thy ===== *)
theory Certs
  imports Files
begin

text \<open>
  The keys of the program: the authority of the proxy (\<open>internal/certgen/ca.go\<close>) and the signing key of the server
  (\<open>internal/server/keys/keys.go\<close>).

  Generating keys, the text of PEM blocks and the encodings inside them are parameters (\<open>pki\<close>). Both components load what they find and
  create what is missing, so that a key, once written, is used by every later start (\<open>CA_stable\<close>, \<open>server_key_stable\<close>). The authority
  is two files, of which only the first is looked for: when the second is missing, or the first was written in part, no later start
  succeeds (\<open>half_written_CA_blocks\<close>), and a damaged first file makes \<open>LoadCA\<close> panic.
\<close>

subsection \<open>Surroundings\<close>

record ('c, 'k) pki =
  pk_genKey :: "'k option"
  pk_selfSign :: "'k \<Rightarrow> 'c option"
  pk_certPEM :: "'c \<Rightarrow> string"
  pk_keyPEM :: "'k \<Rightarrow> string option"
  pk_pem :: "string \<Rightarrow> string option"
  pk_parseCert :: "string \<Rightarrow> 'c option"
  pk_parseKey :: "string \<Rightarrow> 'k option"
  pk_isP256 :: "'k \<Rightarrow> bool"

text \<open>What is encoded is decoded again.\<close>

definition pki_ok :: "('c, 'k) pki \<Rightarrow> bool" where
  "pki_ok P \<longleftrightarrow>
     (\<forall>c. \<exists>b. pk_pem P (pk_certPEM P c) = Some b \<and> pk_parseCert P b = Some c) \<and>
     (\<forall>k t. pk_keyPEM P k = Some t \<longrightarrow> (\<exists>b. pk_pem P t = Some b \<and> pk_parseKey P b = Some k)) \<and>
     (\<forall>k. pk_genKey P = Some k \<longrightarrow> pk_isP256 P k)"

subsection \<open>The authority of the proxy\<close>

text \<open>An outcome is a value, an error, or a panic.\<close>

datatype 'a load_outcome = Value_of 'a | Failed_with | Panicked

record ('c, 'k) ca =
  ca_Cert :: 'c
  ca_Key :: 'k

definition GenerateCA :: "io_env \<Rightarrow> ('c, 'k) pki \<Rightarrow> home \<Rightarrow> home \<times> ('c, 'k) ca load_outcome" where
  "GenerateCA io P h =
     (case pk_genKey P of
        None \<Rightarrow> (h, Failed_with)
      | Some key \<Rightarrow>
          (case pk_selfSign P key of
             None \<Rightarrow> (h, Failed_with)
           | Some cert \<Rightarrow>
               (case WriteFile io CaCrt (pk_certPEM P cert) h of
                  (h1, False) \<Rightarrow> (h1, Failed_with)
                | (h1, True) \<Rightarrow>
                    (case pk_keyPEM P key of
                       None \<Rightarrow> (h1, Failed_with)
                     | Some keyPEM \<Rightarrow>
                         (case WriteFile io CaKey keyPEM h1 of
                            (h2, False) \<Rightarrow> (h2, Failed_with)
                          | (h2, True) \<Rightarrow> (h2, Value_of \<lparr>ca_Cert = cert, ca_Key = key\<rparr>))))))"

text \<open>Where there is no PEM block, \<open>block.Bytes\<close> dereferences nil.\<close>

definition LoadCA :: "io_env \<Rightarrow> ('c, 'k) pki \<Rightarrow> home \<Rightarrow> ('c, 'k) ca load_outcome" where
  "LoadCA io P h =
     (case ReadFile io h CaCrt of
        FileData certPEM \<Rightarrow>
          (case pk_pem P certPEM of
             None \<Rightarrow> Panicked
           | Some block \<Rightarrow>
               (case pk_parseCert P block of
                  None \<Rightarrow> Failed_with
                | Some cert \<Rightarrow>
                    (case ReadFile io h CaKey of
                       FileData keyPEM \<Rightarrow>
                         (case pk_pem P keyPEM of
                            None \<Rightarrow> Panicked
                          | Some keyBlock \<Rightarrow>
                              (case pk_parseKey P keyBlock of
                                 None \<Rightarrow> Failed_with
                               | Some key \<Rightarrow> Value_of \<lparr>ca_Cert = cert, ca_Key = key\<rparr>))
                     | _ \<Rightarrow> Failed_with)))
      | _ \<Rightarrow> Failed_with)"

definition LoadOrCreateCA :: "io_env \<Rightarrow> ('c, 'k) pki \<Rightarrow> home \<Rightarrow> home \<times> ('c, 'k) ca load_outcome" where
  "LoadOrCreateCA io P h = (if StatOk io h CaCrt then (h, LoadCA io P h) else GenerateCA io P h)"

subsection \<open>The certificate of a host\<close>

record cert_template =
  tp_CommonName :: string
  tp_DNSNames :: "string list"
  tp_NotBefore :: int
  tp_NotAfter :: int
  tp_ServerAuth :: bool

text \<open>The template of \<open>IssueCert\<close>, times in nanoseconds; \<open>sign\<close> is \<open>x509.CreateCertificate\<close> with the fresh key.\<close>

definition host_template :: "int \<Rightarrow> string \<Rightarrow> cert_template" where
  "host_template now hostname =
     \<lparr>tp_CommonName = hostname, tp_DNSNames = [hostname], tp_NotBefore = now, tp_NotAfter = now + 24 * 3600 * 1000000000,
       tp_ServerAuth = True\<rparr>"

definition IssueCert ::
  "('c, 'k) pki \<Rightarrow> (cert_template \<Rightarrow> ('c, 'k) ca \<Rightarrow> 'k \<Rightarrow> 'c option) \<Rightarrow> int \<Rightarrow> ('c, 'k) ca \<Rightarrow> string \<Rightarrow> ('c \<times> 'k) option" where
  "IssueCert P sign now ca hostname =
     (case pk_genKey P of
        None \<Rightarrow> None
      | Some key \<Rightarrow>
          (case sign (host_template now hostname) ca key of
             None \<Rightarrow> None
           | Some cert \<Rightarrow> (case pk_keyPEM P key of None \<Rightarrow> None | Some _ \<Rightarrow> Some (cert, key))))"

subsection \<open>The key of the server\<close>

definition LoadOrCreate :: "io_env \<Rightarrow> ('c, 'k) pki \<Rightarrow> home \<Rightarrow> home \<times> 'k option" where
  "LoadOrCreate io P h =
     (if io_mkdir io ServerKey then (h, None)
      else case ReadFile io h ServerKey of
             FileData raw \<Rightarrow>
               (case pk_pem P raw of
                  None \<Rightarrow> (h, None)
                | Some block \<Rightarrow>
                    (case pk_parseKey P block of
                       None \<Rightarrow> (h, None)
                     | Some key \<Rightarrow> (h, if pk_isP256 P key then Some key else None)))
           | FileMissing \<Rightarrow>
               (case pk_genKey P of
                  None \<Rightarrow> (h, None)
                | Some priv \<Rightarrow>
                    (case pk_keyPEM P priv of
                       None \<Rightarrow> (h, None)
                     | Some pem \<Rightarrow>
                         (case WriteFile io ServerKey pem h of (h', ok) \<Rightarrow> (h', if ok then Some priv else None))))
           | FileError \<Rightarrow> (h, None))"

subsection \<open>Keys that stay\<close>

lemma WriteFile_ok: "WriteFile io f d h = (h', True) \<Longrightarrow> h' = h(f \<mapsto> d)"
  by (auto simp: WriteFile_def split: write_result.splits)

lemma GenerateCA_value:
  assumes "GenerateCA io P h = (h', Value_of ca)"
  shows "\<exists>kp. pk_keyPEM P (ca_Key ca) = Some kp \<and> h' = h(CaCrt \<mapsto> pk_certPEM P (ca_Cert ca), CaKey \<mapsto> kp)"
  using assms by (auto simp: GenerateCA_def dest!: WriteFile_ok split: option.splits prod.splits bool.splits)

lemma LoadCA_generated:
  assumes "pki_ok P" "GenerateCA io P h = (h', Value_of ca)" "\<not> io_read io' CaCrt" "\<not> io_read io' CaKey"
  shows "LoadCA io' P h' = Value_of ca"
proof -
  obtain kp where kp: "pk_keyPEM P (ca_Key ca) = Some kp" "h' = h(CaCrt \<mapsto> pk_certPEM P (ca_Cert ca), CaKey \<mapsto> kp)"
    using GenerateCA_value[OF assms(2)] by blast
  moreover obtain b b' where "pk_pem P (pk_certPEM P (ca_Cert ca)) = Some b" "pk_parseCert P b = Some (ca_Cert ca)"
    "pk_pem P kp = Some b'" "pk_parseKey P b' = Some (ca_Key ca)"
    using assms(1) kp(1) unfolding pki_ok_def by meson
  ultimately show ?thesis using assms(3,4) by (simp add: LoadCA_def ReadFile_def)
qed

text \<open>Whatever source of keys a later start has, it finds the authority the first one wrote.\<close>

lemma CA_stable:
  assumes "pki_ok P" "h CaCrt = None" "LoadOrCreateCA io P h = (h', Value_of ca)"
    and "\<not> io_stat io' CaCrt" "\<not> io_read io' CaCrt" "\<not> io_read io' CaKey"
  shows "LoadOrCreateCA io' (P\<lparr>pk_genKey := g\<rparr>) h' = (h', Value_of ca)"
proof -
  have gen: "GenerateCA io P h = (h', Value_of ca)" using assms(2,3) by (simp add: LoadOrCreateCA_def StatOk_def)
  then have "h' CaCrt \<noteq> None" using GenerateCA_value by fastforce
  moreover have "LoadCA io' (P\<lparr>pk_genKey := g\<rparr>) h' = LoadCA io' P h'" by (simp add: LoadCA_def split: read_result.split option.split)
  ultimately show ?thesis using LoadCA_generated[OF assms(1) gen assms(5,6)] assms(4) by (simp add: LoadOrCreateCA_def StatOk_def)
qed

lemma server_key_stable:
  assumes "pki_ok P" "h ServerKey = None" "LoadOrCreate io P h = (h', Some key)"
    and "\<not> io_mkdir io' ServerKey" "\<not> io_read io' ServerKey"
  shows "LoadOrCreate io' (P\<lparr>pk_genKey := g\<rparr>) h' = (h', Some key)"
proof -
  obtain pem where pem: "pk_keyPEM P key = Some pem" "h' = h(ServerKey \<mapsto> pem)" "pk_isP256 P key"
    using assms(1-3)
    by (auto simp: LoadOrCreate_def ReadFile_def pki_ok_def dest!: WriteFile_ok split: if_splits option.splits prod.splits)
  then obtain b where "pk_pem P pem = Some b" "pk_parseKey P b = Some key" using assms(1) unfolding pki_ok_def by blast
  then show ?thesis using pem assms(4,5) by (simp add: LoadOrCreate_def ReadFile_def)
qed

text \<open>
  A creation that stops between the two files, or inside the first one, is never repaired: the first file is there, so no
  later start creates anything, and loading fails or panics.
\<close>

lemma half_written_CA:
  assumes "pk_genKey P = Some key" "pk_selfSign P key = Some cert" "io_write io CaCrt = Written" "io_write io CaKey = WriteFailed"
    and "h CaKey = None"
  shows "\<exists>h'. GenerateCA io P h = (h', Failed_with) \<and> h' CaCrt = Some (pk_certPEM P cert) \<and> h' CaKey = None"
  using assms by (auto simp: GenerateCA_def WriteFile_def split: option.split)

lemma half_written_CA_blocks:
  assumes "h CaCrt \<noteq> None" "h CaKey = None" "\<not> io_stat io CaCrt"
  shows "fst (LoadOrCreateCA io P h) = h \<and> (\<forall>ca. snd (LoadOrCreateCA io P h) \<noteq> Value_of ca)"
proof -
  have "LoadCA io P h \<noteq> Value_of ca" for ca
    using assms(2) by (auto simp: LoadCA_def ReadFile_def split: option.splits read_result.splits if_splits)
  then show ?thesis using assms(1,3) by (simp add: LoadOrCreateCA_def StatOk_def)
qed

lemma damaged_CA_panics:
  assumes "h CaCrt = Some t" "pk_pem P t = None" "\<not> io_stat io CaCrt" "\<not> io_read io CaCrt"
  shows "LoadOrCreateCA io P h = (h, Panicked)"
  using assms by (simp add: LoadOrCreateCA_def LoadCA_def StatOk_def ReadFile_def)

text \<open>The certificate of a host names it alone and is good for a day.\<close>

lemma IssueCert_template:
  assumes "IssueCert P sign now ca host = Some (cert, key)"
  shows "sign (host_template now host) ca key = Some cert \<and> pk_genKey P = Some key"
  using assms by (auto simp: IssueCert_def split: option.splits)

end
