(* ===== verification/ServerStore.thy ===== *)
theory ServerStore
  imports Extract
begin

text \<open>
  The database of the control plane: \<open>internal/server/store/store.go\<close> and \<open>schema.sql\<close>.

  A table is the list of its rows in the order of insertion; the statements of the code are the
  obvious operations on it, a primary key refuses a second row. The store opens one connection only, so
  its operations do not overlap. Every statement may fail for reasons of its own (disk, lock): the
  parameter of type \<open>faults\<close> says which one does, and a transaction that does not commit leaves the
  database as it was. Random identifiers and the clock are arguments. A policy is the JSON
  value of its text. The order of rows of equal time under \<open>ORDER BY\<close> is not determined, so sorting is a
  parameter.

  \<open>enrollment_limit\<close> and \<open>policy_version_names_bundle\<close> hold for every history of operations (\<open>db_run\<close>).
\<close>

subsection \<open>Tables\<close>

record org =
  og_ID :: string
  og_Name :: string
  og_CreatedAt :: int

record token_row =
  tk_hash :: string
  tk_org :: string
  tk_expires :: int
  tk_max :: int
  tk_used :: int
  tk_revoked :: int
  tk_created :: int

record device =
  dv_ID :: string
  dv_OrgID :: string
  dv_Name :: string
  dv_Platform :: string
  dv_EnrolledAt :: int
  dv_LastSeenAt :: "int option"
  dv_Revoked :: bool

record policy_row =
  po_org :: string
  po_bundle :: json
  po_version :: int
  po_updated :: int

record monitor_event =
  me_Tool :: string
  me_Verdict :: string
  me_Reason :: string
  me_DirectConnCount :: int
  me_ObservedAt :: int

record stored_event =
  ev_ID :: string
  ev_OrgID :: string
  ev_DeviceID :: string
  ev_Event :: monitor_event
  ev_ReceivedAt :: int

record image =
  im_ID :: string
  im_OrgID :: string
  im_Tag :: string
  im_Ref :: string
  im_Digest :: string
  im_Status :: string
  im_CreatedAt :: int

record server_db =
  db_orgs :: "org list"
  db_tokens :: "token_row list"
  db_devices :: "device list"
  db_policies :: "policy_row list"
  db_events :: "stored_event list"
  db_images :: "image list"

definition empty_db :: server_db where
  "empty_db = \<lparr>db_orgs = [], db_tokens = [], db_devices = [], db_policies = [], db_events = [], db_images = []\<rparr>"

datatype stmt = SBegin | SSelect | SInsert | SUpdate | SCommit

type_synonym faults = "stmt \<Rightarrow> bool"

datatype db_error = DbFailure | ErrNoRows | ErrConstraint | ErrEnrollment

type_synonym 'a db_result = "server_db \<times> (db_error + 'a)"

text \<open>\<open>SELECT ... WHERE key = k\<close> on a table, and \<open>INSERT\<close> under a primary key.\<close>

definition select_row :: "('r \<Rightarrow> string) \<Rightarrow> string \<Rightarrow> 'r list \<Rightarrow> 'r option" where
  "select_row key k rows = find (\<lambda>r. key r = k) rows"

definition has_key :: "('r \<Rightarrow> string) \<Rightarrow> string \<Rightarrow> 'r list \<Rightarrow> bool" where
  "has_key key k rows \<longleftrightarrow> list_ex (\<lambda>r. key r = k) rows"

definition update_rows :: "('r \<Rightarrow> string) \<Rightarrow> string \<Rightarrow> ('r \<Rightarrow> 'r) \<Rightarrow> 'r list \<Rightarrow> 'r list" where
  "update_rows key k f rows = map (\<lambda>r. if key r = k then f r else r) rows"

subsection \<open>Organisations\<close>

definition CreateOrg :: "faults \<Rightarrow> string \<Rightarrow> int \<Rightarrow> string \<Rightarrow> server_db \<Rightarrow> org db_result" where
  "CreateOrg F newID now name db =
     (let og = \<lparr>og_ID = newID, og_Name = name, og_CreatedAt = now\<rparr>
      in if F SInsert then (db, Inl DbFailure)
         else if has_key og_ID newID (db_orgs db) then (db, Inl ErrConstraint)
         else (db\<lparr>db_orgs := db_orgs db @ [og]\<rparr>, Inr og))"

definition ListOrgs ::
  "faults \<Rightarrow> ((org \<Rightarrow> org \<Rightarrow> bool) \<Rightarrow> org list \<Rightarrow> org list) \<Rightarrow> server_db \<Rightarrow> db_error + org list" where
  "ListOrgs F srt db =
     (if F SSelect then Inl DbFailure else Inr (srt (\<lambda>x y. og_CreatedAt x < og_CreatedAt y) (db_orgs db)))"

definition GetOrg :: "faults \<Rightarrow> server_db \<Rightarrow> string \<Rightarrow> db_error + org" where
  "GetOrg F db i =
     (if F SSelect then Inl DbFailure
      else case select_row og_ID i (db_orgs db) of None \<Rightarrow> Inl ErrNoRows | Some og \<Rightarrow> Inr og)"

subsection \<open>Enrollment\<close>

definition CreateEnrollmentToken ::
  "faults \<Rightarrow> string \<Rightarrow> string \<Rightarrow> int \<Rightarrow> int \<Rightarrow> int \<Rightarrow> server_db \<Rightarrow> unit db_result" where
  "CreateEnrollmentToken F tokenHash orgID expiresAt maxUses now db =
     (if F SInsert then (db, Inl DbFailure)
      else if has_key tk_hash tokenHash (db_tokens db) then (db, Inl ErrConstraint)
      else (db\<lparr>db_tokens := db_tokens db @
              [\<lparr>tk_hash = tokenHash, tk_org = orgID, tk_expires = expiresAt, tk_max = maxUses, tk_used = 0,
                tk_revoked = 0, tk_created = now\<rparr>]\<rparr>, Inr ()))"

definition RevokeToken :: "faults \<Rightarrow> string \<Rightarrow> server_db \<Rightarrow> unit db_result" where
  "RevokeToken F tokenHash db =
     (if F SUpdate then (db, Inl DbFailure)
      else (db\<lparr>db_tokens := update_rows tk_hash tokenHash (\<lambda>t. t\<lparr>tk_revoked := 1\<rparr>) (db_tokens db)\<rparr>, Inr ()))"

definition EnrollDevice ::
  "faults \<Rightarrow> string \<Rightarrow> string \<Rightarrow> string \<Rightarrow> string \<Rightarrow> int \<Rightarrow> server_db \<Rightarrow> device db_result" where
  "EnrollDevice F newID tokenHash name platform now db =
     (if F SBegin then (db, Inl DbFailure)
      else if F SSelect then (db, Inl DbFailure)
      else case select_row tk_hash tokenHash (db_tokens db) of
        None \<Rightarrow> (db, Inl ErrEnrollment)
      | Some t \<Rightarrow>
          if tk_revoked t \<noteq> 0 \<or> now > tk_expires t \<or> (tk_max t \<noteq> 0 \<and> tk_used t \<ge> tk_max t)
          then (db, Inl ErrEnrollment)
          else
            (let d = \<lparr>dv_ID = newID, dv_OrgID = tk_org t, dv_Name = name, dv_Platform = platform,
                       dv_EnrolledAt = now, dv_LastSeenAt = None, dv_Revoked = False\<rparr>
             in if F SInsert then (db, Inl DbFailure)
                else if has_key dv_ID newID (db_devices db) then (db, Inl ErrConstraint)
                else if F SUpdate then (db, Inl DbFailure)
                else if F SCommit then (db, Inl DbFailure)
                else (db\<lparr>db_devices := db_devices db @ [d],
                         db_tokens := update_rows tk_hash tokenHash (\<lambda>t. t\<lparr>tk_used := tk_used t + 1\<rparr>) (db_tokens db)\<rparr>,
                      Inr d)))"

subsection \<open>Devices\<close>

definition GetDevice :: "faults \<Rightarrow> server_db \<Rightarrow> string \<Rightarrow> db_error + device" where
  "GetDevice F db i =
     (if F SSelect then Inl DbFailure
      else case select_row dv_ID i (db_devices db) of None \<Rightarrow> Inl ErrNoRows | Some d \<Rightarrow> Inr d)"

definition ListDevices ::
  "faults \<Rightarrow> ((device \<Rightarrow> device \<Rightarrow> bool) \<Rightarrow> device list \<Rightarrow> device list) \<Rightarrow> server_db \<Rightarrow> string \<Rightarrow>
   db_error + device list" where
  "ListDevices F srt db orgID =
     (if F SSelect then Inl DbFailure
      else Inr (srt (\<lambda>x y. dv_EnrolledAt x < dv_EnrolledAt y) (filter (\<lambda>d. dv_OrgID d = orgID) (db_devices db))))"

definition RevokeDevice :: "faults \<Rightarrow> string \<Rightarrow> server_db \<Rightarrow> unit db_result" where
  "RevokeDevice F i db =
     (if F SUpdate then (db, Inl DbFailure)
      else (db\<lparr>db_devices := update_rows dv_ID i (\<lambda>d. d\<lparr>dv_Revoked := True\<rparr>) (db_devices db)\<rparr>, Inr ()))"

definition TouchDevice :: "faults \<Rightarrow> string \<Rightarrow> int \<Rightarrow> server_db \<Rightarrow> unit db_result" where
  "TouchDevice F i t db =
     (if F SUpdate then (db, Inl DbFailure)
      else (db\<lparr>db_devices := update_rows dv_ID i (\<lambda>d. d\<lparr>dv_LastSeenAt := Some t\<rparr>) (db_devices db)\<rparr>, Inr ()))"

subsection \<open>Policies\<close>

definition seedPolicyJSON :: json where
  "seedPolicyJSON =
     JObj [(''image'', JStr ''redactr-base:local''), (''mountMode'', JStr ''bind''), (''denylist'', JArr [])]"

definition GetPolicy :: "faults \<Rightarrow> server_db \<Rightarrow> string \<Rightarrow> db_error + json \<times> int" where
  "GetPolicy F db orgID =
     (if F SSelect then Inl DbFailure
      else case select_row po_org orgID (db_policies db) of
             None \<Rightarrow> Inr (seedPolicyJSON, 0)
           | Some p \<Rightarrow> Inr (po_bundle p, po_version p))"

definition PutPolicy :: "faults \<Rightarrow> int \<Rightarrow> string \<Rightarrow> json \<Rightarrow> server_db \<Rightarrow> int db_result" where
  "PutPolicy F now orgID bundle db =
     (if F SBegin \<or> F SSelect then (db, Inl DbFailure)
      else
        (let old = (case select_row po_org orgID (db_policies db) of None \<Rightarrow> 0 | Some p \<Rightarrow> po_version p);
             version = old + 1;
             row = \<lparr>po_org = orgID, po_bundle = bundle, po_version = version, po_updated = now\<rparr>
         in if F SInsert \<or> F SCommit then (db, Inl DbFailure)
            else (db\<lparr>db_policies :=
                     (if has_key po_org orgID (db_policies db)
                      then update_rows po_org orgID (\<lambda>_. row) (db_policies db)
                      else db_policies db @ [row])\<rparr>, Inr version)))"

subsection \<open>Events\<close>

text \<open>The loop over the batch inside the transaction; \<open>ids\<close> are the identifiers that are drawn.\<close>

fun insert_events ::
  "string \<Rightarrow> string \<Rightarrow> int \<Rightarrow> (string \<times> monitor_event) list \<Rightarrow> stored_event list \<Rightarrow> stored_event list option" where
  "insert_events orgID deviceID receivedAt [] rows = Some rows"
| "insert_events orgID deviceID receivedAt ((i, e) # es) rows =
     (if has_key ev_ID i rows then None
      else insert_events orgID deviceID receivedAt es
             (rows @ [\<lparr>ev_ID = i, ev_OrgID = orgID, ev_DeviceID = deviceID, ev_Event = e, ev_ReceivedAt = receivedAt\<rparr>]))"

definition InsertEvents ::
  "faults \<Rightarrow> (nat \<Rightarrow> string) \<Rightarrow> string \<Rightarrow> string \<Rightarrow> monitor_event list \<Rightarrow> int \<Rightarrow> server_db \<Rightarrow> unit db_result" where
  "InsertEvents F ids orgID deviceID evs receivedAt db =
     (if F SBegin then (db, Inl DbFailure)
      else if F SInsert \<and> evs \<noteq> [] then (db, Inl DbFailure)
      else case insert_events orgID deviceID receivedAt (zip (map ids [0..<length evs]) evs) (db_events db) of
             None \<Rightarrow> (db, Inl ErrConstraint)
           | Some rows \<Rightarrow> if F SCommit then (db, Inl DbFailure) else (db\<lparr>db_events := rows\<rparr>, Inr ()))"

definition ListEvents ::
  "faults \<Rightarrow> ((stored_event \<Rightarrow> stored_event \<Rightarrow> bool) \<Rightarrow> stored_event list \<Rightarrow> stored_event list) \<Rightarrow>
   server_db \<Rightarrow> string \<Rightarrow> int \<Rightarrow> db_error + stored_event list" where
  "ListEvents F srt db orgID limit =
     (let limit = (if limit \<le> 0 then 100 else limit)
      in if F SSelect then Inl DbFailure
         else Inr (take (nat limit) (srt (\<lambda>x y. ev_ReceivedAt x > ev_ReceivedAt y)
                    (filter (\<lambda>e. ev_OrgID e = orgID) (db_events db)))))"

definition CountByVerdict :: "faults \<Rightarrow> server_db \<Rightarrow> string \<Rightarrow> int \<Rightarrow> db_error + (string \<rightharpoonup> nat)" where
  "CountByVerdict F db orgID since =
     (if F SSelect then Inl DbFailure
      else Inr (\<lambda>v. let n = length (filter (\<lambda>e. ev_OrgID e = orgID \<and> ev_ReceivedAt e \<ge> since \<and>
                                              me_Verdict (ev_Event e) = v) (db_events db))
                    in if n = 0 then None else Some n))"

subsection \<open>Images\<close>

definition InsertImage :: "faults \<Rightarrow> string \<Rightarrow> int \<Rightarrow> string \<Rightarrow> string \<Rightarrow> server_db \<Rightarrow> string db_result" where
  "InsertImage F newID now orgID tag db =
     (if F SInsert then (db, Inl DbFailure)
      else if has_key im_ID newID (db_images db) then (db, Inl ErrConstraint)
      else (db\<lparr>db_images := db_images db @
              [\<lparr>im_ID = newID, im_OrgID = orgID, im_Tag = tag, im_Ref = [], im_Digest = [],
                im_Status = ''building'', im_CreatedAt = now\<rparr>]\<rparr>, Inr newID))"

definition SetImageResult :: "faults \<Rightarrow> string \<Rightarrow> string \<Rightarrow> string \<Rightarrow> string \<Rightarrow> server_db \<Rightarrow> unit db_result" where
  "SetImageResult F i ref digest status db =
     (if F SUpdate then (db, Inl DbFailure)
      else (db\<lparr>db_images := update_rows im_ID i
              (\<lambda>m. m\<lparr>im_Ref := ref, im_Digest := digest, im_Status := status\<rparr>) (db_images db)\<rparr>, Inr ()))"

definition ListImages ::
  "faults \<Rightarrow> ((image \<Rightarrow> image \<Rightarrow> bool) \<Rightarrow> image list \<Rightarrow> image list) \<Rightarrow> server_db \<Rightarrow> string \<Rightarrow> db_error + image list" where
  "ListImages F srt db orgID =
     (if F SSelect then Inl DbFailure
      else Inr (srt (\<lambda>x y. im_CreatedAt x > im_CreatedAt y) (filter (\<lambda>m. im_OrgID m = orgID) (db_images db))))"

subsection \<open>Histories\<close>

text \<open>The operations that change the database, as data, and what a history records of them.\<close>

datatype db_op =
    OpCreateOrg string int string
  | OpCreateToken string string int int int
  | OpRevokeToken string
  | OpEnroll string string string string int
  | OpRevokeDevice string
  | OpTouchDevice string int
  | OpPutPolicy int string json
  | OpInsertEvents "nat \<Rightarrow> string" string string "monitor_event list" int
  | OpInsertImage string int string string
  | OpSetImageResult string string string string

datatype outcome = Enrolled string device | PolicySet string int json | Done

fun db_exec :: "faults \<Rightarrow> db_op \<Rightarrow> server_db \<Rightarrow> server_db \<times> outcome" where
  "db_exec F (OpCreateOrg i now name) db = (fst (CreateOrg F i now name db), Done)"
| "db_exec F (OpCreateToken h og ex mx now) db = (fst (CreateEnrollmentToken F h og ex mx now db), Done)"
| "db_exec F (OpRevokeToken h) db = (fst (RevokeToken F h db), Done)"
| "db_exec F (OpEnroll i h name pl now) db =
     (case EnrollDevice F i h name pl now db of (db', Inl _) \<Rightarrow> (db', Done) | (db', Inr d) \<Rightarrow> (db', Enrolled h d))"
| "db_exec F (OpRevokeDevice i) db = (fst (RevokeDevice F i db), Done)"
| "db_exec F (OpTouchDevice i t) db = (fst (TouchDevice F i t db), Done)"
| "db_exec F (OpPutPolicy now og b) db =
     (case PutPolicy F now og b db of (db', Inl _) \<Rightarrow> (db', Done) | (db', Inr v) \<Rightarrow> (db', PolicySet og v b))"
| "db_exec F (OpInsertEvents ids og dv evs t) db = (fst (InsertEvents F ids og dv evs t db), Done)"
| "db_exec F (OpInsertImage i now og tag) db = (fst (InsertImage F i now og tag db), Done)"
| "db_exec F (OpSetImageResult i ref digest status) db = (fst (SetImageResult F i ref digest status db), Done)"

text \<open>\<open>db_run db tr db'\<close>: operations lead from \<open>db\<close> to \<open>db'\<close>; \<open>tr\<close> are their outcomes, the latest first.\<close>

inductive db_run :: "server_db \<Rightarrow> outcome list \<Rightarrow> server_db \<Rightarrow> bool" where
  db_run_start: "db_run db [] db"
| db_run_step: "db_run db tr db1 \<Longrightarrow> db_exec F p db1 = (db2, r) \<Longrightarrow> db_run db (r # tr) db2"

subsection \<open>Invariants of every history\<close>

lemma db_run_trans: "db_run db2 tr2 db3 \<Longrightarrow> db_run db1 tr1 db2 \<Longrightarrow> db_run db1 (tr2 @ tr1) db3"
  by (induction db2 tr2 db3 rule: db_run.induct) (auto intro: db_run_step)

subsubsection \<open>Which tables an operation leaves alone\<close>

lemmas db_op_defs =
  CreateOrg_def CreateEnrollmentToken_def RevokeToken_def EnrollDevice_def RevokeDevice_def TouchDevice_def
  PutPolicy_def InsertEvents_def InsertImage_def SetImageResult_def

lemma update_rows_key:
  "(\<And>r. key (f r) = key r) \<Longrightarrow> map key (update_rows key k f rows) = map key rows"
  by (simp add: update_rows_def)

lemma select_row_iff:
  "distinct (map key rows) \<Longrightarrow> select_row key k rows = Some r \<longleftrightarrow> r \<in> set rows \<and> key r = k"
proof (induction rows)
  case (Cons x xs)
  then show ?case by (auto simp: select_row_def)
qed (simp add: select_row_def)

lemma select_row_mem: "select_row key k rows = Some r \<Longrightarrow> r \<in> set rows \<and> key r = k"
  by (auto simp: select_row_def find_Some_iff)

lemma select_row_None: "select_row key k rows = None \<longleftrightarrow> \<not> has_key key k rows"
  by (auto simp: select_row_def has_key_def find_None_iff list_ex_iff)

lemma select_update:
  assumes "\<And>r. key r = k \<Longrightarrow> key (f r) = k"
  shows "select_row key j (update_rows key k f rows) =
    (if j = k then map_option f (select_row key k rows) else select_row key j rows)"
  using assms by (induction rows) (auto simp: select_row_def update_rows_def)

lemma select_append:
  "select_row key j (rows @ [r]) =
     (case select_row key j rows of Some x \<Rightarrow> Some x | None \<Rightarrow> if key r = j then Some r else None)"
  by (induction rows) (auto simp: select_row_def)

text \<open>The tables are changed by few operations.\<close>

lemma tokens_unchanged:
  "db_exec F p db = (db', r) \<Longrightarrow>
   (case p of OpCreateToken _ _ _ _ _ \<Rightarrow> False | OpRevokeToken _ \<Rightarrow> False | OpEnroll _ _ _ _ _ \<Rightarrow> False | _ \<Rightarrow> True) \<Longrightarrow>
   db_tokens db' = db_tokens db \<and> (\<forall>h d. r \<noteq> Enrolled h d)"
  by (cases p) (auto simp: db_op_defs Let_def split: if_splits option.splits)

lemma policies_unchanged:
  "db_exec F p db = (db', r) \<Longrightarrow> (case p of OpPutPolicy _ _ _ \<Rightarrow> False | _ \<Rightarrow> True) \<Longrightarrow>
   db_policies db' = db_policies db \<and> (\<forall>og v b. r \<noteq> PolicySet og v b)"
  by (cases p) (auto simp: db_op_defs Let_def split: if_splits option.splits)

lemma devices_unchanged:
  "db_exec F p db = (db', r) \<Longrightarrow>
   (case p of OpEnroll _ _ _ _ _ \<Rightarrow> False | OpRevokeDevice _ \<Rightarrow> False | OpTouchDevice _ _ \<Rightarrow> False | _ \<Rightarrow> True) \<Longrightarrow>
   db_devices db' = db_devices db"
  by (cases p) (auto simp: db_op_defs Let_def split: if_splits option.splits)

subsubsection \<open>Enrollment tokens\<close>

definition enrolled_with :: "string \<Rightarrow> outcome list \<Rightarrow> nat" where
  "enrolled_with h tr = length (filter (\<lambda>r. case r of Enrolled k _ \<Rightarrow> k = h | _ \<Rightarrow> False) tr)"

definition token_inv :: "outcome list \<Rightarrow> token_row list \<Rightarrow> bool" where
  "token_inv tr rows \<longleftrightarrow>
     distinct (map tk_hash rows) \<and>
     (\<forall>t \<in> set rows. tk_used t = int (enrolled_with (tk_hash t) tr) \<and> (tk_max t > 0 \<longrightarrow> tk_used t \<le> tk_max t)) \<and>
     (\<forall>h d. Enrolled h d \<in> set tr \<longrightarrow> (\<exists>t \<in> set rows. tk_hash t = h \<and> tk_org t = dv_OrgID d))"

lemma enrolled_with_Cons [simp]:
  "enrolled_with h (r # tr) = (case r of Enrolled k _ \<Rightarrow> if k = h then 1 else 0 | _ \<Rightarrow> 0) + enrolled_with h tr"
  by (cases r) (simp_all add: enrolled_with_def)

lemma enrolled_with_0:
  "(\<And>d. Enrolled h d \<notin> set tr) \<Longrightarrow> enrolled_with h tr = 0"
  by (auto simp: enrolled_with_def filter_empty_conv split: outcome.splits)

lemma token_inv_other:
  "token_inv tr rows \<Longrightarrow> \<forall>h d. r \<noteq> Enrolled h d \<Longrightarrow> token_inv (r # tr) rows"
  by (cases r) (auto simp: token_inv_def)

lemma token_inv_enrolled:
  "token_inv tr rows \<Longrightarrow> Enrolled h d \<in> set tr \<Longrightarrow> \<exists>t \<in> set rows. tk_hash t = h \<and> tk_org t = dv_OrgID d"
  unfolding token_inv_def by blast

lemma token_inv_create:
  assumes "token_inv tr rows" "\<not> has_key tk_hash (tk_hash t) rows" "tk_used t = 0"
  shows "token_inv (Done # tr) (rows @ [t])"
proof -
  have "enrolled_with (tk_hash t) tr = 0"
    using assms(2) token_inv_enrolled[OF assms(1)]
    by (intro enrolled_with_0) (auto simp: has_key_def list_ex_iff)
  moreover have "distinct (map tk_hash (rows @ [t]))"
    using assms(1,2) by (auto simp: token_inv_def has_key_def list_ex_iff)
  moreover have "\<exists>x \<in> set (rows @ [t]). tk_hash x = h \<and> tk_org x = dv_OrgID d" if "Enrolled h d \<in> set tr" for h d
    using token_inv_enrolled[OF assms(1) that] by auto
  ultimately show ?thesis
    using assms(1,3) by (auto simp: token_inv_def)
qed

lemma token_inv_map:
  assumes "token_inv tr rows"
    and g: "\<And>t. tk_hash (g t) = tk_hash t" "\<And>t. tk_org (g t) = tk_org t" "\<And>t. tk_max (g t) = tk_max t"
      "\<And>t. tk_used (g t) = tk_used t"
  shows "token_inv tr (map g rows)"
proof -
  have "distinct (map tk_hash (map g rows))" using assms(1) by (simp add: token_inv_def comp_def g)
  moreover have "\<exists>t \<in> set (map g rows). tk_hash t = h \<and> tk_org t = dv_OrgID d" if "Enrolled h d \<in> set tr" for h d
    using token_inv_enrolled[OF assms(1) that] g by auto
  ultimately show ?thesis using assms(1) by (auto simp: token_inv_def g)
qed

lemma token_inv_revoke:
  assumes "token_inv tr rows"
  shows "token_inv (Done # tr) (update_rows tk_hash h (\<lambda>t. t\<lparr>tk_revoked := 1\<rparr>) rows)"
  unfolding update_rows_def by (rule token_inv_map[OF token_inv_other[OF assms]]) simp_all

lemma token_inv_enroll:
  assumes "token_inv tr rows" "select_row tk_hash h rows = Some t"
    and "\<not> (tk_max t \<noteq> 0 \<and> tk_used t \<ge> tk_max t)" "dv_OrgID d = tk_org t"
  shows "token_inv (Enrolled h d # tr) (update_rows tk_hash h (\<lambda>t. t\<lparr>tk_used := tk_used t + 1\<rparr>) rows)"
    (is "token_inv _ ?rows'")
proof -
  have dist: "distinct (map tk_hash rows)" using assms(1) by (simp add: token_inv_def)
  have t: "t \<in> set rows" "tk_hash t = h" using select_row_mem[OF assms(2)] by auto
  have only: "x = t" if "x \<in> set rows" "tk_hash x = h" for x
    using dist t that by (auto simp: distinct_map inj_on_def)
  have "distinct (map tk_hash ?rows')" using dist by (simp add: update_rows_key)
  moreover have "tk_used x = int (enrolled_with (tk_hash x) (Enrolled h d # tr)) \<and> (tk_max x > 0 \<longrightarrow> tk_used x \<le> tk_max x)"
    if "x \<in> set ?rows'" for x
  proof -
    obtain y where y: "y \<in> set rows" "x = (if tk_hash y = h then y\<lparr>tk_used := tk_used y + 1\<rparr> else y)"
      using \<open>x \<in> set ?rows'\<close> by (auto simp: update_rows_def)
    then have "tk_used y = int (enrolled_with (tk_hash y) tr)" "tk_max y > 0 \<longrightarrow> tk_used y \<le> tk_max y"
      using assms(1) by (auto simp: token_inv_def)
    then show ?thesis using y only[OF y(1)] assms(3) by (cases "tk_hash y = h") auto
  qed
  moreover have "\<exists>x \<in> set ?rows'. tk_hash x = k \<and> tk_org x = dv_OrgID e"
    if "Enrolled k e \<in> set (Enrolled h d # tr)" for k e
  proof -
    have "\<exists>y \<in> set rows. tk_hash y = k \<and> tk_org y = dv_OrgID e"
      using that assms(4) t token_inv_enrolled[OF assms(1)] by auto
    then obtain y where "y \<in> set rows" "tk_hash y = k" "tk_org y = dv_OrgID e" by blast
    then show ?thesis
      by (intro bexI[of _ "if tk_hash y = h then y\<lparr>tk_used := tk_used y + 1\<rparr> else y"]) (auto simp: update_rows_def)
  qed
  ultimately show ?thesis unfolding token_inv_def by blast
qed

lemma db_exec_token_inv:
  assumes "token_inv tr (db_tokens db)" "db_exec F p db = (db', r)"
  shows "token_inv (r # tr) (db_tokens db')"
proof (cases p)
  case (OpCreateToken h og ex mx now)
  then show ?thesis
    using assms token_inv_create[OF assms(1)] token_inv_other[OF assms(1), of Done]
    by (auto simp: CreateEnrollmentToken_def split: if_splits)
next
  case (OpRevokeToken h)
  then show ?thesis
    using assms token_inv_revoke[OF assms(1)] token_inv_other[OF assms(1), of Done]
    by (auto simp: RevokeToken_def split: if_splits)
next
  case (OpEnroll i h name pl now)
  then show ?thesis
    using assms token_inv_enroll[OF assms(1)] token_inv_other[OF assms(1), of Done]
    by (auto simp: EnrollDevice_def Let_def split: if_splits option.splits)
qed (use assms tokens_unchanged[OF assms(2)] token_inv_other[OF assms(1)] in auto)

lemma db_run_token_inv: "db_run db tr db' \<Longrightarrow> db_tokens db = [] \<Longrightarrow> token_inv tr (db_tokens db')"
proof (induction db tr db' rule: db_run.induct)
  case (db_run_step db tr db1 F p db2 r)
  then show ?case using db_exec_token_inv by blast
qed (simp add: token_inv_def)

text \<open>
  C12. An enrollment token never enrolls more devices than it allows. In every history of operations, with
  whatever statements failing, the count of a token is the number of devices enrolled with it, this number
  does not exceed a positive limit, and all these devices belong to the organisation of the token.
\<close>

theorem enrollment_limit:
  assumes "db_run empty_db tr db" "t \<in> set (db_tokens db)"
  shows "tk_used t = int (enrolled_with (tk_hash t) tr) \<and>
    (tk_max t > 0 \<longrightarrow> int (enrolled_with (tk_hash t) tr) \<le> tk_max t) \<and>
    (\<forall>d. Enrolled (tk_hash t) d \<in> set tr \<longrightarrow> dv_OrgID d = tk_org t)"
proof -
  have inv: "token_inv tr (db_tokens db)" using db_run_token_inv[OF assms(1)] by (simp add: empty_db_def)
  have "dv_OrgID d = tk_org t" if mem: "Enrolled (tk_hash t) d \<in> set tr" for d
  proof -
    obtain t' where "t' \<in> set (db_tokens db)" "tk_hash t' = tk_hash t" "tk_org t' = dv_OrgID d"
      using token_inv_enrolled[OF inv mem] by blast
    then show ?thesis using inv assms(2) by (auto simp: token_inv_def distinct_map inj_on_def)
  qed
  then show ?thesis using inv assms(2) by (auto simp: token_inv_def)
qed

subsubsection \<open>Devices\<close>

lemma device_persists:
  assumes "db_exec F p db = (db', r)" "select_row dv_ID i (db_devices db) = Some d"
  shows "\<exists>d'. select_row dv_ID i (db_devices db') = Some d' \<and> dv_OrgID d' = dv_OrgID d \<and>
    (dv_Revoked d \<longrightarrow> dv_Revoked d')"
proof (cases p)
  case (OpEnroll j h name pl now)
  then show ?thesis
    using assms by (auto simp: EnrollDevice_def Let_def select_append split: if_splits option.splits)
next
  case (OpRevokeDevice j)
  then show ?thesis
    using assms by (auto simp: RevokeDevice_def select_update split: if_splits)
next
  case (OpTouchDevice j t)
  then show ?thesis
    using assms by (auto simp: TouchDevice_def select_update split: if_splits)
qed (use assms devices_unchanged[OF assms(1)] in auto)

lemma device_persists_run:
  "db_run db tr db' \<Longrightarrow> select_row dv_ID i (db_devices db) = Some d \<Longrightarrow>
   \<exists>d'. select_row dv_ID i (db_devices db') = Some d' \<and> dv_OrgID d' = dv_OrgID d \<and> (dv_Revoked d \<longrightarrow> dv_Revoked d')"
proof (induction db tr db' rule: db_run.induct)
  case (db_run_step db tr db1 F p db2 r)
  then show ?case using device_persists by metis
qed simp

subsubsection \<open>Policies\<close>

definition policy_inv :: "outcome list \<Rightarrow> policy_row list \<Rightarrow> bool" where
  "policy_inv tr rows \<longleftrightarrow>
     (\<forall>p og. select_row po_org og rows = Some p \<longrightarrow> po_version p \<ge> 1 \<and> PolicySet og (po_version p) (po_bundle p) \<in> set tr) \<and>
     (\<forall>og v b. PolicySet og v b \<in> set tr \<longrightarrow> (\<exists>p. select_row po_org og rows = Some p \<and> v \<le> po_version p) \<and> v \<ge> 1) \<and>
     (\<forall>og v b b'. PolicySet og v b \<in> set tr \<longrightarrow> PolicySet og v b' \<in> set tr \<longrightarrow> b = b')"

lemma policy_inv_other:
  "policy_inv tr rows \<Longrightarrow> \<forall>og v b. r \<noteq> PolicySet og v b \<Longrightarrow> policy_inv (r # tr) rows"
  unfolding policy_inv_def by (metis list.set_intros(2) set_ConsD)

lemma PutPolicy_Inr:
  assumes "PutPolicy F now og b db = (db', Inr v)"
  shows "v = (case select_row po_org og (db_policies db) of None \<Rightarrow> 0 | Some p \<Rightarrow> po_version p) + 1"
    and "select_row po_org og' (db_policies db') =
      (if og' = og then Some \<lparr>po_org = og, po_bundle = b, po_version = v, po_updated = now\<rparr>
       else select_row po_org og' (db_policies db))"
  using assms select_row_None[of po_org og "db_policies db"]
  by (auto simp: PutPolicy_def Let_def select_update select_append split: if_splits option.splits)

lemma policy_inv_put:
  assumes "policy_inv tr (db_policies db)" "PutPolicy F now og b db = (db', Inr v)"
  shows "policy_inv (PolicySet og v b # tr) (db_policies db')"
proof -
  note P = PutPolicy_Inr[OF assms(2)]
  have new: "w < v" if old: "PolicySet og w c \<in> set tr" for w c
  proof -
    obtain p where "select_row po_org og (db_policies db) = Some p" "w \<le> po_version p"
      using assms(1) old unfolding policy_inv_def by blast
    then show ?thesis using P(1) by simp
  qed
  have "v \<ge> 1"
  proof (cases "select_row po_org og (db_policies db)")
    case (Some p)
    then have "po_version p \<ge> 1" using assms(1) unfolding policy_inv_def by blast
    then show ?thesis using P(1) Some by simp
  qed (use P(1) in simp)
  then show ?thesis
    using assms(1) new unfolding policy_inv_def P(2)
    by (auto dest: new)
qed

lemma db_exec_policy_inv:
  assumes "policy_inv tr (db_policies db)" "db_exec F p db = (db', r)"
  shows "policy_inv (r # tr) (db_policies db')"
proof (cases p)
  case (OpPutPolicy now og b)
  obtain db1 res where put: "PutPolicy F now og b db = (db1, res)" by fastforce
  show ?thesis
  proof (cases res)
    case (Inl e)
    then have "db1 = db" using put by (auto simp: PutPolicy_def Let_def split: if_splits)
    then show ?thesis using assms put Inl OpPutPolicy policy_inv_other[OF assms(1), of Done] by auto
  next
    case (Inr v)
    then show ?thesis using assms put OpPutPolicy policy_inv_put[OF assms(1)] by auto
  qed
qed (use assms policies_unchanged[OF assms(2)] policy_inv_other[OF assms(1)] in auto)

lemma db_run_policy_inv: "db_run db tr db' \<Longrightarrow> db_policies db = [] \<Longrightarrow> policy_inv tr (db_policies db')"
proof (induction db tr db' rule: db_run.induct)
  case (db_run_step db tr db1 F p db2 r)
  then show ?case using db_exec_policy_inv by blast
qed (simp add: policy_inv_def select_row_def)

lemma GetPolicy_inv:
  assumes "policy_inv tr (db_policies db)" "GetPolicy F db og = Inr (b, v)"
  shows "v = 0 \<and> b = seedPolicyJSON \<and> (\<forall>w c. PolicySet og w c \<notin> set tr) \<or> v \<ge> 1 \<and> PolicySet og v b \<in> set tr"
proof (cases "select_row po_org og (db_policies db)")
  case None
  then have "PolicySet og w c \<notin> set tr" for w c using assms(1) unfolding policy_inv_def by fastforce
  then show ?thesis using assms(2) None by (simp add: GetPolicy_def split: if_splits)
next
  case (Some p)
  then show ?thesis using assms by (auto simp: GetPolicy_def policy_inv_def split: if_splits)
qed

text \<open>
  The version of a policy identifies it: if an organisation's policy has the same version at two
  times of a history, it is the same policy, so that a client that presents the version it has, as an
  entity tag, is rightly told that nothing has changed.
\<close>

lemma policy_version_names_bundle:
  assumes "db_run empty_db tr1 db1" "db_run db1 tr2 db2"
    and "GetPolicy F1 db1 og = Inr (b1, v)" "GetPolicy F2 db2 og = Inr (b2, v)"
  shows "b1 = b2"
proof -
  have 1: "policy_inv tr1 (db_policies db1)" using db_run_policy_inv[OF assms(1)] by (simp add: empty_db_def)
  have 2: "policy_inv (tr2 @ tr1) (db_policies db2)"
    using db_run_policy_inv[OF db_run_trans[OF assms(2,1)]] by (simp add: empty_db_def)
  have "PolicySet og v b2 \<in> set (tr2 @ tr1)" "PolicySet og v b1 \<in> set (tr2 @ tr1)" if "v \<noteq> 0"
    using GetPolicy_inv[OF 1 assms(3)] GetPolicy_inv[OF 2 assms(4)] that by auto
  moreover have "b = c" if "PolicySet og v b \<in> set (tr2 @ tr1)" "PolicySet og v c \<in> set (tr2 @ tr1)" for b c
    using 2 that unfolding policy_inv_def by blast
  ultimately show ?thesis
    using GetPolicy_inv[OF 1 assms(3)] GetPolicy_inv[OF 2 assms(4)] by (cases "v = 0") auto
qed


subsubsection \<open>Examples\<close>

text \<open>A history without faults; the latest operation comes first.\<close>

fun run_ops :: "db_op list \<Rightarrow> server_db \<times> outcome list" where
  "run_ops [] = (empty_db, [])"
| "run_ops (p # ps) =
     (let (db, tr) = run_ops ps; (db', r) = db_exec (\<lambda>_. False) p db in (db', r # tr))"

lemma run_ops_run: "db_run empty_db (snd (run_ops ps)) (fst (run_ops ps))"
proof (induction ps)
  case (Cons p ps)
  obtain db tr where o: "run_ops ps = (db, tr)" by fastforce
  obtain db' r where e: "db_exec (\<lambda>_. False) p db = (db', r)" by fastforce
  from Cons have "db_run empty_db tr db" by (simp add: o)
  then show ?case using e by (simp add: o db_run_step)
qed (simp add: db_run_start)

definition demo_enrollment :: "db_op list" where
  "demo_enrollment =
     [OpEnroll ''d2'' ''h'' ''laptop'' ''linux'' 6, OpEnroll ''d1'' ''h'' ''laptop'' ''linux'' 5,
      OpCreateToken ''h'' ''acme'' 100 1 0]"

theorem enrollment_limit_witness:
  "enrolled_with ''h'' (snd (run_ops demo_enrollment)) = 1 \<and> length (db_devices (fst (run_ops demo_enrollment))) = 1 \<and>
   (\<exists>t \<in> set (db_tokens (fst (run_ops demo_enrollment))).
      tk_max t = 1 \<and> int (enrolled_with (tk_hash t) (snd (run_ops demo_enrollment))) \<le> 1)"
proof -
  let ?t = "\<lparr>tk_hash = ''h'', tk_org = ''acme'', tk_expires = 100, tk_max = 1, tk_used = 1, tk_revoked = 0, tk_created = 0\<rparr>"
  have tokens: "db_tokens (fst (run_ops demo_enrollment)) = [?t]" by code_simp
  have "enrolled_with ''h'' (snd (run_ops demo_enrollment)) = 1" "length (db_devices (fst (run_ops demo_enrollment))) = 1"
    by code_simp+
  then show ?thesis using enrollment_limit[OF run_ops_run[of demo_enrollment], of ?t] tokens by simp
qed

lemma policy_version_names_bundle_example:
  "GetPolicy (\<lambda>_. False) (fst (run_ops [OpPutPolicy 3 ''acme'' (JStr ''p'')])) ''acme'' = Inr (JStr ''p'', 1) \<and>
   GetPolicy (\<lambda>_. False) (fst (run_ops [OpTouchDevice ''d1'' 5, OpPutPolicy 3 ''acme'' (JStr ''p'')])) ''acme'' = Inr (JStr ''p'', 1)"
proof -
  let ?one = "[OpPutPolicy 3 ''acme'' (JStr ''p'')]"
  let ?two = "OpTouchDevice ''d1'' 5 # ?one"
  have 1: "GetPolicy (\<lambda>_. False) (fst (run_ops ?one)) ''acme'' = Inr (JStr ''p'', 1)" by code_simp
  obtain b where 2: "GetPolicy (\<lambda>_. False) (fst (run_ops ?two)) ''acme'' = Inr (b, 1)"
    by (simp add: GetPolicy_def PutPolicy_def TouchDevice_def empty_db_def has_key_def select_row_def)
  have "db_run (fst (run_ops ?one)) [Done] (fst (run_ops ?two))"
    using db_run_step[OF db_run_start, of "\<lambda>_. False" "OpTouchDevice ''d1'' 5" "fst (run_ops ?one)"]
    by (auto split: prod.splits)
  then have "JStr ''p'' = b" by (rule policy_version_names_bundle[OF run_ops_run _ 1 2])
  then show ?thesis using 1 2 by simp
qed

end
