(* ===== verification/ServerAPI.thy ===== *)
theory ServerAPI
  imports ServerStore Tokens "HOL-Library.Countable"
begin

text \<open>
  The control plane's authentication and HTTP handlers: \<open>internal/server/auth\<close>,
  \<open>internal/server/httpapi/server.go\<close>, with the wire types of \<open>internal/control/control.go\<close> and the detached
  signatures of \<open>internal/signing/signing.go\<close>.

  A request is its route, which the multiplexer has found, with the headers, the query and the JSON value of the
  body. \<open>srv_env\<close> holds what a request meets besides: the time, the random values that are drawn, the
  faults of its first, second, ... call of the store, the text form of times.

  A response is its status code, its body and its entity tag.
\<close>

subsection \<open>Device tokens\<close>

record claims =
  cl_DeviceID :: string
  cl_OrgID :: string
  cl_IssuedAt :: int

datatype auth_error = ErrInvalidToken | ErrBadSignature

definition claims_json :: "claims \<Rightarrow> json" where
  "claims_json c =
     JObj [(''device_id'', JStr (to_valid (cl_DeviceID c))), (''org_id'', JStr (to_valid (cl_OrgID c))),
           (''issued_at'', JNum (fmt_int (cl_IssuedAt c)))]"

definition decode_claims :: "unicode_tables \<Rightarrow> json \<Rightarrow> claims option" where
  "decode_claims T j =
     (case j of
        JObj kvs \<Rightarrow>
          (case (get_string T ''device_id'' kvs [], get_string T ''org_id'' kvs [], get_int T ''issued_at'' kvs 0) of
             (Some d, Some og, Some i) \<Rightarrow> Some \<lparr>cl_DeviceID = d, cl_OrgID = og, cl_IssuedAt = i\<rparr>
           | _ \<Rightarrow> None)
      | JNull \<Rightarrow> Some \<lparr>cl_DeviceID = [], cl_OrgID = [], cl_IssuedAt = 0\<rparr>
      | _ \<Rightarrow> None)"

definition Sign_token :: "crypto \<Rightarrow> claims \<Rightarrow> string option" where
  "Sign_token C c =
     (let sgm = EncodeToString (cr_print C (claims_json c))
      in case cr_sign C (cr_sha256 C sgm) of
           None \<Rightarrow> None
         | Some sig \<Rightarrow> Some (sgm @ ''.'' @ EncodeToString sig))"

definition Verify_token :: "unicode_tables \<Rightarrow> crypto \<Rightarrow> string \<Rightarrow> auth_error + claims" where
  "Verify_token T C token =
     (case split_dot token of
        None \<Rightarrow> Inl ErrInvalidToken
      | Some (p0, p1) \<Rightarrow>
          (case DecodeString p1 of
             None \<Rightarrow> Inl ErrBadSignature
           | Some sig \<Rightarrow>
               if length sig \<noteq> 64 then Inl ErrBadSignature
               else if \<not> cr_verify C (cr_sha256 C p0) sig then Inl ErrBadSignature
               else case DecodeString p0 of
                      None \<Rightarrow> Inl ErrInvalidToken
                    | Some claimsJSON \<Rightarrow>
                        (case Option.bind (cr_parse C claimsJSON) (decode_claims T) of
                           None \<Rightarrow> Inl ErrInvalidToken
                         | Some c \<Rightarrow> Inr c)))"

text \<open>The detached signature of a policy.\<close>

definition Sign_detached :: "crypto \<Rightarrow> string \<Rightarrow> string option" where
  "Sign_detached C payload = map_option EncodeToString (cr_sign C (cr_sha256 C payload))"

definition Verify_detached :: "crypto \<Rightarrow> string \<Rightarrow> string \<Rightarrow> bool" where
  "Verify_detached C payload sigB64 =
     (case DecodeString sigB64 of
        None \<Rightarrow> False
      | Some sig \<Rightarrow> length sig = 64 \<and> cr_verify C (cr_sha256 C payload) sig)"

subsection \<open>Authentication\<close>

definition hex_digit :: "nat \<Rightarrow> char" where
  "hex_digit n = (if n < 10 then char_of (48 + n) else char_of (87 + n))"

definition hex_encode :: "string \<Rightarrow> string" where
  "hex_encode s = concat (map (\<lambda>c. [hex_digit (of_char c div 16), hex_digit (of_char c mod 16)]) s)"

definition HashToken :: "crypto \<Rightarrow> string \<Rightarrow> string" where
  "HashToken C raw = hex_encode (cr_sha256 C raw)"

record srv_env =
  se_now :: int
  se_ids :: "nat \<Rightarrow> string"
  se_rawToken :: string
  se_faults :: "nat \<Rightarrow> faults"
  se_parseTime :: "string \<Rightarrow> int option"
  se_printTime :: "int \<Rightarrow> string"

text \<open>The device of a request: the database after the time was noted, and the identifiers for the context.\<close>

definition RequireDevice ::
  "unicode_tables \<Rightarrow> crypto \<Rightarrow> srv_env \<Rightarrow> server_db \<Rightarrow> string \<Rightarrow> (server_db \<times> string \<times> string) option" where
  "RequireDevice T C env db authz =
     (let raw = TrimPrefix authz ''Bearer ''
      in if raw = [] \<or> raw = authz then None
         else case Verify_token T C raw of
                Inl _ \<Rightarrow> None
              | Inr c \<Rightarrow>
                  (case GetDevice (se_faults env 0) db (cl_DeviceID c) of
                     Inl _ \<Rightarrow> None
                   | Inr d \<Rightarrow>
                       if dv_Revoked d \<or> dv_OrgID d \<noteq> cl_OrgID c then None
                       else Some (fst (TouchDevice (se_faults env 1) (dv_ID d) (se_now env) db), dv_OrgID d, dv_ID d)))"

definition RequireAdmin :: "string \<Rightarrow> string \<Rightarrow> bool" where
  "RequireAdmin adminKey got \<longleftrightarrow> \<not> (adminKey = [] \<or> got \<noteq> adminKey)"

text \<open>Times are nanoseconds, \<open>Unix()\<close> is seconds.\<close>

definition Enroll ::
  "crypto \<Rightarrow> srv_env \<Rightarrow> string \<Rightarrow> string \<Rightarrow> string \<Rightarrow> server_db \<Rightarrow> server_db \<times> (string \<times> string \<times> string) option" where
  "Enroll C env token name platform db =
     (case EnrollDevice (se_faults env 0) (se_ids env 0) (HashToken C token) name platform (se_now env) db of
        (db', Inl _) \<Rightarrow> (db', None)
      | (db', Inr d) \<Rightarrow>
          (case Sign_token C \<lparr>cl_DeviceID = dv_ID d, cl_OrgID = dv_OrgID d, cl_IssuedAt = se_now env div 1000000000\<rparr> of
             None \<Rightarrow> (db', None)
           | Some tok \<Rightarrow> (db', Some (dv_ID d, dv_OrgID d, tok))))"

subsection \<open>Policy bundles\<close>

record policy_bundle =
  pb_Image :: string
  pb_MountMode :: string
  pb_Denylist :: "string list option"
  pb_Version :: int

text \<open>What is decoded, and whether without error: a field of the wrong type stays at its zero value.\<close>

definition decode_bundle :: "unicode_tables \<Rightarrow> json \<Rightarrow> policy_bundle \<times> bool" where
  "decode_bundle T j =
     (let kvs = (case j of JObj kvs \<Rightarrow> kvs | _ \<Rightarrow> []);
          im = get_string T ''image'' kvs [];
          mm = get_string T ''mountMode'' kvs [];
          dl = get_strings T ''denylist'' kvs None;
          vs = get_int T ''version'' kvs 0
      in (\<lparr>pb_Image = or_zero [] im, pb_MountMode = or_zero [] mm, pb_Denylist = or_zero None dl,
            pb_Version = or_zero 0 vs\<rparr>,
          (case j of JObj _ \<Rightarrow> True | JNull \<Rightarrow> True | _ \<Rightarrow> False) \<and>
          im \<noteq> None \<and> mm \<noteq> None \<and> dl \<noteq> None \<and> vs \<noteq> None))"

definition bundle_json :: "policy_bundle \<Rightarrow> json" where
  "bundle_json b =
     JObj [(''image'', JStr (to_valid (pb_Image b))), (''mountMode'', JStr (to_valid (pb_MountMode b))),
           (''denylist'', (case pb_Denylist b of None \<Rightarrow> JNull | Some ds \<Rightarrow> JArr (map (\<lambda>d. JStr (to_valid d)) ds))),
           (''version'', JNum (fmt_int (pb_Version b)))]"

definition canonicalBundle :: "policy_bundle \<Rightarrow> json" where
  "canonicalBundle b =
     (let mode = (if pb_MountMode b = [] then ''bind'' else pb_MountMode b);
          deny = (case pb_Denylist b of None \<Rightarrow> [] | Some ds \<Rightarrow> ds)
      in bundle_json \<lparr>pb_Image = pb_Image b, pb_MountMode = mode, pb_Denylist = Some deny, pb_Version = 0\<rparr>)"

definition bundleWithVersion :: "unicode_tables \<Rightarrow> json \<Rightarrow> int \<Rightarrow> json" where
  "bundleWithVersion T raw version =
     (let b = fst (decode_bundle T raw);
          b = (if pb_Denylist b = None then b\<lparr>pb_Denylist := Some []\<rparr> else b)
      in bundle_json (b\<lparr>pb_Version := version\<rparr>))"

subsection \<open>Requests and responses\<close>

datatype route =
    Healthz | EnrollR | Whoami | PolicyR | ServerKey | EventsR
  | AdminPutPolicy string | AdminGetPolicy string | AdminEvents string | AdminEventStats string
  | AdminCreateOrg | AdminListOrgs | AdminMintToken string | AdminListDevices | AdminRevokeDevice string
  | AdminBuildImage string | AdminListImages string | Dashboard

record api_request =
  ar_route :: route
  ar_authorization :: string
  ar_adminKey :: string
  ar_ifNoneMatch :: string
  ar_query :: "string \<Rightarrow> string"
  ar_body :: "json option"

datatype resp_body = ErrorText string | JsonBody json | NoBody | Page | Orgs "org list" | Devices "device list"
  | Events "stored_event list" | Images "image list" | Counts "string \<rightharpoonup> nat"

record response =
  rs_code :: int
  rs_body :: resp_body
  rs_etag :: "string option"

definition reply :: "int \<Rightarrow> resp_body \<Rightarrow> response" where
  "reply code b = \<lparr>rs_code = code, rs_body = b, rs_etag = None\<rparr>"

abbreviation http_error :: "string \<Rightarrow> int \<Rightarrow> response" where
  "http_error msg code \<equiv> reply code (ErrorText msg)"

record api_server =
  sv_db :: server_db
  sv_adminKey :: string
  sv_builder :: "(string \<Rightarrow> string \<Rightarrow> string \<Rightarrow> string + string \<times> string) option"
  sv_registry :: string

definition New_server :: "server_db \<Rightarrow> string \<Rightarrow> api_server" where
  "New_server db adminKey = \<lparr>sv_db = db, sv_adminKey = adminKey, sv_builder = None, sv_registry = []\<rparr>"

definition SetBuilder ::
  "api_server \<Rightarrow> (string \<Rightarrow> string \<Rightarrow> string \<Rightarrow> string + string \<times> string) option \<Rightarrow> string \<Rightarrow> api_server" where
  "SetBuilder s b registry = s\<lparr>sv_builder := b, sv_registry := registry\<rparr>"

definition body_fields :: "json option \<Rightarrow> (string \<times> json) list option" where
  "body_fields body = (case body of Some (JObj kvs) \<Rightarrow> Some kvs | Some JNull \<Rightarrow> Some [] | _ \<Rightarrow> None)"

subsection \<open>Handlers for devices\<close>

definition handleEnroll ::
  "unicode_tables \<Rightarrow> crypto \<Rightarrow> srv_env \<Rightarrow> server_db \<Rightarrow> api_request \<Rightarrow> server_db \<times> response" where
  "handleEnroll T C env db r =
     (case body_fields (ar_body r) of
        None \<Rightarrow> (db, http_error ''bad request'' 400)
      | Some kvs \<Rightarrow>
          (case (get_string T ''enrollment_token'' kvs [], get_string T ''device_name'' kvs [], get_string T ''platform'' kvs []) of
             (Some tok, Some name, Some platform) \<Rightarrow>
               (case Enroll C env tok name platform db of
                  (db', None) \<Rightarrow> (db', http_error ''enrollment failed'' 401)
                | (db', Some (dev, og, token)) \<Rightarrow>
                    (case cr_pem C of
                       None \<Rightarrow> (db', http_error ''server error'' 500)
                     | Some pem \<Rightarrow>
                         (db', reply 200 (JsonBody (JObj [(''device_id'', JStr dev), (''org_id'', JStr og),
                            (''server_public_key'', JStr pem), (''token'', JStr token)])))))
           | _ \<Rightarrow> (db, http_error ''bad request'' 400)))"

definition handleHealthz :: response where
  "handleHealthz = reply 200 (JsonBody (JObj [(''status'', JStr ''ok'')]))"

definition handleServerKey :: "crypto \<Rightarrow> response" where
  "handleServerKey C =
     (case cr_pem C of
        None \<Rightarrow> http_error ''server error'' 500
      | Some pem \<Rightarrow> reply 200 (JsonBody (JObj [(''public_key'', JStr pem)])))"

definition handleWhoami :: "string \<Rightarrow> string \<Rightarrow> response" where
  "handleWhoami og dev = reply 200 (JsonBody (JObj [(''device_id'', JStr dev), (''org_id'', JStr og)]))"

definition etag_of :: "int \<Rightarrow> string" where
  "etag_of version = CHR 0x22 # ''v'' @ fmt_int version @ [CHR 0x22]"

definition handleGetPolicy ::
  "unicode_tables \<Rightarrow> crypto \<Rightarrow> srv_env \<Rightarrow> server_db \<Rightarrow> string \<Rightarrow> api_request \<Rightarrow> response" where
  "handleGetPolicy T C env db og r =
     (case GetPolicy (se_faults env 2) db og of
        Inl _ \<Rightarrow> http_error ''server error'' 500
      | Inr (raw, version) \<Rightarrow>
          if ar_ifNoneMatch r = etag_of version
          then \<lparr>rs_code = 304, rs_body = NoBody, rs_etag = Some (etag_of version)\<rparr>
          else
            (let bundleJSON = cr_print C (bundleWithVersion T raw version)
             in case Sign_detached C bundleJSON of
                  None \<Rightarrow> http_error ''server error'' 500
                | Some sig \<Rightarrow>
                    \<lparr>rs_code = 200,
                      rs_body = JsonBody (JObj [(''bundle'', JStr (EncodeToString bundleJSON)), (''signature'', JStr sig),
                                                (''version'', JNum (fmt_int version))]),
                      rs_etag = Some (etag_of version)\<rparr>))"

text \<open>The zero time, the first of January of the year one.\<close>

definition zero_time :: int where
  "zero_time = - 62135596800 * 1000000000"

definition decode_event :: "unicode_tables \<Rightarrow> (string \<Rightarrow> int option) \<Rightarrow> json \<Rightarrow> monitor_event option" where
  "decode_event T parseTime j =
     (case j of
        JObj kvs \<Rightarrow>
          (case (get_string T ''tool'' kvs [], get_string T ''verdict'' kvs [], get_string T ''reason'' kvs [],
                 get_int T ''direct_conn_count'' kvs 0, get_raw T ''observed_at'' kvs None) of
             (Some tool, Some verdict, Some reason, Some n, obs) \<Rightarrow>
               (case (case obs of None \<Rightarrow> Some zero_time | Some JNull \<Rightarrow> Some zero_time
                               | Some (JStr t) \<Rightarrow> parseTime t | Some _ \<Rightarrow> None) of
                  None \<Rightarrow> None
                | Some t \<Rightarrow> Some \<lparr>me_Tool = tool, me_Verdict = verdict, me_Reason = reason,
                                  me_DirectConnCount = n, me_ObservedAt = t\<rparr>)
           | _ \<Rightarrow> None)
      | JNull \<Rightarrow> Some \<lparr>me_Tool = [], me_Verdict = [], me_Reason = [], me_DirectConnCount = 0, me_ObservedAt = zero_time\<rparr>
      | _ \<Rightarrow> None)"

definition maxEventBatch :: nat where
  "maxEventBatch = 500"

definition handlePostEvents ::
  "unicode_tables \<Rightarrow> srv_env \<Rightarrow> server_db \<Rightarrow> string \<Rightarrow> string \<Rightarrow> api_request \<Rightarrow> server_db \<times> response" where
  "handlePostEvents T env db og dev r =
     (case body_fields (ar_body r) of
        None \<Rightarrow> (db, http_error ''bad request'' 400)
      | Some kvs \<Rightarrow>
          (case (case get_raw T ''events'' kvs None of
                   None \<Rightarrow> Some [] | Some JNull \<Rightarrow> Some []
                 | Some (JArr xs) \<Rightarrow> all_some (map (decode_event T (se_parseTime env)) xs)
                 | Some _ \<Rightarrow> None) of
             None \<Rightarrow> (db, http_error ''bad request'' 400)
           | Some evs \<Rightarrow>
               if length evs > maxEventBatch then (db, http_error ''batch too large'' 400)
               else if evs = [] then (db, reply 200 (JsonBody (JObj [(''accepted'', JNum ''0'')])))
               else case InsertEvents (se_faults env 2) (se_ids env) og dev evs (se_now env) db of
                      (db', Inl _) \<Rightarrow> (db', http_error ''server error'' 500)
                    | (db', Inr _) \<Rightarrow>
                        (db', reply 200 (JsonBody (JObj [(''accepted'', JNum (fmt_int (go_len evs)))])))))"

subsection \<open>Handlers for administrators\<close>

definition with_org ::
  "faults \<Rightarrow> server_db \<Rightarrow> string \<Rightarrow> (string \<Rightarrow> server_db \<times> response) \<Rightarrow> server_db \<times> response" where
  "with_org F db i k =
     (case GetOrg F db i of Inl _ \<Rightarrow> (db, http_error ''unknown org'' 404) | Inr _ \<Rightarrow> k i)"

definition answer :: "server_db \<Rightarrow> (db_error + 'a) \<Rightarrow> ('a \<Rightarrow> response) \<Rightarrow> server_db \<times> response" where
  "answer db res k = (db, (case res of Inl _ \<Rightarrow> http_error ''server error'' 500 | Inr x \<Rightarrow> k x))"

definition handleCreateOrg :: "unicode_tables \<Rightarrow> srv_env \<Rightarrow> server_db \<Rightarrow> api_request \<Rightarrow> server_db \<times> response" where
  "handleCreateOrg T env db r =
     (case Option.bind (body_fields (ar_body r)) (\<lambda>kvs. get_string T ''name'' kvs []) of
        None \<Rightarrow> (db, http_error ''bad request'' 400)
      | Some name \<Rightarrow>
          if name = [] then (db, http_error ''bad request'' 400)
          else case CreateOrg (se_faults env 0) (se_ids env 0) (se_now env) name db of
                 (db', res) \<Rightarrow>
                   answer db' res (\<lambda>og. reply 200 (JsonBody (JObj [(''id'', JStr (og_ID og)), (''name'', JStr (to_valid (og_Name og)))]))))"

definition handleListOrgs ::
  "((org \<Rightarrow> org \<Rightarrow> bool) \<Rightarrow> org list \<Rightarrow> org list) \<Rightarrow> srv_env \<Rightarrow> server_db \<Rightarrow> server_db \<times> response" where
  "handleListOrgs srt env db = answer db (ListOrgs (se_faults env 0) srt db) (\<lambda>ogs. reply 200 (Orgs ogs))"

text \<open>Durations are counted in nanoseconds with 64 bits.\<close>

definition hours_ns :: "int \<Rightarrow> int" where
  "hours_ns h = wrap64 (h * 3600000000000)"

definition handleMintToken ::
  "unicode_tables \<Rightarrow> crypto \<Rightarrow> srv_env \<Rightarrow> server_db \<Rightarrow> string \<Rightarrow> api_request \<Rightarrow> server_db \<times> response" where
  "handleMintToken T C env db i r =
     with_org (se_faults env 0) db i (\<lambda>og.
       let kvs = (case ar_body r of Some (JObj kvs) \<Rightarrow> kvs | _ \<Rightarrow> []);
           hours = or_zero 0 (get_int T ''expires_in_hours'' kvs 0);
           maxUses = or_zero 0 (get_int T ''max_uses'' kvs 0);
           hours = (if hours \<le> 0 then 24 else hours);
           expires = se_now env + hours_ns hours;
           (db', res) = CreateEnrollmentToken (se_faults env 1) (HashToken C (se_rawToken env)) og expires maxUses (se_now env) db
       in answer db' res (\<lambda>_. reply 200 (JsonBody (JObj [(''expires_at'', JStr (se_printTime env expires)), (''token'', JStr (se_rawToken env))]))))"

definition handleListDevices ::
  "((device \<Rightarrow> device \<Rightarrow> bool) \<Rightarrow> device list \<Rightarrow> device list) \<Rightarrow> srv_env \<Rightarrow> server_db \<Rightarrow> api_request \<Rightarrow>
   server_db \<times> response" where
  "handleListDevices srt env db r =
     answer db (ListDevices (se_faults env 0) srt db (ar_query r ''org'')) (\<lambda>ds. reply 200 (Devices ds))"

definition handleRevokeDevice :: "srv_env \<Rightarrow> server_db \<Rightarrow> string \<Rightarrow> server_db \<times> response" where
  "handleRevokeDevice env db i =
     (case RevokeDevice (se_faults env 0) i db of
        (db', res) \<Rightarrow> answer db' res (\<lambda>_. reply 200 (JsonBody (JObj [(''revoked'', JBool True)]))))"

definition handlePutPolicy ::
  "unicode_tables \<Rightarrow> srv_env \<Rightarrow> server_db \<Rightarrow> string \<Rightarrow> api_request \<Rightarrow> server_db \<times> response" where
  "handlePutPolicy T env db i r =
     with_org (se_faults env 0) db i (\<lambda>og.
       case ar_body r of
         None \<Rightarrow> (db, http_error ''bad request'' 400)
       | Some j \<Rightarrow>
           (case decode_bundle T j of
              (b, ok) \<Rightarrow>
                if \<not> ok \<or> pb_Image b = [] \<or> pb_MountMode b = [] then (db, http_error ''bad request'' 400)
                else case PutPolicy (se_faults env 1) (se_now env) og (canonicalBundle b) db of
                       (db', res) \<Rightarrow> answer db' res (\<lambda>v. reply 200 (JsonBody (JObj [(''version'', JNum (fmt_int v))])))))"

definition handleGetAdminPolicy :: "unicode_tables \<Rightarrow> srv_env \<Rightarrow> server_db \<Rightarrow> string \<Rightarrow> server_db \<times> response" where
  "handleGetAdminPolicy T env db i =
     with_org (se_faults env 0) db i (\<lambda>og.
       answer db (GetPolicy (se_faults env 1) db og) (\<lambda>(raw, v). reply 200 (JsonBody (bundleWithVersion T raw v))))"

definition handleAdminEvents ::
  "((stored_event \<Rightarrow> stored_event \<Rightarrow> bool) \<Rightarrow> stored_event list \<Rightarrow> stored_event list) \<Rightarrow>
   srv_env \<Rightarrow> server_db \<Rightarrow> string \<Rightarrow> api_request \<Rightarrow> server_db \<times> response" where
  "handleAdminEvents srt env db i r =
     with_org (se_faults env 0) db i (\<lambda>og.
       answer db (ListEvents (se_faults env 1) srt db og (Atoi (ar_query r ''limit''))) (\<lambda>es. reply 200 (Events es)))"

definition handleAdminEventStats :: "srv_env \<Rightarrow> server_db \<Rightarrow> string \<Rightarrow> api_request \<Rightarrow> server_db \<times> response" where
  "handleAdminEventStats env db i r =
     with_org (se_faults env 0) db i (\<lambda>og.
       let hours = Atoi (ar_query r ''since_hours'');
           hours = (if hours \<le> 0 then 24 else hours)
       in answer db (CountByVerdict (se_faults env 1) db og (se_now env + hours_ns (- hours))) (\<lambda>c. reply 200 (Counts c)))"

definition handleListImages ::
  "((image \<Rightarrow> image \<Rightarrow> bool) \<Rightarrow> image list \<Rightarrow> image list) \<Rightarrow> srv_env \<Rightarrow> server_db \<Rightarrow> string \<Rightarrow> server_db \<times> response" where
  "handleListImages srt env db i =
     with_org (se_faults env 0) db i (\<lambda>og.
       answer db (ListImages (se_faults env 1) srt db og) (\<lambda>ms. reply 200 (Images ms)))"

definition bad_tag :: "string \<Rightarrow> bool" where
  "bad_tag tag \<longleftrightarrow> list_ex (\<lambda>c. c \<in> {CHR '' '', CHR ''/'', CHR 0x09, CHR 0x0A, CHR '':'', CHR 0x40}) tag"

definition pin_image ::
  "unicode_tables \<Rightarrow> srv_env \<Rightarrow> server_db \<Rightarrow> string \<Rightarrow> string \<Rightarrow> server_db \<times> response" where
  "pin_image T env db og pinned =
     (case GetPolicy (se_faults env 3) db og of
        Inl _ \<Rightarrow> (db, http_error ''image built but policy read failed'' 500)
      | Inr (raw, _) \<Rightarrow>
          (let b = fst (decode_bundle T raw)
           in case PutPolicy (se_faults env 4) (se_now env) og (canonicalBundle (b\<lparr>pb_Image := pinned\<rparr>)) db of
                (db', Inl _) \<Rightarrow> (db', http_error ''image built but policy pin failed'' 500)
              | (db', Inr v) \<Rightarrow>
                  (db', reply 200 (JsonBody (JObj [(''image'', JStr (to_valid pinned)), (''policy_version'', JNum (fmt_int v))])))))"

definition handleBuildImage ::
  "unicode_tables \<Rightarrow> srv_env \<Rightarrow> api_server \<Rightarrow> string \<Rightarrow> api_request \<Rightarrow> server_db \<times> response" where
  "handleBuildImage T env s i r =
     with_org (se_faults env 0) (sv_db s) i (\<lambda>og.
       case sv_builder s of
         None \<Rightarrow> (sv_db s, http_error ''image build not configured (server needs docker+cosign)'' 503)
       | Some build \<Rightarrow>
           (case Option.bind (body_fields (ar_body r))
                   (\<lambda>kvs. case (get_string T ''dockerfile'' kvs [], get_string T ''tag'' kvs []) of
                            (Some df, Some tag) \<Rightarrow> Some (df, tag) | _ \<Rightarrow> None) of
              None \<Rightarrow> (sv_db s, http_error ''bad request'' 400)
            | Some (df, tag) \<Rightarrow>
                if df = [] \<or> tag = [] then (sv_db s, http_error ''bad request'' 400)
                else if bad_tag tag then (sv_db s, http_error ''invalid tag'' 400)
                else case InsertImage (se_faults env 1) (se_ids env 0) (se_now env) og tag (sv_db s) of
                       (db1, Inl _) \<Rightarrow> (db1, http_error ''server error'' 500)
                     | (db1, Inr imgID) \<Rightarrow>
                         (case build df ''redactr-base'' (sv_registry s @ ''/'' @ og @ ''/'' @ tag) of
                            Inl err \<Rightarrow> (fst (SetImageResult (se_faults env 2) imgID [] [] ''failed'' db1),
                                        http_error (''build failed: '' @ err) 400)
                          | Inr (ref, digest) \<Rightarrow>
                              pin_image T env (fst (SetImageResult (se_faults env 2) imgID ref digest ''ready'' db1))
                                og (ref @ CHR 0x40 # digest))))"

subsection \<open>The server\<close>

record sorters =
  so_orgs :: "(org \<Rightarrow> org \<Rightarrow> bool) \<Rightarrow> org list \<Rightarrow> org list"
  so_devices :: "(device \<Rightarrow> device \<Rightarrow> bool) \<Rightarrow> device list \<Rightarrow> device list"
  so_events :: "(stored_event \<Rightarrow> stored_event \<Rightarrow> bool) \<Rightarrow> stored_event list \<Rightarrow> stored_event list"
  so_images :: "(image \<Rightarrow> image \<Rightarrow> bool) \<Rightarrow> image list \<Rightarrow> image list"

definition serve_admin ::
  "unicode_tables \<Rightarrow> crypto \<Rightarrow> sorters \<Rightarrow> srv_env \<Rightarrow> api_server \<Rightarrow> api_request \<Rightarrow> server_db \<times> response" where
  "serve_admin T C S env s r =
     (case ar_route r of
        AdminPutPolicy i \<Rightarrow> handlePutPolicy T env (sv_db s) i r
      | AdminGetPolicy i \<Rightarrow> handleGetAdminPolicy T env (sv_db s) i
      | AdminEvents i \<Rightarrow> handleAdminEvents (so_events S) env (sv_db s) i r
      | AdminEventStats i \<Rightarrow> handleAdminEventStats env (sv_db s) i r
      | AdminCreateOrg \<Rightarrow> handleCreateOrg T env (sv_db s) r
      | AdminListOrgs \<Rightarrow> handleListOrgs (so_orgs S) env (sv_db s)
      | AdminMintToken i \<Rightarrow> handleMintToken T C env (sv_db s) i r
      | AdminListDevices \<Rightarrow> handleListDevices (so_devices S) env (sv_db s) r
      | AdminRevokeDevice i \<Rightarrow> handleRevokeDevice env (sv_db s) i
      | AdminBuildImage i \<Rightarrow> handleBuildImage T env s i r
      | AdminListImages i \<Rightarrow> handleListImages (so_images S) env (sv_db s) i
      | _ \<Rightarrow> (sv_db s, reply 404 NoBody))"

definition serve_device ::
  "unicode_tables \<Rightarrow> crypto \<Rightarrow> srv_env \<Rightarrow> server_db \<Rightarrow> string \<Rightarrow> string \<Rightarrow> api_request \<Rightarrow> server_db \<times> response" where
  "serve_device T C env db og dev r =
     (case ar_route r of
        Whoami \<Rightarrow> (db, handleWhoami og dev)
      | PolicyR \<Rightarrow> (db, handleGetPolicy T C env db og r)
      | EventsR \<Rightarrow> handlePostEvents T env db og dev r
      | _ \<Rightarrow> (db, reply 404 NoBody))"

definition device_route :: "route \<Rightarrow> bool" where
  "device_route rt \<longleftrightarrow> rt = Whoami \<or> rt = PolicyR \<or> rt = EventsR"

definition ServeHTTP ::
  "unicode_tables \<Rightarrow> crypto \<Rightarrow> sorters \<Rightarrow> srv_env \<Rightarrow> api_server \<Rightarrow> api_request \<Rightarrow> server_db \<times> response" where
  "ServeHTTP T C S env s r =
     (case ar_route r of
        Healthz \<Rightarrow> (sv_db s, handleHealthz)
      | EnrollR \<Rightarrow> handleEnroll T C env (sv_db s) r
      | ServerKey \<Rightarrow> (sv_db s, handleServerKey C)
      | Dashboard \<Rightarrow> (sv_db s, reply 200 Page)
      | rt \<Rightarrow>
          if device_route rt then
            (case RequireDevice T C env (sv_db s) (ar_authorization r) of
               None \<Rightarrow> (sv_db s, http_error ''unauthorized'' 401)
             | Some (db', og, dev) \<Rightarrow> serve_device T C env db' og dev r)
          else if RequireAdmin (sv_adminKey s) (ar_adminKey r) then serve_admin T C S env s r
          else (sv_db s, http_error ''unauthorized'' 401))"

subsection \<open>Tokens that verify\<close>

lemma claim_names:
  "\<not> EqualFold T ''device_id'' ''org_id''" "\<not> EqualFold T ''device_id'' ''issued_at''"
  "\<not> EqualFold T ''org_id'' ''device_id''" "\<not> EqualFold T ''org_id'' ''issued_at''"
  "\<not> EqualFold T ''issued_at'' ''device_id''" "\<not> EqualFold T ''issued_at'' ''org_id''"
  by code_simp+

lemma decode_claims_json:
  "in_int64 (cl_IssuedAt c) \<Longrightarrow> decode_claims T (claims_json c) =
     Some (c\<lparr>cl_DeviceID := to_valid (cl_DeviceID c), cl_OrgID := to_valid (cl_OrgID c)\<rparr>)"
  by (simp add: decode_claims_def claims_json_def claim_names parse_fmt_int)

lemma Verify_Sign:
  assumes "crypto_ok C" "Sign_token C c = Some tok" "in_int64 (cl_IssuedAt c)"
  shows "Verify_token T C tok = Inr (c\<lparr>cl_DeviceID := to_valid (cl_DeviceID c), cl_OrgID := to_valid (cl_OrgID c)\<rparr>)"
proof -
  let ?seg = "EncodeToString (cr_print C (claims_json c))"
  obtain sig where sig: "cr_sign C (cr_sha256 C ?seg) = Some sig" "tok = ?seg @ CHR ''.'' # EncodeToString sig"
    using assms(2) by (auto simp: Sign_token_def Let_def split: option.splits)
  then have "length sig = 64" "cr_verify C (cr_sha256 C ?seg) sig" using assms(1) by (auto simp: crypto_ok_def)
  moreover have "cr_parse C (cr_print C (claims_json c)) = Some (claims_json c)" using assms(1) by (simp add: crypto_ok_def)
  ultimately show ?thesis
    using sig by (simp add: Verify_token_def split_dot_append Encode_no_dot Decode_Encode decode_claims_json[OF assms(3)])
qed

subsection \<open>Requests as histories of the store\<close>

lemma db_run_exec: "\<exists>tr. db_run db tr (fst (db_exec F p db))"
  using db_run_step[OF db_run_start] by (metis prod.collapse)

lemma exec_fst:
  "fst (case EnrollDevice F i h name pl now db of (db', Inl _) \<Rightarrow> (db', Done) | (db', Inr d) \<Rightarrow> (db', Enrolled h d)) =
   fst (EnrollDevice F i h name pl now db)"
  "fst (case PutPolicy F now og b db of (db', Inl _) \<Rightarrow> (db', Done) | (db', Inr v) \<Rightarrow> (db', PolicySet og v b)) =
   fst (PutPolicy F now og b db)"
  by (simp_all split: prod.splits sum.splits)

lemma run_refl: "\<exists>tr. db_run db tr db"
  using db_run_start by blast

lemma run_trans: "\<exists>tr. db_run db1 tr db2 \<Longrightarrow> \<exists>tr. db_run db2 tr db3 \<Longrightarrow> \<exists>tr. db_run db1 tr db3"
  using db_run_trans by blast

lemma op_runs:
  "\<exists>tr. db_run db tr (fst (CreateOrg F i now name db))"
  "\<exists>tr. db_run db tr (fst (CreateEnrollmentToken F h og ex mx now db))"
  "\<exists>tr. db_run db tr (fst (EnrollDevice F i h name pl now db))"
  "\<exists>tr. db_run db tr (fst (RevokeDevice F i db))"
  "\<exists>tr. db_run db tr (fst (TouchDevice F i t db))"
  "\<exists>tr. db_run db tr (fst (PutPolicy F now og b db))"
  "\<exists>tr. db_run db tr (fst (InsertEvents F ids og dv evs t db))"
  "\<exists>tr. db_run db tr (fst (InsertImage F i now og tag db))"
  "\<exists>tr. db_run db tr (fst (SetImageResult F i ref digest status db))"
  using db_run_exec[of db F "OpCreateOrg i now name"] db_run_exec[of db F "OpCreateToken h og ex mx now"]
    db_run_exec[of db F "OpEnroll i h name pl now"] db_run_exec[of db F "OpRevokeDevice i"]
    db_run_exec[of db F "OpTouchDevice i t"] db_run_exec[of db F "OpPutPolicy now og b"]
    db_run_exec[of db F "OpInsertEvents ids og dv evs t"] db_run_exec[of db F "OpInsertImage i now og tag"]
    db_run_exec[of db F "OpSetImageResult i ref digest status"]
  by (simp_all add: exec_fst)

lemma op_run_eqs:
  "CreateOrg F i now name db = (db', x1) \<Longrightarrow> \<exists>tr. db_run db tr db'"
  "CreateEnrollmentToken F h og ex mx now db = (db', x2) \<Longrightarrow> \<exists>tr. db_run db tr db'"
  "EnrollDevice F i h name pl now db = (db', x3) \<Longrightarrow> \<exists>tr. db_run db tr db'"
  "RevokeDevice F i db = (db', x4) \<Longrightarrow> \<exists>tr. db_run db tr db'"
  "PutPolicy F now og b db = (db', x6) \<Longrightarrow> \<exists>tr. db_run db tr db'"
  "InsertEvents F ids og dv evs t db = (db', x7) \<Longrightarrow> \<exists>tr. db_run db tr db'"
  "InsertImage F i now og tag db = (db', x8) \<Longrightarrow> \<exists>tr. db_run db tr db'"
  using op_runs by (metis fst_conv)+

lemma with_org_run:
  "(\<And>og. \<exists>tr. db_run db tr (fst (k og))) \<Longrightarrow> \<exists>tr. db_run db tr (fst (with_org F db i k))"
  by (simp add: with_org_def run_refl split: sum.splits)

lemma answer_fst [simp]: "fst (answer db res k) = db"
  by (simp add: answer_def)

lemma handleEnroll_run: "\<exists>tr. db_run db tr (fst (handleEnroll T C env db r))"
  by (auto simp: handleEnroll_def Enroll_def run_refl
      split: option.splits prod.splits sum.splits dest: op_run_eqs)

lemma handlePostEvents_run: "\<exists>tr. db_run db tr (fst (handlePostEvents T env db og dev r))"
  unfolding handlePostEvents_def
  by (auto simp: run_refl split: option.splits prod.splits sum.splits json.splits dest: op_run_eqs)

lemma handleCreateOrg_run: "\<exists>tr. db_run db tr (fst (handleCreateOrg T env db r))"
  by (auto simp: handleCreateOrg_def run_refl split: option.splits prod.splits dest: op_run_eqs)

lemma handleMintToken_run: "\<exists>tr. db_run db tr (fst (handleMintToken T C env db i r))"
  unfolding handleMintToken_def
  by (rule with_org_run) (auto simp: Let_def split: prod.splits dest: op_run_eqs)

lemma handlePutPolicy_run: "\<exists>tr. db_run db tr (fst (handlePutPolicy T env db i r))"
  unfolding handlePutPolicy_def
  by (rule with_org_run) (auto simp: run_refl split: option.splits prod.splits dest: op_run_eqs)

lemma pin_image_run: "\<exists>tr. db_run db tr (fst (pin_image T env db og pinned))"
  by (auto simp: pin_image_def run_refl Let_def split: sum.splits prod.splits dest: op_run_eqs)

lemma handleBuildImage_run: "\<exists>tr. db_run (sv_db s) tr (fst (handleBuildImage T env s i r))"
proof -
  have fail: "\<exists>tr. db_run db tr (fst (SetImageResult F2 imgID ref digest st db1))"
    if "InsertImage F1 i1 now og tag db = (db1, x)" for db db1 F1 F2 i1 now og tag x imgID ref digest st
    using run_trans op_run_eqs(7)[OF that] op_runs(9) by blast
  have pin: "\<exists>tr. db_run db tr (fst (pin_image T env (fst (SetImageResult F2 imgID ref digest st db1)) og' pinned))"
    if "InsertImage F1 i1 now og tag db = (db1, x)" for db db1 F1 F2 i1 now og tag x imgID ref digest st og' pinned
    using run_trans fail[OF that] pin_image_run by blast
  show ?thesis
    unfolding handleBuildImage_def
    by (rule with_org_run)
       (auto simp: run_refl split: option.splits prod.splits sum.splits dest: op_run_eqs intro: fail pin)
qed

lemmas handler_runs =
  handleEnroll_run handlePostEvents_run handleCreateOrg_run handleMintToken_run handlePutPolicy_run handleBuildImage_run

lemma reads_only:
  "fst (handleListOrgs so env db) = db" "fst (handleListDevices sd env db r) = db"
  "fst (handleGetAdminPolicy T env db i) = db" "fst (handleAdminEvents se env db i r) = db"
  "fst (handleAdminEventStats env db i r) = db" "fst (handleListImages si env db i) = db"
  by (simp_all add: handleListOrgs_def handleListDevices_def handleGetAdminPolicy_def handleAdminEvents_def
      handleAdminEventStats_def handleListImages_def with_org_def Let_def split: sum.splits)

lemma handleRevokeDevice_fst: "fst (handleRevokeDevice env db i) = fst (RevokeDevice (se_faults env 0) i db)"
  by (simp add: handleRevokeDevice_def split: prod.splits)

lemma serve_admin_run: "\<exists>tr. db_run (sv_db s) tr (fst (serve_admin T C S env s r))"
  by (simp add: serve_admin_def handler_runs reads_only run_refl handleRevokeDevice_fst op_runs split: route.splits)

lemma RequireDevice_iff:
  "RequireDevice T C env db authz = Some (db', og, dev) \<longleftrightarrow>
   (\<exists>raw c d. authz = ''Bearer '' @ raw \<and> raw \<noteq> [] \<and> Verify_token T C raw = Inr c \<and>
      GetDevice (se_faults env 0) db (cl_DeviceID c) = Inr d \<and> \<not> dv_Revoked d \<and> dv_OrgID d = cl_OrgID c \<and>
      db' = fst (TouchDevice (se_faults env 1) (dv_ID d) (se_now env) db) \<and> og = dv_OrgID d \<and> dev = dv_ID d)"
  (is "?l \<longleftrightarrow> ?r")
proof
  assume l: ?l
  let ?raw = "TrimPrefix authz ''Bearer ''"
  have "?raw \<noteq> []" "?raw \<noteq> authz" using l by (auto simp: RequireDevice_def Let_def split: if_splits)
  then have "authz = ''Bearer '' @ ?raw"
    by (auto simp: TrimPrefix_def HasPrefix_iff split: if_splits)
  then show ?r
    using l \<open>?raw \<noteq> []\<close> by (intro exI[of _ ?raw]) (auto simp: RequireDevice_def Let_def split: if_splits sum.splits)
next
  assume ?r
  then show ?l by (auto simp: RequireDevice_def Let_def TrimPrefix_def HasPrefix_def)
qed

lemma GetDevice_row: "GetDevice F db i = Inr d \<Longrightarrow> select_row dv_ID (dv_ID d) (db_devices db) = Some d"
  using select_row_mem[of dv_ID i "db_devices db" d] by (auto simp: GetDevice_def split: if_splits option.splits)

lemma RequireDevice_run:
  "RequireDevice T C env db authz = Some (db', og, dev) \<Longrightarrow> \<exists>tr. db_run db tr db'"
  unfolding RequireDevice_iff using op_runs(5) by blast

text \<open>
  Whatever a request does to the database is a sequence of operations of the store, so that the
  invariants of histories hold however requests interleave.
\<close>

lemma ServeHTTP_run: "\<exists>tr. db_run (sv_db s) tr (fst (ServeHTTP T C S env s r))"
proof -
  have dev: "\<exists>tr. db_run (sv_db s) tr (fst (serve_device T C env db' og dev r))"
    if "RequireDevice T C env (sv_db s) (ar_authorization r) = Some (db', og, dev)" for db' og dev
    using RequireDevice_run[OF that] run_trans handlePostEvents_run
    by (auto simp: serve_device_def split: route.splits)
  have guarded: "\<exists>tr. db_run (sv_db s) tr (fst (case RequireDevice T C env (sv_db s) (ar_authorization r) of
        None \<Rightarrow> (sv_db s, x) | Some (db', og, dev) \<Rightarrow> serve_device T C env db' og dev r))" for x
    using dev by (auto simp: run_refl split: option.splits)
  show ?thesis
    by (cases "ar_route r") (simp_all add: ServeHTTP_def handler_runs run_refl serve_admin_run guarded)
qed

text \<open>
  C13. A revoked device stays out. Once a device has been revoked, then whatever operations of the
  store follow, by whatever requests, every request with a token of that device is refused with status 401
  and changes nothing.
\<close>

theorem revoked_device_locked_out:
  assumes "select_row dv_ID i (db_devices db) = Some d"
    and "RevokeDevice F i db = (db1, Inr ())" "db_run db1 tr (sv_db s)"
    and "device_route (ar_route r)" "ar_authorization r = ''Bearer '' @ tok"
    and "Verify_token T C tok = Inr c" "cl_DeviceID c = i"
  shows "ServeHTTP T C S env s r = (sv_db s, http_error ''unauthorized'' 401)"
proof -
  have "select_row dv_ID i (db_devices db1) = Some (d\<lparr>dv_Revoked := True\<rparr>)"
    using assms(1,2) by (auto simp: RevokeDevice_def select_update split: if_splits)
  then obtain d' where d': "select_row dv_ID i (db_devices (sv_db s)) = Some d'" "dv_Revoked d'"
    using device_persists_run[OF assms(3)] by force
  have "RequireDevice T C env (sv_db s) (ar_authorization r) = None"
  proof (rule ccontr)
    assume "RequireDevice T C env (sv_db s) (ar_authorization r) \<noteq> None"
    then obtain db' og dev where "RequireDevice T C env (sv_db s) (ar_authorization r) = Some (db', og, dev)"
      by (metis not_None_eq prod_cases3)
    then show False
      using assms(5-7) d' by (auto simp: RequireDevice_iff GetDevice_def split: if_splits)
  qed
  then show ?thesis using assms(4) by (auto simp: ServeHTTP_def device_route_def)
qed

lemma enrolled_accepted:
  assumes "crypto_ok C" "in_int64 (se_now env div 1000000000)"
    and "Enroll C env raw name platform db = (db1, Some (dev, og, tok))"
    and "to_valid dev = dev" "to_valid og = og"
    and "db_run db1 tr db2" "GetDevice (se_faults env2 0) db2 dev = Inr d" "\<not> dv_Revoked d"
  shows "\<exists>db3. RequireDevice T C env2 db2 (''Bearer '' @ tok) = Some (db3, og, dev)"
proof -
  obtain d0 where en: "EnrollDevice (se_faults env 0) (se_ids env 0) (HashToken C raw) name platform (se_now env) db = (db1, Inr d0)"
    and sign: "Sign_token C \<lparr>cl_DeviceID = dev, cl_OrgID = og, cl_IssuedAt = se_now env div 1000000000\<rparr> = Some tok"
    and d0: "dev = dv_ID d0" "og = dv_OrgID d0"
    using assms(3) by (auto simp: Enroll_def split: prod.splits sum.splits option.splits)
  have ver: "Verify_token T C tok = Inr \<lparr>cl_DeviceID = dev, cl_OrgID = og, cl_IssuedAt = se_now env div 1000000000\<rparr>"
    using Verify_Sign[OF assms(1) sign] assms(2,4,5) by simp
  have "select_row dv_ID dev (db_devices db1) = Some d0"
    using en d0(1) select_row_None[of dv_ID dev "db_devices db"]
    by (auto simp: EnrollDevice_def Let_def select_append split: if_splits option.splits)
  moreover have d: "select_row dv_ID dev (db_devices db2) = Some d"
    using assms(7) by (auto simp: GetDevice_def split: if_splits option.splits)
  ultimately have "dv_OrgID d = og" using device_persists_run[OF assms(6)] d0(2) by fastforce
  moreover have "dv_ID d = dev" using select_row_mem[OF d] by simp
  moreover have "tok \<noteq> []" using sign by (auto simp: Sign_token_def Let_def split: option.splits)
  ultimately show ?thesis using ver assms(7,8) by (auto simp: RequireDevice_iff)
qed

text \<open>
  C15. A device that has enrolled is let in. The token in the answer to a successful enrollment
  authenticates the device for its organisation, whatever operations of the store come in between, unless the
  device was revoked meanwhile or the database fails.
\<close>

theorem enrolled_token_authenticates:
  assumes "crypto_ok C" "in_int64 (se_now env div 1000000000)"
    and "Enroll C env raw name platform db = (db1, Some (dev, og, tok))"
    and "to_valid dev = dev" "to_valid og = og"
    and "db_run db1 tr db2" "GetDevice (se_faults env2 0) db2 dev = Inr d" "\<not> dv_Revoked d"
  shows "\<exists>db3. RequireDevice T C env2 db2 (''Bearer '' @ tok) = Some (db3, og, dev)"
  by (rule enrolled_accepted[OF assms])

lemma insert_events_rows:
  "insert_events og dev t es rows = Some rows' \<Longrightarrow>
   \<exists>new. rows' = rows @ new \<and> (\<forall>e \<in> set new. ev_OrgID e = og \<and> ev_DeviceID e = dev)"
proof (induction es arbitrary: rows)
  case (Cons p es)
  obtain i e where "p = (i, e)" by fastforce
  then have step: "insert_events og dev t es (rows @ [\<lparr>ev_ID = i, ev_OrgID = og, ev_DeviceID = dev, ev_Event = e, ev_ReceivedAt = t\<rparr>]) = Some rows'"
    using Cons.prems by (simp split: if_splits)
  then show ?case using Cons.IH[OF step] by force
qed simp

lemma InsertEvents_effect:
  "\<exists>new. fst (InsertEvents F ids og dev evs t db) = db\<lparr>db_events := db_events db @ new\<rparr> \<and>
     (\<forall>e \<in> set new. ev_OrgID e = og \<and> ev_DeviceID e = dev)"
proof (cases "insert_events og dev t (zip (map ids [0..<length evs]) evs) (db_events db)")
  case None
  then show ?thesis by (intro exI[of _ "[]"]) (simp add: InsertEvents_def)
next
  case (Some rows)
  then obtain new where "rows = db_events db @ new" "\<forall>e \<in> set new. ev_OrgID e = og \<and> ev_DeviceID e = dev"
    using insert_events_rows by blast
  then show ?thesis using Some
    by (cases "F SBegin \<or> F SInsert \<and> evs \<noteq> [] \<or> F SCommit") (auto simp: InsertEvents_def intro: exI[of _ "[]"])
qed

lemma handlePostEvents_effect:
  "\<exists>new. fst (handlePostEvents T env db og dev r) = db\<lparr>db_events := db_events db @ new\<rparr> \<and>
     (\<forall>e \<in> set new. ev_OrgID e = og \<and> ev_DeviceID e = dev)"
proof -
  have "fst (handlePostEvents T env db og dev r) = db \<or>
    (\<exists>evs. fst (handlePostEvents T env db og dev r) =
       fst (InsertEvents (se_faults env 2) (se_ids env) og dev evs (se_now env) db))"
    unfolding handlePostEvents_def by (auto split: option.splits prod.splits sum.splits json.splits) (metis fst_conv)+
  then show ?thesis
  proof (elim disjE exE)
    assume "fst (handlePostEvents T env db og dev r) = db"
    then show ?thesis by (intro exI[of _ "[]"]) simp
  next
    fix evs
    assume ins: "fst (handlePostEvents T env db og dev r) =
      fst (InsertEvents (se_faults env 2) (se_ids env) og dev evs (se_now env) db)"
    show ?thesis unfolding ins by (rule InsertEvents_effect)
  qed
qed

lemma serve_device_effect:
  "\<exists>new. fst (serve_device T C env db og dev r) = db\<lparr>db_events := db_events db @ new\<rparr> \<and>
     (\<forall>e \<in> set new. ev_OrgID e = og \<and> ev_DeviceID e = dev)"
proof -
  have same: "\<exists>new. db = db\<lparr>db_events := db_events db @ new\<rparr> \<and> (\<forall>e \<in> set new. ev_OrgID e = og \<and> ev_DeviceID e = dev)"
    by (intro exI[of _ "[]"]) simp
  show ?thesis
    by (cases "ar_route r") (simp_all add: serve_device_def handlePostEvents_effect same)
qed

text \<open>
  A device reaches only its own organisation. A request on a device's route is refused without effect, or it comes from
  a device of the database that is not revoked; then no table changes but the events, to which rows with the identifiers
  of this device and its organisation are appended, and the time this device was last seen.
\<close>

lemma device_request_confined:
  assumes "device_route (ar_route r)" "ServeHTTP T C S env s r = (db', resp)"
  shows "db' = sv_db s \<and> rs_code resp = 401 \<or>
    (\<exists>d new. select_row dv_ID (dv_ID d) (db_devices (sv_db s)) = Some d \<and> \<not> dv_Revoked d \<and>
       db' = (sv_db s)\<lparr>db_devices := db_devices db', db_events := db_events (sv_db s) @ new\<rparr> \<and>
       (\<forall>e \<in> set new. ev_OrgID e = dv_OrgID d \<and> ev_DeviceID e = dv_ID d) \<and>
       db_devices db' \<in> {db_devices (sv_db s),
         update_rows dv_ID (dv_ID d) (\<lambda>d. d\<lparr>dv_LastSeenAt := Some (se_now env)\<rparr>) (db_devices (sv_db s))})"
proof (cases "RequireDevice T C env (sv_db s) (ar_authorization r)")
  case None
  then show ?thesis using assms by (auto simp: ServeHTTP_def device_route_def reply_def)
next
  case (Some x)
  obtain db1 og dev where x: "x = (db1, og, dev)" by (cases x)
  obtain d where d: "select_row dv_ID (dv_ID d) (db_devices (sv_db s)) = Some d" "\<not> dv_Revoked d"
    and ids: "og = dv_OrgID d" "dev = dv_ID d"
    and db1: "db1 = fst (TouchDevice (se_faults env 1) (dv_ID d) (se_now env) (sv_db s))"
    using Some[unfolded x RequireDevice_iff] GetDevice_row by metis
  have run: "db' = fst (serve_device T C env db1 og dev r)"
    using assms Some x by (auto simp: ServeHTTP_def device_route_def)
  obtain new where new: "db' = db1\<lparr>db_events := db_events db1 @ new\<rparr>"
    "\<forall>e \<in> set new. ev_OrgID e = og \<and> ev_DeviceID e = dev"
    using run serve_device_effect by metis
  have "db_events db1 = db_events (sv_db s)" "db1 = (sv_db s)\<lparr>db_devices := db_devices db1\<rparr>"
    "db_devices db1 \<in> {db_devices (sv_db s),
       update_rows dv_ID (dv_ID d) (\<lambda>d. d\<lparr>dv_LastSeenAt := Some (se_now env)\<rparr>) (db_devices (sv_db s))}"
    using db1 by (auto simp: TouchDevice_def)
  then show ?thesis
    using new d ids by (intro disjI2 exI[of _ d] exI[of _ new]) simp
qed

subsection \<open>Examples\<close>

instance json :: countable
  by countable_datatype

definition demo_crypto :: crypto where
  "demo_crypto = \<lparr>cr_sha256 = id, cr_sign = (\<lambda>_. Some (replicate 64 CHR ''s'')), cr_verify = (\<lambda>_ sig. sig = replicate 64 CHR ''s''),
     cr_print = (\<lambda>j. replicate (to_nat j) CHR ''j''), cr_parse = (\<lambda>s. Some (from_nat (length s))), cr_pem = Some ''pem''\<rparr>"

lemma demo_crypto_ok: "crypto_ok demo_crypto"
  by (simp add: crypto_ok_def demo_crypto_def)

definition demo_senv :: srv_env where
  "demo_senv = \<lparr>se_now = 5000000000, se_ids = (\<lambda>_. ''d1''), se_rawToken = ''raw'', se_faults = (\<lambda>_ _. False),
     se_parseTime = (\<lambda>_. None), se_printTime = fmt_int\<rparr>"

definition demo_sorters :: sorters where
  "demo_sorters = \<lparr>so_orgs = insertion_sort, so_devices = insertion_sort, so_events = insertion_sort, so_images = insertion_sort\<rparr>"

definition demo_db :: server_db where
  "demo_db = fst (run_ops [OpCreateToken (HashToken demo_crypto ''raw'') ''acme'' 9000000000 1 0])"

definition demo_enrolled :: server_db where
  "demo_enrolled = fst (EnrollDevice (\<lambda>_. False) ''d1'' (HashToken demo_crypto ''raw'') ''laptop'' ''linux'' 5000000000 demo_db)"

definition demo_device :: device where
  "demo_device = \<lparr>dv_ID = ''d1'', dv_OrgID = ''acme'', dv_Name = ''laptop'', dv_Platform = ''linux'', dv_EnrolledAt = 5000000000,
     dv_LastSeenAt = None, dv_Revoked = False\<rparr>"

definition demo_claims :: claims where
  "demo_claims = \<lparr>cl_DeviceID = ''d1'', cl_OrgID = ''acme'', cl_IssuedAt = 5\<rparr>"

definition demo_token :: string where
  "demo_token = EncodeToString (cr_print demo_crypto (claims_json demo_claims)) @ ''.'' @ EncodeToString (replicate 64 CHR ''s'')"

definition demo_whoami :: api_request where
  "demo_whoami = \<lparr>ar_route = Whoami, ar_authorization = ''Bearer '' @ demo_token, ar_adminKey = [], ar_ifNoneMatch = [],
     ar_query = (\<lambda>_. []), ar_body = None\<rparr>"

lemma demo_signed: "Sign_token demo_crypto demo_claims = Some demo_token"
  by (simp add: Sign_token_def demo_token_def demo_crypto_def Let_def)

lemma demo_valid: "to_valid ''d1'' = ''d1''" "to_valid ''acme'' = ''acme''"
  by code_simp+

lemma demo_verified: "Verify_token T demo_crypto demo_token = Inr demo_claims"
  using Verify_Sign[OF demo_crypto_ok demo_signed] demo_valid by (simp add: demo_claims_def in_int64_def)

lemma demo_db_eq:
  "demo_db = empty_db\<lparr>db_tokens := [\<lparr>tk_hash = HashToken demo_crypto ''raw'', tk_org = ''acme'', tk_expires = 9000000000,
     tk_max = 1, tk_used = 0, tk_revoked = 0, tk_created = 0\<rparr>]\<rparr>"
  by (simp add: demo_db_def CreateEnrollmentToken_def empty_db_def has_key_def)

lemma demo_enroll:
  "EnrollDevice (\<lambda>_. False) ''d1'' (HashToken demo_crypto ''raw'') ''laptop'' ''linux'' 5000000000 demo_db = (demo_enrolled, Inr demo_device)"
  "db_devices demo_enrolled = [demo_device]"
  unfolding demo_enrolled_def demo_device_def demo_db_eq
  by (simp_all add: EnrollDevice_def select_row_def has_key_def empty_db_def Let_def)

lemma demo_authenticated:
  "\<exists>db3. RequireDevice latin1 demo_crypto demo_senv demo_enrolled (''Bearer '' @ demo_token) = Some (db3, ''acme'', ''d1'')"
proof -
  have "GetDevice (se_faults demo_senv 0) demo_enrolled ''d1'' = Inr demo_device"
    by (simp add: GetDevice_def demo_senv_def demo_enroll select_row_def demo_device_def)
  moreover have "demo_token \<noteq> []" by (simp add: demo_token_def)
  ultimately show ?thesis
    using demo_verified[of latin1] by (simp add: RequireDevice_iff demo_claims_def) (simp add: demo_device_def)
qed

theorem revoked_device_locked_out_witness:
  "ServeHTTP latin1 demo_crypto demo_sorters demo_senv
     (New_server (fst (RevokeDevice (\<lambda>_. False) ''d1'' demo_enrolled)) []) demo_whoami =
   (fst (RevokeDevice (\<lambda>_. False) ''d1'' demo_enrolled), http_error ''unauthorized'' 401)"
proof -
  let ?db = "fst (RevokeDevice (\<lambda>_. False) ''d1'' demo_enrolled)"
  have 1: "select_row dv_ID ''d1'' (db_devices demo_enrolled) = Some demo_device"
    by (simp add: demo_enroll select_row_def demo_device_def)
  have 2: "RevokeDevice (\<lambda>_. False) ''d1'' demo_enrolled = (?db, Inr ())" by (simp add: RevokeDevice_def)
  have 3: "db_run ?db [] (sv_db (New_server ?db []))"
    by (simp add: New_server_def db_run_start)
  have 4: "device_route (ar_route demo_whoami)" "ar_authorization demo_whoami = ''Bearer '' @ demo_token"
    by (simp_all add: demo_whoami_def device_route_def)
  show ?thesis
    using revoked_device_locked_out[OF 1 2 3 4 demo_verified, of latin1 demo_sorters demo_senv] by (simp add: demo_claims_def New_server_def)
qed

theorem enrolled_token_authenticates_witness:
  "\<exists>db3. RequireDevice latin1 demo_crypto demo_senv demo_enrolled (''Bearer '' @ demo_token) = Some (db3, ''acme'', ''d1'')"
proof -
  have 2: "in_int64 (se_now demo_senv div 1000000000)" by (simp add: demo_senv_def in_int64_def)
  have 3: "Enroll demo_crypto demo_senv ''raw'' ''laptop'' ''linux'' demo_db = (demo_enrolled, Some (''d1'', ''acme'', demo_token))"
    using demo_signed by (simp add: Enroll_def demo_senv_def demo_enroll demo_device_def demo_claims_def)
  have 4: "GetDevice (se_faults demo_senv 0) demo_enrolled ''d1'' = Inr demo_device" "\<not> dv_Revoked demo_device"
    by (simp_all add: GetDevice_def demo_senv_def demo_enroll select_row_def demo_device_def)
  show ?thesis
    by (rule enrolled_token_authenticates[OF demo_crypto_ok 2 3 demo_valid db_run_start 4])
qed

end
