(* ===== verification/Mux.thy ===== *)
theory Mux
  imports GoStrings
begin

text \<open>
  The multiplexer \<open>http.ServeMux\<close> of Go's standard library, as far as \<open>internal/server/httpapi/server.go\<close> and
  \<open>internal/api/routes.go\<close> use it: patterns with a method, wildcards for one segment and a trailing slash for all
  that is below; no hosts. The patterns are the strings of the source and are parsed here.

  The library keeps a tree in which a literal segment is tried before a wildcard and a wildcard before a trailing slash;
  \<open>match_path\<close> walks through the list of patterns in the same order. The path of a request is the escaped one
  of its URL; \<open>find_handler\<close> is for methods other than \<open>CONNECT\<close>.

  \<open>match_path_sound\<close>: the pattern that is found does match. \<open>find_handler_plain\<close>: for a path that is in normal form the
  handler is found by the segments alone.
\<close>

subsection \<open>Patterns\<close>

datatype segment = Lit string | Wild string | Rest

fun parse_segments :: "string list \<Rightarrow> segment list" where
  "parse_segments [] = []"
| "parse_segments [[]] = [Rest]"
| "parse_segments (p # ps) =
     (if HasPrefix p ''{'' then Wild (butlast (tl p)) else Lit p) # parse_segments ps"

definition parse_pattern :: "string \<Rightarrow> string \<times> segment list" where
  "parse_pattern s =
     (let i = Index s '' '';
          (m, p) = (if i < 0 then ([], s) else (take (nat i) s, drop (nat i + 1) s))
      in (m, parse_segments (tl (SplitByte p CHR ''/''))))"

type_synonym 'h mux = "(string \<times> segment list \<times> 'h) list"

definition new_mux :: "(string \<times> 'h) list \<Rightarrow> 'h mux" where
  "new_mux table = map (\<lambda>(pat, h). (fst (parse_pattern pat), snd (parse_pattern pat), h)) table"

subsection \<open>Paths\<close>

fun clean_segments :: "string list \<Rightarrow> string list \<Rightarrow> string list" where
  "clean_segments [] out = out"
| "clean_segments (p # ps) out =
     (if p = [] \<or> p = ''.'' then clean_segments ps out
      else if p = ''..'' then clean_segments ps (butlast out)
      else clean_segments ps (out @ [p]))"

definition cleanPath :: "string \<Rightarrow> string" where
  "cleanPath p =
     (if p = [] then ''/''
      else
        (let p = (if hd p = CHR ''/'' then p else CHR ''/'' # p);
             np = CHR ''/'' # JoinByte (clean_segments (SplitByte p CHR ''/'') []) CHR ''/''
         in if last p = CHR ''/'' \<and> np \<noteq> ''/'' then np @ ''/'' else np))"

definition unhex :: "char \<Rightarrow> nat option" where
  "unhex c =
     (let n = of_char c :: nat
      in if 48 \<le> n \<and> n \<le> 57 then Some (n - 48)
         else if 97 \<le> n \<and> n \<le> 102 then Some (n - 87)
         else if 65 \<le> n \<and> n \<le> 70 then Some (n - 55) else None)"

text \<open>\<open>url.PathUnescape\<close>; what cannot be decoded is left as it is.\<close>

fun unescape :: "string \<Rightarrow> string option" where
  "unescape [] = Some []"
| "unescape (c # s) =
     (if c \<noteq> CHR ''%'' then map_option (Cons c) (unescape s)
      else case s of
             a # b # s' \<Rightarrow>
               (case (unhex a, unhex b) of
                  (Some x, Some y) \<Rightarrow> map_option (Cons (char_of (16 * x + y))) (unescape s')
                | _ \<Rightarrow> None)
           | _ \<Rightarrow> None)"

definition pathUnescape :: "string \<Rightarrow> string" where
  "pathUnescape s = (case unescape s of None \<Rightarrow> s | Some t \<Rightarrow> t)"

text \<open>The segments of a path that starts with a slash; a slash at its end is a segment of its own.\<close>

fun mark_slash :: "string list \<Rightarrow> string list" where
  "mark_slash [] = []"
| "mark_slash [[]] = [''/'']"
| "mark_slash (p # ps) = pathUnescape p # mark_slash ps"

definition path_segments :: "string \<Rightarrow> string list" where
  "path_segments path = mark_slash (tl (SplitByte path CHR ''/''))"

subsection \<open>Matching\<close>

definition lit_child :: "string \<Rightarrow> (segment list \<times> 'l) list \<Rightarrow> (segment list \<times> 'l) list" where
  "lit_child s ps = List.map_filter (\<lambda>(sg, l). case sg of Lit t # r \<Rightarrow> if t = s then Some (r, l) else None | _ \<Rightarrow> None) ps"

definition wild_child :: "(segment list \<times> 'l) list \<Rightarrow> (segment list \<times> 'l) list" where
  "wild_child ps = List.map_filter (\<lambda>(sg, l). case sg of Wild _ # r \<Rightarrow> Some (r, l) | _ \<Rightarrow> None) ps"

definition leaf_with :: "segment list \<Rightarrow> (segment list \<times> 'l) list \<Rightarrow> 'l option" where
  "leaf_with sg ps = map_option snd (find (\<lambda>(sg', _). sg' = sg) ps)"

fun match_path :: "(segment list \<times> 'l) list \<Rightarrow> string list \<Rightarrow> string list \<Rightarrow> ('l \<times> string list) option" where
  "match_path ps [] ms = map_option (\<lambda>l. (l, ms)) (leaf_with [] ps)"
| "match_path ps (s # ss) ms =
     (case match_path (lit_child s ps) ss ms of
        Some x \<Rightarrow> Some x
      | None \<Rightarrow>
          (case (if s = ''/'' then None else match_path (wild_child ps) ss (ms @ [s])) of
             Some x \<Rightarrow> Some x
           | None \<Rightarrow> map_option (\<lambda>l. (l, ms)) (leaf_with [Rest] ps)))"

definition of_method :: "string \<Rightarrow> 'h mux \<Rightarrow> (segment list \<times> segment list \<times> 'h) list" where
  "of_method m mx = map (\<lambda>(_, sg, h). (sg, sg, h)) (filter (\<lambda>(m', _). m' = m) mx)"

definition match_request :: "'h mux \<Rightarrow> string \<Rightarrow> string \<Rightarrow> ((segment list \<times> 'h) \<times> string list) option" where
  "match_request mx m path =
     (case match_path (of_method m mx) (path_segments path) [] of
        Some x \<Rightarrow> Some x
      | None \<Rightarrow>
          (case (if m = ''HEAD'' then match_path (of_method ''GET'' mx) (path_segments path) [] else None) of
             Some x \<Rightarrow> Some x
           | None \<Rightarrow> match_path (of_method [] mx) (path_segments path) []))"

definition exact_match :: "((segment list \<times> 'h) \<times> string list) option \<Rightarrow> string \<Rightarrow> bool" where
  "exact_match n path =
     (case n of
        None \<Rightarrow> False
      | Some ((sg, _), _) \<Rightarrow>
          last sg \<noteq> Rest \<or> HasSuffix path ''/'' \<and> go_len sg = CountByte path CHR ''/'')"

fun wild_names :: "segment list \<Rightarrow> string list" where
  "wild_names [] = []"
| "wild_names (Wild n # sg) = n # wild_names sg"
| "wild_names (_ # sg) = wild_names sg"

text \<open>\<open>Request.PathValue\<close> of a request that was matched.\<close>

definition path_value :: "segment list \<Rightarrow> string list \<Rightarrow> string \<Rightarrow> string" where
  "path_value sg ms name = (case map_of (zip (wild_names sg) ms) name of None \<Rightarrow> [] | Some v \<Rightarrow> v)"

datatype 'r mux_result = Handler 'r | RedirectTo string | MethodNotAllowed | NotFound

definition find_handler :: "((string \<Rightarrow> string) \<Rightarrow> 'r) mux \<Rightarrow> string \<Rightarrow> string \<Rightarrow> 'r mux_result" where
  "find_handler mx m escaped =
     (let path = cleanPath escaped;
          n = match_request mx m path
      in if \<not> exact_match n path \<and> \<not> HasSuffix path ''/'' \<and> exact_match (match_request mx m (path @ ''/'')) (path @ ''/'')
         then RedirectTo (path @ ''/'')
         else if path \<noteq> escaped then RedirectTo path
         else case n of
                Some ((sg, h), ms) \<Rightarrow> Handler (h (path_value sg ms))
              | None \<Rightarrow>
                  if list_ex (\<lambda>(m', _). m' \<noteq> [] \<and>
                       (match_request mx m' path \<noteq> None \<or>
                        \<not> HasSuffix path ''/'' \<and> match_request mx m' (path @ ''/'') \<noteq> None)) mx
                  then MethodNotAllowed else NotFound)"

subsection \<open>What is found\<close>

fun seg_match :: "segment list \<Rightarrow> string list \<Rightarrow> bool" where
  "seg_match [] ss \<longleftrightarrow> ss = []"
| "seg_match (Lit t # sg) ss \<longleftrightarrow> (\<exists>ss'. ss = t # ss' \<and> seg_match sg ss')"
| "seg_match (Wild n # sg) ss \<longleftrightarrow> (\<exists>s ss'. ss = s # ss' \<and> s \<noteq> ''/'' \<and> seg_match sg ss')"
| "seg_match (Rest # sg) ss \<longleftrightarrow> ss \<noteq> [] \<and> sg = []"

lemma set_lit_child: "(r, l) \<in> set (lit_child s ps) \<longleftrightarrow> (Lit s # r, l) \<in> set ps"
  by (force simp: lit_child_def map_filter_def split: list.splits segment.splits if_splits)

lemma set_wild_child: "(r, l) \<in> set (wild_child ps) \<longleftrightarrow> (\<exists>n. (Wild n # r, l) \<in> set ps)"
  by (force simp: wild_child_def map_filter_def split: list.splits segment.splits)

lemma leaf_with_Some: "leaf_with sg ps = Some l \<Longrightarrow> (sg, l) \<in> set ps"
  by (auto simp: leaf_with_def find_Some_iff) (metis nth_mem)

lemma leaf_with_None: "leaf_with sg ps = None \<longleftrightarrow> (\<forall>l. (sg, l) \<notin> set ps)"
  by (auto simp: leaf_with_def find_None_iff)

lemma match_path_sound:
  "match_path ps ss ms = Some (l, ms') \<Longrightarrow> \<exists>sg. (sg, l) \<in> set ps \<and> seg_match sg ss"
proof (induction ps ss ms rule: match_path.induct)
  case (1 ps ms)
  then show ?case by (auto dest: leaf_with_Some intro: exI[of _ "[]"])
next
  case (2 ps s ss ms)
  show ?case
  proof (cases "match_path (lit_child s ps) ss ms")
    case (Some x)
    then obtain sg where "(sg, l) \<in> set (lit_child s ps)" "seg_match sg ss" using 2(1,3) by auto
    then show ?thesis by (intro exI[of _ "Lit s # sg"]) (simp add: set_lit_child)
  next
    case None
    show ?thesis
    proof (cases "s = ''/'' \<or> match_path (wild_child ps) ss (ms @ [s]) = None")
      case True
      then have "leaf_with [Rest] ps = Some l" using None 2(3) by (auto split: if_splits)
      then show ?thesis by (intro exI[of _ "[Rest]"]) (simp add: leaf_with_Some)
    next
      case False
      then obtain sg where "(sg, l) \<in> set (wild_child ps)" "seg_match sg ss" using None 2(2,3) by auto
      then obtain n where "(Wild n # sg, l) \<in> set ps" by (auto simp: set_wild_child)
      then show ?thesis using False \<open>seg_match sg ss\<close> by (intro exI[of _ "Wild n # sg"]) simp
    qed
  qed
qed

text \<open>Nothing is found only where nothing matches.\<close>

lemma match_path_complete:
  "(sg, l) \<in> set ps \<Longrightarrow> seg_match sg ss \<Longrightarrow> match_path ps ss ms \<noteq> None"
proof (induction ps ss ms arbitrary: sg rule: match_path.induct)
  case (1 ps ms)
  then have "sg = []" by (cases "(sg, [] :: string list)" rule: seg_match.cases) auto
  then show ?case using 1 by (auto simp: leaf_with_None)
next
  case (2 ps s ss ms)
  consider t sg' where "sg = Lit t # sg'" | n sg' where "sg = Wild n # sg'" | "sg = [Rest]"
    using 2(4) by (cases "(sg, s # ss)" rule: seg_match.cases) auto
  then show ?case
  proof cases
    case 1
    then have "match_path (lit_child s ps) ss ms \<noteq> None"
      using 2(1)[where sg = sg'] 2(3,4) by (simp add: set_lit_child)
    then show ?thesis by (auto split: option.splits)
  next
    case (2 n sg')
    show ?thesis
    proof (cases "match_path (lit_child s ps) ss ms")
      case None
      have "(sg', l) \<in> set (wild_child ps)" "s \<noteq> ''/''" "seg_match sg' ss"
        using \<open>(sg, l) \<in> set ps\<close> \<open>seg_match sg (s # ss)\<close> 2 by (auto simp: set_wild_child)
      then show ?thesis using "2.IH"(2)[OF None, where sg = sg'] None by (auto split: option.splits)
    qed auto
  next
    case 3
    then have "leaf_with [Rest] ps \<noteq> None" using 2(3) by (auto simp: leaf_with_None)
    then show ?thesis by (auto split: option.splits if_splits)
  qed
qed

lemma match_request_sound:
  assumes "match_request mx m path = Some ((sg, h), ms)"
  shows "\<exists>m'. (m', sg, h) \<in> set mx \<and> (m' = m \<or> m' = [] \<or> m = ''HEAD'' \<and> m' = ''GET'') \<and> seg_match sg (path_segments path)"
proof -
  have "\<exists>m'. (m', sg, h) \<in> set mx \<and> m' = m0 \<and> seg_match sg (path_segments path)"
    if "match_path (of_method m0 mx) (path_segments path) [] = Some ((sg, h), ms)" for m0
    using match_path_sound[OF that] by (auto simp: of_method_def)
  then show ?thesis using assms by (fastforce simp: match_request_def split: option.splits if_splits)
qed

lemma find_handler_sound:
  assumes "find_handler mx m path = Handler r"
  shows "\<exists>m' sg h ms. (m', sg, h) \<in> set mx \<and> (m' = m \<or> m' = [] \<or> m = ''HEAD'' \<and> m' = ''GET'') \<and>
    seg_match sg (path_segments path) \<and> r = h (path_value sg ms)"
  using assms match_request_sound[of mx m path]
  by (fastforce simp: find_handler_def Let_def split: if_splits option.splits)

lemma find_handler_plain:
  assumes "cleanPath path = path" "match_request mx m path = Some ((sg, h), ms)"
    and "exact_match (Some ((sg, h), ms)) path \<or> HasSuffix path ''/''"
  shows "find_handler mx m path = Handler (h (path_value sg ms))"
  using assms by (auto simp: find_handler_def Let_def)

subsection \<open>Segments without escapes\<close>

lemma SplitByte_one: "c \<notin> set s \<Longrightarrow> SplitByte s c = [s]"
  by (induction s) auto

lemma SplitByte_at: "c \<notin> set s \<Longrightarrow> SplitByte (s @ c # t) c = s # SplitByte t c"
  by (induction s) auto

lemma unescape_plain: "CHR ''%'' \<notin> set s \<Longrightarrow> unescape s = Some s"
  by (induction s) auto

lemma pathUnescape_plain [simp]: "CHR ''%'' \<notin> set s \<Longrightarrow> pathUnescape s = s"
  by (simp add: pathUnescape_def unescape_plain)

text \<open>A segment that is not written with escapes or dots alone.\<close>

definition plain_id :: "string \<Rightarrow> bool" where
  "plain_id i \<longleftrightarrow> i \<noteq> [] \<and> i \<noteq> ''.'' \<and> i \<noteq> ''..'' \<and> CHR ''/'' \<notin> set i \<and> CHR ''%'' \<notin> set i"

lemmas mux_eval = find_handler_def match_request_def exact_match_def of_method_def lit_child_def wild_child_def
  leaf_with_def map_filter_def path_segments_def cleanPath_def path_value_def

end
