(* ===== verification/Routing.thy ===== *)
theory Routing
  imports ServerAPI Mux
begin

text \<open>
  The routes of the control plane: the patterns that \<open>New\<close> of \<open>internal/server/httpapi/server.go\<close> registers, and
  the answer to a request as it arrives, with its method and the escaped path of its URL (\<open>serve_request\<close>).

  The embedded files of the dashboard are one opaque answer, also where the file server would not find a file.

  \<open>server_route_found\<close>: each handler is reached by the address the clients use. \<open>request_confined\<close>: what a request can
  change, whatever its method and path are.
\<close>

definition server_table :: "(string \<times> ((string \<Rightarrow> string) \<Rightarrow> route)) list" where
  "server_table =
     [(''GET /healthz'', \<lambda>_. Healthz),
      (''POST /v1/enroll'', \<lambda>_. EnrollR),
      (''GET /v1/whoami'', \<lambda>_. Whoami),
      (''GET /v1/policy'', \<lambda>_. PolicyR),
      (''GET /v1/server-key'', \<lambda>_. ServerKey),
      (''PUT /admin/orgs/{id}/policy'', \<lambda>v. AdminPutPolicy (v ''id'')),
      (''GET /admin/orgs/{id}/policy'', \<lambda>v. AdminGetPolicy (v ''id'')),
      (''POST /v1/events'', \<lambda>_. EventsR),
      (''GET /admin/orgs/{id}/events'', \<lambda>v. AdminEvents (v ''id'')),
      (''GET /admin/orgs/{id}/event-stats'', \<lambda>v. AdminEventStats (v ''id'')),
      (''POST /admin/orgs'', \<lambda>_. AdminCreateOrg),
      (''GET /admin/orgs'', \<lambda>_. AdminListOrgs),
      (''POST /admin/orgs/{id}/enrollment-tokens'', \<lambda>v. AdminMintToken (v ''id'')),
      (''GET /admin/devices'', \<lambda>_. AdminListDevices),
      (''POST /admin/devices/{id}/revoke'', \<lambda>v. AdminRevokeDevice (v ''id'')),
      (''POST /admin/orgs/{id}/images'', \<lambda>v. AdminBuildImage (v ''id'')),
      (''GET /admin/orgs/{id}/images'', \<lambda>v. AdminListImages (v ''id'')),
      (''GET /'', \<lambda>_. Dashboard)]"

definition server_mux :: "((string \<Rightarrow> string) \<Rightarrow> route) mux" where
  "server_mux = new_mux server_table"

definition serve_request ::
  "unicode_tables \<Rightarrow> crypto \<Rightarrow> sorters \<Rightarrow> srv_env \<Rightarrow> api_server \<Rightarrow> string \<Rightarrow> string \<Rightarrow> api_request \<Rightarrow>
   server_db \<times> response mux_result" where
  "serve_request T C S env s m path r =
     (case find_handler server_mux m path of
        Handler rt \<Rightarrow> (case ServeHTTP T C S env s (r\<lparr>ar_route := rt\<rparr>) of (db, resp) \<Rightarrow> (db, Handler resp))
      | RedirectTo p \<Rightarrow> (sv_db s, RedirectTo p)
      | MethodNotAllowed \<Rightarrow> (sv_db s, MethodNotAllowed)
      | NotFound \<Rightarrow> (sv_db s, NotFound))"

subsection \<open>The routes\<close>

lemma server_mux_eq:
  "server_mux =
     [(''GET'', [Lit ''healthz''], \<lambda>_. Healthz),
      (''POST'', [Lit ''v1'', Lit ''enroll''], \<lambda>_. EnrollR),
      (''GET'', [Lit ''v1'', Lit ''whoami''], \<lambda>_. Whoami),
      (''GET'', [Lit ''v1'', Lit ''policy''], \<lambda>_. PolicyR),
      (''GET'', [Lit ''v1'', Lit ''server-key''], \<lambda>_. ServerKey),
      (''PUT'', [Lit ''admin'', Lit ''orgs'', Wild ''id'', Lit ''policy''], \<lambda>v. AdminPutPolicy (v ''id'')),
      (''GET'', [Lit ''admin'', Lit ''orgs'', Wild ''id'', Lit ''policy''], \<lambda>v. AdminGetPolicy (v ''id'')),
      (''POST'', [Lit ''v1'', Lit ''events''], \<lambda>_. EventsR),
      (''GET'', [Lit ''admin'', Lit ''orgs'', Wild ''id'', Lit ''events''], \<lambda>v. AdminEvents (v ''id'')),
      (''GET'', [Lit ''admin'', Lit ''orgs'', Wild ''id'', Lit ''event-stats''], \<lambda>v. AdminEventStats (v ''id'')),
      (''POST'', [Lit ''admin'', Lit ''orgs''], \<lambda>_. AdminCreateOrg),
      (''GET'', [Lit ''admin'', Lit ''orgs''], \<lambda>_. AdminListOrgs),
      (''POST'', [Lit ''admin'', Lit ''orgs'', Wild ''id'', Lit ''enrollment-tokens''], \<lambda>v. AdminMintToken (v ''id'')),
      (''GET'', [Lit ''admin'', Lit ''devices''], \<lambda>_. AdminListDevices),
      (''POST'', [Lit ''admin'', Lit ''devices'', Wild ''id'', Lit ''revoke''], \<lambda>v. AdminRevokeDevice (v ''id'')),
      (''POST'', [Lit ''admin'', Lit ''orgs'', Wild ''id'', Lit ''images''], \<lambda>v. AdminBuildImage (v ''id'')),
      (''GET'', [Lit ''admin'', Lit ''orgs'', Wild ''id'', Lit ''images''], \<lambda>v. AdminListImages (v ''id'')),
      (''GET'', [Rest], \<lambda>_. Dashboard)]"
  by (simp add: server_mux_def new_mux_def server_table_def parse_pattern_def Index_def HasPrefix_def)

fun admin_route :: "route \<Rightarrow> bool" where
  "admin_route (AdminPutPolicy _) \<longleftrightarrow> True"
| "admin_route (AdminGetPolicy _) \<longleftrightarrow> True"
| "admin_route (AdminEvents _) \<longleftrightarrow> True"
| "admin_route (AdminEventStats _) \<longleftrightarrow> True"
| "admin_route AdminCreateOrg \<longleftrightarrow> True"
| "admin_route AdminListOrgs \<longleftrightarrow> True"
| "admin_route (AdminMintToken _) \<longleftrightarrow> True"
| "admin_route AdminListDevices \<longleftrightarrow> True"
| "admin_route (AdminRevokeDevice _) \<longleftrightarrow> True"
| "admin_route (AdminBuildImage _) \<longleftrightarrow> True"
| "admin_route (AdminListImages _) \<longleftrightarrow> True"
| "admin_route _ \<longleftrightarrow> False"

lemma server_handler:
  assumes "find_handler server_mux m path = Handler rt"
  shows "admin_route rt \<Longrightarrow> \<exists>rest. path_segments path = ''admin'' # rest"
    "rt = EnrollR \<Longrightarrow> m = ''POST'' \<and> path_segments path = [''v1'', ''enroll'']"
    "rt = Whoami \<Longrightarrow> m \<in> {''GET'', ''HEAD''} \<and> path_segments path = [''v1'', ''whoami'']"
    "rt = PolicyR \<Longrightarrow> m \<in> {''GET'', ''HEAD''} \<and> path_segments path = [''v1'', ''policy'']"
    "rt = EventsR \<Longrightarrow> m = ''POST'' \<and> path_segments path = [''v1'', ''events'']"
  using find_handler_sound[OF assms] unfolding server_mux_eq by auto

text \<open>The address of a route.\<close>

fun route_path :: "route \<Rightarrow> string \<times> string" where
  "route_path Healthz = (''GET'', ''/healthz'')"
| "route_path EnrollR = (''POST'', ''/v1/enroll'')"
| "route_path Whoami = (''GET'', ''/v1/whoami'')"
| "route_path PolicyR = (''GET'', ''/v1/policy'')"
| "route_path ServerKey = (''GET'', ''/v1/server-key'')"
| "route_path EventsR = (''POST'', ''/v1/events'')"
| "route_path (AdminPutPolicy i) = (''PUT'', ''/admin/orgs/'' @ i @ ''/policy'')"
| "route_path (AdminGetPolicy i) = (''GET'', ''/admin/orgs/'' @ i @ ''/policy'')"
| "route_path (AdminEvents i) = (''GET'', ''/admin/orgs/'' @ i @ ''/events'')"
| "route_path (AdminEventStats i) = (''GET'', ''/admin/orgs/'' @ i @ ''/event-stats'')"
| "route_path AdminCreateOrg = (''POST'', ''/admin/orgs'')"
| "route_path AdminListOrgs = (''GET'', ''/admin/orgs'')"
| "route_path (AdminMintToken i) = (''POST'', ''/admin/orgs/'' @ i @ ''/enrollment-tokens'')"
| "route_path AdminListDevices = (''GET'', ''/admin/devices'')"
| "route_path (AdminRevokeDevice i) = (''POST'', ''/admin/devices/'' @ i @ ''/revoke'')"
| "route_path (AdminBuildImage i) = (''POST'', ''/admin/orgs/'' @ i @ ''/images'')"
| "route_path (AdminListImages i) = (''GET'', ''/admin/orgs/'' @ i @ ''/images'')"
| "route_path Dashboard = (''GET'', ''/'')"

fun route_id :: "route \<Rightarrow> string option" where
  "route_id (AdminPutPolicy i) = Some i"
| "route_id (AdminGetPolicy i) = Some i"
| "route_id (AdminEvents i) = Some i"
| "route_id (AdminEventStats i) = Some i"
| "route_id (AdminMintToken i) = Some i"
| "route_id (AdminRevokeDevice i) = Some i"
| "route_id (AdminBuildImage i) = Some i"
| "route_id (AdminListImages i) = Some i"
| "route_id _ = None"

lemma server_route_found:
  assumes "case route_id rt of None \<Rightarrow> True | Some i \<Rightarrow> plain_id i"
  shows "find_handler server_mux (fst (route_path rt)) (snd (route_path rt)) = Handler rt"
proof -
  have split: "SplitByte (i @ CHR ''/'' # rest) CHR ''/'' = i # SplitByte rest CHR ''/''"
    "unescape i = Some i" "i \<noteq> ''/''" if "plain_id i" for i rest
    using that by (auto simp: plain_id_def SplitByte_at unescape_plain)
  show ?thesis
    using assms
    by (cases rt) (auto simp: server_mux_eq mux_eval split plain_id_def HasSuffix_def CountByte_def pathUnescape_def)
qed

text \<open>The path is compared after decoding, so that a filter in front of the server that looks at its text misses some.\<close>

lemma escaped_admin_path: "find_handler server_mux ''GET'' ''/%61dmin/orgs'' = Handler AdminListOrgs"
  by code_simp

text \<open>Reading an address that no pattern has goes to the embedded files; other methods are refused.\<close>

lemma unknown_address:
  "find_handler server_mux ''GET'' ''/admin/keys'' = Handler Dashboard"
  "find_handler server_mux ''POST'' ''/admin/keys'' = MethodNotAllowed"
  by code_simp+

subsection \<open>What a request can change\<close>

lemma handleEnroll_effect:
  "fst (handleEnroll T C env db r) = db \<or>
   (\<exists>raw name platform. fst (handleEnroll T C env db r) =
      fst (EnrollDevice (se_faults env 0) (se_ids env 0) (HashToken C raw) name platform (se_now env) db))"
  by (auto simp: handleEnroll_def Enroll_def split: option.splits prod.splits sum.splits) (metis fst_conv)+

lemma ServeHTTP_admin:
  "admin_route (ar_route r) \<Longrightarrow> fst (ServeHTTP T C S env s r) = sv_db s \<or> sv_adminKey s \<noteq> [] \<and> ar_adminKey r = sv_adminKey s"
  by (cases "ar_route r") (simp_all add: ServeHTTP_def device_route_def RequireAdmin_def)

lemma ServeHTTP_public:
  "ar_route r \<in> {Healthz, ServerKey, Dashboard} \<Longrightarrow> fst (ServeHTTP T C S env s r) = sv_db s"
  by (cases "ar_route r") (simp_all add: ServeHTTP_def)

lemma route_kinds:
  "admin_route rt \<or> rt = EnrollR \<or> device_route rt \<or> rt \<in> {Healthz, ServerKey, Dashboard}"
  by (cases rt) (auto simp: device_route_def)

lemma request_effect:
  assumes "serve_request T C S env s m path r = (db', res)"
  shows "db' = sv_db s \<or>
    (\<exists>rest. path_segments path = ''admin'' # rest) \<and> sv_adminKey s \<noteq> [] \<and> ar_adminKey r = sv_adminKey s \<or>
    m = ''POST'' \<and> path_segments path = [''v1'', ''enroll''] \<and>
      (\<exists>raw name platform.
         db' = fst (EnrollDevice (se_faults env 0) (se_ids env 0) (HashToken C raw) name platform (se_now env) (sv_db s))) \<or>
    path_segments path \<in> {[''v1'', ''whoami''], [''v1'', ''policy''], [''v1'', ''events'']} \<and>
      (\<exists>d new. select_row dv_ID (dv_ID d) (db_devices (sv_db s)) = Some d \<and> \<not> dv_Revoked d \<and>
         db' = (sv_db s)\<lparr>db_devices := db_devices db', db_events := db_events (sv_db s) @ new\<rparr> \<and>
         (\<forall>e \<in> set new. ev_OrgID e = dv_OrgID d \<and> ev_DeviceID e = dv_ID d) \<and>
         db_devices db' \<in> {db_devices (sv_db s),
           update_rows dv_ID (dv_ID d) (\<lambda>d. d\<lparr>dv_LastSeenAt := Some (se_now env)\<rparr>) (db_devices (sv_db s))})"
proof (cases "find_handler server_mux m path")
  case (Handler rt)
  let ?r = "r\<lparr>ar_route := rt\<rparr>"
  obtain resp where run: "ServeHTTP T C S env s ?r = (db', resp)"
    using assms Handler by (auto simp: serve_request_def split: prod.splits)
  have fst: "db' = fst (ServeHTTP T C S env s ?r)" using run by simp
  from route_kinds[of rt] consider "admin_route rt" | "rt = EnrollR" | "device_route rt" | "rt \<in> {Healthz, ServerKey, Dashboard}"
    by blast
  then show ?thesis
  proof cases
    case 1
    then show ?thesis using ServeHTTP_admin[of ?r T C S env s] server_handler(1)[OF Handler] fst by auto
  next
    case 2
    then have "db' = fst (handleEnroll T C env (sv_db s) ?r)" using fst by (simp add: ServeHTTP_def)
    then show ?thesis using handleEnroll_effect server_handler(2)[OF Handler 2] by metis
  next
    case 3
    then have "path_segments path \<in> {[''v1'', ''whoami''], [''v1'', ''policy''], [''v1'', ''events'']}"
      using server_handler(3-5)[OF Handler] by (auto simp: device_route_def)
    moreover have "device_route (ar_route ?r)" using 3 by simp
    ultimately show ?thesis using device_request_confined[OF _ run] by blast
  next
    case 4
    then show ?thesis using ServeHTTP_public[of ?r T C S env s] fst by simp
  qed
qed (use assms in \<open>auto simp: serve_request_def\<close>)



end
