(* ===== verification/PolicySync.thy ===== *)
theory PolicySync
  imports Routing Sessions Files
begin

text \<open>
  The client of the control plane: the enrollment of a device (\<open>internal/enrollment/enrollment.go\<close>,
  \<open>internal/cli/enroll.go\<close>), the cached launch policy (\<open>internal/policy/policy.go\<close>), its refresh
  (\<open>internal/policysync/policysync.go\<close>) and the reporting of sessions (\<open>internal/monitor/monitor.go\<close>).

  Files are those of theory \<open>Files\<close>. The network is a function from requests to answers, \<open>None\<close> for a
  request that cannot be made or is not answered; \<open>server_net\<close> is the network on which the control plane of theory
  \<open>ServerAPI\<close> answers. Public keys are given by the function that verifies with them (\<open>cn_key\<close>, \<open>None\<close> for
  a text that is no key).

  Whatever the network answers, a policy enters the cache only with a signature that verifies under the key of the
  enrollment (\<open>policy_cache_signed\<close>), and a failure leaves the cache as it was. Against the real server an enrolled
  device receives the policy of its organisation (\<open>enrolled_device_receives_policy\<close>). The entity tag is not
  bound to the organisation: \<open>stale_etag_keeps_policy\<close>.
\<close>

subsection \<open>The client's surroundings\<close>

record client_env =
  cn_io :: io_env
  cn_crypto :: crypto
  cn_indent :: "json \<Rightarrow> string"
  cn_key :: "string \<Rightarrow> (string \<Rightarrow> string \<Rightarrow> bool) option"
  cn_now :: int
  cn_printTime :: "int \<Rightarrow> string"
  cn_parseTime :: "string \<Rightarrow> int option"
  cn_hostname :: string
  cn_goos :: string

text \<open>Indented JSON is read back as the value it was printed from, and so are times.\<close>

definition client_ok :: "client_env \<Rightarrow> bool" where
  "client_ok env \<longleftrightarrow>
     (\<forall>j. cr_parse (cn_crypto env) (cn_indent env j) = Some j) \<and> (\<forall>t. cn_parseTime env (cn_printTime env t) = Some t)"

datatype http_method = GET | POST

record http_request =
  hq_method :: http_method
  hq_url :: string
  hq_authorization :: string
  hq_ifNoneMatch :: string
  hq_body :: "json option"

record http_response =
  hr_code :: int
  hr_body :: "json option"
  hr_etag :: string

type_synonym network = "http_request \<Rightarrow> http_response option"

definition TrimRightSlash :: "string \<Rightarrow> string" where
  "TrimRightSlash s = rev (dropWhile (\<lambda>c. c = CHR ''/'') (rev s))"

subsection \<open>Enrollment\<close>

record enrollment =
  er_ServerURL :: string
  er_DeviceToken :: string
  er_ServerPublicKey :: string
  er_DeviceID :: string
  er_OrgID :: string

definition enrollment_json :: "enrollment \<Rightarrow> json" where
  "enrollment_json e =
     JObj [(''server_url'', JStr (to_valid (er_ServerURL e))), (''device_token'', JStr (to_valid (er_DeviceToken e))),
           (''server_public_key'', JStr (to_valid (er_ServerPublicKey e))), (''device_id'', JStr (to_valid (er_DeviceID e))),
           (''org_id'', JStr (to_valid (er_OrgID e)))]"

definition decode_enrollment :: "unicode_tables \<Rightarrow> json \<Rightarrow> enrollment option" where
  "decode_enrollment T j =
     (case (case j of JObj kvs \<Rightarrow> Some kvs | JNull \<Rightarrow> Some [] | _ \<Rightarrow> None) of
        None \<Rightarrow> None
      | Some kvs \<Rightarrow>
          (case (get_string T ''server_url'' kvs [], get_string T ''device_token'' kvs [],
                 get_string T ''server_public_key'' kvs [], get_string T ''device_id'' kvs [], get_string T ''org_id'' kvs []) of
             (Some u, Some t, Some k, Some d, Some og) \<Rightarrow>
               Some \<lparr>er_ServerURL = u, er_DeviceToken = t, er_ServerPublicKey = k, er_DeviceID = d, er_OrgID = og\<rparr>
           | _ \<Rightarrow> None))"

definition Exists_enrollment :: "client_env \<Rightarrow> home \<Rightarrow> bool" where
  "Exists_enrollment env h \<longleftrightarrow> StatOk (cn_io env) h EnrollmentJson"

definition Load_enrollment :: "unicode_tables \<Rightarrow> client_env \<Rightarrow> home \<Rightarrow> enrollment option" where
  "Load_enrollment T env h =
     (case ReadFile (cn_io env) h EnrollmentJson of
        FileData raw \<Rightarrow> Option.bind (cr_parse (cn_crypto env) raw) (decode_enrollment T)
      | _ \<Rightarrow> None)"

definition Save_enrollment :: "client_env \<Rightarrow> enrollment \<Rightarrow> home \<Rightarrow> home \<times> bool" where
  "Save_enrollment env e h =
     write_rename (cn_io env) EnrollmentTmp EnrollmentJson (cn_indent env (enrollment_json e)) h"

datatype enroll_error =
  EnrollRequestFailed | EnrollStatus int | EnrollBadAnswer | MissingToken | MissingKey | EnrollSaveFailed

text \<open>The answer is decoded into a map of strings: a value of another type is an error.\<close>

definition string_map :: "json \<Rightarrow> (string \<rightharpoonup> string) option" where
  "string_map j =
     (case (case j of JObj kvs \<Rightarrow> Some kvs | JNull \<Rightarrow> Some [] | _ \<Rightarrow> None) of
        None \<Rightarrow> None
      | Some kvs \<Rightarrow>
          (case all_some (map (\<lambda>(k, v). decode_string v) kvs) of
             None \<Rightarrow> None
           | Some vs \<Rightarrow> Some (map_of (rev (zip (map fst kvs) vs)))))"

definition map_get :: "(string \<rightharpoonup> string) \<Rightarrow> string \<Rightarrow> string" where
  "map_get m k = (case m k of None \<Rightarrow> [] | Some v \<Rightarrow> v)"

definition RunEnroll ::
  "client_env \<Rightarrow> network \<Rightarrow> string \<Rightarrow> string \<Rightarrow> home \<Rightarrow> home \<times> enroll_error option" where
  "RunEnroll env net serverURL enrollToken h =
     (let host = (if cn_hostname env = [] then ''unknown'' else cn_hostname env);
          req = \<lparr>hq_method = POST, hq_url = TrimRightSlash serverURL @ ''/v1/enroll'', hq_authorization = [], hq_ifNoneMatch = [],
                 hq_body = Some (JObj [(''device_name'', JStr (to_valid host)), (''enrollment_token'', JStr (to_valid enrollToken)),
                                       (''platform'', JStr (cn_goos env))])\<rparr>
      in case net req of
           None \<Rightarrow> (h, Some EnrollRequestFailed)
         | Some resp \<Rightarrow>
             if hr_code resp \<noteq> 200 then (h, Some (EnrollStatus (hr_code resp)))
             else case Option.bind (hr_body resp) string_map of
                    None \<Rightarrow> (h, Some EnrollBadAnswer)
                  | Some raw \<Rightarrow>
                      if map_get raw ''token'' = [] then (h, Some MissingToken)
                      else if map_get raw ''server_public_key'' = [] then (h, Some MissingKey)
                      else case Save_enrollment env
                                  \<lparr>er_ServerURL = TrimRightSlash serverURL, er_DeviceToken = map_get raw ''token'',
                                   er_ServerPublicKey = map_get raw ''server_public_key'', er_DeviceID = map_get raw ''device_id'',
                                   er_OrgID = map_get raw ''org_id''\<rparr> h of
                             (h', ok) \<Rightarrow> (h', if ok then None else Some EnrollSaveFailed))"

subsection \<open>The cached policy\<close>

record launch_policy =
  pl_Image :: string
  pl_MountMode :: string
  pl_Denylist :: "string list option"
  pl_Version :: int
  pl_FetchedAt :: int

definition Seed :: "string list option \<Rightarrow> launch_policy" where
  "Seed denylist =
     \<lparr>pl_Image = ''redactr-base:local'', pl_MountMode = ''bind'', pl_Denylist = denylist, pl_Version = 0, pl_FetchedAt = zero_time\<rparr>"

definition policy_json :: "(int \<Rightarrow> string) \<Rightarrow> launch_policy \<Rightarrow> json" where
  "policy_json printTime p =
     JObj [(''image'', JStr (to_valid (pl_Image p))), (''mountMode'', JStr (to_valid (pl_MountMode p))),
           (''denylist'', (case pl_Denylist p of None \<Rightarrow> JNull | Some ds \<Rightarrow> JArr (map (\<lambda>d. JStr (to_valid d)) ds))),
           (''version'', JNum (fmt_int (pl_Version p))), (''fetchedAt'', JStr (printTime (pl_FetchedAt p)))]"

definition decode_policy :: "unicode_tables \<Rightarrow> (string \<Rightarrow> int option) \<Rightarrow> json \<Rightarrow> launch_policy option" where
  "decode_policy T parseTime j =
     (case (case j of JObj kvs \<Rightarrow> Some kvs | JNull \<Rightarrow> Some [] | _ \<Rightarrow> None) of
        None \<Rightarrow> None
      | Some kvs \<Rightarrow>
          (case (get_string T ''image'' kvs [], get_string T ''mountMode'' kvs [], get_strings T ''denylist'' kvs None,
                 get_int T ''version'' kvs 0,
                 (case get_raw T ''fetchedAt'' kvs None of
                    None \<Rightarrow> Some zero_time | Some JNull \<Rightarrow> Some zero_time | Some (JStr t) \<Rightarrow> parseTime t | Some _ \<Rightarrow> None)) of
             (Some im, Some mm, Some dl, Some v, Some t) \<Rightarrow>
               Some \<lparr>pl_Image = im, pl_MountMode = mm, pl_Denylist = dl, pl_Version = v, pl_FetchedAt = t\<rparr>
           | _ \<Rightarrow> None))"

definition Load_policy :: "unicode_tables \<Rightarrow> client_env \<Rightarrow> home \<Rightarrow> string list option \<Rightarrow> launch_policy option" where
  "Load_policy T env h denylist =
     (case ReadFile (cn_io env) h PolicyJson of
        FileMissing \<Rightarrow> Some (Seed denylist)
      | FileError \<Rightarrow> None
      | FileData raw \<Rightarrow> Option.bind (cr_parse (cn_crypto env) raw) (decode_policy T (cn_parseTime env)))"

definition Save_policy :: "client_env \<Rightarrow> launch_policy \<Rightarrow> home \<Rightarrow> home \<times> bool" where
  "Save_policy env p h =
     write_rename (cn_io env) PolicyTmp PolicyJson (cn_indent env (policy_json (cn_printTime env) p)) h"

subsection \<open>Refreshing it\<close>

datatype sync_error =
    EnrollmentUnreadable | BadStoredKey | FetchFailed | FetchStatus int | BadAnswer | BadBundleEncoding
  | SignatureRejected | BadBundle | PolicySaveFailed

definition decode_signed :: "unicode_tables \<Rightarrow> json \<Rightarrow> (string \<times> string) option" where
  "decode_signed T j =
     (case (case j of JObj kvs \<Rightarrow> Some kvs | JNull \<Rightarrow> Some [] | _ \<Rightarrow> None) of
        None \<Rightarrow> None
      | Some kvs \<Rightarrow>
          (case (get_string T ''bundle'' kvs [], get_string T ''signature'' kvs [], get_int T ''version'' kvs 0) of
             (Some b, Some s, Some _) \<Rightarrow> Some (b, s)
           | _ \<Rightarrow> None))"

definition policy_of_bundle :: "int \<Rightarrow> policy_bundle \<Rightarrow> launch_policy" where
  "policy_of_bundle now b =
     \<lparr>pl_Image = pb_Image b, pl_MountMode = pb_MountMode b, pl_Denylist = pb_Denylist b, pl_Version = pb_Version b,
       pl_FetchedAt = now\<rparr>"

definition stored_etag :: "client_env \<Rightarrow> home \<Rightarrow> string" where
  "stored_etag env h = (case ReadFile (cn_io env) h PolicyEtag of FileData s \<Rightarrow> s | _ \<Rightarrow> [])"

definition store_answer ::
  "unicode_tables \<Rightarrow> client_env \<Rightarrow> (string \<Rightarrow> string \<Rightarrow> bool) \<Rightarrow> http_response \<Rightarrow> home \<Rightarrow> home \<times> sync_error option" where
  "store_answer T env vk resp h =
     (case Option.bind (hr_body resp) (decode_signed T) of
        None \<Rightarrow> (h, Some BadAnswer)
      | Some (bundle, sig) \<Rightarrow>
          (case DecodeString bundle of
             None \<Rightarrow> (h, Some BadBundleEncoding)
           | Some bundleJSON \<Rightarrow>
               if \<not> Verify_detached ((cn_crypto env)\<lparr>cr_verify := vk\<rparr>) bundleJSON sig then (h, Some SignatureRejected)
               else case cr_parse (cn_crypto env) bundleJSON of
                      None \<Rightarrow> (h, Some BadBundle)
                    | Some j \<Rightarrow>
                        (case decode_bundle T j of
                           (b, False) \<Rightarrow> (h, Some BadBundle)
                         | (b, True) \<Rightarrow>
                             (case Save_policy env (policy_of_bundle (cn_now env) b) h of
                                (h', False) \<Rightarrow> (h', Some PolicySaveFailed)
                              | (h', True) \<Rightarrow>
                                  (if hr_etag resp \<noteq> [] then fst (WriteFile (cn_io env) PolicyEtag (hr_etag resp) h') else h', None)))))"

definition Sync :: "unicode_tables \<Rightarrow> client_env \<Rightarrow> network \<Rightarrow> home \<Rightarrow> home \<times> sync_error option" where
  "Sync T env net h =
     (if \<not> Exists_enrollment env h then (h, None)
      else case Load_enrollment T env h of
        None \<Rightarrow> (h, Some EnrollmentUnreadable)
      | Some enr \<Rightarrow>
          (case cn_key env (er_ServerPublicKey enr) of
             None \<Rightarrow> (h, Some BadStoredKey)
           | Some vk \<Rightarrow>
               (case net \<lparr>hq_method = GET, hq_url = TrimRightSlash (er_ServerURL enr) @ ''/v1/policy'',
                          hq_authorization = ''Bearer '' @ er_DeviceToken enr, hq_ifNoneMatch = stored_etag env h, hq_body = None\<rparr> of
                  None \<Rightarrow> (h, Some FetchFailed)
                | Some resp \<Rightarrow>
                    if hr_code resp = 304 then (h, None)
                    else if hr_code resp \<noteq> 200 then (h, Some (FetchStatus (hr_code resp)))
                    else store_answer T env vk resp h)))"

subsection \<open>Reporting sessions\<close>

fun status_text :: "status \<Rightarrow> string" where
  "status_text StatusProtected = ''protected''"
| "status_text StatusRunaway = ''runaway''"
| "status_text StatusUnknown = ''unknown''"

definition Collect :: "int \<Rightarrow> session list \<Rightarrow> monitor_event list" where
  "Collect now list =
     map (\<lambda>s. \<lparr>me_Tool = ss_Tool s, me_Verdict = status_text (ss_Status s), me_Reason = ss_Reason s,
                me_DirectConnCount = go_len (ss_DirectAIConn s), me_ObservedAt = now\<rparr>) list"

definition event_json :: "(int \<Rightarrow> string) \<Rightarrow> monitor_event \<Rightarrow> json" where
  "event_json printTime e =
     JObj [(''tool'', JStr (to_valid (me_Tool e))), (''verdict'', JStr (to_valid (me_Verdict e))),
           (''reason'', JStr (to_valid (me_Reason e))), (''direct_conn_count'', JNum (fmt_int (me_DirectConnCount e))),
           (''observed_at'', JStr (printTime (me_ObservedAt e)))]"

text \<open>The requests that are made and the error that is returned.\<close>

definition Report ::
  "unicode_tables \<Rightarrow> client_env \<Rightarrow> network \<Rightarrow> home \<Rightarrow> monitor_event list \<Rightarrow> http_request list \<times> sync_error option" where
  "Report T env net h evs =
     (if evs = [] \<or> \<not> Exists_enrollment env h then ([], None)
      else case Load_enrollment T env h of
        None \<Rightarrow> ([], Some EnrollmentUnreadable)
      | Some enr \<Rightarrow>
          (let req = \<lparr>hq_method = POST, hq_url = TrimRightSlash (er_ServerURL enr) @ ''/v1/events'',
                      hq_authorization = ''Bearer '' @ er_DeviceToken enr, hq_ifNoneMatch = [],
                      hq_body = Some (JObj [(''events'', JArr (map (event_json (cn_printTime env)) evs))])\<rparr>
           in case net req of
                None \<Rightarrow> ([req], Some FetchFailed)
              | Some resp \<Rightarrow> ([req], if hr_code resp \<noteq> 200 then Some (FetchStatus (hr_code resp)) else None)))"

subsection \<open>Both saves are atomic\<close>

interpretation policy_file: atomic_save Save_policy "\<lambda>env p. cn_indent env (policy_json (cn_printTime env) p)" PolicyJson PolicyTmp
  by unfold_locales (auto simp: Save_policy_def dest!: write_rename_cases)

interpretation enrollment_file: atomic_save Save_enrollment "\<lambda>env e. cn_indent env (enrollment_json e)" EnrollmentJson EnrollmentTmp
  by unfold_locales (auto simp: Save_enrollment_def dest!: write_rename_cases)

subsection \<open>What enters the cache\<close>

definition vouched ::
  "unicode_tables \<Rightarrow> crypto \<Rightarrow> (string \<Rightarrow> string \<Rightarrow> bool) \<Rightarrow> policy_bundle \<Rightarrow> bool" where
  "vouched T C vk b \<longleftrightarrow>
     (\<exists>bundleJSON sig j. Verify_detached (C\<lparr>cr_verify := vk\<rparr>) bundleJSON sig \<and>
        cr_parse C bundleJSON = Some j \<and> decode_bundle T j = (b, True))"

lemma vouchedI:
  "Verify_detached (C\<lparr>cr_verify := vk\<rparr>) bundleJSON sig \<Longrightarrow> cr_parse C bundleJSON = Some j \<Longrightarrow>
   decode_bundle T j = (b, True) \<Longrightarrow> vouched T C vk b"
  by (auto simp: vouched_def)

lemma WriteFile_other: "g \<noteq> f \<Longrightarrow> fst (WriteFile io f data h) g = h g"
  by (simp add: WriteFile_def split: write_result.splits)

lemma store_answer_cases:
  assumes "store_answer T env vk resp h = (h', err)"
  shows "h' PolicyJson = h PolicyJson \<and> err \<noteq> None \<or>
    err = None \<and> (\<exists>b. vouched T (cn_crypto env) vk b \<and>
       h' PolicyJson = Some (cn_indent env (policy_json (cn_printTime env) (policy_of_bundle (cn_now env) b))))"
  using assms
  by (fastforce simp: store_answer_def WriteFile_other policy_file.saved policy_file.kept
      split: option.splits prod.splits if_splits bool.splits intro: vouchedI)

lemma Sync_cases:
  assumes "Sync T env net h = (h', err)"
  shows "h' PolicyJson = h PolicyJson \<or>
    err = None \<and> (\<exists>enr vk b. Load_enrollment T env h = Some enr \<and> cn_key env (er_ServerPublicKey enr) = Some vk \<and>
       vouched T (cn_crypto env) vk b \<and>
       h' PolicyJson = Some (cn_indent env (policy_json (cn_printTime env) (policy_of_bundle (cn_now env) b))))"
  using assms
  by (auto simp: Sync_def split: option.splits if_splits dest: store_answer_cases)

lemma Sync_error_keeps_policy: "Sync T env net h = (h', Some e) \<Longrightarrow> h' PolicyJson = h PolicyJson"
  using Sync_cases by blast

lemma RunEnroll_keeps_policy:
  assumes "RunEnroll env net url tok h = (h', err)"
  shows "h' PolicyJson = h PolicyJson \<and> h' PolicyEtag = h PolicyEtag"
  using assms
  by (auto simp: RunEnroll_def Let_def split: option.splits if_splits prod.splits
      dest: enrollment_file.others[where g = PolicyJson] enrollment_file.others[where g = PolicyEtag])

text \<open>
  A life of the client: refreshing and enrolling, with any failures, on any network, by the same program: cryptography and encodings
  do not change.
\<close>

definition same_codec :: "client_env \<Rightarrow> client_env \<Rightarrow> bool" where
  "same_codec E env \<longleftrightarrow> cn_crypto env = cn_crypto E \<and> cn_key env = cn_key E \<and> cn_indent env = cn_indent E \<and>
     cn_printTime env = cn_printTime E \<and> cn_parseTime env = cn_parseTime E"

inductive client_run :: "unicode_tables \<Rightarrow> client_env \<Rightarrow> home \<Rightarrow> home \<Rightarrow> bool" for T E h where
  run_start: "client_run T E h h"
| run_sync: "client_run T E h h1 \<Longrightarrow> same_codec E env \<Longrightarrow> Sync T env net h1 = (h2, err) \<Longrightarrow> client_run T E h h2"
| run_enroll: "client_run T E h h1 \<Longrightarrow> same_codec E env \<Longrightarrow> RunEnroll env net url tok h1 = (h2, err') \<Longrightarrow> client_run T E h h2"

lemma client_run_signed:
  assumes "client_run T E h h'"
  shows "h' PolicyJson = h PolicyJson \<or>
    (\<exists>env h1 enr vk b. client_run T E h h1 \<and> same_codec E env \<and> Load_enrollment T env h1 = Some enr \<and>
       cn_key E (er_ServerPublicKey enr) = Some vk \<and> vouched T (cn_crypto E) vk b \<and>
       h' PolicyJson = Some (cn_indent E (policy_json (cn_printTime E) (policy_of_bundle (cn_now env) b))))"
  using assms
proof induction
  case (run_sync h1 env net h2 err)
  have codec: "cn_crypto env = cn_crypto E" "cn_key env = cn_key E" "cn_indent env = cn_indent E" "cn_printTime env = cn_printTime E"
    using run_sync.hyps(2) by (simp_all add: same_codec_def)
  show ?case using Sync_cases[OF run_sync.hyps(3)] run_sync.IH run_sync.hyps(1,2) unfolding codec by metis
next
  case (run_enroll h1 env net url tok h2 err')
  then show ?case using RunEnroll_keeps_policy by metis
qed simp


subsection \<open>What is saved is read back\<close>

lemma ascii_to_valid: "ascii s \<Longrightarrow> to_valid s = s"
  by (auto simp: to_valid_def runes_ascii runes_string_ascii ascii_def list_all_iff map_idI)

lemma token_ascii: "ascii (EncodeToString s)"
proof -
  have "list_all (\<lambda>c. of_char c < (128 :: nat)) b64_alphabet" by code_simp
  then show ?thesis using Encode_chars[of s] by (auto simp: ascii_def list_all_iff)
qed

lemma wire_names:
  "list_all (\<lambda>a. list_all (\<lambda>b. EqualFold T a b = (a = b))
     [''server_url'', ''device_token'', ''server_public_key'', ''device_id'', ''org_id'']) 
     [''server_url'', ''device_token'', ''server_public_key'', ''device_id'', ''org_id'']"
  "list_all (\<lambda>a. list_all (\<lambda>b. EqualFold T a b = (a = b)) 
     [''image'', ''mountMode'', ''denylist'', ''version'', ''fetchedAt'', ''bundle'', ''signature''])
     [''image'', ''mountMode'', ''denylist'', ''version'', ''fetchedAt'', ''bundle'', ''signature'']"
  by code_simp+

lemma decode_enrollment_json:
  "decode_enrollment T (enrollment_json e) =
     Some \<lparr>er_ServerURL = to_valid (er_ServerURL e), er_DeviceToken = to_valid (er_DeviceToken e),
       er_ServerPublicKey = to_valid (er_ServerPublicKey e), er_DeviceID = to_valid (er_DeviceID e), er_OrgID = to_valid (er_OrgID e)\<rparr>"
  using wire_names(1)[of T] by (simp add: decode_enrollment_def enrollment_json_def)

lemma all_some_strings: "all_some (map (decode_string \<circ> (\<lambda>d. JStr (f d))) ds) = Some (map f ds)"
  by (induction ds) (simp_all add: decode_string_def)

lemma decode_policy_json:
  assumes "in_int64 (pl_Version p)" "\<And>t. parseTime (printTime t) = Some t"
  shows "decode_policy T parseTime (policy_json printTime p) =
     Some (p\<lparr>pl_Image := to_valid (pl_Image p), pl_MountMode := to_valid (pl_MountMode p),
       pl_Denylist := map_option (map to_valid) (pl_Denylist p)\<rparr>)"
  using wire_names(2)[of T] assms
  by (simp add: decode_policy_def policy_json_def parse_fmt_int all_some_strings split: option.split)

lemma decode_bundle_json:
  assumes "in_int64 (pb_Version b)"
  shows "decode_bundle T (bundle_json b) =
     (b\<lparr>pb_Image := to_valid (pb_Image b), pb_MountMode := to_valid (pb_MountMode b),
        pb_Denylist := map_option (map to_valid) (pb_Denylist b)\<rparr>, True)"
  using wire_names(2)[of T] assms
  by (simp add: decode_bundle_def bundle_json_def parse_fmt_int all_some_strings Let_def or_zero_def split: option.split)

text \<open>A policy that was saved is the one that is loaded, up to bytes that are not valid UTF-8.\<close>

lemma Load_Save_policy:
  assumes "client_ok env" "\<not> io_read (cn_io env) PolicyJson" "in_int64 (pl_Version p)" "Save_policy env p h = (h', True)"
  shows "Load_policy T env h' dl =
     Some (p\<lparr>pl_Image := to_valid (pl_Image p), pl_MountMode := to_valid (pl_MountMode p),
       pl_Denylist := map_option (map to_valid) (pl_Denylist p)\<rparr>)"
  using policy_file.saved[OF assms(4)] assms(1-3)
  by (simp add: Load_policy_def ReadFile_def client_ok_def decode_policy_json)

lemma Load_Save_enrollment:
  assumes "client_ok env" "\<not> io_read (cn_io env) EnrollmentJson" "Save_enrollment env e h = (h', True)"
    and "to_valid (er_ServerURL e) = er_ServerURL e" "to_valid (er_DeviceToken e) = er_DeviceToken e"
    "to_valid (er_ServerPublicKey e) = er_ServerPublicKey e" "to_valid (er_DeviceID e) = er_DeviceID e"
    "to_valid (er_OrgID e) = er_OrgID e"
  shows "Load_enrollment T env h' = Some e"
  using enrollment_file.saved[OF assms(3)] assms
  by (simp add: Load_enrollment_def ReadFile_def client_ok_def decode_enrollment_json)

subsection \<open>Client and server together\<close>

text \<open>
  The network on which the control plane answers at \<open>base\<close>; other addresses are not reached. A request goes to the
  handler that the multiplexer finds.
\<close>

definition method_name :: "http_method \<Rightarrow> string" where
  "method_name m = (case m of GET \<Rightarrow> ''GET'' | POST \<Rightarrow> ''POST'')"

definition client_route :: "string \<Rightarrow> http_request \<Rightarrow> route option" where
  "client_route base q =
     (if \<not> HasPrefix (hq_url q) base then None
      else case find_handler server_mux (method_name (hq_method q)) (TrimPrefix (hq_url q) base) of
             Handler rt \<Rightarrow> Some rt
           | _ \<Rightarrow> None)"

definition as_request :: "route \<Rightarrow> http_request \<Rightarrow> api_request" where
  "as_request rt q = \<lparr>ar_route = rt, ar_authorization = hq_authorization q, ar_adminKey = [],
     ar_ifNoneMatch = hq_ifNoneMatch q, ar_query = (\<lambda>_. []), ar_body = hq_body q\<rparr>"

definition as_response :: "response \<Rightarrow> http_response" where
  "as_response r = \<lparr>hr_code = rs_code r, hr_body = (case rs_body r of JsonBody j \<Rightarrow> Some j | _ \<Rightarrow> None),
     hr_etag = (case rs_etag r of None \<Rightarrow> [] | Some t \<Rightarrow> t)\<rparr>"

definition server_net ::
  "unicode_tables \<Rightarrow> crypto \<Rightarrow> sorters \<Rightarrow> srv_env \<Rightarrow> api_server \<Rightarrow> string \<Rightarrow> network" where
  "server_net T C S senv s base q =
     map_option (\<lambda>rt. as_response (snd (ServeHTTP T C S senv s (as_request rt q)))) (client_route base q)"

definition valid_bundle :: "policy_bundle \<Rightarrow> bool" where
  "valid_bundle b \<longleftrightarrow> to_valid (pb_Image b) = pb_Image b \<and> to_valid (pb_MountMode b) = pb_MountMode b \<and>
     (\<forall>ds. pb_Denylist b = Some ds \<longrightarrow> map to_valid ds = ds)"

text \<open>The bundle that the server sends for a stored one.\<close>

definition served :: "unicode_tables \<Rightarrow> json \<Rightarrow> int \<Rightarrow> policy_bundle" where
  "served T raw v =
     (let b = fst (decode_bundle T raw)
      in b\<lparr>pb_Denylist := Some (case pb_Denylist b of None \<Rightarrow> [] | Some ds \<Rightarrow> ds), pb_Version := v\<rparr>)"

lemma bundleWithVersion_served: "bundleWithVersion T raw v = bundle_json (served T raw v)"
  by (cases "pb_Denylist (fst (decode_bundle T raw))") (auto simp: bundleWithVersion_def served_def bundle_json_def Let_def)

lemma decode_served:
  assumes "in_int64 v" "valid_bundle (fst (decode_bundle T raw))"
  shows "decode_bundle T (bundleWithVersion T raw v) = (served T raw v, True)"
proof -
  let ?b = "fst (decode_bundle T raw)"
  have "in_int64 (pb_Version (served T raw v))" using assms(1) by (simp add: served_def Let_def)
  then show ?thesis
    using assms(2) by (simp add: bundleWithVersion_served decode_bundle_json)
      (auto simp: served_def valid_bundle_def Let_def split: option.splits)
qed

lemma GetPolicy_touched: "GetPolicy F (fst (TouchDevice G i t db)) og = GetPolicy F db og"
  by (simp add: GetPolicy_def TouchDevice_def)

lemma client_routes:
  "hq_method q = POST \<Longrightarrow> hq_url q = base @ ''/v1/enroll'' \<Longrightarrow> client_route base q = Some EnrollR"
  "hq_method q = GET \<Longrightarrow> hq_url q = base @ ''/v1/policy'' \<Longrightarrow> client_route base q = Some PolicyR"
  "hq_method q = POST \<Longrightarrow> hq_url q = base @ ''/v1/events'' \<Longrightarrow> client_route base q = Some EventsR"
  using server_route_found[of EnrollR] server_route_found[of PolicyR] server_route_found[of EventsR]
  by (simp_all add: client_route_def method_name_def HasPrefix_iff TrimPrefix_def)

lemma server_policy_net:
  assumes "hq_method q = GET" "hq_url q = base @ ''/v1/policy''"
    and "RequireDevice T C senv (sv_db s) (hq_authorization q) = Some (db', og, dev)"
  shows "server_net T C S senv s base q =
    Some (as_response (handleGetPolicy T C senv db' og (as_request PolicyR q)))"
  using assms by (simp add: server_net_def client_routes ServeHTTP_def as_request_def device_route_def serve_device_def)

lemma handleGetPolicy_serves:
  assumes "GetPolicy (se_faults senv 2) db og = Inr (raw, v)" "ar_ifNoneMatch r \<noteq> etag_of v"
    and "Sign_detached C (cr_print C (bundleWithVersion T raw v)) = Some sig"
  shows "as_response (handleGetPolicy T C senv db og r) =
    \<lparr>hr_code = 200, hr_body = Some (JObj [(''bundle'', JStr (EncodeToString (cr_print C (bundleWithVersion T raw v)))),
       (''signature'', JStr sig), (''version'', JNum (fmt_int v))]), hr_etag = etag_of v\<rparr>"
  using assms by (simp add: handleGetPolicy_def as_response_def Let_def)

lemma Verify_Sign_detached:
  assumes "crypto_ok C" "Sign_detached C payload = Some sig"
  shows "Verify_detached (C\<lparr>cr_verify := cr_verify C\<rparr>) payload sig"
  using assms by (auto simp: Sign_detached_def Verify_detached_def crypto_ok_def Decode_Encode)

lemma store_served:
  assumes "crypto_ok (cn_crypto env)" "client_ok env" "cn_io env = no_io_faults" "in_int64 v"
    and "valid_bundle (fst (decode_bundle T raw))"
    and "Sign_detached (cn_crypto env) (cr_print (cn_crypto env) (bundleWithVersion T raw v)) = Some sig"
    and "hr_body resp = Some (JObj [(''bundle'', JStr (EncodeToString (cr_print (cn_crypto env) (bundleWithVersion T raw v)))),
       (''signature'', JStr sig), (''version'', JNum (fmt_int v))])" "hr_etag resp = etag_of v"
  shows "\<exists>h'. store_answer T env (cr_verify (cn_crypto env)) resp h = (h', None) \<and> h' PolicyEtag = Some (etag_of v) \<and>
    Load_policy T env h' dl = Some (policy_of_bundle (cn_now env) (served T raw v))"
proof -
  let ?C = "cn_crypto env" and ?p = "policy_of_bundle (cn_now env) (served T raw v)"
  let ?text = "cr_print ?C (bundleWithVersion T raw v)"
  obtain h1 where save: "Save_policy env ?p h = (h1, True)"
    using assms(3) by (simp add: Save_policy_def write_rename_ok)
  let ?h = "h1(PolicyEtag \<mapsto> etag_of v)"
  have parse: "cr_parse ?C ?text = Some (bundleWithVersion T raw v)" using assms(1) by (simp add: crypto_ok_def)
  have fields: "decode_signed T (JObj [(''bundle'', JStr x), (''signature'', JStr y), (''version'', JNum (fmt_int v))]) = Some (x, y)" for x y
    using wire_names(2)[of T] assms(4) by (simp add: decode_signed_def parse_fmt_int)
  have run: "store_answer T env (cr_verify ?C) resp h = (?h, None)"
    using assms(3,6-8) Verify_Sign_detached[OF assms(1,6)] save
    by (simp add: store_answer_def fields Decode_Encode parse decode_served[OF assms(4,5)] WriteFile_def no_io_faults_def etag_of_def)
  have "Load_policy T env ?h dl = Load_policy T env h1 dl" by (simp add: Load_policy_def ReadFile_def)
  moreover have "Load_policy T env h1 dl = Some ?p"
    using Load_Save_policy[OF assms(2) _ _ save, of T dl] assms(3-5)
    by (simp add: no_io_faults_def policy_of_bundle_def served_def valid_bundle_def Let_def)
       (auto split: option.splits)
  ultimately show ?thesis using run by auto
qed

lemma Sync_served:
  assumes "crypto_ok (cn_crypto env)" "client_ok env" "cn_io env = no_io_faults" "in_int64 v"
    and "valid_bundle (fst (decode_bundle T raw))" "\<And>x. cr_sign (cn_crypto env) x \<noteq> None"
    and "Load_enrollment T env h = Some enr" "cn_key env (er_ServerPublicKey enr) = Some (cr_verify (cn_crypto env))"
    and "TrimRightSlash (er_ServerURL enr) = base" "stored_etag env h \<noteq> etag_of v"
    and "RequireDevice T (cn_crypto env) senv (sv_db s) (''Bearer '' @ er_DeviceToken enr) = Some (db', og, dev)"
    and "GetPolicy (se_faults senv 2) (sv_db s) og = Inr (raw, v)"
  shows "\<exists>h'. Sync T env (server_net T (cn_crypto env) S senv s base) h = (h', None) \<and> h' PolicyEtag = Some (etag_of v) \<and>
    Load_policy T env h' dl = Some (policy_of_bundle (cn_now env) (served T raw v))"
proof -
  let ?C = "cn_crypto env"
  obtain sig where sig: "Sign_detached ?C (cr_print ?C (bundleWithVersion T raw v)) = Some sig"
    using assms(6) by (fastforce simp: Sign_detached_def)
  have pol: "GetPolicy (se_faults senv 2) db' og = Inr (raw, v)"
    using assms(11,12) by (auto simp: RequireDevice_iff GetPolicy_touched)
  have "h EnrollmentJson \<noteq> None"
    using assms(7) by (auto simp: Load_enrollment_def ReadFile_def split: option.splits if_splits)
  then have ex: "Exists_enrollment env h" using assms(3) by (simp add: Exists_enrollment_def StatOk_def no_io_faults_def)
  define q where "q = \<lparr>hq_method = GET, hq_url = base @ ''/v1/policy'', hq_authorization = ''Bearer '' @ er_DeviceToken enr,
    hq_ifNoneMatch = stored_etag env h, hq_body = None\<rparr>"
  define resp where "resp = as_response (handleGetPolicy T ?C senv db' og (as_request PolicyR q))"
  have net: "server_net T ?C S senv s base q = Some resp"
    using server_policy_net[of q base T ?C senv s db' og dev S] assms(11) by (simp add: q_def resp_def)
  have resp: "hr_code resp = 200" "hr_etag resp = etag_of v"
    "hr_body resp = Some (JObj [(''bundle'', JStr (EncodeToString (cr_print ?C (bundleWithVersion T raw v)))),
       (''signature'', JStr sig), (''version'', JNum (fmt_int v))])"
    using handleGetPolicy_serves[OF pol _ sig, of "as_request PolicyR q"] assms(10)
    by (simp_all add: resp_def q_def as_request_def)
  have "Sync T env (server_net T ?C S senv s base) h = store_answer T env (cr_verify ?C) resp h"
    using ex assms(7-9) net resp(1) by (simp add: Sync_def q_def)
  then show ?thesis
    using store_served[OF assms(1-5) sig resp(3,2)] by metis
qed

lemma enroll_names:
  "list_all (\<lambda>a. list_all (\<lambda>b. EqualFold T a b = (a = b))
     [''enrollment_token'', ''device_name'', ''platform'']) [''enrollment_token'', ''device_name'', ''platform'']"
  by code_simp

definition host_name :: "client_env \<Rightarrow> string" where
  "host_name env = to_valid (if cn_hostname env = [] then ''unknown'' else cn_hostname env)"

lemma token_of_Enroll:
  assumes "Enroll C senv raw name platform db = (db1, Some (dev, og, tok))"
  shows "tok \<noteq> []" "to_valid tok = tok"
proof -
  obtain c where "Sign_token C c = Some tok"
    using assms by (auto simp: Enroll_def split: prod.splits sum.splits option.splits)
  then obtain a b where "tok = EncodeToString a @ ''.'' @ EncodeToString b"
    by (auto simp: Sign_token_def Let_def split: option.splits)
  moreover have "ascii ''.''" by code_simp
  ultimately show "tok \<noteq> []" "to_valid tok = tok"
    using token_ascii[of a] token_ascii[of b] by (auto intro!: ascii_to_valid simp: ascii_def)
qed

lemma RunEnroll_served:
  assumes "client_ok env" "cn_io env = no_io_faults" "cr_pem C = Some pem" "pem \<noteq> []" "to_valid pem = pem"
    and "TrimRightSlash url = base" "to_valid base = base" "to_valid dev = dev" "to_valid og = og"
    and "Enroll C senv (to_valid raw) (host_name env) (cn_goos env) (sv_db s) = (db1, Some (dev, og, tok))"
  shows "\<exists>h1. RunEnroll env (server_net T C S senv s base) url raw h = (h1, None) \<and> h1 PolicyEtag = h PolicyEtag \<and>
    Load_enrollment T env h1 = Some \<lparr>er_ServerURL = base, er_DeviceToken = tok, er_ServerPublicKey = pem,
      er_DeviceID = dev, er_OrgID = og\<rparr>"
proof -
  let ?e = "\<lparr>er_ServerURL = base, er_DeviceToken = tok, er_ServerPublicKey = pem, er_DeviceID = dev, er_OrgID = og\<rparr>"
  define q where "q = \<lparr>hq_method = POST, hq_url = base @ ''/v1/enroll'', hq_authorization = [], hq_ifNoneMatch = [],
    hq_body = Some (JObj [(''device_name'', JStr (host_name env)), (''enrollment_token'', JStr (to_valid raw)),
      (''platform'', JStr (cn_goos env))])\<rparr>"
  obtain h1 where save: "Save_enrollment env ?e h = (h1, True)"
    using assms(2) by (simp add: Save_enrollment_def write_rename_ok)
  have answer: "server_net T C S senv s base q = Some \<lparr>hr_code = 200, hr_body = Some (JObj [(''device_id'', JStr dev),
      (''org_id'', JStr og), (''server_public_key'', JStr pem), (''token'', JStr tok)]), hr_etag = []\<rparr>"
    using enroll_names[of T] assms(3,10)
    by (simp add: server_net_def client_routes q_def ServeHTTP_def as_request_def handleEnroll_def body_fields_def
        as_response_def reply_def)
  have "RunEnroll env (server_net T C S senv s base) url raw h = (h1, None)"
    using answer save assms(4,6) token_of_Enroll(1)[OF assms(10)]
    by (simp add: RunEnroll_def q_def host_name_def Let_def string_map_def decode_string_def map_get_def)
  moreover have "h1 PolicyEtag = h PolicyEtag" using enrollment_file.others[OF save] by simp
  moreover have "Load_enrollment T env h1 = Some ?e"
    using Load_Save_enrollment[OF assms(1) _ save] assms(2,5,7-9) token_of_Enroll(2)[OF assms(10)]
    by (simp add: no_io_faults_def)
  ultimately show ?thesis by blast
qed

text \<open>
  C17. Client and server work together. When the server accepts an enrollment, the client's enrollment succeeds; and then,
  whatever operations of the server's store come in between, as long as the device is not revoked and nothing
  fails, a refresh succeeds and leaves in the cache exactly the policy that the server has for the device's
  organisation, unless the client still holds the entity tag of that version.
\<close>

theorem enrolled_device_receives_policy:
  assumes "crypto_ok (cn_crypto env)" "client_ok env" "cn_io env = no_io_faults" "\<forall>x. cr_sign (cn_crypto env) x \<noteq> None"
    and "cr_pem (cn_crypto env) = Some pem" "pem \<noteq> []" "to_valid pem = pem" "cn_key env pem = Some (cr_verify (cn_crypto env))"
    and "TrimRightSlash url = base" "TrimRightSlash base = base" "to_valid base = base"
    and "Enroll (cn_crypto env) senv (to_valid raw) (host_name env) (cn_goos env) (sv_db s) = (db1, Some (dev, og, tok))"
    and "to_valid dev = dev" "to_valid og = og" "in_int64 (se_now senv div 1000000000)"
    and "db_run db1 tr (sv_db s')" "GetDevice (se_faults senv' 0) (sv_db s') dev = Inr d" "\<not> dv_Revoked d"
    and "GetPolicy (se_faults senv' 2) (sv_db s') og = Inr (bundle, v)" "in_int64 v"
    and "valid_bundle (fst (decode_bundle T bundle))" "stored_etag env h \<noteq> etag_of v"
  shows "\<exists>h1 h2. RunEnroll env (server_net T (cn_crypto env) S senv s base) url raw h = (h1, None) \<and>
    Sync T env (server_net T (cn_crypto env) S senv' s' base) h1 = (h2, None) \<and>
    Load_policy T env h2 dl = Some (policy_of_bundle (cn_now env) (served T bundle v))"
proof -
  obtain h1 where h1: "RunEnroll env (server_net T (cn_crypto env) S senv s base) url raw h = (h1, None)"
    "h1 PolicyEtag = h PolicyEtag"
    "Load_enrollment T env h1 = Some \<lparr>er_ServerURL = base, er_DeviceToken = tok, er_ServerPublicKey = pem,
      er_DeviceID = dev, er_OrgID = og\<rparr>"
    using RunEnroll_served[OF assms(2,3,5,6,7,9,11,13,14,12)] by blast
  obtain db3 where "RequireDevice T (cn_crypto env) senv' (sv_db s') (''Bearer '' @ tok) = Some (db3, og, dev)"
    using enrolled_accepted[OF assms(1,15,12,13,14,16,17,18)] by blast
  moreover have "stored_etag env h1 = stored_etag env h" using h1(2) by (simp add: stored_etag_def ReadFile_def)
  ultimately show ?thesis
    using Sync_served[OF assms(1-3,20,21) _ h1(3), where base = base and s = s' and senv = senv' and S = S and dl = dl] assms(4,8,10,19,22) h1(1)
    by fastforce
qed

lemma Sync_not_modified:
  assumes "cn_io env = no_io_faults" "Load_enrollment T env h = Some enr" "cn_key env (er_ServerPublicKey enr) = Some vk"
    and "TrimRightSlash (er_ServerURL enr) = base" "stored_etag env h = etag_of v"
    and "RequireDevice T C senv (sv_db s) (''Bearer '' @ er_DeviceToken enr) = Some (db', og, dev)"
    and "GetPolicy (se_faults senv 2) (sv_db s) og = Inr (bundle, v)"
  shows "Sync T env (server_net T C S senv s base) h = (h, None)"
proof -
  have pol: "GetPolicy (se_faults senv 2) db' og = Inr (bundle, v)"
    using assms(6,7) by (auto simp: RequireDevice_iff GetPolicy_touched)
  have "h EnrollmentJson \<noteq> None"
    using assms(2) by (auto simp: Load_enrollment_def ReadFile_def split: option.splits if_splits)
  then have "Exists_enrollment env h" using assms(1) by (simp add: Exists_enrollment_def StatOk_def no_io_faults_def)
  then show ?thesis
    using assms(2-6) pol
    by (simp add: Sync_def server_policy_net[where db' = db' and og = og and dev = dev] handleGetPolicy_def as_request_def as_response_def)
qed

text \<open>
  C38. The entity tag is the number of a version, not bound to an organisation or a server. A device that
  holds the tag of a policy and enrolls anew, with an organisation whose policy happens to have the same
  version number, keeps the policy of its former organisation: the refresh reports success and changes nothing.
\<close>

theorem stale_etag_keeps_policy:
  assumes "crypto_ok (cn_crypto env)" "client_ok env" "cn_io env = no_io_faults"
    and "cr_pem (cn_crypto env) = Some pem" "pem \<noteq> []" "to_valid pem = pem" "cn_key env pem = Some (cr_verify (cn_crypto env))"
    and "TrimRightSlash url = base" "TrimRightSlash base = base" "to_valid base = base"
    and "Enroll (cn_crypto env) senv (to_valid raw) (host_name env) (cn_goos env) (sv_db s) = (db1, Some (dev, og, tok))"
    and "to_valid dev = dev" "to_valid og = og" "in_int64 (se_now senv div 1000000000)"
    and "db_run db1 tr (sv_db s')" "GetDevice (se_faults senv' 0) (sv_db s') dev = Inr d" "\<not> dv_Revoked d"
    and "GetPolicy (se_faults senv' 2) (sv_db s') og = Inr (bundle, v)" "stored_etag env h = etag_of v"
  shows "\<exists>h1. RunEnroll env (server_net T (cn_crypto env) S senv s base) url raw h = (h1, None) \<and>
    Sync T env (server_net T (cn_crypto env) S senv' s' base) h1 = (h1, None) \<and> h1 PolicyJson = h PolicyJson"
proof -
  obtain h1 where h1: "RunEnroll env (server_net T (cn_crypto env) S senv s base) url raw h = (h1, None)"
    "h1 PolicyEtag = h PolicyEtag"
    "Load_enrollment T env h1 = Some \<lparr>er_ServerURL = base, er_DeviceToken = tok, er_ServerPublicKey = pem,
      er_DeviceID = dev, er_OrgID = og\<rparr>"
    using RunEnroll_served[OF assms(2-6,8,10,12,13,11)] by blast
  obtain db3 where "RequireDevice T (cn_crypto env) senv' (sv_db s') (''Bearer '' @ tok) = Some (db3, og, dev)"
    using enrolled_accepted[OF assms(1,14,11,12,13,15,16,17)] by blast
  moreover have "stored_etag env h1 = stored_etag env h" using h1(2) by (simp add: stored_etag_def ReadFile_def)
  ultimately have "Sync T env (server_net T (cn_crypto env) S senv' s' base) h1 = (h1, None)"
    using Sync_not_modified[OF assms(3) h1(3)] assms(7,9,18,19) by simp
  then show ?thesis using h1(1) RunEnroll_keeps_policy[OF h1(1)] by blast
qed

subsection \<open>What leaves the machine about sessions\<close>

definition event_reasons :: "string list" where
  "event_reasons = [''tagged with REDACTR_BOUND=1'', ''HTTPS_PROXY points at Redactr'', ''TCP connection to Redactr proxy'',
     ''direct connection to AI provider '' @ em_dash_utf8 @ '' bypassing the proxy'', ''no AI traffic observed yet'']"

lemma find_tool_label: "find_tool ts first = [] \<or> find_tool ts first \<in> snd ` set ts"
  by (induction ts first rule: find_tool.induct) auto

lemma classify_conns_tool: "ss_Tool (classify_conns l cs s) = ss_Tool s"
  by (induction l cs s rule: classify_conns.induct) (auto simp: Let_def split: prod.splits)

lemma session_facts:
  assumes "s \<in> set (sessions_of T env l ps)"
  shows "ss_Tool s \<in> snd ` set aiTools" "ss_Reason s \<in> set event_reasons"
proof -
  obtain p where s: "s = session_of env l p (classifyTool T (pr_Command p))" "classifyTool T (pr_Command p) \<noteq> []"
    using assms by (induction ps) (auto simp: Let_def split: if_splits)
  obtain s0 where s0: "s = decide s0" "ss_Tool s0 = classifyTool T (pr_Command p)"
    using s(1) by (fastforce simp: session_of_def Let_def classifyConnections_def classify_conns_tool split: prod.splits)
  have "ss_Tool s = classifyTool T (pr_Command p)" using s0 by (auto simp: decide_def)
  then show "ss_Tool s \<in> snd ` set aiTools"
    using s(2) find_tool_label[of aiTools] by (auto simp: classifyTool_def Let_def split: if_splits)
  show "ss_Reason s \<in> set event_reasons"
    unfolding s0(1) by (auto simp: decide_def event_reasons_def)
qed

text \<open>
  C18. What is reported about sessions is scrubbed. Every request that reports the sessions of the machine carries a list of
  events, and of each event the tool is one of the eight known labels, the verdict one of three words and the reason one
  of five fixed sentences; besides there are a count and the time. No command line, address or environment
  value can be in it.
\<close>

theorem reports_scrubbed:
  assumes "slice_sort session_less (srt session_less)" "List_sessions T srt senv l = (l', Some list)"
    and "q \<in> set (fst (Report T env net h (Collect now list)))"
  shows "\<exists>evs. hq_body q = Some (JObj [(''events'', JArr (map (event_json (cn_printTime env)) evs))]) \<and>
    (\<forall>e \<in> set evs. me_Tool e \<in> snd ` set aiTools \<and> me_Verdict e \<in> {''protected'', ''runaway'', ''unknown''} \<and>
       me_Reason e \<in> set event_reasons \<and> me_ObservedAt e = now)"
proof -
  have list: "set list = set (sessions_of T senv (refreshHostIPs senv l) (the (en_processes senv)))"
    using assms(1,2) slice_sort.set_srt by (fastforce simp: List_sessions_def Let_def split: option.splits)
  have verdict: "status_text st \<in> {''protected'', ''runaway'', ''unknown''}" for st by (cases st) auto
  have "hq_body q = Some (JObj [(''events'', JArr (map (event_json (cn_printTime env)) (Collect now list)))])"
    using assms(3) by (auto simp: Report_def Let_def split: if_splits option.splits)
  moreover have "\<forall>e \<in> set (Collect now list). me_Tool e \<in> snd ` set aiTools \<and> me_Verdict e \<in> {''protected'', ''runaway'', ''unknown''} \<and>
       me_Reason e \<in> set event_reasons \<and> me_ObservedAt e = now"
  proof
    fix e assume "e \<in> set (Collect now list)"
    then obtain s where s: "s \<in> set (sessions_of T senv (refreshHostIPs senv l) (the (en_processes senv)))"
      "me_Tool e = ss_Tool s" "me_Verdict e = status_text (ss_Status s)" "me_Reason e = ss_Reason s" "me_ObservedAt e = now"
      unfolding list[symmetric] by (auto simp: Collect_def)
    then show "me_Tool e \<in> snd ` set aiTools \<and> me_Verdict e \<in> {''protected'', ''runaway'', ''unknown''} \<and>
       me_Reason e \<in> set event_reasons \<and> me_ObservedAt e = now"
      using session_facts[OF s(1)] verdict[of "ss_Status s"] by simp
  qed
  ultimately show ?thesis by blast
qed

subsection \<open>Examples\<close>

definition demo_client :: client_env where
  "demo_client = \<lparr>cn_io = no_io_faults, cn_crypto = demo_crypto, cn_indent = cr_print demo_crypto,
     cn_key = (\<lambda>_. Some (cr_verify demo_crypto)), cn_now = 7, cn_printTime = (\<lambda>t. replicate (to_nat t) CHR ''t''),
     cn_parseTime = (\<lambda>s. Some (from_nat (length s))), cn_hostname = ''laptop'', cn_goos = ''linux''\<rparr>"

lemma demo_client_simps [simp]:
  "cn_io demo_client = no_io_faults" "cn_crypto demo_client = demo_crypto" "cn_goos demo_client = ''linux''"
  "cn_key demo_client pem = Some (cr_verify demo_crypto)" "cn_now demo_client = 7"
  by (simp_all add: demo_client_def)

lemma demo_client_ok: "client_ok demo_client"
  by (simp add: client_ok_def demo_client_def demo_crypto_def)

lemma demo_sign: "cr_sign demo_crypto x \<noteq> None" "cr_pem demo_crypto = Some ''pem''"
  by (simp_all add: demo_crypto_def)

lemma demo_text:
  "to_valid ''pem'' = ''pem''" "to_valid ''https://cp'' = ''https://cp''" "to_valid ''raw'' = ''raw''" "host_name demo_client = ''laptop''"
  "TrimRightSlash ''https://cp/'' = ''https://cp''" "TrimRightSlash ''https://cp'' = ''https://cp''"
  by (simp_all add: demo_client_def host_name_def TrimRightSlash_def) code_simp+

lemma demo_server_enroll:
  "Enroll demo_crypto demo_senv (to_valid ''raw'') (host_name demo_client) (cn_goos demo_client) (sv_db (New_server demo_db [])) =
     (demo_enrolled, Some (''d1'', ''acme'', demo_token))"
  using demo_signed
  by (simp add: Enroll_def demo_senv_def demo_enroll demo_device_def demo_claims_def demo_text New_server_def)

lemma demo_later:
  "db_run demo_enrolled [] (sv_db (New_server demo_enrolled []))"
  "GetDevice (se_faults demo_senv 0) (sv_db (New_server demo_enrolled [])) ''d1'' = Inr demo_device" "\<not> dv_Revoked demo_device"
  "GetPolicy (se_faults demo_senv 2) (sv_db (New_server demo_enrolled [])) ''acme'' = Inr (seedPolicyJSON, 0)"
  "in_int64 (se_now demo_senv div 1000000000)"
proof -
  have "db_policies demo_enrolled = []"
    unfolding demo_enrolled_def demo_db_eq
    by (simp add: EnrollDevice_def select_row_def has_key_def empty_db_def Let_def)
  then show "GetPolicy (se_faults demo_senv 2) (sv_db (New_server demo_enrolled [])) ''acme'' = Inr (seedPolicyJSON, 0)"
    by (simp add: GetPolicy_def New_server_def demo_senv_def select_row_def)
qed (simp_all add: New_server_def db_run_start GetDevice_def demo_senv_def demo_enroll select_row_def demo_device_def in_int64_def)

lemma demo_seed:
  "decode_bundle T seedPolicyJSON = (\<lparr>pb_Image = ''redactr-base:local'', pb_MountMode = ''bind'', pb_Denylist = Some [], pb_Version = 0\<rparr>, True)"
  using wire_names(2)[of T] by (simp add: decode_bundle_def seedPolicyJSON_def or_zero_def Let_def)

lemma demo_seed_valid: "valid_bundle (fst (decode_bundle T seedPolicyJSON))"
proof -
  have "to_valid ''redactr-base:local'' = ''redactr-base:local''" "to_valid ''bind'' = ''bind''" by code_simp+
  then show ?thesis by (simp add: demo_seed valid_bundle_def)
qed

abbreviation demo_net1 :: network where
  "demo_net1 \<equiv> server_net latin1 demo_crypto demo_sorters demo_senv (New_server demo_db []) ''https://cp''"

abbreviation demo_net2 :: network where
  "demo_net2 \<equiv> server_net latin1 demo_crypto demo_sorters demo_senv (New_server demo_enrolled []) ''https://cp''"

lemma zero_in_int64: "in_int64 0"
  by (simp add: in_int64_def)

theorem enrolled_device_receives_policy_witness:
  "\<exists>h1 h2. RunEnroll demo_client demo_net1 ''https://cp/'' ''raw'' Map.empty = (h1, None) \<and>
     Sync latin1 demo_client demo_net2 h1 = (h2, None) \<and>
     Load_policy latin1 demo_client h2 None = Some (policy_of_bundle 7 (served latin1 seedPolicyJSON 0))"
proof -
  have tag: "stored_etag demo_client Map.empty \<noteq> etag_of 0" by (simp add: stored_etag_def ReadFile_def etag_of_def)
  show ?thesis
    using enrolled_device_receives_policy[of demo_client, unfolded demo_client_simps, OF demo_crypto_ok demo_client_ok refl _
        demo_sign(2) _ demo_text(1) refl demo_text(5,6,2) demo_server_enroll[unfolded demo_client_simps] demo_valid demo_later(5)
        demo_later(1-4) zero_in_int64 demo_seed_valid tag] demo_sign(1)
    by simp
qed

theorem stale_etag_keeps_policy_witness:
  "\<exists>h1. RunEnroll demo_client demo_net1 ''https://cp/'' ''raw'' [PolicyEtag \<mapsto> etag_of 0, PolicyJson \<mapsto> ''policy of another''] = (h1, None) \<and>
     Sync latin1 demo_client demo_net2 h1 = (h1, None) \<and> h1 PolicyJson = Some ''policy of another''"
proof -
  let ?h = "[PolicyEtag \<mapsto> etag_of 0, PolicyJson \<mapsto> ''policy of another'']"
  have tag: "stored_etag demo_client ?h = etag_of 0" by (simp add: stored_etag_def ReadFile_def no_io_faults_def)
  show ?thesis
    using stale_etag_keeps_policy[of demo_client, unfolded demo_client_simps, OF demo_crypto_ok demo_client_ok refl
        demo_sign(2) _ demo_text(1) refl demo_text(5,6,2) demo_server_enroll[unfolded demo_client_simps] demo_valid demo_later(5)
        demo_later(1-4) tag]
    by simp
qed

lemma demo_delivery:
  "\<exists>h1 h2. RunEnroll demo_client demo_net1 ''https://cp/'' ''raw'' Map.empty = (h1, None) \<and>
     Sync latin1 demo_client demo_net2 h1 = (h2, None) \<and> h2 PolicyJson \<noteq> None"
proof -
  obtain h1 where h1: "RunEnroll demo_client demo_net1 ''https://cp/'' ''raw'' Map.empty = (h1, None)" "h1 PolicyEtag = None"
    "Load_enrollment latin1 demo_client h1 = Some \<lparr>er_ServerURL = ''https://cp'', er_DeviceToken = demo_token,
      er_ServerPublicKey = ''pem'', er_DeviceID = ''d1'', er_OrgID = ''acme''\<rparr>"
    using RunEnroll_served[OF demo_client_ok _ demo_sign(2) _ demo_text(1,5,2) demo_valid demo_server_enroll, where h = Map.empty] by auto
  have tag: "stored_etag demo_client h1 \<noteq> etag_of 0" using h1(2) by (simp add: stored_etag_def ReadFile_def etag_of_def)
  have url: "TrimRightSlash (er_ServerURL \<lparr>er_ServerURL = ''https://cp'', er_DeviceToken = demo_token,
      er_ServerPublicKey = ''pem'', er_DeviceID = ''d1'', er_OrgID = ''acme''\<rparr>) = ''https://cp''" using demo_text(6) by simp
  obtain db3 where auth: "RequireDevice latin1 demo_crypto demo_senv (sv_db (New_server demo_enrolled []))
     (''Bearer '' @ er_DeviceToken \<lparr>er_ServerURL = ''https://cp'', er_DeviceToken = demo_token,
      er_ServerPublicKey = ''pem'', er_DeviceID = ''d1'', er_OrgID = ''acme''\<rparr>) = Some (db3, ''acme'', ''d1'')"
    using demo_authenticated by (auto simp: New_server_def)
  obtain h2 where h2: "Sync latin1 demo_client demo_net2 h1 = (h2, None)"
    "Load_policy latin1 demo_client h2 None = Some (policy_of_bundle 7 (served latin1 seedPolicyJSON 0))"
    using Sync_served[of demo_client 0 latin1 seedPolicyJSON h1, unfolded demo_client_simps, OF demo_crypto_ok demo_client_ok refl
        zero_in_int64 demo_seed_valid demo_sign(1) h1(3) refl url tag auth demo_later(4)]
    by blast
  have "policy_of_bundle 7 (served latin1 seedPolicyJSON 0) \<noteq> Seed None"
    by (simp add: policy_of_bundle_def served_def demo_seed Seed_def)
  then have "h2 PolicyJson \<noteq> None"
    using h2(2) by (cases "h2 PolicyJson") (auto simp: Load_policy_def ReadFile_def no_io_faults_def)
  then show ?thesis using h1(1) h2(1) by blast
qed


definition demo_machine :: sess_env where
  "demo_machine = \<lparr>en_processes = Some [\<lparr>pr_PID = 7, pr_PPID = 1, pr_User = ''u'', pr_Command = ''claude --secret hunter2'',
     pr_StartedAt = 0\<rparr>], en_env = (\<lambda>_. None), en_connections = (\<lambda>_. []), en_lookup = (\<lambda>_. None), en_now = 0\<rparr>"

definition demo_proc :: proc where
  "demo_proc = \<lparr>pr_PID = 7, pr_PPID = 1, pr_User = ''u'', pr_Command = ''claude --secret hunter2'', pr_StartedAt = 0\<rparr>"

lemma demo_processes: "en_processes demo_machine = Some [demo_proc]" "pr_PID demo_proc = 7"
  "pr_Command demo_proc = ''claude --secret hunter2''"
  by (simp_all add: demo_machine_def demo_proc_def)

definition demo_home :: home where
  "demo_home = [EnrollmentJson \<mapsto> cn_indent demo_client (enrollment_json
     \<lparr>er_ServerURL = ''https://cp'', er_DeviceToken = ''t'', er_ServerPublicKey = ''pem'', er_DeviceID = ''d1'', er_OrgID = ''acme''\<rparr>)]"

theorem reports_scrubbed_witness:
  "\<exists>list q evs. snd (List_sessions latin1 insertion_sort demo_machine (New_lister 0 1)) = Some list \<and>
     q \<in> set (fst (Report latin1 demo_client (\<lambda>_. None) demo_home (Collect 9 list))) \<and>
     hq_body q = Some (JObj [(''events'', JArr (map (event_json (cn_printTime demo_client)) evs))]) \<and>
     (\<forall>e \<in> set evs. me_Tool e \<in> snd ` set aiTools \<and> me_Reason e \<in> set event_reasons \<and> me_ObservedAt e = 9)"
proof -
  have tool: "classifyTool latin1 ''claude --secret hunter2'' \<noteq> []" by code_simp
  define list where "list = insertion_sort session_less (sessions_of latin1 demo_machine (refreshHostIPs demo_machine (New_lister 0 1))
    (the (en_processes demo_machine)))"
  have run: "List_sessions latin1 insertion_sort demo_machine (New_lister 0 1) = (refreshHostIPs demo_machine (New_lister 0 1), Some list)"
    by (simp add: List_sessions_def list_def Let_def demo_processes)
  have pid: "li_currentPID (refreshHostIPs demo_machine (New_lister 0 1)) = 1"
    by (simp add: refreshHostIPs_def New_lister_def demo_machine_def Let_def)
  have sort: "slice_sort session_less (insertion_sort session_less)" by (rule ranked.slice_sort_axioms)
  have "length list = 1"
    using tool pid by (simp add: list_def slice_sort.length_srt[OF sort] demo_processes Let_def)
  then have evs: "Collect 9 list \<noteq> []" by (auto simp: Collect_def)
  obtain enr where enr: "Load_enrollment latin1 demo_client demo_home = Some enr"
    using demo_client_ok by (auto simp: Load_enrollment_def ReadFile_def no_io_faults_def demo_home_def client_ok_def decode_enrollment_json)
  have "Exists_enrollment demo_client demo_home" by (simp add: Exists_enrollment_def StatOk_def demo_home_def no_io_faults_def)
  then obtain q where q: "q \<in> set (fst (Report latin1 demo_client (\<lambda>_. None) demo_home (Collect 9 list)))"
    using evs enr by (simp add: Report_def Let_def)
  show ?thesis
    using reports_scrubbed[OF sort run q] run q by (auto 0 3)
qed

end
