(* ===== verification/Presidio.thy ===== *)
theory Presidio
  imports Pipeline GoRegexp Rules
begin

text \<open>
  The pattern layer: \<open>internal/scanner/presidio/presidio.go\<close>.

  The table of patterns (\<open>presidio_raws\<close>) is the one of \<open>compilePatterns\<close>, entry by entry, with
  its scores as exact fractions. A pattern is written with another character in place of the
  backslash, which \<open>rx\<close> puts back. \<open>compilePatterns\<close> keeps the entries whose pattern compiles
  and whose rule is enabled. The scanner's state is a pointer that \<open>Reconfigure\<close> replaces
  atomically; \<open>None\<close> is the nil pointer.

  The layer respects the contract \<open>exact_layer\<close> of the pipeline. It does not panic on ASCII texts;
  on others the window of context is cut out of the lower-case text with positions of the
  original text, which may be out of its range. The checksums detect every error in one digit.
\<close>

subsection \<open>Checksums\<close>

definition rx :: "char \<Rightarrow> string \<Rightarrow> string" where
  "rx esc = map (\<lambda>c. if c = esc then backslash else c)"

text \<open>\<open>int(b - '0')\<close> for a byte \<open>b\<close>.\<close>

definition digit_val :: "char \<Rightarrow> int" where
  "digit_val c = (int (of_char c) - 48) mod 256"

text \<open>The loop from the last digit on; the digits come in reverse.\<close>

fun luhn_sum :: "bool \<Rightarrow> string \<Rightarrow> int" where
  "luhn_sum alt [] = 0"
| "luhn_sum alt (c # cs) =
     (let d = digit_val c;
          d = (if alt then if 2 * d > 9 then 2 * d - 9 else 2 * d else d)
      in d + luhn_sum (\<not> alt) cs)"

definition luhn :: "string \<Rightarrow> bool" where
  "luhn digits \<longleftrightarrow> luhn_sum False (rev digits) mod 10 = 0"

text \<open>The digits written for one rune of an IBAN; \<open>None\<close> is the early return.\<close>

definition iban_rune :: "nat \<Rightarrow> string option" where
  "iban_rune r =
     (if rune_between 48 57 r then Some (encode_rune r)
      else if rune_between 65 90 r then
        (let n = r - 65 + 10
         in Some ((if n \<ge> 10 then [char_of (n div 10 + 48)] else []) @ [char_of (n mod 10 + 48)]))
      else None)"

fun iban_numeric :: "nat list \<Rightarrow> string option" where
  "iban_numeric [] = Some []"
| "iban_numeric (r # rs) =
     (case iban_rune r of
        None \<Rightarrow> None
      | Some ds \<Rightarrow> map_option (\<lambda>t. ds @ t) (iban_numeric rs))"

definition ibanCheckDigit :: "unicode_tables \<Rightarrow> string \<Rightarrow> bool" where
  "ibanCheckDigit T iban =
     (if length iban < 5 then False
      else case iban_numeric (runes (ToUpper T (drop 4 iban @ take 4 iban))) of
             None \<Rightarrow> False
           | Some s \<Rightarrow> foldl (\<lambda>rem r. (rem * 10 + (int r - 48)) mod 97) 0 (runes s) = 1)"

definition weighted_sum :: "int list \<Rightarrow> string \<Rightarrow> int" where
  "weighted_sum ws digits = sum_list (map2 (\<lambda>w c. digit_val c * w) ws digits)"

definition abaChecksum :: "string \<Rightarrow> bool" where
  "abaChecksum digits \<longleftrightarrow>
     length digits = 9 \<and> weighted_sum [3, 7, 1, 3, 7, 1, 3, 7, 1] digits mod 10 = 0"

definition nhsChecksum :: "string \<Rightarrow> bool" where
  "nhsChecksum digits =
     (if length digits \<noteq> 10 then False
      else let s = weighted_sum [10, 9, 8, 7, 6, 5, 4, 3, 2] digits;
               check = 11 - s mod 11;
               check = (if check = 11 then 0 else check)
           in if check = 10 then False else check = digit_val (digits ! 9))"

definition stripNonDigits :: "string \<Rightarrow> string" where
  "stripNonDigits s = runes_string (filter (rune_between 48 57) (runes s))"

subsection \<open>Validators of the table\<close>

definition valid_credit_card :: "string \<Rightarrow> bool" where
  "valid_credit_card s =
     (let digits = stripNonDigits s
      in if length digits < 12 \<or> length digits > 19 then False else luhn digits)"

definition valid_iban :: "unicode_tables \<Rightarrow> string \<Rightarrow> bool" where
  "valid_iban T s =
     (let clean = runes_string (filter (\<lambda>r. r \<noteq> 32 \<and> r \<noteq> 45) (runes (TrimSpace s)))
      in if length clean < 15 \<or> length clean > 34 then False else ibanCheckDigit T clean)"

definition nonPII :: "string list" where
  "nonPII = [''w3.org'', ''xml'', ''schema'', ''xmlns'', ''xsd'', ''dtd'',
     ''xbrl'', ''spec/'', ''json-schema'', ''openid'', ''oauth'',
     ''example.com'', ''example.org'', ''localhost'',
     ''fpml.org'', ''iso.org'', ''ietf.org'', ''oasis-open.org'']"

definition valid_url :: "unicode_tables \<Rightarrow> string \<Rightarrow> bool" where
  "valid_url T s = (let lower = ToLower T s in list_all (\<lambda>np. \<not> Contains lower np) nonPII)"

definition valid_mac :: "unicode_tables \<Rightarrow> char \<Rightarrow> string \<Rightarrow> bool" where
  "valid_mac T sep s =
     (let clean = runes_string (map (rune_ToUpper T) (filter (\<lambda>r. r \<noteq> of_char sep) (runes s)))
      in clean \<noteq> ''000000000000'' \<and> clean \<noteq> ''FFFFFFFFFFFF'')"

definition valid_ssn :: "string \<Rightarrow> bool" where
  "valid_ssn s =
     (let d = stripNonDigits s
      in if length d \<noteq> 9 then False
         else if d = ''078051120'' \<or> d = ''123456789'' \<or> d = ''219099999'' then False
         else if take 3 d = ''000'' \<or> take 3 d = ''666'' \<or> take 3 d = ''900'' then False
         else if take 2 (drop 3 d) = ''00'' \<or> drop 5 d = ''0000'' then False
         else True)"

definition valid_aba_dashed :: "string \<Rightarrow> bool" where
  "valid_aba_dashed s = (let d = stripNonDigits s in length d = 9 \<and> abaChecksum d)"

definition valid_nhs :: "string \<Rightarrow> bool" where
  "valid_nhs s = (let d = stripNonDigits s in if length d \<noteq> 10 then False else nhsChecksum d)"

definition valid_sin :: "string \<Rightarrow> bool" where
  "valid_sin s = (let d = stripNonDigits s in length d = 9 \<and> luhn d)"

definition valid_tfn :: "string \<Rightarrow> bool" where
  "valid_tfn s =
     (let d = stripNonDigits s
      in if length d \<noteq> 9 then False else weighted_sum [1, 4, 3, 7, 5, 8, 6, 9, 10] d mod 11 = 0)"

definition valid_nif :: "string \<Rightarrow> bool" where
  "valid_nif s =
     (if length s \<noteq> 9 then False
      else let d = stripNonDigits (take 8 s)
           in if length d \<noteq> 8 then False
              else let n = foldl (\<lambda>n r. n * 10 + (int r - 48)) 0 (runes d)
                   in s ! 8 = ''TRWAGMYFPDXBNJZSQVHLCKE'' ! nat (n mod 23))"

definition valid_swift :: "string \<Rightarrow> bool" where
  "valid_swift s = list_ex (rune_between 48 57) (runes s)"

subsection \<open>The table\<close>

datatype raw =
  Raw (raw_label: string) (raw_ruleID: string) (raw_pattern: string) (raw_score: real)
    (raw_context: "string list") (raw_validate: "(string \<Rightarrow> bool) option") (raw_contextReq: bool)

definition presidio_raws1 :: "unicode_tables \<Rightarrow> raw list" where
  \<open>presidio_raws1 T =
     [Raw ''CREDIT_CARD'' ''credit_card_luhn''
       (rx CHR ''~'' ''~b(?!1~d{12}(?!~d))((4~d{3})|(5[0-5]~d{2})|(6~d{3})|(1~d{3})|(3~d{3}))[- ]?(~d{3,4})[- ]?(~d{3,4})[- ]?(~d{3,5})~b'')
       (3 / 10) [''credit'', ''card'', ''visa'', ''mastercard'', ''cc'', ''amex'', ''discover'', ''jcb'', ''diners'', ''maestro'']
       (Some valid_credit_card) False,
      Raw ''CRYPTO'' ''crypto_btc''
       (rx CHR ''~'' ''~b(bc1|[13])[a-zA-HJ-NP-Z0-9]{25,59}~b'')
       (1 / 2) [''wallet'', ''btc'', ''bitcoin'', ''crypto'']
       None False,
      Raw ''CRYPTO'' ''crypto_eth''
       (rx CHR ''~'' ''~b0x[a-fA-F0-9]{40}~b'')
       (1 / 2) [''wallet'', ''eth'', ''ethereum'', ''crypto'']
       None False,
      Raw ''EMAIL_ADDRESS'' ''email_regex''
       (rx CHR '';'' '';b((([!#$%&'*+;-/=?^_`{|}~;w])|([!#$%&'*+;-/=?^_`{|}~;w][!#$%&'*+;-/=?^_`{|}~.;w]{0,}[!#$%&'*+;-/=?^_`{|}~;w]))[@];w+([-.];w+)*;.;w+([-.];w+)*);b'')
       (1 / 2) [''email'']
       None False,
      Raw ''IBAN_CODE'' ''iban_presidio''
       ''(?:[^A-Z0-9]|^)([A-Z]{2}[0-9]{2}(?:[ -]?[A-Z0-9]{4}){2,7}(?:[ -]?[A-Z0-9]{1,4})?)(?:[^A-Z0-9]|$)''
       (1 / 2) [''iban'', ''bank'', ''transaction'', ''account'']
       (Some (valid_iban T)) False,
      Raw ''IP_ADDRESS'' ''ipv4''
       (rx CHR ''~'' ''~b(?:25[0-5]|2[0-4][0-9]|[01]?[0-9][0-9]?)~.(?:25[0-5]|2[0-4][0-9]|[01]?[0-9][0-9]?)~.(?:25[0-5]|2[0-4][0-9]|[01]?[0-9][0-9]?)~.(?:25[0-5]|2[0-4][0-9]|[01]?[0-9][0-9]?)(?:/(?:[0-2]?~d|3[0-2]))?~b'')
       (3 / 5) [''ip'', ''ipv4'', ''ipv6'', ''address'']
       None False,
      Raw ''IP_ADDRESS'' ''ipv6''
       (rx CHR ''~'' ''(?:[^:~w])(?:(?:[0-9A-Fa-f]{1,4}:){7}[0-9A-Fa-f]{1,4}|(?:[0-9A-Fa-f]{1,4}:){1,7}:|:(?::[0-9A-Fa-f]{1,4}){1,7}|(?:[0-9A-Fa-f]{1,4}:){1,6}:[0-9A-Fa-f]{1,4}|(?:[0-9A-Fa-f]{1,4}:){1,5}(?::[0-9A-Fa-f]{1,4}){1,2}|(?:[0-9A-Fa-f]{1,4}:){1,4}(?::[0-9A-Fa-f]{1,4}){1,3}|(?:[0-9A-Fa-f]{1,4}:){1,3}(?::[0-9A-Fa-f]{1,4}){1,4}|(?:[0-9A-Fa-f]{1,4}:){1,2}(?::[0-9A-Fa-f]{1,4}){1,5}|[0-9A-Fa-f]{1,4}:(?::[0-9A-Fa-f]{1,4}){1,6}|:(?::[0-9A-Fa-f]{1,4}){1,6})(?:[^:~w]|$)'')
       (3 / 5) [''ip'', ''ipv4'', ''ipv6'']
       None False,
      Raw ''URL'' ''url_bare''
       (rx CHR ''~'' ''https?://[^~s<>"')~]]+'')
       (1 / 2) []
       (Some (valid_url T)) False,
      Raw ''DATE_OF_BIRTH'' ''dob_mdy''
       (rx CHR ''~'' ''~b(?:0?[1-9]|1[0-2])[/~-.](?:0?[1-9]|[12]~d|3[01])[/~-.](?:~d{4}|~d{2})~b'')
       (3 / 10) [''birthday'', ''born'', ''dob'', ''date of birth'', ''birth date'', ''birthdate'']
       None True,
      Raw ''DATE_OF_BIRTH'' ''dob_dmy''
       (rx CHR ''~'' ''~b(?:0?[1-9]|[12]~d|3[01])[/~-.](?:0?[1-9]|1[0-2])[/~-.](?:~d{4}|~d{2})~b'')
       (3 / 10) [''birthday'', ''born'', ''dob'', ''date of birth'', ''birth date'', ''birthdate'']
       None True]\<close>

definition presidio_raws2 :: "unicode_tables \<Rightarrow> raw list" where
  \<open>presidio_raws2 T =
     [Raw ''MAC_ADDRESS'' ''mac_colon_dash''
       (rx CHR ''~'' ''~b[0-9A-Fa-f]{2}:[0-9A-Fa-f]{2}:[0-9A-Fa-f]{2}:[0-9A-Fa-f]{2}:[0-9A-Fa-f]{2}:[0-9A-Fa-f]{2}~b'')
       (3 / 5) [''mac'', ''mac address'', ''hardware address'', ''physical address'', ''ethernet'', ''device'']
       (Some (valid_mac T CHR '':'')) False,
      Raw ''MAC_ADDRESS'' ''mac_colon_dash''
       (rx CHR ''~'' ''~b[0-9A-Fa-f]{2}-[0-9A-Fa-f]{2}-[0-9A-Fa-f]{2}-[0-9A-Fa-f]{2}-[0-9A-Fa-f]{2}-[0-9A-Fa-f]{2}~b'')
       (3 / 5) [''mac'', ''mac address'', ''hardware address'', ''physical address'', ''ethernet'', ''device'']
       (Some (valid_mac T CHR ''-'')) False,
      Raw ''MAC_ADDRESS'' ''mac_cisco_dot''
       (rx CHR ''~'' ''~b[0-9A-Fa-f]{4}~.[0-9A-Fa-f]{4}~.[0-9A-Fa-f]{4}~b'')
       (3 / 5) [''mac'', ''mac address'', ''hardware address'', ''cisco'']
       None False,
      Raw ''US_SSN'' ''us_ssn_dash''
       (rx CHR ''~'' ''~b([0-9]{3})[- .]([0-9]{2})[- .]([0-9]{4})~b'')
       (1 / 2) [''social'', ''security'', ''ssn'', ''ssns'']
       (Some valid_ssn) False,
      Raw ''US_ITIN'' ''us_itin_dash''
       (rx CHR ''~'' ''~b9~d{2}[- ](5~d|6[0-5]|7~d|8[0-8]|9[0-24-9])[- ]~d{4}~b'')
       (1 / 2) [''individual'', ''taxpayer'', ''itin'', ''tax'', ''payer'', ''tin'']
       None False,
      Raw ''US_ITIN'' ''us_itin_bare''
       (rx CHR ''~'' ''~b9~d{2}(5~d|6[0-5]|7~d|8[0-8]|9[0-24-9])~d{4}~b'')
       (3 / 10) [''individual'', ''taxpayer'', ''itin'', ''tax'', ''payer'', ''tin'']
       None True,
      Raw ''US_PASSPORT'' ''us_passport_numeric''
       (rx CHR ''~'' ''~b~d{9}~b'')
       (1 / 20) [''passport'', ''travel'', ''document'', ''us passport'']
       None True,
      Raw ''US_PASSPORT'' ''us_passport_alpha''
       (rx CHR ''~'' ''~b[A-Z]~d{8}~b'')
       (1 / 10) [''passport'', ''travel'', ''document'', ''us passport'']
       None False,
      Raw ''US_DRIVER_LICENSE'' ''us_driver_license''
       (rx CHR ''~'' ''~b(?:[A-Z]~d{3,6}|[A-Z]~d{5,9}|[A-Z]~d{6,8}|[A-Z]~d{4,8}|[A-Z]~d{9,11}|[A-Z]{1,2}~d{5,6}|[A-Z]{2}~d{2,5}|[A-Z]{2}~d{3,7}|~d{2}[A-Z]{3}~d{5,6}|[A-Z]~d{13,14}|[A-Z]~d{18}|[A-Z]~d{6}R|[A-Z]~d{9}|[A-Z]~d{1,12}|~d{9}[A-Z]|[A-Z]{2}~d{6}[A-Z]|~d{8}[A-Z]{2}|~d{3}[A-Z]{2}~d{4}|[A-Z]~d[A-Z]~d[A-Z]|~d{7,8}[A-Z])~b'')
       (3 / 10) [''driver'', ''license'', ''licence'', ''permit'', ''identification'', ''driving'', ''dl'', ''lic'']
       None True,
      Raw ''US_BANK_NUMBER'' ''us_bank_number''
       (rx CHR ''~'' ''~b~d{10,17}~b'')
       (1 / 20) [''account#'', ''acct'', ''bank account'', ''checking'', ''savings'', ''routing number'']
       None True]\<close>

definition presidio_raws3 :: "unicode_tables \<Rightarrow> raw list" where
  \<open>presidio_raws3 T =
     [Raw ''ABA_ROUTING'' ''aba_routing_dashed''
       (rx CHR ''~'' ''~b[0123678]~d{3}-~d{4}-~d~b'')
       (3 / 10) [''aba'', ''routing'', ''bankrouting'', ''transit'']
       (Some valid_aba_dashed) False,
      Raw ''ABA_ROUTING'' ''aba_routing_bare''
       (rx CHR ''~'' ''~b[0123678]~d{8}~b'')
       (1 / 20) [''aba'', ''routing'', ''bankrouting'', ''transit'']
       (Some abaChecksum) True,
      Raw ''MEDICAL_LICENSE'' ''dea_license''
       (rx CHR ''~'' ''~b[ABCDEFGHJKLMPRSTUXabcdefghjklmprstux][a-zA-Z]~d{7}~b'')
       (2 / 5) [''medical'', ''certificate'', ''dea'', ''license'', ''npi'', ''provider'']
       None False,
      Raw ''US_MBI'' ''us_mbi_separated''
       (rx CHR ''~'' ''~b~d[ACDEFGHJKMNPQRTUVWXY][0-9ACDEFGHJKMNPQRTUVWXY]~d-[ACDEFGHJKMNPQRTUVWXY][0-9ACDEFGHJKMNPQRTUVWXY]~d-[ACDEFGHJKMNPQRTUVWXY][ACDEFGHJKMNPQRTUVWXY]~d{2}~b'')
       (1 / 2) [''medicare'', ''mbi'', ''beneficiary'', ''cms'', ''medicaid'']
       None False,
      Raw ''US_MBI'' ''us_mbi_bare''
       (rx CHR ''~'' ''~b~d[ACDEFGHJKMNPQRTUVWXY][0-9ACDEFGHJKMNPQRTUVWXY]~d[ACDEFGHJKMNPQRTUVWXY][0-9ACDEFGHJKMNPQRTUVWXY]~d[ACDEFGHJKMNPQRTUVWXY][ACDEFGHJKMNPQRTUVWXY]~d{2}~b'')
       (3 / 10) [''medicare'', ''mbi'', ''beneficiary'', ''cms'', ''medicaid'']
       None True,
      Raw ''US_NPI'' ''us_npi_separated''
       (rx CHR ''~'' ''~b[12]~d{3}[ -]~d{3}[ -]~d{3}~b'')
       (2 / 5) [''npi'', ''national provider'', ''provider'', ''provider id'', ''taxonomy'']
       None False,
      Raw ''US_NPI'' ''us_npi_bare''
       (rx CHR ''~'' ''~b[12]~d{9}~b'')
       (1 / 10) [''npi'', ''national provider'', ''provider'', ''provider id'', ''taxonomy'']
       None True,
      Raw ''UK_NHS'' ''uk_nhs''
       (rx CHR ''~'' ''~b~d{3}[- ]?~d{3}[- ]?~d{4}~b'')
       (3 / 10) [''national health service'', ''nhs'', ''health services authority'', ''health authority'']
       (Some valid_nhs) True,
      Raw ''UK_NINO'' ''uk_nino''
       (rx CHR ''~'' ''(?i)~b(?!BG|GB|NK|KN|NT|TN|ZZ)[A-CEGHJ-PR-TW-Z][A-CEGHJ-NPR-TW-Z] ?~d{2} ?~d{2} ?~d{2} ?[A-D]~b'')
       (1 / 2) [''national insurance'', ''ni number'', ''nino'']
       None False,
      Raw ''UK_POSTCODE'' ''uk_postcode''
       (rx CHR ''~'' ''~b(?:GIR~s?0AA|[A-PR-UWYZ][0-9][ABCDEFGHJKPSTUW]?~s?[0-9][ABD-HJLNP-UW-Z]{2}|[A-PR-UWYZ][0-9]{2}~s?[0-9][ABD-HJLNP-UW-Z]{2}|[A-PR-UWYZ][A-HK-Y][0-9][ABEHMNPRVWXY]?~s?[0-9][ABD-HJLNP-UW-Z]{2}|[A-PR-UWYZ][A-HK-Y][0-9]{2}~s?[0-9][ABD-HJLNP-UW-Z]{2})~b'')
       (1 / 10) [''postcode'', ''post code'', ''postal code'', ''zip'', ''address'', ''delivery'', ''mailing'']
       None True]\<close>

definition presidio_raws4 :: "unicode_tables \<Rightarrow> raw list" where
  \<open>presidio_raws4 T =
     [Raw ''UK_PASSPORT'' ''uk_passport''
       (rx CHR ''~'' ''~b[A-Z]{2}~d{7}~b'')
       (1 / 10) [''passport'', ''travel document'', ''uk passport'', ''british passport'']
       None True,
      Raw ''UK_DRIVING_LICENCE'' ''uk_driving_licence''
       (rx CHR ''~'' ''~b[A-Z9]{5}~d(?:0[1-9]|1[0-2]|5[1-9]|6[0-2])(?:0[1-9]|[12]~d|3[01])~d[A-Z9]{2}[A-Z0-9][A-Z]{2}~b'')
       (1 / 2) [''driving licence'', ''driving license'', ''driver'', ''dvla'', ''licence number'', ''license number'']
       None False,
      Raw ''CA_SIN'' ''ca_sin''
       (rx CHR ''~'' ''~b[1-79]~d{2}-~d{3}-~d{3}~b'')
       (1 / 2) [''sin'', ''social insurance'', ''canada'']
       (Some valid_sin) False,
      Raw ''CA_SIN'' ''ca_sin''
       (rx CHR ''~'' ''~b[1-79]~d{2} ~d{3} ~d{3}~b'')
       (1 / 2) [''sin'', ''social insurance'', ''canada'']
       (Some valid_sin) False,
      Raw ''AU_TFN'' ''au_tfn''
       (rx CHR ''~'' ''~b~d{3}~s~d{3}~s~d{3}~b'')
       (1 / 10) [''tax file number'', ''tfn'']
       (Some valid_tfn) True,
      Raw ''IN_PAN'' ''in_pan''
       (rx CHR ''~'' ''(?i)~b[A-Z]{3}[ABCFGHLJPT][A-Z]~d{4}[A-Z]~b'')
       (1 / 2) [''permanent account number'', ''pan'', ''income tax'']
       None False,
      Raw ''ES_NIF'' ''es_nif''
       (rx CHR ''~'' ''~b~d{8}[A-Z]~b'')
       (3 / 10) [''dni'', ''nif'', ''identificacion'', ''documento'']
       (Some valid_nif) False,
      Raw ''DE_PASSPORT'' ''de_passport''
       (rx CHR ''~'' ''~b[CFGHJKLMNPRTVWXYZ][CFGHJKLMNPRTVWXYZ0-9]{7}~d~b'')
       (2 / 5) [''reisepass'', ''passport'', ''passnummer'', ''passport number'']
       None True,
      Raw ''SG_NRIC_FIN'' ''sg_nric_fin''
       (rx CHR ''~'' ''(?i)~b[STFGM]~d{7}[A-Z]~b'')
       (1 / 2) [''fin'', ''nric'', ''singapore'']
       None False]\<close>

definition presidio_raws5 :: "unicode_tables \<Rightarrow> raw list" where
  \<open>presidio_raws5 T =
     [Raw ''PERSON_ID'' ''person_id_generic''
       (rx CHR ''~'' ''(?i)(?:customer|employee|member|patient|policy|claim|case|ref(?:erence)?|order|invoice|ticket|tracking|confirmation|transaction)~s*(?:id|no|number|num|#|:)~s*[:=#]?~s*[A-Z0-9~-]{4,20}~b'')
       (1 / 2) []
       None False,
      Raw ''SWIFT_BIC'' ''swift_bic''
       (rx CHR ''~'' ''~b[A-Z]{4}[A-Z]{2}[A-Z0-9]{2}(?:[A-Z0-9]{3})?~b'')
       (3 / 10) [''swift'', ''bic'', ''wire'', ''routing'', ''correspondent'']
       (Some valid_swift) True,
      Raw ''CVV'' ''cvv''
       (rx CHR ''~'' ''(?i)(?:cvv|cvc|cvv2|cvc2|security~s*code|card~s*verification)~s*[:=]?~s*~d{3,4}~b'')
       (3 / 5) [''card'', ''credit'', ''visa'', ''mastercard'', ''amex'', ''expir'', ''cardholder'', ''payment'']
       None True,
      Raw ''PHONE_NUMBER'' ''phone_parens''
       (rx CHR ''~'' ''~(~d{3}~)[~s.~-]?~d{3}[~s.~-]?~d{4}'')
       (7 / 10) []
       None False,
      Raw ''PHONE_NUMBER'' ''phone_dash_dot''
       (rx CHR ''~'' ''~b~d{3}[~-~.]~d{3}[~-~.]~d{4}~b'')
       (3 / 5) []
       None False,
      Raw ''PHONE_NUMBER'' ''phone_intl_plus''
       (rx CHR ''~'' ''~+~d{1,4}[~s~-.]?~(?~d{1,5}~)?[~s~-.]?~d{2,5}[~s~-.]?~d{2,5}[~s~-.]?~d{0,5}'')
       (3 / 5) []
       None False,
      Raw ''PHONE_NUMBER'' ''phone_leading_zero''
       (rx CHR ''~'' ''~b0~d{2,4}[~s.~-]~d{3,8}[~s.~-]?~d{0,6}~b'')
       (1 / 2) [''phone'', ''tel'', ''mobile'', ''cell'', ''call'', ''fax'', ''contact'']
       None False,
      Raw ''PHONE_NUMBER'' ''phone_double_zero''
       (rx CHR ''~'' ''~b00~d{2,4}[~s.~-]~d{2,5}[~s~-.]?~d{3,5}[~s~-.]?~d{0,5}~b'')
       (1 / 2) []
       None False,
      Raw ''AWS_ACCESS_KEY'' ''aws_access_key''
       ''AKIA[0-9A-Z]{16}''
       (9 / 10) []
       None False,
      Raw ''AWS_SECRET_KEY'' ''aws_secret_key''
       (rx CHR ''~'' ''(?i)aws_secret_access_key~s*[=:]~s*[A-Za-z0-9/+=]{40}'')
       (9 / 10) []
       None False]\<close>

definition presidio_raws6 :: "unicode_tables \<Rightarrow> raw list" where
  \<open>presidio_raws6 T =
     [Raw ''GCP_API_KEY'' ''gcp_api_key''
       (rx CHR ''~'' ''AIza[0-9A-Za-z~-_]{35}'')
       (9 / 10) []
       None False,
      Raw ''PRIVATE_KEY'' ''private_key_pem''
       (rx CHR ''~'' ''(?s)-----BEGIN~s+(?:RSA |EC |DSA |OPENSSH )?PRIVATE KEY-----.*?-----END~s+(?:RSA |EC |DSA |OPENSSH )?PRIVATE KEY-----'')
       1 []
       None False,
      Raw ''JWT'' ''jwt''
       (rx CHR ''~'' ''eyJ[A-Za-z0-9_-]+~.eyJ[A-Za-z0-9_-]+~.[A-Za-z0-9_~-]+'')
       (9 / 10) []
       None False,
      Raw ''CONNECTION_STRING'' ''connection_string''
       (rx CHR ''~'' ''(?i)(?:mongodb|postgres|mysql|redis|amqp):~/~/[^~s]+'')
       (4 / 5) []
       None False,
      Raw ''GENERIC_SECRET'' ''generic_secret_kv''
       (rx CHR ''~'' ''(?i)(?:password|secret|token|api_key|apikey)~s*[=:]~s*['"]?[A-Za-z0-9/+=~-_]{8,}['"]?'')
       (7 / 10) []
       None False,
      Raw ''GENERIC_SECRET'' ''generic_secret_pwd''
       (rx CHR ''~'' ''(?i)(?:password|passwd|pwd)~s*[=:]~s*['"]?[^~s'"]{4,}['"]?'')
       (3 / 5) []
       None False,
      Raw ''PASSWORD'' ''password_prose''
       (rx CHR ''~'' ''(?i)(?:password|passwd|pwd|passcode)~s*(?:is|was|:)~s*(?!(?:valid|invalid|temporary|required|optional|incorrect|correct|wrong|right|expired|changed|reset|secure|strong|weak|empty|null|blank|missing|set|enabled|disabled|locked|unlocked)~b)[^~s,;]{4,40}'')
       (7 / 10) []
       None False,
      Raw ''IMEI'' ''imei''
       (rx CHR ''~'' ''~b~d{2}-~d{6}-~d{6}-~d{1}~b'')
       (7 / 10) []
       None False,
      Raw ''CC_EXPIRY'' ''cc_expiry''
       (rx CHR ''~'' ''~b(?:0[1-9]|1[0-2])~/(?:2[0-9]|3[0-9])~b'')
       (2 / 5) [''card'', ''credit'', ''expir'', ''exp'', ''valid'']
       None False,
      Raw ''INSURANCE_ID'' ''insurance_id''
       (rx CHR ''~'' ''(?i)(?:insurance|policy|health~s*plan|member)~s*(?:no|number|id|#|:)~s*[A-Z]{0,3}~d{6,12}~b'')
       (3 / 5) []
       None False]\<close>

definition presidio_raws7 :: "unicode_tables \<Rightarrow> raw list" where
  \<open>presidio_raws7 T =
     [Raw ''REGISTRATION_ID'' ''registration_id_generic''
       (rx CHR ''~'' ''(?i)(?:student|registration|reg|enrollment)~s*(?:no|number|id|#|:)~s*(?=[A-Z0-9~-]*~d)[A-Z0-9~-]{5,15}~b'')
       (3 / 5) []
       None False,
      Raw ''IBAN_CODE'' ''iban_simple''
       (rx CHR ''~'' ''~b[A-Z]{2}~d{2}[A-Z0-9]{4}~d{7}[A-Z0-9]{0,16}~b'')
       (1 / 2) [''iban'', ''bank'', ''account'']
       None False,
      Raw ''CREDIT_CARD'' ''credit_card_4x4''
       (rx CHR ''~'' ''~b~d{4}[~s~-]~d{4}[~s~-]~d{4}[~s~-]~d{4}~b'')
       (7 / 10) []
       None False,
      Raw ''HEALTH_PLAN_ID'' ''health_plan_id''
       (rx CHR ''~'' ''(?i)(?:health~s*plan|beneficiary|hpb|hic|hicn|subscriber)~s*(?:id|no|number|num|#|:)~s*[:=#]?~s*[A-Z0-9~-]{6,15}~b'')
       (7 / 10) []
       None False,
      Raw ''MEDICAL_RECORD'' ''medical_record_mrn''
       (rx CHR ''~'' ''(?i)(?:medical~s*record|mrn|chart|patient~s*id|medical~s*id)~s*(?:no|number|num|#|:)?~s*[:=#]?~s*(?=[A-Z0-9~-]*~d)[A-Z0-9~-]{4,15}~b'')
       (7 / 10) []
       None False,
      Raw ''BIOMETRIC_ID'' ''biometric_id''
       (rx CHR ''~'' ''(?i)(?:biometric|fingerprint|face~s*id|retina|iris)~s*(?:id|hash|data|scan|template|no|number|#|:)~s*[:=#]?~s*(?=[A-Za-z0-9~-_]*~d)[A-Za-z0-9~-_]{8,64}~b'')
       (3 / 5) []
       None False,
      Raw ''LICENSE_PLATE'' ''license_plate''
       (rx CHR ''~'' ''(?i)(?:license~s*plate|plate~s*(?:no|number|#)|vehicle~s*(?:reg|registration)|vrn)~s*[:=#]?~s*[A-Z0-9]{2,3}[~s~-]?[A-Z0-9]{2,4}[~s~-]?[A-Z0-9]{1,4}~b'')
       (3 / 5) []
       None False,
      Raw ''URL_WITH_TOKEN'' ''url_with_token''
       (rx CHR ''~'' ''https?://[^~s<>"')~]]*[?&](?:token|session|auth|key|api_key|access_token|sid|csrf|jwt)=[^~s<>"')~]&]+'')
       (4 / 5) []
       None False,
      Raw ''US_SSN'' ''us_ssn_dash''
       (rx CHR ''~'' ''~b~d{3}-~d{2}-~d{4}~b'')
       (1 / 2) [''social'', ''security'', ''ssn'']
       None False,
      Raw ''US_SSN'' ''us_ssn_space''
       (rx CHR ''~'' ''~b~d{3}~s~d{2}~s~d{4}~b'')
       (1 / 2) [''social'', ''security'', ''ssn'']
       None False]\<close>

definition presidio_raws :: "unicode_tables \<Rightarrow> raw list" where
  "presidio_raws T =
     presidio_raws1 T @ presidio_raws2 T @ presidio_raws3 T @ presidio_raws4 T @ presidio_raws5 T @ presidio_raws6 T @ presidio_raws7 T"

subsection \<open>The scanner\<close>

record patternDef =
  pd_label :: string
  pd_ruleID :: string
  pd_re :: regexp
  pd_score :: real
  pd_context :: "string list"
  pd_validate :: "(string \<Rightarrow> bool) option"
  pd_contextReq :: bool

text \<open>The loop of \<open>compilePatterns\<close>; a pattern that does not compile is left out silently.\<close>

fun compile_raws :: "(string \<Rightarrow> bool) \<Rightarrow> raw list \<Rightarrow> patternDef list" where
  "compile_raws enabled [] = []"
| "compile_raws enabled (d # ds) =
     (case Compile (raw_pattern d) of
        None \<Rightarrow> compile_raws enabled ds
      | Some re \<Rightarrow>
          if raw_ruleID d \<noteq> [] \<and> \<not> enabled (raw_ruleID d) then compile_raws enabled ds
          else \<lparr>pd_label = raw_label d, pd_ruleID = raw_ruleID d, pd_re = re, pd_score = raw_score d,
                pd_context = raw_context d, pd_validate = raw_validate d,
                pd_contextReq = raw_contextReq d\<rparr> # compile_raws enabled ds)"

definition compilePatterns :: "unicode_tables \<Rightarrow> (string \<Rightarrow> bool) \<Rightarrow> patternDef list" where
  "compilePatterns T enabled = compile_raws enabled (presidio_raws T)"

record presidio =
  presidio_state :: "patternDef list option"

definition rebuild :: "unicode_tables \<Rightarrow> (string \<Rightarrow> bool) \<Rightarrow> presidio" where
  "rebuild T enabled = \<lparr>presidio_state = Some (compilePatterns T enabled)\<rparr>"

definition presidio_NewWithEnabled :: "unicode_tables \<Rightarrow> (string \<Rightarrow> bool) \<Rightarrow> presidio" where
  "presidio_NewWithEnabled T enabled = rebuild T enabled"

definition presidio_New :: "unicode_tables \<Rightarrow> presidio" where
  "presidio_New T = presidio_NewWithEnabled T (\<lambda>_. True)"

definition presidio_Reconfigure :: "unicode_tables \<Rightarrow> presidio \<Rightarrow> (string \<Rightarrow> bool) \<Rightarrow> presidio" where
  "presidio_Reconfigure T s enabled = rebuild T enabled"

text \<open>
  The part of \<open>Scan\<close> for one match: \<open>None\<close> is a panic, \<open>Some None\<close> a match that is dropped.
\<close>

definition context_score :: "patternDef \<Rightarrow> string \<Rightarrow> int \<Rightarrow> int \<Rightarrow> real option option" where
  "context_score p lower a b =
     (if pd_context p = [] then Some (Some (pd_score p))
      else
        (let windowStart = (if a - 100 < 0 then 0 else a - 100);
             windowEnd = (if b + 100 > go_len lower then go_len lower else b + 100)
         in case go_slice lower windowStart windowEnd of
              None \<Rightarrow> None
            | Some window \<Rightarrow>
                if list_ex (\<lambda>ctx. Contains window ctx) (pd_context p)
                then Some (Some (if pd_score p + 35 / 100 > 1 then 1 else pd_score p + 35 / 100))
                else if pd_contextReq p then Some None
                else Some (Some (pd_score p))))"

definition scan_match :: "patternDef \<Rightarrow> string \<Rightarrow> string \<Rightarrow> int \<times> int \<Rightarrow> finding option option" where
  "scan_match p text lower m =
     (let (a, b) = m
      in case go_slice text a b of
           None \<Rightarrow> None
         | Some matched \<Rightarrow>
             if (case pd_validate p of None \<Rightarrow> False | Some v \<Rightarrow> \<not> v matched) then Some None
             else (case context_score p lower a b of
                     None \<Rightarrow> None
                   | Some None \<Rightarrow> Some None
                   | Some (Some score) \<Rightarrow>
                       if score < 3 / 10 then Some None
                       else Some (Some \<lparr>Label = pd_label p, Value = matched, Start = a, End = b,
                                        Confidence = score, Layer = ''presidio''\<rparr>)))"

fun scan_matches :: "patternDef \<Rightarrow> string \<Rightarrow> string \<Rightarrow> (int \<times> int) list \<Rightarrow> finding list option" where
  "scan_matches p text lower [] = Some []"
| "scan_matches p text lower (m # ms) =
     (case scan_match p text lower m of
        None \<Rightarrow> None
      | Some r \<Rightarrow>
          map_option (\<lambda>fs. (case r of None \<Rightarrow> fs | Some f \<Rightarrow> f # fs)) (scan_matches p text lower ms))"

fun scan_patterns :: "patternDef list \<Rightarrow> string \<Rightarrow> string \<Rightarrow> finding list option" where
  "scan_patterns [] text lower = Some []"
| "scan_patterns (p # ps) text lower =
     (case scan_matches p text lower (FindAllStringIndex (pd_re p) text) of
        None \<Rightarrow> None
      | Some fs \<Rightarrow> map_option (\<lambda>gs. fs @ gs) (scan_patterns ps text lower))"

definition presidio_Scan :: "unicode_tables \<Rightarrow> presidio \<Rightarrow> string \<Rightarrow> scan_outcome" where
  "presidio_Scan T s text =
     (case presidio_state s of
        None \<Rightarrow> ScanOk []
      | Some patterns \<Rightarrow>
          (case scan_patterns patterns text (ToLower T text) of
             None \<Rightarrow> ScanPanic
           | Some fs \<Rightarrow> ScanOk fs))"

definition presidio_layer :: "unicode_tables \<Rightarrow> presidio \<Rightarrow> layer" where
  "presidio_layer T s =
     \<lparr>layer_Name = ''presidio'', layer_Ready = True, layer_Scan = presidio_Scan T s,
      layer_Reconfigure = Some (\<lambda>enabled. presidio_Scan T (presidio_Reconfigure T s enabled))\<rparr>"

subsection \<open>The contract of the layer\<close>

lemma go_slice_SomeD: "go_slice xs a b = Some ys \<Longrightarrow> 0 \<le> a \<and> a \<le> b \<and> b \<le> go_len xs \<and> ys = seg xs a b"
  by (auto simp: go_slice_def split: if_splits)

lemma scan_match_props:
  assumes "scan_match p text lower m = Some (Some f)"
  shows "located text f \<and> 3 / 10 \<le> Confidence f \<and> Confidence f \<le> max 1 (pd_score p) \<and>
    Layer f = ''presidio'' \<and> Label f = pd_label p"
  using assms
  by (auto simp: scan_match_def context_score_def Let_def located_def in_range_def split_beta
      dest!: go_slice_SomeD split: option.splits if_splits)

lemma scan_matches_props:
  "scan_matches p text lower ms = Some fs \<Longrightarrow> f \<in> set fs \<Longrightarrow>
   \<exists>m \<in> set ms. scan_match p text lower m = Some (Some f)"
  by (induction ms arbitrary: fs) (force split: option.splits)+

lemma scan_patterns_props:
  "scan_patterns ps text lower = Some fs \<Longrightarrow> f \<in> set fs \<Longrightarrow>
   \<exists>p \<in> set ps. \<exists>m \<in> set (FindAllStringIndex (pd_re p) text). scan_match p text lower m = Some (Some f)"
  by (induction ps arbitrary: fs) (fastforce split: option.splits dest!: scan_matches_props)+

lemma presidio_finding:
  assumes "presidio_Scan T s text = ScanOk fs" "f \<in> set fs"
  shows "\<exists>ps. presidio_state s = Some ps \<and> (\<exists>p \<in> set ps. \<exists>m \<in> set (FindAllStringIndex (pd_re p) text).
    scan_match p text (ToLower T text) m = Some (Some f))"
  using assms by (auto simp: presidio_Scan_def split: option.splits dest: scan_patterns_props)

interpretation presidio: exact_layer "presidio_Scan T s" for T s
  by unfold_locales (auto dest!: presidio_finding scan_match_props simp: located_def)

text \<open>All matches are answered when no window panics.\<close>

lemma context_score_total:
  assumes "0 \<le> a" "a \<le> b" "b \<le> go_len lower"
  shows "context_score p lower a b \<noteq> None"
  using assms by (auto simp: context_score_def Let_def go_slice_def)

lemma scan_match_total:
  assumes "0 \<le> a" "a \<le> b" "b \<le> go_len text" "go_len lower = go_len text"
  shows "scan_match p text lower (a, b) \<noteq> None"
  using assms context_score_total [of a b lower p]
  by (auto simp: scan_match_def go_slice_Some split: option.split)

lemma scan_matches_total:
  "(\<And>m. m \<in> set ms \<Longrightarrow> scan_match p text lower m \<noteq> None) \<Longrightarrow> scan_matches p text lower ms \<noteq> None"
  by (induction ms) (auto split: option.split)

lemma scan_patterns_total:
  assumes "go_len lower = go_len text"
  shows "scan_patterns ps text lower \<noteq> None"
proof (induction ps)
  case (Cons p ps)
  have "scan_match p text lower m \<noteq> None" if "m \<in> set (FindAllStringIndex (pd_re p) text)" for m
    using scan_match_total [of "fst m" "snd m" "text" lower p] that assms
      FindAll_props [of "fst m" "snd m" "pd_re p" "text"] by simp
  then have "scan_matches p text lower (FindAllStringIndex (pd_re p) text) \<noteq> None"
    by (rule scan_matches_total)
  with Cons show ?case by (auto split: option.split)
qed simp

lemma presidio_no_panic:
  assumes "ascii text"
  shows "presidio_Scan T s text \<noteq> ScanPanic"
proof -
  have "scan_patterns ps text (ToLower T text) \<noteq> None" for ps
    by (rule scan_patterns_total) (simp add: go_len_def length_ToLower_ascii assms)
  then show ?thesis by (auto simp: presidio_Scan_def simp del: not_None_eq split: option.split)
qed

text \<open>Every match that is not dropped is among the findings.\<close>

lemma scan_matches_complete:
  "scan_matches p text lower ms = Some fs \<Longrightarrow> m \<in> set ms \<Longrightarrow>
   \<exists>r. scan_match p text lower m = Some r \<and> (\<forall>f. r = Some f \<longrightarrow> f \<in> set fs)"
  by (induction ms arbitrary: fs) (auto split: option.splits)

lemma scan_patterns_complete:
  "scan_patterns ps text lower = Some fs \<Longrightarrow> p \<in> set ps \<Longrightarrow> m \<in> set (FindAllStringIndex (pd_re p) text) \<Longrightarrow>
   \<exists>r. scan_match p text lower m = Some r \<and> (\<forall>f. r = Some f \<longrightarrow> f \<in> set fs)"
  by (induction ps arbitrary: fs) (fastforce split: option.splits dest!: scan_matches_complete)+

end
