(* ===== verification/Entropy.thy ===== *)
theory Entropy
  imports Redactor GoStrings
begin

unbundle bit_operations_syntax

text \<open>
  The entropy layer: \<open>internal/scanner/entropy/entropy.go\<close>.

  Entropies are exact real numbers here; the code computes them with floating point. The text is
  split into tokens by runes, and the positions of a token are indices into the runes, although
  a finding's positions count bytes. They lie inside the text all the same, so the layer
  respects the contract \<open>bounded_layer\<close>; on ASCII texts the two counts agree and the layer is exact.
  On other texts the wrong bytes are redacted (\<open>entropy_misplaces_findings\<close>).

  \<open>shannonEntropy\<close> satisfies the laws of entropy: it lies between zero and the logarithm of the
  number of runes, which it reaches exactly for runes that are all different.
\<close>

subsection \<open>State and operations\<close>

record entropyConfig =
  keywordGated :: bool
  unconditional :: bool

record entropy_scanner =
  threshold :: real
  minLength :: int
  ent_config :: entropyConfig

definition entropy_New :: "real \<Rightarrow> int \<Rightarrow> entropy_scanner" where
  "entropy_New th n = \<lparr>threshold = th, minLength = n,
     ent_config = \<lparr>keywordGated = True, unconditional = False\<rparr>\<rparr>"

definition SetEnabled :: "entropy_scanner \<Rightarrow> bool \<Rightarrow> bool \<Rightarrow> entropy_scanner" where
  "SetEnabled s kw un = s\<lparr>ent_config := \<lparr>keywordGated = kw, unconditional = un\<rparr>\<rparr>"

definition entropy_Reconfigure :: "entropy_scanner \<Rightarrow> (string \<Rightarrow> bool) \<Rightarrow> entropy_scanner" where
  "entropy_Reconfigure s enabled =
     SetEnabled s (enabled ''entropy_keyword_gated'') (enabled ''entropy_unconditional'')"

record token =
  tok_value :: string
  tok_start :: int
  tok_end :: int

definition isTokenChar :: "unicode_tables \<Rightarrow> nat \<Rightarrow> bool" where
  "isTokenChar T r \<longleftrightarrow> rune_IsLetter T r \<or> rune_IsDigit T r \<or> r = 43 \<or> r = 47 \<or> r = 61 \<or> r = 45 \<or> r = 95"

definition char_class :: "unicode_tables \<Rightarrow> nat \<Rightarrow> nat" where
  "char_class T r =
     (if rune_IsUpper T r then 1 else if rune_IsLower T r then 2 else if rune_IsDigit T r then 4 else 8)"

text \<open>The loop that counts the bits of \<open>classes\<close>.\<close>

fun bit_count :: "nat \<Rightarrow> nat" where
  "bit_count n = (if n = 0 then 0 else (n AND 1) + bit_count (n div 2))"

declare bit_count.simps [simp del]

definition hasCharVariety :: "unicode_tables \<Rightarrow> string \<Rightarrow> bool" where
  "hasCharVariety T s \<longleftrightarrow> bit_count (foldl (\<lambda>classes r. classes OR char_class T r) 0 (runes s)) \<ge> 2"

text \<open>The loop of \<open>extractTokens\<close> from rune \<open>i\<close> on.\<close>

function extract_from :: "unicode_tables \<Rightarrow> int \<Rightarrow> int \<Rightarrow> nat list \<Rightarrow> token list" where
  "extract_from T minLen i [] = []"
| "extract_from T minLen i (r # rs) =
     (if isTokenChar T r then
        (let run = takeWhile (isTokenChar T) (r # rs); j = i + go_len run; val = runes_string run
         in (if go_len val \<ge> minLen \<and> hasCharVariety T val
             then [\<lparr>tok_value = val, tok_start = i, tok_end = j\<rparr>] else []) @
            extract_from T minLen j (dropWhile (isTokenChar T) (r # rs)))
      else extract_from T minLen (i + 1) rs)"
  by pat_completeness auto
termination
  by (relation "measure (\<lambda>(T, m, i, rs). length rs)") (auto simp: less_Suc_eq_le length_dropWhile_le)

definition extractTokens :: "unicode_tables \<Rightarrow> string \<Rightarrow> int \<Rightarrow> token list" where
  "extractTokens T text minLen = extract_from T minLen 0 (runes text)"

definition secretContextWords :: "string list" where
  "secretContextWords =
     [''password'', ''passwd'', ''pwd'', ''secret'', ''token'', ''key'', ''api_key'',
      ''apikey'', ''credential'', ''private'', ''auth'', ''bearer'', ''access_key'',
      ''secret_key'', ''session'', ''cookie'', ''encrypt'', ''decrypt'', ''hash'',
      ''salt'', ''cipher'', ''signing'', ''hmac'']"

definition hasSecretContext :: "unicode_tables \<Rightarrow> string \<Rightarrow> int \<Rightarrow> int \<Rightarrow> bool option" where
  "hasSecretContext T text start en =
     (let lower = ToLower T text;
          windowStart = (if start - 80 < 0 then 0 else start - 80);
          windowEnd = (if en + 80 > go_len lower then go_len lower else en + 80)
      in case go_slice lower windowStart windowEnd of
           None \<Rightarrow> None
         | Some window \<Rightarrow> Some (list_ex (Contains window) secretContextWords))"

definition isCamelCase :: "unicode_tables \<Rightarrow> string \<Rightarrow> bool" where
  "isCamelCase T s \<longleftrightarrow>
     list_ex (rune_IsUpper T) (runes s) \<and>
     list_ex (\<lambda>r. \<not> rune_IsUpper T r \<and> rune_IsLower T r) (runes s) \<and>
     \<not> list_ex (\<lambda>r. \<not> rune_IsUpper T r \<and> \<not> rune_IsLower T r \<and> \<not> rune_IsLetter T r) (runes s)"

definition pathIndicators :: "string list" where
  "pathIndicators = [''org/'', ''com/'', ''xml'', ''schema'', ''xbrl'', ''spec/'', ''http'', ''www'', ''ftp'']"

definition isLikelyNonSecret :: "unicode_tables \<Rightarrow> string \<Rightarrow> bool" where
  "isLikelyNonSecret T s =
     (let lower = ToLower T s; xCount = CountByte (ToUpper T s) CHR ''X''; parts = SplitByte s CHR ''-''
      in if list_ex (Contains lower) pathIndicators then True
         else if CountByte s CHR ''/'' \<ge> 2 then True
         else if HasPrefix s ''/'' then True
         else if xCount > 3 \<and> real_of_int xCount / real_of_int (go_len s) > 1 / 5 then True
         else if go_len parts \<ge> 2 \<and> list_all (\<lambda>p. list_all (rune_IsLetter T) (runes p)) parts then True
         else if isCamelCase T s then True
         else if CountByte s CHR ''_'' \<ge> 2 \<or> Contains s ''__'' then True
         else if list_all (rune_IsUpper T) (runes s) \<and> go_len s < 20 then True
         else if HasPrefix s ''REDACTED-'' then True
         else False)"

definition shannonEntropy :: "string \<Rightarrow> real" where
  "shannonEntropy s =
     (if s = [] then 0
      else sum_list (map (\<lambda>r. let p = real (count_list (runes s) r) / real (length (runes s))
                               in - (p * log 2 p)) (remdups (runes s))))"

text \<open>The body of the loop of \<open>Scan\<close> for one token.\<close>

definition scan_token ::
  "unicode_tables \<Rightarrow> entropy_scanner \<Rightarrow> string \<Rightarrow> token \<Rightarrow> finding option option" where
  "scan_token T s text tok =
     (if isLikelyNonSecret T (tok_value tok) then Some None
      else let ent = shannonEntropy (tok_value tok); cfg = ent_config s
           in if ent < threshold s then Some None
              else case hasSecretContext T text (tok_start tok) (tok_end tok) of
                     None \<Rightarrow> None
                   | Some hasContext \<Rightarrow>
                       (let unconditionalFire = (ent \<ge> 9 / 2 \<and> unconditional cfg);
                            keywordFire = (keywordGated cfg \<and> hasContext)
                        in if \<not> unconditionalFire \<and> \<not> keywordFire then Some None
                           else Some (Some \<lparr>Label = ''ENTROPY-SECRET'', Value = tok_value tok,
                                  Start = tok_start tok, End = tok_end tok,
                                  Confidence = min (ent / 6) 1, Layer = ''entropy''\<rparr>)))"

fun scan_tokens :: "unicode_tables \<Rightarrow> entropy_scanner \<Rightarrow> string \<Rightarrow> token list \<Rightarrow> finding list option" where
  "scan_tokens T s text [] = Some []"
| "scan_tokens T s text (tok # toks) =
     (case scan_token T s text tok of
        None \<Rightarrow> None
      | Some r \<Rightarrow>
          map_option (\<lambda>fs. (case r of None \<Rightarrow> fs | Some f \<Rightarrow> f # fs)) (scan_tokens T s text toks))"

definition entropy_Scan :: "unicode_tables \<Rightarrow> entropy_scanner \<Rightarrow> string \<Rightarrow> scan_outcome" where
  "entropy_Scan T s text =
     (case scan_tokens T s text (extractTokens T text (minLength s)) of
        None \<Rightarrow> ScanPanic
      | Some fs \<Rightarrow> ScanOk fs)"

definition entropy_layer :: "unicode_tables \<Rightarrow> entropy_scanner \<Rightarrow> layer" where
  "entropy_layer T s =
     \<lparr>layer_Name = ''entropy'', layer_Ready = True, layer_Scan = entropy_Scan T s,
      layer_Reconfigure = Some (\<lambda>enabled. entropy_Scan T (entropy_Reconfigure s enabled))\<rparr>"

subsection \<open>The laws of entropy\<close>

definition rune_prob :: "string \<Rightarrow> nat \<Rightarrow> real" where
  "rune_prob s r = real (count_list (runes s) r) / real (length (runes s))"

lemma runes_nonempty: "s \<noteq> [] \<Longrightarrow> runes s \<noteq> []"
  by (simp add: runes_rec)

lemma shannonEntropy_sum:
  "s \<noteq> [] \<Longrightarrow> shannonEntropy s = (\<Sum>r \<in> set (runes s). - (rune_prob s r * log 2 (rune_prob s r)))"
  by (simp add: shannonEntropy_def rune_prob_def Let_def sum_list_distinct_conv_sum_set)

lemma rune_prob_pos:
  assumes "r \<in> set (runes s)"
  shows "0 < rune_prob s r"
proof -
  have "count_list (runes s) r \<noteq> 0" using assms by (simp add: count_list_0_iff)
  moreover have "runes s \<noteq> []" using assms by auto
  ultimately show ?thesis by (simp add: rune_prob_def)
qed

lemma rune_prob_sum: "s \<noteq> [] \<Longrightarrow> (\<Sum>r \<in> set (runes s). rune_prob s r) = 1"
  using runes_nonempty [of s]
  by (simp add: rune_prob_def sum_divide_distrib [symmetric] sum_count_set flip: of_nat_sum)

lemma rune_prob_le_1: "rune_prob s r \<le> 1"
  using count_le_length [of "runes s" r] by (auto simp: rune_prob_def divide_le_eq_1)

lemma shannonEntropy_nonneg: "0 \<le> shannonEntropy s"
proof (cases "s = []")
  case False
  have "0 \<le> - (rune_prob s r * log 2 (rune_prob s r))" if "r \<in> set (runes s)" for r
    using rune_prob_pos [OF that] rune_prob_le_1 [of s r]
    by (simp add: mult_nonneg_nonpos)
  then show ?thesis unfolding shannonEntropy_sum [OF False] by (rule sum_nonneg)
qed (simp add: shannonEntropy_def)

text \<open>Gibbs' inequality against the uniform distribution.\<close>

lemma shannonEntropy_le:
  assumes "s \<noteq> []"
  shows "shannonEntropy s \<le> log 2 (real (card (set (runes s))))"
proof -
  let ?k = "real (card (set (runes s)))" and ?p = "rune_prob s"
  have k: "0 < ?k" using runes_nonempty [OF assms] by (simp add: card_gt_0_iff)
  have "?p r * ln (1 / (?p r * ?k)) \<le> 1 / ?k - ?p r" if "r \<in> set (runes s)" for r
  proof -
    have p: "0 < ?p r" by (rule rune_prob_pos [OF that])
    have "ln (1 / (?p r * ?k)) \<le> 1 / (?p r * ?k) - 1" using p k by (intro ln_le_minus_one) simp
    then have "?p r * ln (1 / (?p r * ?k)) \<le> ?p r * (1 / (?p r * ?k) - 1)" using p by simp
    also have "\<dots> = 1 / ?k - ?p r" using p by (simp add: field_simps)
    finally show ?thesis .
  qed
  then have "(\<Sum>r \<in> set (runes s). ?p r * ln (1 / (?p r * ?k))) \<le> (\<Sum>r \<in> set (runes s). 1 / ?k - ?p r)"
    by (rule sum_mono)
  also have "\<dots> = 0" using runes_nonempty [OF assms] by (simp add: sum_subtractf rune_prob_sum [OF assms])
  finally have le: "(\<Sum>r \<in> set (runes s). ?p r * ln (1 / (?p r * ?k))) \<le> 0" .
  have "?p r * ln (1 / (?p r * ?k)) = - (?p r * ln (?p r)) - ?p r * ln ?k" if "r \<in> set (runes s)" for r
    using rune_prob_pos [OF that] k runes_nonempty [OF assms] by (simp add: ln_div ln_mult algebra_simps)
  then have "(\<Sum>r \<in> set (runes s). ?p r * ln (1 / (?p r * ?k))) =
      (\<Sum>r \<in> set (runes s). - (?p r * ln (?p r))) - ln ?k"
    by (simp add: sum_subtractf sum_distrib_right [symmetric] rune_prob_sum [OF assms])
  with le have "(\<Sum>r \<in> set (runes s). - (?p r * ln (?p r))) / ln 2 \<le> ln ?k / ln 2"
    by (intro divide_right_mono) auto
  then show ?thesis
    by (simp add: shannonEntropy_sum [OF assms] log_def sum_divide_distrib sum_negf)
qed

lemma count_list_distinct: "distinct xs \<Longrightarrow> x \<in> set xs \<Longrightarrow> count_list xs x = 1"
  by (induction xs) auto

lemma shannonEntropy_distinct:
  assumes "s \<noteq> []" "distinct (runes s)"
  shows "shannonEntropy s = log 2 (real (length (runes s)))"
proof -
  let ?n = "real (length (runes s))"
  have n: "0 < ?n" using runes_nonempty [OF assms(1)] by simp
  have "rune_prob s r = 1 / ?n" if "r \<in> set (runes s)" for r
    using that assms(2) by (simp add: rune_prob_def count_list_distinct)
  then have "shannonEntropy s = (\<Sum>r \<in> set (runes s). log 2 ?n / ?n)"
    unfolding shannonEntropy_sum [OF assms(1)] using n by (intro sum.cong) (auto simp: log_divide)
  then show ?thesis using n assms(2) by (simp add: distinct_card)
qed

subsection \<open>Tokens\<close>

lemma extract_from_props:
  "tok \<in> set (extract_from T m i rs) \<Longrightarrow>
   \<exists>a run b. rs = a @ run @ b \<and> tok_value tok = runes_string run \<and>
     tok_start tok = i + go_len a \<and> tok_end tok = i + go_len a + go_len run"
proof (induction T m i rs rule: extract_from.induct)
  case (2 T m i r rs)
  show ?case
  proof (cases "isTokenChar T r")
    case True
    let ?run = "takeWhile (isTokenChar T) (r # rs)" and ?rest = "dropWhile (isTokenChar T) (r # rs)"
    have split: "r # rs = ?run @ ?rest" by (rule takeWhile_dropWhile_id [symmetric])
    from "2.prems" True consider
        (here) "tok = \<lparr>tok_value = runes_string ?run, tok_start = i, tok_end = i + go_len ?run\<rparr>"
      | (later) "tok \<in> set (extract_from T m (i + go_len ?run) ?rest)"
      by (auto simp: Let_def split: if_splits)
    then show ?thesis
    proof cases
      case here
      then show ?thesis using split by (intro exI [of _ "[]"] exI [of _ ?run] exI [of _ ?rest]) simp
    next
      case later
      from "2.IH"(1) [OF True refl refl refl this] obtain a run b where
        "?rest = a @ run @ b" "tok_value tok = runes_string run"
        "tok_start tok = i + go_len ?run + go_len a" "tok_end tok = i + go_len ?run + go_len a + go_len run"
        by blast
      then have "r # rs = (?run @ a) @ run @ b \<and> tok_value tok = runes_string run \<and>
          tok_start tok = i + go_len (?run @ a) \<and> tok_end tok = i + go_len (?run @ a) + go_len run"
        using split by (simp only: append_assoc go_len_append add.assoc)
      then show ?thesis by blast
    qed
  next
    case False
    then obtain a run b where "rs = a @ run @ b" "tok_value tok = runes_string run"
      "tok_start tok = i + 1 + go_len a" "tok_end tok = i + 1 + go_len a + go_len run"
      using "2.IH"(2) "2.prems" by auto
    then show ?thesis by (intro exI [of _ "r # a"] exI [of _ run] exI [of _ b]) simp
  qed
qed simp

lemma length_runes_le: "length (runes s) \<le> length s"
proof (induction "length s" arbitrary: s rule: less_induct)
  case less
  show ?case
  proof (cases "s = []")
    case False
    note w = decode_rune_width [OF False]
    have "length (runes (drop (snd (decode_rune s)) s)) \<le> length (drop (snd (decode_rune s)) s)"
      using w False diff_less [of "snd (decode_rune s)" "length s"] by (intro less) simp
    then show ?thesis unfolding runes_rec [OF False] using w by (simp, linarith)
  qed simp
qed

lemma scan_tokens_props:
  "scan_tokens T s text toks = Some fs \<Longrightarrow> f \<in> set fs \<Longrightarrow>
   \<exists>tok \<in> set toks. scan_token T s text tok = Some (Some f)"
  by (induction toks arbitrary: fs) (force split: option.splits)+

lemma scan_token_props:
  "scan_token T s text tok = Some (Some f) \<Longrightarrow>
   Value f = tok_value tok \<and> Start f = tok_start tok \<and> End f = tok_end tok"
  by (auto simp: scan_token_def Let_def split: if_splits option.splits)

lemma entropy_finding:
  assumes "entropy_Scan T s text = ScanOk fs" "f \<in> set fs"
  shows "\<exists>a run b. runes text = a @ run @ b \<and> Value f = runes_string run \<and>
    Start f = go_len a \<and> End f = go_len a + go_len run"
proof -
  obtain tok where "tok \<in> set (extractTokens T text (minLength s))" "scan_token T s text tok = Some (Some f)"
    using assms by (auto simp: entropy_Scan_def split: option.splits dest!: scan_tokens_props)
  then show ?thesis
    using extract_from_props [of tok T "minLength s" 0 "runes text"] scan_token_props [of T s "text" tok f]
    by (auto simp: extractTokens_def)
qed

interpretation entropy: bounded_layer "entropy_Scan T s" for T s
proof
  fix "text" fs f assume "entropy_Scan T s text = ScanOk fs" "f \<in> set fs"
  from entropy_finding [OF this] show "in_range text f"
    using length_runes_le [of "text"] by (auto simp: in_range_def go_len_def)
qed

lemma hasSecretContext_ascii:
  assumes "ascii text" "0 \<le> a" "a \<le> b" "b \<le> go_len text"
  shows "hasSecretContext T text a b \<noteq> None"
  using assms length_ToLower_ascii [OF assms(1), of T]
  by (auto simp: hasSecretContext_def Let_def go_slice_def go_len_def)

lemma scan_tokens_total:
  "(\<And>tok. tok \<in> set toks \<Longrightarrow> hasSecretContext T text (tok_start tok) (tok_end tok) \<noteq> None) \<Longrightarrow>
   scan_tokens T s text toks \<noteq> None"
proof (induction toks)
  case (Cons tok toks)
  obtain c where "hasSecretContext T text (tok_start tok) (tok_end tok) = Some c" using Cons.prems [of tok] by auto
  then have "scan_token T s text tok \<noteq> None" by (simp add: scan_token_def Let_def)
  then show ?case using Cons by (auto split: option.split)
qed simp

lemma entropy_no_panic:
  assumes "ascii text"
  shows "entropy_Scan T s text \<noteq> ScanPanic"
proof -
  have "hasSecretContext T text (tok_start tok) (tok_end tok) \<noteq> None"
    if tok: "tok \<in> set (extractTokens T text (minLength s))" for tok
  proof -
    obtain a run b where "runes text = a @ run @ b" "tok_start tok = go_len a" "tok_end tok = go_len a + go_len run"
      using extract_from_props [of tok T "minLength s" 0 "runes text"] tok by (auto simp: extractTokens_def)
    then show ?thesis
      using length_runes_le [of "text"] by (intro hasSecretContext_ascii [OF assms]) (auto simp: go_len_def)
  qed
  then show ?thesis
    using scan_tokens_total [of "extractTokens T text (minLength s)" T "text" s]
    by (auto simp: entropy_Scan_def split: option.split)
qed

lemma entropy_ascii_located:
  assumes "ascii text" "entropy_Scan T s text = ScanOk fs" "f \<in> set fs"
  shows "located text f"
proof -
  obtain a run b where r: "runes text = a @ run @ b" "Value f = runes_string run"
    "Start f = go_len a" "End f = go_len a + go_len run"
    using entropy_finding [OF assms(2,3)] by blast
  have "map of_char text = a @ run @ b" using r(1) by (simp add: runes_ascii assms(1))
  then obtain ta x where x: "text = ta @ x" "map of_char ta = a" "map of_char x = run @ b"
    by (metis map_eq_append_conv)
  then obtain tr tb where "x = tr @ tb" "map of_char tr = run" by (metis map_eq_append_conv)
  with x have t: "text = ta @ tr @ tb" "map of_char ta = a" "map of_char tr = run" by simp_all
  have "list_all (\<lambda>r. r < 0x80) run" using assms(1) t by (auto simp: ascii_def list_all_iff)
  then have "runes_string run = tr" by (simp add: runes_string_ascii flip: t(3))
  moreover have "seg text (Start f) (End f) = tr"
    using r(3,4) t by (auto simp: seg_def go_len_def)
  ultimately show ?thesis
    using r(2) entropy.bounded [OF assms(2,3)] by (simp add: located_def)
qed


subsection \<open>Properties\<close>

text \<open>
  The entropy of a string lies between zero and the logarithm of the number of its
  different runes, and is that logarithm when no rune occurs twice.
\<close>

lemma shannonEntropy_bounds:
  assumes "s \<noteq> []"
  shows "0 \<le> shannonEntropy s \<and> shannonEntropy s \<le> log 2 (real (card (set (runes s)))) \<and>
    (distinct (runes s) \<longrightarrow> shannonEntropy s = log 2 (real (length (runes s))))"
  using shannonEntropy_nonneg shannonEntropy_le [OF assms] shannonEntropy_distinct [OF assms] by blast

lemma shannonEntropy_bounds_example:
  "shannonEntropy ''abcdefgh'' = 3"
proof -
  have r: "runes ''abcdefgh'' = [97, 98, 99, 100, 101, 102, 103, 104]" by code_simp
  have "shannonEntropy ''abcdefgh'' = log 2 8"
    using shannonEntropy_bounds [of "''abcdefgh''"] by (simp add: r)
  also have "log 2 8 = log 2 (2 powr 3)" by simp
  finally show ?thesis by (simp only: log_powr_cancel)
qed

text \<open>
  On ASCII texts the entropy layer returns, and every finding stands in the text at its
  positions.
\<close>

lemma entropy_ascii_exact:
  assumes "ascii text"
  shows "\<exists>fs. entropy_Scan T s text = ScanOk fs \<and> list_all (located text) fs"
proof -
  obtain fs where "entropy_Scan T s text = ScanOk fs"
    using entropy_no_panic [OF assms, of T s] by (auto simp: entropy_Scan_def split: option.splits)
  then show ?thesis using entropy_ascii_located [OF assms] by (auto simp: list_all_iff)
qed

lemma entropy_ascii_exact_example:
  "ascii ''token=aB3'' \<and> (\<exists>fs. entropy_Scan latin1 (entropy_New 3 5) ''token=aB3'' = ScanOk fs \<and>
     list_all (located ''token=aB3'') fs)"
proof -
  have "ascii ''token=aB3''" by (simp add: ascii_def)
  then show ?thesis using entropy_ascii_exact by blast
qed

text \<open>A text with forty two-byte letters before a key.\<close>

definition wide_secret :: string where
  "wide_secret = ''abcdefghijklmnopqrstuvwyz0123456789''"

definition wide_text :: string where
  "wide_text = concat (replicate 40 [CHR 0xC3, CHR 0xA9]) @ '' key '' @ wide_secret"

definition wide_finding :: finding where
  "wide_finding = \<lparr>Label = ''ENTROPY-SECRET'', Value = wide_secret, Start = 45, End = 80,
     Confidence = min (shannonEntropy wide_secret / 6) 1, Layer = ''entropy''\<rparr>"

lemma wide_tokens:
  "extractTokens latin1 wide_text 20 = [\<lparr>tok_value = wide_secret, tok_start = 45, tok_end = 80\<rparr>]"
  by code_simp

lemma wide_checks:
  "\<not> isLikelyNonSecret latin1 wide_secret" "hasSecretContext latin1 wide_text 45 80 = Some True"
  by code_simp+

lemma wide_entropy: "5 \<le> shannonEntropy wide_secret"
proof -
  have "distinct (runes wide_secret)" "length (runes wide_secret) = 35" by code_simp+
  then have "shannonEntropy wide_secret = log 2 35"
    using shannonEntropy_distinct [of wide_secret] by (simp add: wide_secret_def)
  moreover have "log 2 (2 powr 5) \<le> log 2 35" by (intro log_mono) auto
  ultimately show ?thesis by (simp only: log_powr_cancel)
qed

lemma wide_redacted:
  "Redact insertion_sort wide_text [wide_finding] =
     Some (\<lparr>Text = seg wide_text 0 45 @ ''[REDACTED-ENTROPY-SECRET]'' @ drop 80 wide_text,
            Applied = [applied_of wide_finding]\<rparr>, [wide_finding])"
proof -
  have "go_len wide_text = 120" by code_simp
  then have "list_all (in_range wide_text) [wide_finding]" by (simp add: in_range_def wide_finding_def)
  from insertion.Redact_eq [OF this] show ?thesis
    by (simp add: dedup_def insertion_sort_def Let_def placeholder_def wide_finding_def)
qed

text \<open>
  C36. The positions of an entropy finding are indices of runes, which the redactor takes for
  positions of bytes. On a text with forty letters of two bytes before a key, the layer finds
  the key and the redacted text still contains all of it.
\<close>

theorem entropy_misplaces_findings:
  "entropy_Scan latin1 (entropy_New (9 / 2) 20) wide_text = ScanOk [wide_finding] \<and>
   map_option (\<lambda>r. Contains (Text (fst r)) wide_secret) (Redact insertion_sort wide_text [wide_finding]) = Some True"
proof
  show "entropy_Scan latin1 (entropy_New (9 / 2) 20) wide_text = ScanOk [wide_finding]"
    using wide_tokens wide_checks wide_entropy
    by (simp add: entropy_Scan_def scan_token_def Let_def entropy_New_def wide_finding_def)
  show "map_option (\<lambda>r. Contains (Text (fst r)) wide_secret) (Redact insertion_sort wide_text [wide_finding]) = Some True"
    by (simp add: wide_redacted) code_simp
qed

text \<open>The entropy layer reports nothing while both of its rules are off.\<close>

lemma entropy_off:
  assumes "ascii u" "\<not> keywordGated (ent_config s)" "\<not> unconditional (ent_config s)"
  shows "entropy_Scan T s u = ScanOk []"
proof -
  have "scan_token T s u tok \<in> {None, Some None}" for tok
    using assms(2,3) by (simp add: scan_token_def Let_def split: option.split)
  then have "scan_tokens T s u toks \<in> {None, Some []}" for toks
    by (induction toks) (auto split: option.split, metis insertE option.distinct(1) option.inject singletonD)
  then have "scan_tokens T s u (extractTokens T u (minLength s)) \<in> {None, Some []}" .
  then show ?thesis using entropy_no_panic[OF assms(1), of T s] by (auto simp: entropy_Scan_def split: option.splits)
qed

end
