(* ===== verification/Sidecars.thy ===== *)
theory Sidecars
  imports Pipeline GoStrings
begin

text \<open>
  The layers that ask a model server on the same machine: \<open>internal/scanner/gliner/client.go\<close> and
  \<open>internal/scanner/opf/client.go\<close>, and the placeholder layer \<open>internal/scanner/contextgate\<close>.

  The server is a parameter: \<open>detect\<close> gives its reply to a request, which is a failure of the
  request, a status, a body that is no JSON, or a list of entities. What the clients do with the
  entities is modelled in full. They pass the positions of an entity on as they are, so the layer
  respects the contract \<open>bounded_layer\<close> only as far as the server does (\<open>gliner_bounded\<close>).
\<close>

subsection \<open>The server's replies\<close>

record entity =
  ent_Text :: string
  ent_Label :: string
  ent_Start :: int
  ent_End :: int
  ent_Score :: real

datatype detect_reply =
    RequestFailed string
  | StatusReply int
  | BadBody string
  | Entities "entity list"

subsection \<open>GLiNER\<close>

record gliner =
  gl_ready :: bool
  gl_minConfidence :: real
  gl_minLength :: int
  suppressLabels :: "string \<Rightarrow> bool option"

definition labelMinConfidence :: "string \<Rightarrow> real option" where
  "labelMinConfidence =
     map_of [(''PERSON'', 80 / 100), (''PASSWORD'', 85 / 100), (''CREDIT_CARD'', 80 / 100),
       (''ADDRESS'', 75 / 100), (''NATIONAL_ID'', 80 / 100), (''IP_ADDRESS'', 75 / 100),
       (''DATE_OF_BIRTH'', 75 / 100), (''EMAIL'', 70 / 100), (''BANK_ACCOUNT'', 75 / 100)]"

definition gliner_New :: gliner where
  "gliner_New = \<lparr>gl_ready = False, gl_minConfidence = 1 / 2, gl_minLength = 2,
     suppressLabels = map_of [(''ORGANIZATION'', True), (''FINANCIAL_ACCOUNT'', True), (''USERNAME'', True),
       (''LOCATION'', True), (''TAX_ID'', True), (''LICENSE_PLATE'', True)]\<rparr>"

definition WithMinConfidence :: "real \<Rightarrow> gliner \<Rightarrow> gliner" where
  "WithMinConfidence v c = c\<lparr>gl_minConfidence := v\<rparr>"

definition WithMinLength :: "int \<Rightarrow> gliner \<Rightarrow> gliner" where
  "WithMinLength v c = c\<lparr>gl_minLength := v\<rparr>"

definition WithSuppressLabels :: "string list \<Rightarrow> gliner \<Rightarrow> gliner" where
  "WithSuppressLabels labels c = c\<lparr>suppressLabels := foldl (\<lambda>m l. m(l \<mapsto> True)) Map.empty labels\<rparr>"

definition gliner_SetReady :: "gliner \<Rightarrow> bool \<Rightarrow> gliner" where
  "gliner_SetReady c b = c\<lparr>gl_ready := b\<rparr>"

text \<open>\<open>SetEnabled\<close> ranges over a map, given by its pairs.\<close>

definition gliner_SetEnabled :: "gliner \<Rightarrow> (string \<times> bool) list \<Rightarrow> gliner" where
  "gliner_SetEnabled c byLabel =
     c\<lparr>suppressLabels :=
         foldl (\<lambda>nxt (label, on). if on then nxt(label := None) else nxt(label \<mapsto> True))
           (suppressLabels c) byLabel\<rparr>"

definition gliner_Reconfigure :: "gliner \<Rightarrow> (string \<Rightarrow> bool) \<Rightarrow> gliner" where
  "gliner_Reconfigure c enabled =
     gliner_SetEnabled c
       [(''EMAIL'', enabled ''email_gliner''),
        (''PERSON'', enabled ''person_gliner''),
        (''ADDRESS'', enabled ''address_gliner''),
        (''DATE_OF_BIRTH'', enabled ''dob_gliner''),
        (''IP_ADDRESS'', enabled ''ip_gliner''),
        (''NATIONAL_ID'', enabled ''gliner_national_id_dup'')]"

text \<open>The health endpoint's reply: \<open>None\<close> for a failure of the request or of the decoding.\<close>

definition HealthCheck :: "(string \<Rightarrow> string option) option \<Rightarrow> bool" where
  "HealthCheck reply =
     (case reply of None \<Rightarrow> False | Some m \<Rightarrow> m ''status'' = Some ''ready'')"

definition genericRoles :: "string list" where
  "genericRoles =
     [''patient'', ''donor'', ''inspector'', ''insured'', ''applicant'', ''employee'',
      ''customer'', ''client'', ''user'', ''owner'', ''holder'', ''member'', ''resident'',
      ''caller'', ''driver'', ''traveler'', ''buyer'', ''seller'', ''you'', ''your'',
      ''tenant'', ''landlord'', ''borrower'', ''lender'', ''claimant'', ''beneficiary'',
      ''subscriber'', ''vendor'', ''contractor'', ''debtor'', ''creditor'', ''policyholder'',
      ''insurer'', ''underwriter'', ''guarantor'', ''mortgagor'', ''mortgagee'', ''plaintiff'',
      ''defendant'', ''petitioner'', ''respondent'', ''assignee'', ''assignor'', ''guest'',
      ''investors'', ''investor'', ''advisor'', ''manager'', ''analyst'', ''officer'',
      ''director'', ''administrator'', ''coordinator'', ''specialist'', ''supervisor'',
      ''consultant'', ''representative'', ''agent'', ''broker'', ''examiner'', ''reviewer'',
      ''healthcare provider'', ''provider'', ''intruder'', ''project manager'',
      ''clinical trial coordinator'', ''licensee'', ''licensor'', ''licensees'', ''payor'',
      ''payee'', ''registrant'']"

definition commonWords :: "string list" where
  "commonWords =
     [''temporary'', ''password'', ''default'', ''admin'', ''test'', ''temp'', ''root'',
      ''null'', ''none'', ''empty'', ''blank'', ''invalid'', ''expired'', ''reset'', ''new'',
      ''old'', ''current'', ''temporary password'', ''bm'']"

definition descriptiveTerms :: "string list" where
  "descriptiveTerms =
     [''password'', ''pin'', ''passcode'', ''medical history'', ''vitals'', ''medical report'',
      ''vaccination record'', ''immunization records'', ''immunization record'',
      ''unknown account'', ''primary account'', ''bank account'', ''follow-up appointment'',
      ''detailed report'', ''hepatitis a'', ''hepatitis b'', ''hepatitis c'',
      ''account number'', ''social security'', ''credit card'', ''debit card'',
      ''health insurance'', ''life insurance'', ''date of birth'', ''place of birth'',
      ''tax return'', ''tax id'']"

definition isCommonWord :: "unicode_tables \<Rightarrow> string \<Rightarrow> bool" where
  "isCommonWord T t \<longleftrightarrow> ToLower T (TrimSpace t) \<in> set commonWords"

definition isGenericRole :: "unicode_tables \<Rightarrow> string \<Rightarrow> bool" where
  "isGenericRole T t \<longleftrightarrow> ToLower T (TrimSpace t) \<in> set genericRoles"

definition isDottedQuad :: "string \<Rightarrow> bool" where
  "isDottedQuad t =
     (let parts = SplitByte (TrimSpace t) CHR ''.''
      in length parts = 4 \<and>
         list_all (\<lambda>p. p \<noteq> [] \<and> length p \<le> 3 \<and> list_all (rune_between 48 57) (runes p)) parts)"

definition containsDigit :: "string \<Rightarrow> bool" where
  "containsDigit t \<longleftrightarrow> list_ex (rune_between 48 57) (runes t)"

definition isPlaceholder :: "unicode_tables \<Rightarrow> string \<Rightarrow> bool" where
  "isPlaceholder T txt =
     (let t = TrimSpace txt; lower = ToLower T t
      in if HasPrefix t ''['' \<or> HasPrefix t ''<'' \<or> HasPrefix t ''{'' then True
         else if Contains t ''['' \<or> Contains t '']'' then True
         else if lower \<in> set descriptiveTerms then True
         else if HasPrefix lower ''your '' \<or> HasSuffix lower '' name'' \<or> HasSuffix lower '' address'' \<or>
                 HasSuffix lower '' number'' then True
         else False)"

text \<open>The conditions under which the loop of \<open>Scan\<close> skips an entity, in the order of the code.\<close>

definition gliner_skips :: "unicode_tables \<Rightarrow> gliner \<Rightarrow> entity \<Rightarrow> bool" where
  "gliner_skips T c e =
     (let minConf = (case labelMinConfidence (ent_Label e) of Some v \<Rightarrow> v | None \<Rightarrow> gl_minConfidence c)
      in if ent_Score e < minConf then True
         else if go_len (ent_Text e) < gl_minLength c then True
         else if suppressLabels c (ent_Label e) = Some True then True
         else if ent_Label e = ''PERSON'' \<and> isGenericRole T (ent_Text e) then True
         else if isPlaceholder T (ent_Text e) then True
         else if ent_Label e = ''MEDICAL_RECORD'' \<and> \<not> containsDigit (ent_Text e) then True
         else if ent_Label e = ''PASSWORD'' \<and> go_len (ent_Text e) < 8 then True
         else if ent_Label e = ''PASSWORD'' \<and> isCommonWord T (ent_Text e) then True
         else if ent_Label e = ''IP_ADDRESS'' \<and> \<not> isDottedQuad (ent_Text e) then True
         else if ent_Label e = ''NATIONAL_ID'' \<and> \<not> containsDigit (ent_Text e) then True
         else if ent_Label e = ''EMAIL'' \<and> \<not> Contains (ent_Text e) ''@'' then True
         else if Contains (ent_Text e) ''__'' then True
         else if ent_Label e = ''IBAN'' \<and> \<not> containsDigit (ent_Text e) then True
         else False)"

definition gliner_finding :: "entity \<Rightarrow> finding" where
  "gliner_finding e = \<lparr>Label = ent_Label e, Value = ent_Text e, Start = ent_Start e, End = ent_End e,
     Confidence = ent_Score e, Layer = ''gliner''\<rparr>"

definition gliner_Scan ::
  "unicode_tables \<Rightarrow> (string \<Rightarrow> detect_reply) \<Rightarrow> gliner \<Rightarrow> string \<Rightarrow> scan_outcome" where
  "gliner_Scan T detect c text =
     (if \<not> gl_ready c then ScanOk []
      else case detect text of
             RequestFailed e \<Rightarrow> ScanErr (''gliner sidecar request failed: '' @ e)
           | StatusReply n \<Rightarrow> ScanErr (''gliner sidecar returned status '' @ fmt_int n)
           | BadBody e \<Rightarrow> ScanErr e
           | Entities es \<Rightarrow> ScanOk (map gliner_finding (filter (\<lambda>e. \<not> gliner_skips T c e) es)))"

definition gliner_layer :: "unicode_tables \<Rightarrow> (string \<Rightarrow> detect_reply) \<Rightarrow> gliner \<Rightarrow> layer" where
  "gliner_layer T detect c =
     \<lparr>layer_Name = ''gliner'', layer_Ready = gl_ready c, layer_Scan = gliner_Scan T detect c,
      layer_Reconfigure = Some (\<lambda>enabled. gliner_Scan T detect (gliner_Reconfigure c enabled))\<rparr>"

subsection \<open>OPF\<close>

record opf =
  opf_ready :: bool

definition opf_New :: opf where
  "opf_New = \<lparr>opf_ready = False\<rparr>"

definition opf_SetReady :: "opf \<Rightarrow> bool \<Rightarrow> opf" where
  "opf_SetReady c b = c\<lparr>opf_ready := b\<rparr>"

definition opf_HealthCheck :: "(string \<Rightarrow> string option) option \<Rightarrow> bool" where
  "opf_HealthCheck reply =
     (case reply of None \<Rightarrow> False | Some result \<Rightarrow> result ''status'' = Some ''ready'')"

definition labelMap :: "string \<Rightarrow> string option" where
  "labelMap =
     map_of [(''PRIVATE_PERSON'', ''PERSON''), (''PRIVATE_EMAIL'', ''EMAIL''), (''PRIVATE_PHONE'', ''PHONE''),
       (''PRIVATE_ADDRESS'', ''ADDRESS''), (''PRIVATE_URL'', ''URL''), (''PRIVATE_DATE'', ''DATE_OF_BIRTH''),
       (''ACCOUNT_NUMBER'', ''ACCOUNT_NUMBER''), (''SECRET'', ''SECRET'')]"

definition looksLikeName :: "unicode_tables \<Rightarrow> string \<Rightarrow> bool" where
  "looksLikeName T s0 =
     (let s = TrimSpace s0
      in if length s < 2 then False
         else if Contains s ''<'' \<or> Contains s ''>'' \<or> Contains s ''{'' then False
         else if \<not> rune_IsUpper T (hd (runes s)) then False
         else list_all (\<lambda>r. rune_IsLetter T r \<or> r = 32 \<or> r = 45 \<or> r = 46 \<or> r = 39) (runes s))"

definition isNonsenseToken :: "unicode_tables \<Rightarrow> string \<Rightarrow> bool" where
  "isNonsenseToken T s0 =
     (let s = TrimSpace s0;
          letters = filter (rune_IsLetter T) (runes s);
          vowels = filter (\<lambda>r. rune_ToLower T r \<in> {97, 101, 105, 111, 117}) letters
      in if length s < 4 then True
         else if length letters > 3 \<and> vowels = [] then True
         else if length letters > 5 \<and> real (length vowels) / real (length letters) < 1 / 10 then True
         else False)"

definition opf_skips :: "unicode_tables \<Rightarrow> entity \<Rightarrow> bool" where
  "opf_skips T e =
     (let t = ent_Text e; upper = ToUpper T (ent_Label e)
      in if length t < 3 then True
         else if Contains t ''REDACTED'' then True
         else if HasPrefix t ''['' \<or> HasPrefix t ''<'' then True
         else if HasPrefix t ''$.'' \<or> HasPrefix t ''/'' then True
         else if isNonsenseToken T t then True
         else if upper = ''PRIVATE_PERSON'' \<and> \<not> looksLikeName T t then True
         else if upper = ''SECRET'' \<and> length t < 8 then True
         else if upper = ''PRIVATE_ADDRESS'' \<and> length t < 8 then True
         else if upper = ''PRIVATE_DATE'' \<and> length t < 6 then True
         else if upper = ''ACCOUNT_NUMBER'' \<and> length t < 5 then True
         else False)"

definition opf_finding :: "entity \<Rightarrow> finding" where
  "opf_finding e = \<lparr>Label = (case labelMap (ent_Label e) of Some m \<Rightarrow> m | None \<Rightarrow> ent_Label e),
     Value = ent_Text e, Start = ent_Start e, End = ent_End e, Confidence = ent_Score e, Layer = ''opf''\<rparr>"

definition opf_Scan :: "unicode_tables \<Rightarrow> (string \<Rightarrow> detect_reply) \<Rightarrow> opf \<Rightarrow> string \<Rightarrow> scan_outcome" where
  "opf_Scan T detect c text =
     (if \<not> opf_ready c then ScanOk []
      else case detect text of
             RequestFailed e \<Rightarrow> ScanErr (''opf sidecar request failed: '' @ e)
           | StatusReply n \<Rightarrow> ScanErr (''opf sidecar returned status '' @ fmt_int n)
           | BadBody e \<Rightarrow> ScanErr e
           | Entities es \<Rightarrow> ScanOk (map opf_finding (filter (\<lambda>e. \<not> opf_skips T e) es)))"

subsection \<open>The context gate\<close>

definition contextgate_Scan :: "string \<Rightarrow> scan_outcome" where
  "contextgate_Scan text = ScanOk []"

definition contextgate_layer :: layer where
  "contextgate_layer = \<lparr>layer_Name = ''contextgate'', layer_Ready = True, layer_Scan = contextgate_Scan,
     layer_Reconfigure = None\<rparr>"

interpretation contextgate: exact_layer contextgate_Scan
  by unfold_locales (simp_all add: contextgate_Scan_def)

subsection \<open>Properties\<close>

lemma gliner_Reconfigure_labels:
  "suppressLabels (gliner_Reconfigure c enabled) l =
     (if l = ''EMAIL'' then if enabled ''email_gliner'' then None else Some True
      else if l = ''PERSON'' then if enabled ''person_gliner'' then None else Some True
      else if l = ''ADDRESS'' then if enabled ''address_gliner'' then None else Some True
      else if l = ''DATE_OF_BIRTH'' then if enabled ''dob_gliner'' then None else Some True
      else if l = ''IP_ADDRESS'' then if enabled ''ip_gliner'' then None else Some True
      else if l = ''NATIONAL_ID'' then if enabled ''gliner_national_id_dup'' then None else Some True
      else suppressLabels c l)"
  by (simp add: gliner_Reconfigure_def gliner_SetEnabled_def)

lemma gliner_skips_suppressed: "suppressLabels c (ent_Label e) = Some True \<Longrightarrow> gliner_skips T c e"
  by (simp add: gliner_skips_def)

lemma gliner_never_panics: "gliner_Scan T detect c text \<noteq> ScanPanic"
  by (simp add: gliner_Scan_def split: detect_reply.split)

text \<open>
  What a GLiNER client reports after a reconfiguration follows the rules: a person, say, is
  reported only while \<open>person_gliner\<close> is enabled, and a label that no rule governs only if it was
  not suppressed before; the layer never panics.
\<close>

lemma gliner_reports_enabled_labels:
  assumes "gliner_Scan T detect (gliner_Reconfigure c enabled) text = ScanOk fs" and "f \<in> set fs"
  shows "(Label f = ''PERSON'' \<longrightarrow> enabled ''person_gliner'') \<and> (Label f = ''EMAIL'' \<longrightarrow> enabled ''email_gliner'') \<and>
    (Label f = ''ADDRESS'' \<longrightarrow> enabled ''address_gliner'') \<and> (Label f = ''DATE_OF_BIRTH'' \<longrightarrow> enabled ''dob_gliner'') \<and>
    (Label f = ''IP_ADDRESS'' \<longrightarrow> enabled ''ip_gliner'') \<and>
    (Label f = ''NATIONAL_ID'' \<longrightarrow> enabled ''gliner_national_id_dup'') \<and>
    (Label f \<in> {''PERSON'', ''EMAIL'', ''ADDRESS'', ''DATE_OF_BIRTH'', ''IP_ADDRESS'', ''NATIONAL_ID''} \<or>
     suppressLabels c (Label f) \<noteq> Some True)"
proof -
  obtain e where e: "f = gliner_finding e" "\<not> gliner_skips T (gliner_Reconfigure c enabled) e"
    using assms by (auto simp: gliner_Scan_def split: if_splits detect_reply.splits)
  then have "suppressLabels (gliner_Reconfigure c enabled) (Label f) \<noteq> Some True"
    using gliner_skips_suppressed by (auto simp: gliner_finding_def)
  then show ?thesis by (auto simp: gliner_Reconfigure_labels split: if_splits)
qed

definition demo_entity :: entity where
  "demo_entity = \<lparr>ent_Text = ''Ada Lovelace'', ent_Label = ''PERSON'', ent_Start = 0, ent_End = 12, ent_Score = 9 / 10\<rparr>"

lemma gliner_reports_enabled_labels_example:
  "gliner_Scan latin1 (\<lambda>_. Entities [demo_entity]) (gliner_Reconfigure (gliner_SetReady gliner_New True) (\<lambda>_. True)) ''Ada Lovelace'' =
     ScanOk [gliner_finding demo_entity] \<and> Label (gliner_finding demo_entity) = ''PERSON''"
proof -
  have s: "gliner_Scan latin1 (\<lambda>_. Entities [demo_entity]) (gliner_Reconfigure (gliner_SetReady gliner_New True) (\<lambda>_. True)) ''Ada Lovelace'' =
     ScanOk [gliner_finding demo_entity]" by code_simp
  show ?thesis
    using gliner_reports_enabled_labels [OF s, of "gliner_finding demo_entity"] s
    by (simp add: gliner_finding_def demo_entity_def)
qed

lemma gliner_bounded:
  assumes "\<And>t es e. detect t = Entities es \<Longrightarrow> e \<in> set es \<Longrightarrow> 0 \<le> ent_Start e \<and> ent_Start e \<le> ent_End e \<and> ent_End e \<le> go_len t"
  shows "bounded_layer (gliner_Scan T detect c)"
  using assms
  by unfold_locales (auto simp: gliner_Scan_def in_range_def gliner_finding_def split: if_splits detect_reply.splits)

end
