(* ===== verification/Daemon.thy ===== *)
theory Daemon
  imports LocalAPI Lifecycle Certs PolicySync Presidio Entropy Sidecars
begin

text \<open>
  The daemon: \<open>internal/daemon/daemon.go\<close>, with logging (\<open>internal/logging\<close>), the manager of the model's process
  (\<open>internal/sidecar/manager.go\<close>) and the health page (\<open>internal/admin/admin.go\<close>).

  \<open>Build\<close> makes every component from the configuration, \<open>Start\<close> opens the listeners, \<open>Stop\<close> closes them, and \<open>onLoad\<close> is what the
  watcher of the configuration calls. The components that the daemon and the local API share are fields of the API's state. Whether a
  port can be bound, a process started or a file opened is in \<open>daemon_env\<close>.

  The main result is \<open>reload_like_restart\<close>: a daemon that has reloaded its configuration treats every text as a daemon that is started
  with it, however it got there, but for the threshold of the entropy layer. \<open>reload_keeps_domains\<close> shows what a reload does not
  reach: the intercepted domains are those of the start for the life of the process.
\<close>

subsection \<open>Logging\<close>

datatype log_level = LevelDebug | LevelInfo | LevelWarn | LevelError

datatype log_output = Stdout | Stderr | LogFile string

record logger =
  lo_level :: log_level
  lo_output :: log_output

text \<open>The default logger is replaced, unless the file cannot be opened.\<close>

definition Setup :: "unicode_tables \<Rightarrow> (string \<Rightarrow> bool) \<Rightarrow> logging_config \<Rightarrow> logger \<Rightarrow> logger \<times> bool" where
  "Setup T opens cfg lo =
     (let name = ToLower T (lg_Level cfg);
          level = (if name = ''debug'' then LevelDebug
                   else if name = ''warn'' \<or> name = ''warning'' then LevelWarn
                   else if name = ''error'' then LevelError
                   else LevelInfo)
      in if lg_Output cfg = [] \<or> lg_Output cfg = ''stdout'' then (\<lparr>lo_level = level, lo_output = Stdout\<rparr>, True)
         else if lg_Output cfg = ''stderr'' then (\<lparr>lo_level = level, lo_output = Stderr\<rparr>, True)
         else if opens (lg_Output cfg) then (\<lparr>lo_level = level, lo_output = LogFile (lg_Output cfg)\<rparr>, True)
         else (lo, False))"

subsection \<open>The model's process\<close>

record sidecar_mgr =
  sm_port :: int
  sm_URL :: string
  sm_process :: bool

record sidecar_env =
  sx_freePort :: "int option"
  sx_spawns :: bool

definition NewSidecarManager :: sidecar_mgr where
  "NewSidecarManager = \<lparr>sm_port = 0, sm_URL = [], sm_process = False\<rparr>"

definition StartLazy :: "io_env \<Rightarrow> sidecar_env \<Rightarrow> sidecar_mgr \<Rightarrow> home \<Rightarrow> sidecar_mgr \<times> home \<times> bool" where
  "StartLazy io se m h =
     (case sx_freePort se of
        None \<Rightarrow> (m, h, False)
      | Some port \<Rightarrow>
          (let m1 = m\<lparr>sm_port := port, sm_URL := ''http://127.0.0.1:'' @ fmt_int port\<rparr>
           in if \<not> sx_spawns se then (m1\<lparr>sm_process := False\<rparr>, h, False)
              else (m1\<lparr>sm_process := True\<rparr>, fst (WriteFile io SidecarPort (fmt_int port) h), True)))"

definition isHealthy :: "(string \<Rightarrow> string option) option \<Rightarrow> bool" where
  "isHealthy resp = (case resp of None \<Rightarrow> False | Some result \<Rightarrow> result ''status'' = Some ''ready'')"

text \<open>Whether one of the next \<open>n\<close> probes succeeds; both the manager and the daemon make 120.\<close>

fun waitForReady :: "(nat \<Rightarrow> (string \<Rightarrow> string option) option) \<Rightarrow> nat \<Rightarrow> nat \<Rightarrow> bool" where
  "waitForReady probe i 0 = False"
| "waitForReady probe i (Suc n) = (if isHealthy (probe i) then True else waitForReady probe (Suc i) n)"

definition Stop_sidecar :: "sidecar_mgr \<Rightarrow> sidecar_mgr" where
  "Stop_sidecar m = (if sm_process m then m\<lparr>sm_process := False\<rparr> else m)"

subsection \<open>The health page\<close>

definition handleHealth :: "layer list \<Rightarrow> int \<times> string \<times> (string \<rightharpoonup> string)" where
  "handleHealth ls =
     (let (models, healthy) =
            foldl (\<lambda>(models, healthy) l. if layer_Ready l then (models(layer_Name l \<mapsto> ''ready''), healthy)
                     else (models(layer_Name l \<mapsto> ''not ready''), False)) (Map.empty, True) ls
      in if \<not> healthy then (503, ''degraded'', models) else (200, ''healthy'', models))"

subsection \<open>The components of a configuration\<close>

definition rules_on :: "config \<Rightarrow> string \<Rightarrow> bool" where
  "rules_on cfg = lookup_bool (Effective (sc_Rules (cf_Scanning cfg)))"

record engine =
  eg_presidio :: presidio
  eg_entropy :: entropy_scanner
  eg_gliner :: gliner

definition layers_of :: "unicode_tables \<Rightarrow> (string \<Rightarrow> detect_reply) \<Rightarrow> engine \<Rightarrow> layer list" where
  "layers_of T detect e =
     [presidio_layer T (eg_presidio e), entropy_layer T (eg_entropy e), gliner_layer T detect (eg_gliner e), contextgate_layer]"

definition build_engine :: "unicode_tables \<Rightarrow> config \<Rightarrow> engine" where
  "build_engine T cfg =
     \<lparr>eg_presidio = presidio_NewWithEnabled T (rules_on cfg),
      eg_entropy = SetEnabled (entropy_New (sc_EntropyThreshold (cf_Scanning cfg)) 20)
        (rules_on cfg ''entropy_keyword_gated'') (rules_on cfg ''entropy_unconditional''),
      eg_gliner = gliner_Reconfigure gliner_New (rules_on cfg)\<rparr>"

definition engine_Reconfigure :: "unicode_tables \<Rightarrow> (string \<Rightarrow> bool) \<Rightarrow> engine \<Rightarrow> engine" where
  "engine_Reconfigure T on e =
     \<lparr>eg_presidio = presidio_Reconfigure T (eg_presidio e) on, eg_entropy = entropy_Reconfigure (eg_entropy e) on,
      eg_gliner = gliner_Reconfigure (eg_gliner e) on\<rparr>"

definition build_coordinator :: "unicode_tables \<Rightarrow> (string \<Rightarrow> detect_reply) \<Rightarrow> config \<Rightarrow> coordinator" where
  "build_coordinator T detect cfg =
     (let sc = cf_Scanning cfg;
          pipeline = SetTimeout (NewPipeline (layers_of T detect (build_engine T cfg))) (sc_InferenceTimeoutMs sc);
          (exts, contentPatterns) = FileBlockExtensions T (fc_BlockedExtensions (cf_FileBlocking cfg)) (Effective (sc_Rules sc))
            (fc_ContentPatternsEnabled (cf_FileBlocking cfg));
          coord = New_coordinator pipeline (NewCache (sc_CacheMaxSize sc)) (New_blocker T exts contentPatterns)
      in if sc_AllowedWords sc \<noteq> [] then SetAllowedWords T coord (sc_AllowedWords sc) else coord)"

definition build_proxy :: "unicode_tables \<Rightarrow> config \<Rightarrow> proxy" where
  "build_proxy T cfg =
     NewProxy (New_filter T (pc_InterceptedDomains (cf_Proxy cfg)) (pc_BlockedDomains (cf_Proxy cfg)))
       (Some (NewBypassMatcher (sc_Bypass (cf_Scanning cfg)))) True"

subsection \<open>The daemon\<close>

record ('d, 'm) daemon =
  dm_api :: "('d, 'm) api_state"
  dm_engine :: engine
  dm_fw :: "'m fw_world"
  dm_logger :: logger
  dm_sidecar :: sidecar_mgr
  dm_dashboardAddr :: string
  dm_adminAddr :: string
  dm_adminOpen :: bool
  dm_dashboardOpen :: bool
  dm_sockOpen :: bool
  dm_reconciling :: bool
  dm_syncing :: bool
  dm_monitoring :: bool
  dm_watching :: bool
  dm_watchStopped :: bool
  dm_locked :: bool

record ('d, 'm, 'c, 'k) daemon_env =
  de_api :: "('d, 'm) api_env"
  de_client :: client_env
  de_ephemeral :: bool
  de_opens :: "string \<Rightarrow> bool"
  de_singleton :: bool
  de_keyOk :: bool
  de_demoToken :: string
  de_pki :: "('c, 'k) pki"
  de_store :: "'d option"
  de_certOk :: bool
  de_pid :: int
  de_self :: "string option"
  de_manager :: "'m option"
  de_cleanup :: "'m \<Rightarrow> 'm \<times> fw_error option"
  de_lsof :: "int \<Rightarrow> string option"
  de_alive :: kill_result
  de_kill :: kill_env
  de_detect :: "string \<Rightarrow> detect_reply"
  de_sidecar :: sidecar_env
  de_admin :: "string option"
  de_transparent :: "string option"
  de_dashboard :: "string option"
  de_watch :: bool
  de_sock :: bool

datatype daemon_error =
    ConfigError | LoggingError | LifecycleError | LicensingError | CAError | StoreError | ProxyError | FirewallError
  | AdminError | TransparentError | DashboardError | ProxyStartError | SocketError | DaemonPanic

definition reap_at_start :: "('d, 'm, 'c, 'k) daemon_env \<Rightarrow> home \<Rightarrow> 'm \<Rightarrow> home \<times> 'm" where
  "reap_at_start env h m =
     (if de_ephemeral env then (h, m)
      else case ReapOrphans (ae_io (de_api env)) (de_lsof env) (de_alive env) (de_kill env)
                  (Some (ae_unredirect (de_api env), de_cleanup env)) h m of (h', m', _, _) \<Rightarrow> (h', m'))"

definition assemble ::
  "('d, 'm, 'c, 'k) daemon_env \<Rightarrow> cfg_manager \<Rightarrow> logger \<Rightarrow> lic_manager \<Rightarrow> 'd \<Rightarrow> home \<Rightarrow> 'm \<Rightarrow> ('d, 'm) daemon" where
  "assemble env m lo lic st h mgr =
     (let T = ae_T (de_api env); cfg = Get_config m;
          api = NewServer_api m h st (Some (build_proxy T cfg)) (Some (build_coordinator T (de_detect env) cfg)) True;
          api = SetSessions (SetLicense api lic) (New_lister zero_time (de_pid env));
          api = (case de_self env of None \<Rightarrow> api | Some exe \<Rightarrow> SetRedactrBinary api exe);
          (h', mgr') = reap_at_start env h mgr
      in \<lparr>dm_api = api\<lparr>ap_home := h'\<rparr>, dm_engine = build_engine T cfg, dm_fw = (NewController, mgr', None), dm_logger = lo, dm_sidecar = NewSidecarManager,
          dm_dashboardAddr = [], dm_adminAddr = [], dm_adminOpen = False, dm_dashboardOpen = False, dm_sockOpen = False,
          dm_reconciling = False, dm_syncing = False, dm_monitoring = False, dm_watching = False, dm_watchStopped = False,
          dm_locked = True\<rparr>)"

definition Build ::
  "('d, 'm, 'c, 'k) daemon_env \<Rightarrow> logger \<Rightarrow> home \<Rightarrow> home \<times> (daemon_error + ('d, 'm) daemon)" where
  "Build env lo h =
     (let io = ae_io (de_api env); Y = ae_yaml (de_api env); T = ae_T (de_api env)
      in case NewConfigManager io Y h of
           (h1, None) \<Rightarrow> (h1, Inl ConfigError)
         | (h1, Some m0) \<Rightarrow>
             (case migrate_config io Y m0 h1 of
                (m, h2, _) \<Rightarrow>
                  (let cfg = Get_config m
                   in case Setup T (de_opens env) (cf_Logging cfg) lo of
                        (_, False) \<Rightarrow> (h2, Inl LoggingError)
                      | (lo', True) \<Rightarrow>
                          if \<not> de_singleton env then (h2, Inl LifecycleError)
                          else case NewManager T (cn_crypto (de_client env)) (de_keyOk env) (de_demoToken env) (ae_now (de_api env))
                                      (cf_LicensingKey cfg) of
                            None \<Rightarrow> (h2, Inl LicensingError)
                          | Some lic \<Rightarrow>
                              (case LoadOrCreateCA io (de_pki env) h2 of
                                 (h3, Panicked) \<Rightarrow> (h3, Inl DaemonPanic)
                               | (h3, Failed_with) \<Rightarrow> (h3, Inl CAError)
                               | (h3, Value_of _) \<Rightarrow>
                                   (case de_store env of
                                      None \<Rightarrow> (h3, Inl StoreError)
                                    | Some st \<Rightarrow>
                                        if \<not> de_certOk env then (h3, Inl ProxyError)
                                        else case de_manager env of
                                               None \<Rightarrow> (h3, Inl FirewallError)
                                             | Some mgr \<Rightarrow>
                                                 (let d = assemble env m lo' lic st h3 mgr in (ap_home (dm_api d), Inr d)))))))"

subsection \<open>Reloading\<close>

text \<open>
  The layers of the pipeline and the scanners of the daemon are the same objects, so that reconfiguring the one reconfigures
  the other (\<open>layers_Reconfigure\<close>).

  What the watcher does to the coordinator, in the order of the calls, and to the rest.\<close>

definition load_coordinator :: "unicode_tables \<Rightarrow> config \<Rightarrow> coordinator \<Rightarrow> coordinator" where
  "load_coordinator T cfg c =
     (let c1 = reconfigure_from T cfg c;
          c2 = SetAllowedWords T c1 (sc_AllowedWords (cf_Scanning cfg))
      in c2\<lparr>co_pipeline := SetTimeout (co_pipeline c2) (sc_InferenceTimeoutMs (cf_Scanning cfg))\<rparr>)"

definition onLoad :: "('d, 'm, 'c, 'k) daemon_env \<Rightarrow> config \<Rightarrow> ('d, 'm) daemon \<Rightarrow> ('d, 'm) daemon" where
  "onLoad env cfg d =
     (let T = ae_T (de_api env); a = dm_api d
      in d\<lparr>dm_api := a\<lparr>ap_coord := map_option (load_coordinator T cfg) (ap_coord a),
                       ap_proxy := map_option (\<lambda>p. p\<lparr>px_bypass := map_option (\<lambda>b. SetRules b (sc_Bypass (cf_Scanning cfg)))
                         (px_bypass p)\<rparr>) (ap_proxy a)\<rparr>,
            dm_engine := engine_Reconfigure T (rules_on cfg) (dm_engine d),
            dm_logger := fst (Setup T (de_opens env) (cf_Logging cfg) (dm_logger d))\<rparr>)"

definition watch_daemon :: "('d, 'm, 'c, 'k) daemon_env \<Rightarrow> watch_event \<Rightarrow> watcher \<Rightarrow> ('d, 'm) daemon \<Rightarrow> watcher \<times> ('d, 'm) daemon" where
  "watch_daemon env ev w d =
     (case watch_step (ae_io (de_api env)) (ae_yaml (de_api env)) (ap_home (dm_api d)) ev (w, ap_cfg (dm_api d)) of
        ((w', m), cfgs) \<Rightarrow> (w', foldl (\<lambda>d cfg. onLoad env cfg d) (d\<lparr>dm_api := (dm_api d)\<lparr>ap_cfg := m\<rparr>\<rparr>) cfgs))"

subsection \<open>Starting\<close>

definition on_home :: "(home \<Rightarrow> home) \<Rightarrow> ('d, 'm) daemon \<Rightarrow> ('d, 'm) daemon" where
  "on_home f d = d\<lparr>dm_api := (dm_api d)\<lparr>ap_home := f (ap_home (dm_api d))\<rparr>\<rparr>"

definition glinerEnabled :: "config \<Rightarrow> bool" where
  "glinerEnabled cfg = list_ex (\<lambda>r. rs_Layer r = ''gliner'' \<and> rules_on cfg (rs_ID r)) AllRules"

definition start_sidecar :: "('d, 'm, 'c, 'k) daemon_env \<Rightarrow> config \<Rightarrow> ('d, 'm) daemon \<Rightarrow> ('d, 'm) daemon" where
  "start_sidecar env cfg d =
     (if glinerEnabled cfg \<and> \<not> de_ephemeral env then
        (case StartLazy (ae_io (de_api env)) (de_sidecar env) (dm_sidecar d) (ap_home (dm_api d)) of
           (m, h, _) \<Rightarrow> on_home (\<lambda>_. h) (d\<lparr>dm_sidecar := m\<rparr>))
      else d)"

text \<open>The goroutine that waits for the model: if it answers in time, the client becomes ready.\<close>

definition with_engine :: "unicode_tables \<Rightarrow> (string \<Rightarrow> detect_reply) \<Rightarrow> engine \<Rightarrow> coordinator \<Rightarrow> coordinator" where
  "with_engine T detect e c = c\<lparr>co_pipeline := (co_pipeline c)\<lparr>layers := layers_of T detect e\<rparr>\<rparr>"

definition await_model ::
  "('d, 'm, 'c, 'k) daemon_env \<Rightarrow> (nat \<Rightarrow> (string \<Rightarrow> string option) option) \<Rightarrow> ('d, 'm) daemon \<Rightarrow> ('d, 'm) daemon" where
  "await_model env probe d =
     (if waitForReady probe 0 120 then
        (let e = (dm_engine d)\<lparr>eg_gliner := gliner_SetReady (eg_gliner (dm_engine d)) True\<rparr>; a = dm_api d
         in d\<lparr>dm_engine := e, dm_api := a\<lparr>ap_coord := map_option (with_engine (ae_T (de_api env)) (de_detect env) e) (ap_coord a)\<rparr>\<rparr>)
      else d)"

definition start_proxy_listener :: "('d, 'm, 'c, 'k) daemon_env \<Rightarrow> config \<Rightarrow> ('d, 'm) daemon \<Rightarrow> ('d, 'm) daemon \<times> bool" where
  "start_proxy_listener env cfg d =
     (if \<not> pc_Enabled (cf_Proxy cfg) then (d, True)
      else case ap_proxy (dm_api d) of
             None \<Rightarrow> (d, True)
           | Some p \<Rightarrow>
               (case Start_proxy p (ae_bind (de_api env)) of
                  (p', None) \<Rightarrow> (d\<lparr>dm_api := (dm_api d)\<lparr>ap_proxy := Some p'\<rparr>\<rparr>, False)
                | (p', Some addr) \<Rightarrow>
                    (on_home (\<lambda>h. fst (WriteFile (ae_io (de_api env)) ProxyPid addr h)) (d\<lparr>dm_api := (dm_api d)\<lparr>ap_proxy := Some p'\<rparr>\<rparr>), True)))"

definition startControlSocket :: "('d, 'm, 'c, 'k) daemon_env \<Rightarrow> ('d, 'm) daemon \<Rightarrow> ('d, 'm) daemon \<times> bool" where
  "startControlSocket env d =
     (let d1 = on_home (Remove RedactrSock) d
      in if \<not> de_sock env then (d1, False)
         else ((on_home (\<lambda>h. h(RedactrSock \<mapsto> [])) d1)\<lparr>dm_sockOpen := True\<rparr>, True))"

definition isEnrolled :: "('d, 'm, 'c, 'k) daemon_env \<Rightarrow> ('d, 'm) daemon \<Rightarrow> bool" where
  "isEnrolled env d = Exists_enrollment (de_client env) (ap_home (dm_api d))"

definition start_loops :: "('d, 'm, 'c, 'k) daemon_env \<Rightarrow> ('d, 'm) daemon \<Rightarrow> ('d, 'm) daemon" where
  "start_loops env d =
     (if \<not> de_ephemeral env \<and> isEnrolled env d then d\<lparr>dm_syncing := True, dm_monitoring := True\<rparr> else d)"

text \<open>The listeners before the proxy's own: administration, transparent, dashboard.\<close>

definition start_listeners :: "('d, 'm, 'c, 'k) daemon_env \<Rightarrow> ('d, 'm) daemon \<Rightarrow> ('d, 'm) daemon \<times> daemon_error option" where
  "start_listeners env d =
     (case de_admin env of
        None \<Rightarrow> (d, Some AdminError)
      | Some adminAddr \<Rightarrow>
          (let d1 = d\<lparr>dm_adminAddr := adminAddr, dm_adminOpen := True\<rparr>
           in case de_transparent env of
                None \<Rightarrow> (d1, Some TransparentError)
              | Some transparentAddr \<Rightarrow>
                  (let d2 = d1\<lparr>dm_api := SetFirewall (dm_api d1) (dm_fw d1) transparentAddr, dm_reconciling := True\<rparr>
                   in case de_dashboard env of
                        None \<Rightarrow> (d2, Some DashboardError)
                      | Some dashboardAddr \<Rightarrow>
                          (on_home (\<lambda>h. fst (WriteFile (ae_io (de_api env)) DashboardPort dashboardAddr h))
                             (d2\<lparr>dm_dashboardAddr := dashboardAddr, dm_dashboardOpen := True\<rparr>), None))))"

definition Start_daemon :: "('d, 'm, 'c, 'k) daemon_env \<Rightarrow> ('d, 'm) daemon \<Rightarrow> ('d, 'm) daemon \<times> daemon_error option" where
  "Start_daemon env d =
     (let cfg = Get_config (ap_cfg (dm_api d))
      in case start_listeners env d of
           (d1, Some e) \<Rightarrow> (d1, Some e)
         | (d1, None) \<Rightarrow>
             (case start_proxy_listener env cfg ((start_sidecar env cfg d1)\<lparr>dm_watching := de_watch env\<rparr>) of
                (d2, False) \<Rightarrow> (d2, Some ProxyStartError)
              | (d2, True) \<Rightarrow>
                  (case startControlSocket env d2 of
                     (d3, False) \<Rightarrow> (d3, Some SocketError)
                   | (d3, True) \<Rightarrow> (start_loops env d3, None))))"

subsection \<open>Stopping\<close>

definition stopControlSocket :: "('d, 'm) daemon \<Rightarrow> ('d, 'm) daemon" where
  "stopControlSocket d = on_home (Remove RedactrSock) (d\<lparr>dm_sockOpen := False\<rparr>)"

text \<open>The controller, which the local API has once \<open>Start\<close> has handed it over.\<close>

definition daemon_fw :: "('d, 'm) daemon \<Rightarrow> 'm fw_world" where
  "daemon_fw d = (case ap_fw (dm_api d) of None \<Rightarrow> dm_fw d | Some w \<Rightarrow> w)"

definition set_daemon_fw :: "'m fw_world \<Rightarrow> ('d, 'm) daemon \<Rightarrow> ('d, 'm) daemon" where
  "set_daemon_fw w d =
     (case ap_fw (dm_api d) of
        None \<Rightarrow> d\<lparr>dm_fw := w\<rparr>
      | Some _ \<Rightarrow> d\<lparr>dm_api := (dm_api d)\<lparr>ap_fw := Some w\<rparr>\<rparr>)"

definition stop_firewall :: "('d, 'm, 'c, 'k) daemon_env \<Rightarrow> ('d, 'm) daemon \<Rightarrow> ('d, 'm) daemon" where
  "stop_firewall env d =
     set_daemon_fw (fst (Disable (ae_unredirect (de_api env)) (ae_fw (de_api env)) (daemon_fw d))) d"

definition cleanup_firewall :: "('d, 'm, 'c, 'k) daemon_env \<Rightarrow> ('d, 'm) daemon \<Rightarrow> ('d, 'm) daemon" where
  "cleanup_firewall env d =
     (case daemon_fw d of (c, m, file) \<Rightarrow> set_daemon_fw (c, fst (de_cleanup env m), file) d)"

definition remove_state :: "home \<Rightarrow> home" where
  "remove_state h = Remove SidecarPort (Remove ApiPort (Remove DashboardPort (Remove ProxyPid h)))"

definition close_all :: "('d, 'm, 'c, 'k) daemon_env \<Rightarrow> ('d, 'm) daemon \<Rightarrow> ('d, 'm) daemon" where
  "close_all env d =
     (let d1 = (stopControlSocket d)\<lparr>dm_monitoring := False, dm_syncing := False, dm_reconciling := False\<rparr>;
          d2 = stop_firewall env d1;
          d3 = d2\<lparr>dm_api := (dm_api d2)\<lparr>ap_proxy := map_option Stop_proxy (ap_proxy (dm_api d2))\<rparr>,
                  dm_sidecar := Stop_sidecar (dm_sidecar d2), dm_adminOpen := False, dm_dashboardOpen := False\<rparr>
      in on_home remove_state (cleanup_firewall env d3))"

text \<open>\<open>None\<close> is a panic: closing a channel that is closed, of the watcher or of the license manager.\<close>

definition Stop_daemon :: "('d, 'm, 'c, 'k) daemon_env \<Rightarrow> ('d, 'm) daemon \<Rightarrow> ('d, 'm) daemon option" where
  "Stop_daemon env d =
     (let d4 = close_all env d
      in if dm_watchStopped d4 then None
         else case ap_license (dm_api d4) of
                None \<Rightarrow> Some (d4\<lparr>dm_watching := False, dm_watchStopped := True, dm_locked := False\<rparr>)
              | Some lic \<Rightarrow>
                  (case Stop_watcher lic of
                     None \<Rightarrow> None
                   | Some lic' \<Rightarrow>
                       Some (d4\<lparr>dm_api := (dm_api d4)\<lparr>ap_license := Some lic'\<rparr>, dm_watching := False, dm_watchStopped := True,
                                dm_locked := False\<rparr>)))"

subsection \<open>The loops\<close>

definition policy_tick ::
  "('d, 'm, 'c, 'k) daemon_env \<Rightarrow> client_env \<Rightarrow> network \<Rightarrow> ('d, 'm) daemon \<Rightarrow> ('d, 'm) daemon" where
  "policy_tick env cl net d =
     (if dm_syncing d then on_home (\<lambda>h. fst (Sync (ae_T (de_api env)) cl net h)) d else d)"

definition monitor_tick ::
  "('d, 'm, 'c, 'k) daemon_env \<Rightarrow> client_env \<Rightarrow> network \<Rightarrow> ('d, 'm) daemon \<Rightarrow> ('d, 'm) daemon \<times> http_request list" where
  "monitor_tick env cl net d =
     (if \<not> dm_monitoring d then (d, [])
      else case ap_sessions (dm_api d) of
             None \<Rightarrow> (d, [])
           | Some l \<Rightarrow>
               (case List_sessions (ae_T (de_api env)) (ae_ssrt (de_api env)) (ae_machine (de_api env)) l of
                  (l', None) \<Rightarrow> (d\<lparr>dm_api := (dm_api d)\<lparr>ap_sessions := Some l'\<rparr>\<rparr>, [])
                | (l', Some list) \<Rightarrow>
                    (d\<lparr>dm_api := (dm_api d)\<lparr>ap_sessions := Some l'\<rparr>\<rparr>,
                     fst (Report (ae_T (de_api env)) cl net (ap_home (dm_api d)) (Collect (cn_now cl) list)))))"

definition reconcile_tick :: "('d, 'm, 'c, 'k) daemon_env \<Rightarrow> ('d, 'm) daemon \<Rightarrow> ('d, 'm) daemon" where
  "reconcile_tick env d =
     (if dm_reconciling d
      then set_daemon_fw (fst (Reconcile (ae_redirect (de_api env)) (ae_fw (de_api env)) (daemon_fw d))) d
      else d)"

subsection \<open>The control socket\<close>

record daemon_status =
  ds_Enabled :: bool
  ds_Addr :: string
  ds_Dashboard :: string
  ds_Version :: string

definition proxy_addr :: "('d, 'm) daemon \<Rightarrow> string" where
  "proxy_addr d = (case ap_proxy (dm_api d) of None \<Rightarrow> [] | Some p \<Rightarrow> Addr_proxy p)"

definition statusValue :: "('d, 'm) daemon \<Rightarrow> daemon_status" where
  "statusValue d =
     \<lparr>ds_Enabled = pc_Enabled (cf_Proxy (Get_config (ap_cfg (dm_api d)))), ds_Addr = proxy_addr d,
       ds_Dashboard = dm_dashboardAddr d, ds_Version = ''v2-dev''\<rparr>"

text \<open>A request that is made over a connection may not arrive, or its answer may be lost.\<close>

datatype delivery = Undelivered | Unanswered | Answered

definition relayDashboard ::
  "(('d, 'm) api_state \<Rightarrow> ('d, 'm) api_state \<times> local_reply) \<Rightarrow> delivery \<Rightarrow> ('d, 'm) daemon \<Rightarrow> ('d, 'm) daemon \<times> bool" where
  "relayDashboard handler del d =
     (if dm_dashboardAddr d = [] then (d, False)
      else case del of
             Undelivered \<Rightarrow> (d, False)
           | _ \<Rightarrow>
               (case handler (dm_api d) of
                  (a, code, _) \<Rightarrow> (d\<lparr>dm_api := a\<rparr>, del = Answered \<and> \<not> code \<ge> 300)))"

definition sock_status :: "('d, 'm) daemon \<Rightarrow> int \<times> daemon_status option" where
  "sock_status d = (200, Some (statusValue d))"

definition sock_enable :: "('d, 'm, 'c, 'k) daemon_env \<Rightarrow> delivery \<Rightarrow> ('d, 'm) daemon \<Rightarrow> ('d, 'm) daemon \<times> int \<times> daemon_status option" where
  "sock_enable env del d =
     (case relayDashboard (handleProxyEnable (de_api env)) del d of
        (d', False) \<Rightarrow> (d', 502, None)
      | (d', True) \<Rightarrow> (d', 200, Some (statusValue d')))"

definition sock_disable :: "('d, 'm, 'c, 'k) daemon_env \<Rightarrow> delivery \<Rightarrow> ('d, 'm) daemon \<Rightarrow> ('d, 'm) daemon \<times> int \<times> daemon_status option" where
  "sock_disable env del d =
     (case relayDashboard (handleProxyDisable (de_api env)) del d of
        (d', False) \<Rightarrow> (d', 502, None)
      | (d', True) \<Rightarrow> (d', 200, Some (statusValue d')))"

subsection \<open>A daemon's life\<close>

text \<open>The requests to the local API that change the daemon.\<close>

definition put_rules :: "('d, 'm, 'c, 'k) daemon_env \<Rightarrow> rule_map option \<Rightarrow> ('d, 'm) daemon \<Rightarrow> ('d, 'm) daemon \<times> local_reply" where
  "put_rules env body d =
     (case handlePutRules (de_api env) body (dm_api d) of
        (a, code, b) \<Rightarrow>
          (d\<lparr>dm_api := a,
             dm_engine := (if code = 200 then engine_Reconfigure (ae_T (de_api env)) (rules_on (Get_config (ap_cfg a))) (dm_engine d)
                           else dm_engine d)\<rparr>, code, b))"

inductive api_change :: "('d, 'm) api_state \<Rightarrow> ('d, 'm) api_state \<Rightarrow> bool" where
  change_config: "handleUpdateConfig env body s = (s', r) \<Longrightarrow> api_change s s'"
| change_enable: "handleProxyEnable env s = (s', r) \<Longrightarrow> api_change s s'"
| change_disable: "handleProxyDisable env s = (s', r) \<Longrightarrow> api_change s s'"
| change_clear: "handleCacheClear s = (s', r) \<Longrightarrow> api_change s s'"
| change_scan: "handleScan env body s = Some (s', r) \<Longrightarrow> api_change s s'"
| change_sessions: "handleListSessions env s = (s', r) \<Longrightarrow> api_change s s'"

text \<open>
  Everything that happens to a daemon, in any order, with any surroundings that have the same tables and the same model; files
  may be changed by others at any time.
\<close>

definition same_model :: "('d, 'm, 'c, 'k) daemon_env \<Rightarrow> ('d, 'm, 'c, 'k) daemon_env \<Rightarrow> bool" where
  "same_model E env \<longleftrightarrow> ae_T (de_api env) = ae_T (de_api E) \<and> de_detect env = de_detect E"

inductive daemon_step :: "('d, 'm, 'c, 'k) daemon_env \<Rightarrow> ('d, 'm) daemon \<Rightarrow> ('d, 'm) daemon \<Rightarrow> bool" for E where
  step_start: "same_model E env \<Longrightarrow> Start_daemon env d = (d', err) \<Longrightarrow> daemon_step E d d'"
| step_stop: "same_model E env \<Longrightarrow> Stop_daemon env d = Some d' \<Longrightarrow> daemon_step E d d'"
| step_watch: "same_model E env \<Longrightarrow> watch_daemon env ev w d = (w', d') \<Longrightarrow> daemon_step E d d'"
| step_rules: "same_model E env \<Longrightarrow> put_rules env body d = (d', r) \<Longrightarrow> daemon_step E d d'"
| step_model: "same_model E env \<Longrightarrow> daemon_step E d (await_model env probe d)"
| step_api: "api_change (dm_api d) a \<Longrightarrow> daemon_step E d (d\<lparr>dm_api := a\<rparr>)"
| step_sync: "same_model E env \<Longrightarrow> daemon_step E d (policy_tick env cl net d)"
| step_monitor: "same_model E env \<Longrightarrow> monitor_tick env cl net d = (d', qs) \<Longrightarrow> daemon_step E d d'"
| step_reconcile: "same_model E env \<Longrightarrow> daemon_step E d (reconcile_tick env d)"
| step_files: "daemon_step E d (on_home f d)"

subsection \<open>Scanners and layers\<close>

definition engine_for :: "unicode_tables \<Rightarrow> real \<Rightarrow> (string \<Rightarrow> bool) \<Rightarrow> bool \<Rightarrow> engine" where
  "engine_for T thr on ready =
     \<lparr>eg_presidio = presidio_NewWithEnabled T on,
      eg_entropy = SetEnabled (entropy_New thr 20) (on ''entropy_keyword_gated'') (on ''entropy_unconditional''),
      eg_gliner = gliner_SetReady (gliner_Reconfigure gliner_New on) ready\<rparr>"

lemma build_engine_for: "build_engine T cfg = engine_for T (sc_EntropyThreshold (cf_Scanning cfg)) (rules_on cfg) False"
  by (simp add: build_engine_def engine_for_def gliner_SetReady_def gliner_Reconfigure_def gliner_SetEnabled_def gliner_New_def)

lemma gliner_Reconfigure_again [simp]: "gliner_Reconfigure (gliner_Reconfigure c on) on' = gliner_Reconfigure c on'"
proof (rule gliner.equality)
  show "suppressLabels (gliner_Reconfigure (gliner_Reconfigure c on) on') = suppressLabels (gliner_Reconfigure c on')"
    by (rule ext) (simp add: gliner_Reconfigure_labels)
qed (simp_all add: gliner_Reconfigure_def gliner_SetEnabled_def)

lemma gliner_Reconfigure_ready [simp]: "gliner_Reconfigure (gliner_SetReady c r) on = gliner_SetReady (gliner_Reconfigure c on) r"
  by (simp add: gliner_Reconfigure_def gliner_SetEnabled_def gliner_SetReady_def)

lemma entropy_Reconfigure_again [simp]: "entropy_Reconfigure (entropy_Reconfigure s on) on' = entropy_Reconfigure s on'"
  by (simp add: entropy_Reconfigure_def SetEnabled_def)

lemma engine_Reconfigure_for [simp]: "engine_Reconfigure T on' (engine_for T thr on r) = engine_for T thr on' r"
  by (simp add: engine_Reconfigure_def engine_for_def presidio_Reconfigure_def presidio_NewWithEnabled_def entropy_Reconfigure_def
      SetEnabled_def)

lemma layers_Reconfigure: "map (layer_apply on) (layers_of T detect e) = layers_of T detect (engine_Reconfigure T on e)"
  by (simp add: layers_of_def layer_apply_def engine_Reconfigure_def presidio_layer_def entropy_layer_def gliner_layer_def
      contextgate_layer_def presidio_Reconfigure_def)
     (simp add: gliner_Reconfigure_def gliner_SetEnabled_def)

lemma layers_reconfigure_from:
  "layers (co_pipeline (reconfigure_from T cfg c)) = map (layer_apply (rules_on cfg)) (layers (co_pipeline c))"
  by (simp add: reconfigure_from_def rules_on_def Coordinator_Reconfigure_def Pipeline_Reconfigure_def Let_def split: prod.split)

lemma layers_load_coordinator:
  "layers (co_pipeline (load_coordinator T cfg c)) = map (layer_apply (rules_on cfg)) (layers (co_pipeline c))"
  by (simp add: load_coordinator_def Let_def SetTimeout_def SetAllowedWords_def layers_reconfigure_from)

subsection \<open>What the steps leave alone\<close>

definition frame :: "('d, 'm) api_state \<Rightarrow> layer list option \<times> (domain_filter \<times> bool) option" where
  "frame a = (map_option (\<lambda>c. layers (co_pipeline c)) (ap_coord a), map_option (\<lambda>p. (px_domains p, px_bypass p \<noteq> None)) (ap_proxy a))"

lemma px_domains_kept [simp]:
  "px_domains (fst (Start_proxy p b)) = px_domains p" "px_bypass (fst (Start_proxy p b)) = px_bypass p"
  "px_domains (Stop_proxy p) = px_domains p" "px_bypass (Stop_proxy p) = px_bypass p"
  by (simp_all add: Start_proxy_def Stop_proxy_def split: option.split)

lemma frame_simps [simp]:
  "frame (a\<lparr>ap_home := h\<rparr>) = frame a" "frame (a\<lparr>ap_cfg := m\<rparr>) = frame a" "frame (a\<lparr>ap_fw := w\<rparr>) = frame a"
  "frame (a\<lparr>ap_license := l\<rparr>) = frame a" "frame (a\<lparr>ap_sessions := ss\<rparr>) = frame a" "frame (SetFirewall a w0 addr) = frame a"
  by (simp_all add: frame_def SetFirewall_def)

lemma frame_update_cfg: "frame (fst (update_cfg env fn s)) = frame s"
  by (simp add: frame_def update_cfg_def Update_def Let_def split: prod.split)

lemma ScanAndRedact_pipeline: "ScanAndRedact srt T hash ck c t = Some (c', out, rep) \<Longrightarrow> co_pipeline c' = co_pipeline c"
  by (auto simp: ScanAndRedact_def split: prod.splits option.splits)

lemma frame_Start_proxy: "Start_proxy p b = (p', addr) \<Longrightarrow> ap_proxy a = Some p \<Longrightarrow> frame (a\<lparr>ap_proxy := Some p'\<rparr>) = frame a"
  using px_domains_kept(1,2)[of p b] by (simp add: frame_def)

lemma api_change_frame: "api_change s s' \<Longrightarrow> frame s' = frame s"
proof (induction rule: api_change.induct)
  case (change_config env body s s' r)
  then show ?case using frame_update_cfg[of env _ s]
    by (auto simp: handleUpdateConfig_def split: option.splits prod.splits bool.splits) (metis fst_conv)+
next
  case (change_enable env s s' r)
  then show ?case
    by (auto simp: handleProxyEnable_def Let_def frame_update_cfg frame_Start_proxy split: option.splits prod.splits)
next
  case (change_disable env s s' r)
  have "frame (s\<lparr>ap_fw := w, ap_proxy := map_option Stop_proxy (ap_proxy s)\<rparr>) = frame s" for w
    by (simp add: frame_def option.map_comp comp_def)
  then show ?case using change_disable by (auto simp: handleProxyDisable_def Let_def frame_update_cfg)
next
  case (change_clear s s' r)
  then show ?case by (auto simp: handleCacheClear_def frame_def InvalidateCache_def option.map_comp comp_def)
next
  case (change_scan env body s s' r)
  then show ?case by (auto simp: handleScan_def frame_def dest!: ScanAndRedact_pipeline split: option.splits prod.splits)
next
  case (change_sessions env s s' r)
  then show ?case by (auto simp: handleListSessions_def Let_def split: option.splits prod.splits if_splits)
qed

definition quiet :: "('d, 'm) daemon \<Rightarrow> ('d, 'm) daemon \<Rightarrow> bool" where
  "quiet d d' \<longleftrightarrow> dm_engine d' = dm_engine d \<and> frame (dm_api d') = frame (dm_api d)"

lemma quiet_trans: "quiet d1 d2 \<Longrightarrow> quiet d2 d3 \<Longrightarrow> quiet d1 d3"
  by (simp add: quiet_def)

lemma quiet_on_home [simp]: "quiet d (on_home f d)"
  by (simp add: quiet_def on_home_def)

lemma quiet_set_daemon_fw [simp]: "quiet d (set_daemon_fw w d)"
  by (simp add: quiet_def set_daemon_fw_def split: option.split)

lemma quiet_start_listeners: "start_listeners env d = (d', e) \<Longrightarrow> quiet d d'"
  by (auto simp: start_listeners_def Let_def quiet_def on_home_def split: option.splits)

lemma quiet_start_sidecar: "quiet d (start_sidecar env cfg d)"
  by (simp add: start_sidecar_def quiet_def on_home_def split: prod.split)

lemma quiet_start_proxy: "start_proxy_listener env cfg d = (d', ok) \<Longrightarrow> quiet d d'"
  by (auto simp: start_proxy_listener_def quiet_def on_home_def frame_Start_proxy split: if_splits option.splits prod.splits)

lemma quiet_Start: "Start_daemon env d = (d', e) \<Longrightarrow> quiet d d'"
proof -
  assume start: "Start_daemon env d = (d', e)"
  let ?cfg = "Get_config (ap_cfg (dm_api d))"
  obtain d1 e1 where d1: "start_listeners env d = (d1, e1)" by fastforce
  obtain d2 ok where d2: "start_proxy_listener env ?cfg ((start_sidecar env ?cfg d1)\<lparr>dm_watching := de_watch env\<rparr>) = (d2, ok)" by fastforce
  have q1: "quiet d d1" using quiet_start_listeners[OF d1] .
  have q2: "quiet d d2"
    using q1 quiet_start_proxy[OF d2] quiet_start_sidecar[where d = d1 and cfg = ?cfg and env = env] by (simp add: quiet_def)
  have "quiet d2 (fst (startControlSocket env d2))" by (simp add: startControlSocket_def quiet_def on_home_def Let_def)
  then have q3: "quiet d (fst (startControlSocket env d2))" by (rule quiet_trans[OF q2])
  have q4: "quiet d (start_loops env (fst (startControlSocket env d2)))" using q3 by (simp add: start_loops_def quiet_def)
  show ?thesis
    using start q1 q2 q3 q4
    by (auto simp: Start_daemon_def Let_def d1 d2 split: option.splits prod.splits bool.splits)
qed

lemma frame_stop_proxy: "frame (a\<lparr>ap_proxy := map_option Stop_proxy (ap_proxy a)\<rparr>) = frame a"
  by (simp add: frame_def option.map_comp comp_def)

lemma quiet_close_all: "quiet d (close_all env d)"
proof -
  have "quiet d ((stopControlSocket d)\<lparr>dm_monitoring := False, dm_syncing := False, dm_reconciling := False\<rparr>)"
    by (simp add: stopControlSocket_def quiet_def on_home_def)
  then have fw: "quiet d (stop_firewall env ((stopControlSocket d)\<lparr>dm_monitoring := False, dm_syncing := False, dm_reconciling := False\<rparr>))"
    unfolding stop_firewall_def by (rule quiet_trans) simp
  have cleanup: "quiet x (on_home remove_state (cleanup_firewall env x))" for x :: "('a, 'b) daemon"
    by (rule quiet_trans[OF _ quiet_on_home]) (simp add: cleanup_firewall_def split: prod.split)
  show ?thesis using fw cleanup by (auto simp: close_all_def Let_def quiet_def frame_stop_proxy)
qed

lemma quiet_Stop: "Stop_daemon env d = Some d' \<Longrightarrow> quiet d d'"
  using quiet_close_all[of d env] by (auto simp: Stop_daemon_def Let_def quiet_def split: if_splits option.splits)

subsection \<open>The wiring is kept\<close>

definition is_engine :: "unicode_tables \<Rightarrow> real \<Rightarrow> engine \<Rightarrow> bool" where
  "is_engine T thr e \<longleftrightarrow> (\<exists>on r. e = engine_for T thr on r)"

lemma is_engine_for [simp]: "is_engine T thr (engine_for T thr on r)"
  by (auto simp: is_engine_def)

lemma is_engine_Reconfigure: "is_engine T thr e \<Longrightarrow> is_engine T thr (engine_Reconfigure T on e)"
  by (metis engine_Reconfigure_for is_engine_def)

lemma is_engine_ready:
  assumes "is_engine T thr e"
  shows "is_engine T thr (e\<lparr>eg_gliner := gliner_SetReady (eg_gliner e) True\<rparr>)"
proof -
  obtain on r where "e = engine_for T thr on r" using assms by (auto simp: is_engine_def)
  then have "e\<lparr>eg_gliner := gliner_SetReady (eg_gliner e) True\<rparr> = engine_for T thr on True"
    by (simp add: engine_for_def gliner_SetReady_def)
  then show ?thesis by simp
qed

definition wired :: "unicode_tables \<Rightarrow> (string \<Rightarrow> detect_reply) \<Rightarrow> real \<Rightarrow> domain_filter \<Rightarrow> ('d, 'm) daemon \<Rightarrow> bool" where
  "wired T detect thr doms d \<longleftrightarrow>
     is_engine T thr (dm_engine d) \<and> frame (dm_api d) = (Some (layers_of T detect (dm_engine d)), Some (doms, True))"

lemma wired_quiet: "wired T detect thr doms d \<Longrightarrow> quiet d d' \<Longrightarrow> wired T detect thr doms d'"
  by (simp add: wired_def quiet_def)

lemma frame_onLoad:
  "frame (dm_api (onLoad env cfg d)) =
     (map_option (map (layer_apply (rules_on cfg))) (fst (frame (dm_api d))), snd (frame (dm_api d)))"
  by (simp add: onLoad_def Let_def frame_def option.map_comp comp_def layers_load_coordinator)

lemma wired_onLoad:
  assumes "wired (ae_T (de_api env)) detect thr doms d"
  shows "wired (ae_T (de_api env)) detect thr doms (onLoad env cfg d)"
proof -
  have e: "dm_engine (onLoad env cfg d) = engine_Reconfigure (ae_T (de_api env)) (rules_on cfg) (dm_engine d)"
    by (simp add: onLoad_def Let_def)
  show ?thesis using assms by (simp add: wired_def frame_onLoad e layers_Reconfigure is_engine_Reconfigure)
qed

lemma wired_onLoads:
  assumes "wired (ae_T (de_api env)) detect thr doms d"
  shows "wired (ae_T (de_api env)) detect thr doms (foldl (\<lambda>d cfg. onLoad env cfg d) d cfgs)"
  using assms by (induction cfgs arbitrary: d) (auto intro: wired_onLoad)

lemma wired_watch:
  assumes "wired (ae_T (de_api env)) detect thr doms d" "watch_daemon env ev w d = (w', d')"
  shows "wired (ae_T (de_api env)) detect thr doms d'"
proof -
  have "wired (ae_T (de_api env)) detect thr doms (d\<lparr>dm_api := (dm_api d)\<lparr>ap_cfg := m\<rparr>\<rparr>)" for m
    using assms(1) by (simp add: wired_def)
  then show ?thesis using assms(2) by (auto simp: watch_daemon_def intro!: wired_onLoads split: prod.splits)
qed

lemma handlePutRules_frame:
  assumes "handlePutRules env body s = (s', code, b)"
  shows "frame s' = (if code = 200 then (map_option (map (layer_apply (rules_on (Get_config (ap_cfg s'))))) (fst (frame s)), snd (frame s))
    else frame s)"
proof -
  have cfg: "frame s1 = frame s" if "update_cfg env fn s = (s1, ok)" for fn s1 ok
    using frame_update_cfg[of env fn s] that by simp
  have reconf: "frame (x\<lparr>ap_coord := map_option (reconfigure_from T c) (ap_coord x)\<rparr>) =
      (map_option (map (layer_apply (rules_on c))) (fst (frame x)), snd (frame x))" for x :: "('a, 'b) api_state" and T c
    by (simp add: frame_def option.map_comp comp_def layers_reconfigure_from)
  show ?thesis using assms
    by (auto simp: handlePutRules_def Let_def reconf dest: cfg split: option.splits if_splits prod.splits bool.splits)
qed

lemma wired_put_rules:
  assumes "wired (ae_T (de_api env)) detect thr doms d" "put_rules env body d = (d', r)"
  shows "wired (ae_T (de_api env)) detect thr doms d'"
proof -
  obtain a code b where run: "handlePutRules (de_api env) body (dm_api d) = (a, code, b)" by (metis prod_cases3)
  show ?thesis
    using assms handlePutRules_frame[OF run] by (auto simp: put_rules_def run wired_def layers_Reconfigure is_engine_Reconfigure)
qed

lemma wired_await_model:
  assumes "wired (ae_T (de_api env)) (de_detect env) thr doms d"
  shows "wired (ae_T (de_api env)) (de_detect env) thr doms (await_model env probe d)"
  using assms
  by (auto simp: wired_def await_model_def Let_def frame_def option.map_comp comp_def with_engine_def is_engine_ready)

lemma daemon_step_wired:
  assumes "daemon_step E d d'" "wired (ae_T (de_api E)) (de_detect E) thr doms d"
  shows "wired (ae_T (de_api E)) (de_detect E) thr doms d'"
  using assms
proof (induction rule: daemon_step.induct)
  case (step_start env d d' err)
  then show ?case by (meson quiet_Start wired_quiet)
next
  case (step_stop env d d')
  then show ?case by (meson quiet_Stop wired_quiet)
next
  case (step_watch env ev w d w' d')
  then show ?case using wired_watch[of env] by (simp add: same_model_def)
next
  case (step_rules env body d d' r)
  then show ?case using wired_put_rules[of env] by (simp add: same_model_def)
next
  case (step_model env d probe)
  then show ?case using wired_await_model[of env] by (simp add: same_model_def)
next
  case (step_api d a)
  then show ?case using api_change_frame by (fastforce simp: wired_def)
next
  case (step_sync env d cl net)
  then show ?case by (simp add: wired_def policy_tick_def on_home_def)
next
  case (step_monitor env cl net d d' qs)
  then show ?case by (auto simp: wired_def monitor_tick_def split: if_splits option.splits prod.splits)
next
  case (step_reconcile env d)
  then show ?case by (simp add: reconcile_tick_def wired_quiet[OF _ quiet_set_daemon_fw])
next
  case (step_files d f)
  then show ?case by (rule wired_quiet) simp
qed

lemma daemon_run_wired:
  assumes "(daemon_step E)\<^sup>*\<^sup>* d d'" "wired (ae_T (de_api E)) (de_detect E) thr doms d"
  shows "wired (ae_T (de_api E)) (de_detect E) thr doms d'"
  using assms by (induction rule: rtranclp_induct) (auto intro: daemon_step_wired)

lemma Build_wired:
  assumes "Build env lo h = (h', Inr d)"
  shows "\<exists>m. ap_cfg (dm_api d) = m \<and> wired (ae_T (de_api env)) (de_detect env) (sc_EntropyThreshold (cf_Scanning (Get_config m)))
    (New_filter (ae_T (de_api env)) (pc_InterceptedDomains (cf_Proxy (Get_config m))) (pc_BlockedDomains (cf_Proxy (Get_config m)))) d"
proof -
  obtain m lo' lic st h3 mgr where d: "d = assemble env m lo' lic st h3 mgr"
    using assms by (auto simp: Build_def Let_def split: prod.splits option.splits bool.splits if_splits load_outcome.splits)
  have "layers (co_pipeline (build_coordinator T detect cfg)) = layers_of T detect (build_engine T cfg)" for T detect cfg
    by (simp add: build_coordinator_def Let_def SetAllowedWords_def New_coordinator_def SetTimeout_def NewPipeline_def split: prod.split)
  then show ?thesis
    by (auto simp: d assemble_def Let_def wired_def frame_def NewServer_api_def SetSessions_def SetLicense_def SetRedactrBinary_def
        build_engine_for build_proxy_def NewProxy_def split: option.split prod.split)
qed

subsection \<open>Reloading is restarting\<close>

definition with_threshold :: "real \<Rightarrow> config \<Rightarrow> config" where
  "with_threshold thr cfg = cfg\<lparr>cf_Scanning := (cf_Scanning cfg)\<lparr>sc_EntropyThreshold := thr\<rparr>\<rparr>"

text \<open>The coordinator of a fresh start, whose model is ready or not.\<close>

definition restarted :: "unicode_tables \<Rightarrow> (string \<Rightarrow> detect_reply) \<Rightarrow> config \<Rightarrow> bool \<Rightarrow> coordinator" where
  "restarted T detect cfg ready =
     (let e = build_engine T cfg
      in with_engine T detect (e\<lparr>eg_gliner := gliner_SetReady (eg_gliner e) ready\<rparr>) (build_coordinator T detect cfg))"

lemma restarted_fresh: "restarted T detect cfg False = build_coordinator T detect cfg"
proof -
  have "(build_engine T cfg)\<lparr>eg_gliner := gliner_SetReady (eg_gliner (build_engine T cfg)) False\<rparr> = build_engine T cfg"
    by (simp add: build_engine_for engine_for_def gliner_SetReady_def)
  moreover have "layers (co_pipeline (build_coordinator T detect cfg)) = layers_of T detect (build_engine T cfg)"
    by (simp add: build_coordinator_def Let_def SetAllowedWords_def New_coordinator_def SetTimeout_def NewPipeline_def split: prod.split)
  ultimately show ?thesis by (simp add: restarted_def with_engine_def Let_def)
qed

lemma ScanAndRedact_empty:
  assumes "items (co_cache c) = Map.empty"
  shows "map_option snd (ScanAndRedact srt T hash ck c t) = scan_fresh srt T ck (co_pipeline c) (allowedWords c) t"
proof -
  have "snd (Get hash (co_cache c) t) = None" using assms by (simp add: Get_def Let_def)
  then show ?thesis by (auto simp: ScanAndRedact_def split: prod.split option.split)
qed

lemma load_coordinator_like_restarted:
  assumes "layers (co_pipeline c) = layers_of T detect (engine_for T thr on ready)"
  shows "co_pipeline (load_coordinator T cfg c) = co_pipeline (restarted T detect (with_threshold thr cfg) ready) \<and>
    allowedWords (load_coordinator T cfg c) = allowedWords (restarted T detect (with_threshold thr cfg) ready) \<and>
    co_fb (load_coordinator T cfg c) = co_fb (restarted T detect (with_threshold thr cfg) ready) \<and>
    items (co_cache (load_coordinator T cfg c)) = Map.empty \<and>
    items (co_cache (restarted T detect (with_threshold thr cfg) ready)) = Map.empty"
proof -
  let ?cfg = "with_threshold thr cfg"
  have on: "rules_on ?cfg = rules_on cfg" by (simp add: rules_on_def with_threshold_def)
  have e: "(build_engine T ?cfg)\<lparr>eg_gliner := gliner_SetReady (eg_gliner (build_engine T ?cfg)) ready\<rparr> = engine_for T thr (rules_on cfg) ready"
    by (simp add: build_engine_for engine_for_def gliner_SetReady_def on) (simp add: with_threshold_def)
  have "layers (co_pipeline (load_coordinator T cfg c)) = layers_of T detect (engine_for T thr (rules_on cfg) ready)"
    by (simp add: layers_load_coordinator assms layers_Reconfigure)
  moreover have "timeoutMs (co_pipeline (load_coordinator T cfg c)) = sc_InferenceTimeoutMs (cf_Scanning cfg)"
    by (simp add: load_coordinator_def Let_def SetTimeout_def)
  moreover have "co_pipeline (restarted T detect ?cfg ready) =
      \<lparr>layers = layers_of T detect (engine_for T thr (rules_on cfg) ready), timeoutMs = sc_InferenceTimeoutMs (cf_Scanning cfg)\<rparr>"
    by (simp add: restarted_def Let_def e with_engine_def build_coordinator_def SetAllowedWords_def New_coordinator_def SetTimeout_def
        NewPipeline_def split: prod.split) (simp add: with_threshold_def)
  ultimately have pipe: "co_pipeline (load_coordinator T cfg c) = co_pipeline (restarted T detect ?cfg ready)"
    by simp
  have rest: "allowedWords (load_coordinator T cfg c) = set (map (ToLower T) (sc_AllowedWords (cf_Scanning cfg)))"
    "allowedWords (restarted T detect ?cfg ready) = set (map (ToLower T) (sc_AllowedWords (cf_Scanning cfg)))"
    "co_fb (load_coordinator T cfg c) = co_fb (restarted T detect ?cfg ready)"
    "items (co_cache (load_coordinator T cfg c)) = Map.empty" "items (co_cache (restarted T detect ?cfg ready)) = Map.empty"
    by (auto simp: load_coordinator_def restarted_def with_engine_def build_coordinator_def reconfigure_from_def Let_def SetAllowedWords_def
        New_coordinator_def Coordinator_Reconfigure_def Invalidate_def NewCache_def Blocker_Reconfigure_def New_blocker_def with_threshold_def
        split: prod.splits)
  show ?thesis using pipe rest by simp
qed

text \<open>
  C24. A reload is as good as a restart. Whatever a daemon has been through since it was built (requests to its API, rules chosen, reloads,
  a model that became ready or did not, refused starts), after it has loaded a configuration it answers every text as a daemon
  does that is started with that configuration and whose model is as ready: the same redacted text and the same report. The
  files that are blocked and the requests that are passed by are the same, too. The one exception is the threshold of
  the entropy layer, which stays what it was when the daemon was built.
\<close>

theorem reload_like_restart:
  assumes "Build E lo h = (h', Inr d0)" "(daemon_step E)\<^sup>*\<^sup>* d0 d"
  shows "\<exists>c1 c2 p1.
      c2 = restarted (ae_T (de_api E)) (de_detect E)
             (with_threshold (sc_EntropyThreshold (cf_Scanning (Get_config (ap_cfg (dm_api d0))))) cfg) (gl_ready (eg_gliner (dm_engine d))) \<and>
      ap_coord (dm_api (onLoad E cfg d)) = Some c1 \<and> ap_proxy (dm_api (onLoad E cfg d)) = Some p1 \<and>
      (\<forall>srt hash ck t. map_option snd (ScanAndRedact srt (ae_T (de_api E)) hash ck c1 t) =
                       map_option snd (ScanAndRedact srt (ae_T (de_api E)) hash ck c2 t)) \<and>
      co_fb c1 = co_fb c2 \<and> px_bypass p1 = px_bypass (build_proxy (ae_T (de_api E)) cfg)"
proof -
  let ?T = "ae_T (de_api E)"
  obtain doms where w: "wired ?T (de_detect E) (sc_EntropyThreshold (cf_Scanning (Get_config (ap_cfg (dm_api d0))))) doms d"
    using daemon_run_wired[OF assms(2)] Build_wired[OF assms(1)] by blast
  then obtain on r where e: "dm_engine d = engine_for ?T (sc_EntropyThreshold (cf_Scanning (Get_config (ap_cfg (dm_api d0))))) on r"
    by (auto simp: wired_def is_engine_def)
  from w obtain c p where c: "ap_coord (dm_api d) = Some c" "layers (co_pipeline c) = layers_of ?T (de_detect E) (dm_engine d)"
    and p: "ap_proxy (dm_api d) = Some p" "px_bypass p \<noteq> None"
    by (auto simp: wired_def frame_def)
  have r: "gl_ready (eg_gliner (dm_engine d)) = r" by (simp add: e engine_for_def gliner_SetReady_def)
  note like = load_coordinator_like_restarted[OF c(2)[unfolded e], of cfg]
  have "px_bypass (p\<lparr>px_bypass := map_option (\<lambda>b. SetRules b (sc_Bypass (cf_Scanning cfg))) (px_bypass p)\<rparr>) = px_bypass (build_proxy ?T cfg)"
    using p(2) by (auto simp: build_proxy_def NewProxy_def NewBypassMatcher_def SetRules_def)
  moreover have "ap_coord (dm_api (onLoad E cfg d)) = Some (load_coordinator ?T cfg c)"
    "ap_proxy (dm_api (onLoad E cfg d)) =
       Some (p\<lparr>px_bypass := map_option (\<lambda>b. SetRules b (sc_Bypass (cf_Scanning cfg))) (px_bypass p)\<rparr>)"
    by (simp_all add: onLoad_def Let_def c(1) p(1))
  ultimately show ?thesis unfolding r using like by (simp add: ScanAndRedact_empty)
qed

text \<open>
  C40. What is intercepted is decided when the daemon is built. For the rest of its life, through reloads and edits of the
  configuration, a request to a host that was not on the list then is passed on unread, whether or not it is on the list now.
\<close>

theorem reload_keeps_domains:
  assumes "Build E lo h = (h', Inr d0)" "(daemon_step E)\<^sup>*\<^sup>* d0 d" "cfg0 = Get_config (ap_cfg (dm_api d0))"
    and "\<not> ShouldIntercept (ae_T (de_api E)) (New_filter (ae_T (de_api E)) (pc_InterceptedDomains (cf_Proxy cfg0))
              (pc_BlockedDomains (cf_Proxy cfg0))) (rq_Host req)"
  shows "\<exists>p. ap_proxy (dm_api d) = Some p \<and> handle_request (ae_T (de_api E)) blen henv p scan s req = Some (s, req, None, [])"
proof -
  have "wired (ae_T (de_api E)) (de_detect E) (sc_EntropyThreshold (cf_Scanning cfg0))
      (New_filter (ae_T (de_api E)) (pc_InterceptedDomains (cf_Proxy cfg0)) (pc_BlockedDomains (cf_Proxy cfg0))) d"
    using daemon_run_wired[OF assms(2)] Build_wired[OF assms(1)] assms(3) by blast
  then show ?thesis using assms(4) by (auto simp: wired_def frame_def handle_request_def)
qed

subsection \<open>Starting and stopping\<close>

definition core :: "('d, 'm) daemon \<Rightarrow> 'm fw_world option \<times> cfg_manager \<times> proxy option" where
  "core d = (ap_fw (dm_api d), ap_cfg (dm_api d), ap_proxy (dm_api d))"

lemma core_simps [simp]:
  "core (on_home f d) = core d" "core (d\<lparr>dm_watching := b\<rparr>) = core d" "core (d\<lparr>dm_sidecar := m\<rparr>) = core d"
  "core (d\<lparr>dm_sockOpen := b\<rparr>) = core d" "core (d\<lparr>dm_syncing := b, dm_monitoring := b'\<rparr>) = core d"
  by (simp_all add: core_def on_home_def)

lemma core_start_listeners:
  "start_listeners env d = (d', None) \<Longrightarrow> core d' = (Some (dm_fw d), ap_cfg (dm_api d), ap_proxy (dm_api d))"
  by (auto simp: start_listeners_def Let_def core_def on_home_def SetFirewall_def split: option.splits)

lemma core_start_sidecar: "core (start_sidecar env cfg d) = core d"
  by (simp add: start_sidecar_def split: prod.split)

lemma core_start_proxy:
  assumes "start_proxy_listener env cfg d = (d', ok)" "pc_Enabled (cf_Proxy cfg)" "ae_bind (de_api env) = Some addr" "core d = (w, m, Some p)"
  shows "core d' = (w, m, Some (fst (Start_proxy p (Some addr))))"
  using assms by (auto simp: start_proxy_listener_def core_def on_home_def split: prod.splits option.splits if_splits)

lemma core_start_rest:
  "core (fst (startControlSocket env d)) = core d" "core (start_loops env d) = core d"
  by (simp_all add: startControlSocket_def start_loops_def Let_def)

text \<open>
  A daemon that is started while the configuration has the proxy enabled opens the proxy's listener but redirects no traffic to
  it: its status says that the proxy is enabled and that the firewall is not active, whatever the state file of the firewall
  holds from before.
\<close>

lemma start_not_routed:
  assumes "Build env lo h = (h', Inr d)" "Start_daemon env d = (d', None)" "ae_bind (de_api env) = Some addr"
    and "pc_Enabled (cf_Proxy (Get_config (ap_cfg (dm_api d))))"
  shows "handleProxyStatus (dm_api d') = (200, ProxyBody True (Some addr) (Some False))"
proof -
  obtain m lo' lic st h3 mgr where d: "d = assemble env m lo' lic st h3 mgr"
    using assms(1) by (auto simp: Build_def Let_def split: prod.splits option.splits bool.splits if_splits load_outcome.splits)
  define p where "p = build_proxy (ae_T (de_api env)) (Get_config m)"
  have p: "ap_proxy (dm_api d) = Some p" "\<not> fw_IsActive (dm_fw d)"
    by (simp_all add: p_def d assemble_def Let_def NewServer_api_def SetSessions_def SetLicense_def SetRedactrBinary_def fw_IsActive_def
        NewController_def split: option.split prod.split)
  let ?cfg = "Get_config (ap_cfg (dm_api d))"
  obtain d1 where d1: "start_listeners env d = (d1, None)"
    using assms(2) by (auto simp: Start_daemon_def Let_def split: prod.splits option.splits)
  obtain d2 where d2: "start_proxy_listener env ?cfg ((start_sidecar env ?cfg d1)\<lparr>dm_watching := de_watch env\<rparr>) = (d2, True)"
    using assms(2) d1 by (auto simp: Start_daemon_def Let_def split: prod.splits option.splits bool.splits)
  have d': "d' = start_loops env (fst (startControlSocket env d2))"
    using assms(2) d1 d2 by (auto simp: Start_daemon_def Let_def split: prod.splits bool.splits)
  have "core d2 = (Some (dm_fw d), ap_cfg (dm_api d), Some (fst (Start_proxy p (Some addr))))"
    by (rule core_start_proxy[OF d2 assms(4,3)]) (simp add: core_start_sidecar core_start_listeners[OF d1] p(1))
  then have "core d' = (Some (dm_fw d), ap_cfg (dm_api d), Some (fst (Start_proxy p (Some addr))))"
    by (simp add: d' core_start_rest)
  then show ?thesis using p(2) assms(4) by (simp add: core_def handleProxyStatus_def Addr_proxy_def Start_proxy_def)
qed

text \<open>Stopping closes and removes everything, once: a second call panics. The firewall stays enabled where its rules cannot be removed.\<close>

lemma set_daemon_fw_simps [simp]:
  "dm_watchStopped (set_daemon_fw w d) = dm_watchStopped d" "dm_sidecar (set_daemon_fw w d) = dm_sidecar d"
  "ap_proxy (dm_api (set_daemon_fw w d)) = ap_proxy (dm_api d)" "ap_license (dm_api (set_daemon_fw w d)) = ap_license (dm_api d)"
  "ap_home (dm_api (set_daemon_fw w d)) = ap_home (dm_api d)" "daemon_fw (set_daemon_fw w d) = w"
  "dm_sockOpen (set_daemon_fw w d) = dm_sockOpen d" "dm_adminOpen (set_daemon_fw w d) = dm_adminOpen d"
  "dm_dashboardOpen (set_daemon_fw w d) = dm_dashboardOpen d" "dm_syncing (set_daemon_fw w d) = dm_syncing d"
  "dm_monitoring (set_daemon_fw w d) = dm_monitoring d" "dm_reconciling (set_daemon_fw w d) = dm_reconciling d"
  by (simp_all add: set_daemon_fw_def daemon_fw_def split: option.split)

lemma close_all_home: "ap_home (dm_api (close_all env d)) = remove_state (Remove RedactrSock (ap_home (dm_api d)))"
  by (simp add: close_all_def Let_def on_home_def cleanup_firewall_def stop_firewall_def stopControlSocket_def split: prod.split)

lemma close_all_closed:
  "\<not> dm_sockOpen (close_all env d)" "\<not> dm_adminOpen (close_all env d)" "\<not> dm_dashboardOpen (close_all env d)"
  "\<not> dm_syncing (close_all env d)" "\<not> dm_monitoring (close_all env d)" "\<not> dm_reconciling (close_all env d)"
  "\<not> sm_process (dm_sidecar (close_all env d))" "ap_proxy (dm_api (close_all env d)) = map_option Stop_proxy (ap_proxy (dm_api d))"
  "dm_watchStopped (close_all env d) = dm_watchStopped d"
  by (simp_all add: close_all_def Let_def on_home_def cleanup_firewall_def stop_firewall_def stopControlSocket_def Stop_sidecar_def
      split: prod.split)

lemma Stop_cleans:
  assumes "Stop_daemon env d = Some d'"
  shows "f \<in> {ProxyPid, DashboardPort, ApiPort, SidecarPort, RedactrSock} \<Longrightarrow> ap_home (dm_api d') f = None"
    and "\<not> dm_sockOpen d' \<and> \<not> dm_adminOpen d' \<and> \<not> dm_dashboardOpen d' \<and> \<not> dm_syncing d' \<and> \<not> dm_monitoring d' \<and> \<not> dm_reconciling d' \<and>
      \<not> dm_locked d' \<and> \<not> sm_process (dm_sidecar d') \<and> (\<forall>p. ap_proxy (dm_api d') = Some p \<longrightarrow> \<not> px_running p)"
    and "Stop_daemon env' d' = None"
proof -
  have stop: "\<not> px_running (Stop_proxy p)" for p by (simp add: Stop_proxy_def)
  have d': "ap_home (dm_api d') = ap_home (dm_api (close_all env d))" "ap_proxy (dm_api d') = ap_proxy (dm_api (close_all env d))"
    "dm_sockOpen d' = dm_sockOpen (close_all env d)" "dm_adminOpen d' = dm_adminOpen (close_all env d)"
    "dm_dashboardOpen d' = dm_dashboardOpen (close_all env d)" "dm_syncing d' = dm_syncing (close_all env d)"
    "dm_monitoring d' = dm_monitoring (close_all env d)" "dm_reconciling d' = dm_reconciling (close_all env d)"
    "dm_sidecar d' = dm_sidecar (close_all env d)" "dm_watchStopped d'" "\<not> dm_locked d'"
    using assms by (auto simp: Stop_daemon_def Let_def split: if_splits option.splits)
  show "f \<in> {ProxyPid, DashboardPort, ApiPort, SidecarPort, RedactrSock} \<Longrightarrow> ap_home (dm_api d') f = None"
    by (auto simp: d' close_all_home remove_state_def Remove_def)
  show "\<not> dm_sockOpen d' \<and> \<not> dm_adminOpen d' \<and> \<not> dm_dashboardOpen d' \<and> \<not> dm_syncing d' \<and> \<not> dm_monitoring d' \<and> \<not> dm_reconciling d' \<and>
      \<not> dm_locked d' \<and> \<not> sm_process (dm_sidecar d') \<and> (\<forall>p. ap_proxy (dm_api d') = Some p \<longrightarrow> \<not> px_running p)"
    using stop by (auto simp: d' close_all_closed)
  show "Stop_daemon env' d' = None" by (simp add: Stop_daemon_def Let_def close_all_closed(9)) (simp add: d')
qed

subsection \<open>Examples\<close>

definition demo_cfg0 :: config where
  "demo_cfg0 = DefaultConfig\<lparr>cf_Proxy := (cf_Proxy DefaultConfig)\<lparr>pc_Enabled := True\<rparr>,
     cf_Scanning := (cf_Scanning DefaultConfig)\<lparr>sc_Migrated := True\<rparr>\<rparr>"

definition demo_cfg1 :: config where
  "demo_cfg1 = demo_cfg0\<lparr>cf_Proxy := (cf_Proxy demo_cfg0)\<lparr>pc_InterceptedDomains := [''api.mistral.ai'']\<rparr>\<rparr>"

definition demo_daemon_yaml :: yaml where
  "demo_daemon_yaml = \<lparr>ym_Marshal = (\<lambda>_. None),
     ym_Unmarshal = (\<lambda>s _. if s = ''old'' then Some demo_cfg0 else if s = ''new'' then Some demo_cfg1 else None), ym_Legacy = (\<lambda>_. None)\<rparr>"

definition demo_daemon_env :: "(unit, unit, unit, unit) daemon_env" where
  "demo_daemon_env = \<lparr>de_api = demo_api_env\<lparr>ae_yaml := demo_daemon_yaml\<rparr>, de_client = demo_client, de_ephemeral = False,
     de_opens = (\<lambda>_. True), de_singleton = True, de_keyOk = True, de_demoToken = [],
     de_pki = \<lparr>pk_genKey = Some (), pk_selfSign = (\<lambda>_. Some ()), pk_certPEM = (\<lambda>_. ''cert''), pk_keyPEM = (\<lambda>_. Some ''key''),
       pk_pem = Some, pk_parseCert = (\<lambda>_. Some ()), pk_parseKey = (\<lambda>_. Some ()), pk_isP256 = (\<lambda>_. True)\<rparr>,
     de_store = Some (), de_certOk = True, de_pid = 100, de_self = None, de_manager = Some (), de_cleanup = (\<lambda>m. (m, None)),
     de_lsof = (\<lambda>_. None), de_alive = NoSuchProcess,
     de_kill = \<lparr>ke_term = NoSuchProcess, ke_probe = (\<lambda>_. NoSuchProcess), ke_ticks = 0, ke_kill = NoSuchProcess, ke_probe9 = (\<lambda>_. NoSuchProcess)\<rparr>,
     de_detect = (\<lambda>_. Entities []), de_sidecar = \<lparr>sx_freePort = None, sx_spawns = False\<rparr>, de_admin = Some ''[::]:9090'',
     de_transparent = Some ''127.0.0.1:5000'', de_dashboard = Some ''[::]:9080'', de_watch = True, de_sock = True\<rparr>"

definition demo_logger :: logger where
  "demo_logger = \<lparr>lo_level = LevelInfo, lo_output = Stdout\<rparr>"

definition demo_daemon :: "(unit, unit) daemon" where
  "demo_daemon = (case snd (Build demo_daemon_env demo_logger [ConfigYaml \<mapsto> ''old'']) of Inr d \<Rightarrow> d)"

lemma demo_build:
  "\<exists>h'. Build demo_daemon_env demo_logger [ConfigYaml \<mapsto> ''old''] = (h', Inr demo_daemon)"
  "Get_config (ap_cfg (dm_api demo_daemon)) = demo_cfg0"
  "ap_proxy (dm_api demo_daemon) = Some (build_proxy latin1 demo_cfg0)" "ap_fw (dm_api demo_daemon) = None"
  "ap_home (dm_api demo_daemon) = [ConfigYaml \<mapsto> ''old'', CaCrt \<mapsto> ''cert'', CaKey \<mapsto> ''key'']"
proof -
  let ?E = demo_daemon_env
  have io: "ae_io (de_api ?E) = no_io_faults" "ae_yaml (de_api ?E) = demo_daemon_yaml"
    by (simp_all add: demo_daemon_env_def demo_api_env_def)
  have loaded: "NewConfigManager no_io_faults demo_daemon_yaml [ConfigYaml \<mapsto> ''old''] = ([ConfigYaml \<mapsto> ''old''], Some \<lparr>cm_cfg = demo_cfg0\<rparr>)"
    by (simp add: NewConfigManager_def Load_config_def ReadFile_def no_io_faults_def demo_daemon_yaml_def)
  have migrate: "migrate_config no_io_faults demo_daemon_yaml \<lparr>cm_cfg = demo_cfg0\<rparr> h = (\<lparr>cm_cfg = demo_cfg0\<rparr>, h, False)" for h
    by (simp add: migrate_config_def Update_def Let_def MigrateLegacyLayerFlagsFromFile_def demo_cfg0_def DefaultConfig_def Save_config_def
        demo_daemon_yaml_def)
  obtain lo where logs: "Setup (ae_T (de_api ?E)) (de_opens ?E) (cf_Logging demo_cfg0) demo_logger = (lo, True)"
    by (simp add: Setup_def Let_def demo_cfg0_def DefaultConfig_def)
  have "NewManager (ae_T (de_api ?E)) (cn_crypto (de_client ?E)) True [] (ae_now (de_api ?E)) (cf_LicensingKey demo_cfg0) \<noteq> None"
    by (simp add: NewManager_def Let_def split: sum.split)
  then obtain lic where lic: "NewManager (ae_T (de_api ?E)) (cn_crypto (de_client ?E)) True [] (ae_now (de_api ?E)) (cf_LicensingKey demo_cfg0) =
      Some lic" by blast
  have ca: "LoadOrCreateCA no_io_faults (de_pki ?E) [ConfigYaml \<mapsto> ''old''] =
      ([ConfigYaml \<mapsto> ''old'', CaCrt \<mapsto> ''cert'', CaKey \<mapsto> ''key''], Value_of \<lparr>ca_Cert = (), ca_Key = ()\<rparr>)"
    by (simp add: LoadOrCreateCA_def GenerateCA_def StatOk_def WriteFile_def no_io_faults_def demo_daemon_env_def)
  have flags: "de_singleton ?E" "de_keyOk ?E" "de_demoToken ?E = []" "de_store ?E = Some ()" "de_certOk ?E" "de_manager ?E = Some ()"
    by (simp_all add: demo_daemon_env_def)
  define d where "d = assemble ?E \<lparr>cm_cfg = demo_cfg0\<rparr> lo lic () [ConfigYaml \<mapsto> ''old'', CaCrt \<mapsto> ''cert'', CaKey \<mapsto> ''key''] ()"
  have build: "Build ?E demo_logger [ConfigYaml \<mapsto> ''old''] = (ap_home (dm_api d), Inr d)"
    by (simp add: Build_def io loaded migrate Get_config_def logs flags lic ca Let_def flip: d_def)
  then have d: "demo_daemon = d" by (simp add: demo_daemon_def)
  show "\<exists>h'. Build ?E demo_logger [ConfigYaml \<mapsto> ''old''] = (h', Inr demo_daemon)" using build d by simp
  show "Get_config (ap_cfg (dm_api demo_daemon)) = demo_cfg0"
    by (simp add: d d_def assemble_def Let_def NewServer_api_def SetSessions_def SetLicense_def SetRedactrBinary_def Get_config_def
        split: option.split prod.split)
  have T: "ae_T (de_api ?E) = latin1" "de_self ?E = None" by (simp_all add: demo_daemon_env_def demo_api_env_def)
  show "ap_proxy (dm_api demo_daemon) = Some (build_proxy latin1 demo_cfg0)" "ap_fw (dm_api demo_daemon) = None"
    by (simp_all add: d d_def assemble_def Let_def NewServer_api_def SetSessions_def SetLicense_def Get_config_def T split: prod.split)
  have "findSidecarPid no_io_faults lsof [ConfigYaml \<mapsto> ''old'', CaCrt \<mapsto> ''cert'', CaKey \<mapsto> ''key''] = None" for lsof
    by (simp add: findSidecarPid_def ReadFile_def)
  then have "fst (reap_at_start ?E [ConfigYaml \<mapsto> ''old'', CaCrt \<mapsto> ''cert'', CaKey \<mapsto> ''key''] m) =
      [ConfigYaml \<mapsto> ''old'', CaCrt \<mapsto> ''cert'', CaKey \<mapsto> ''key'']" for m
    by (simp add: reap_at_start_def ReapOrphans_def reap_sidecar_def io split: prod.split)
  then show "ap_home (dm_api demo_daemon) = [ConfigYaml \<mapsto> ''old'', CaCrt \<mapsto> ''cert'', CaKey \<mapsto> ''key'']"
    by (simp add: d d_def assemble_def Let_def T split_beta)
qed

text \<open>The daemon after its file was edited and reloaded.\<close>

definition demo_reloaded :: "(unit, unit) daemon" where
  "demo_reloaded = snd (watch_daemon demo_daemon_env Sighup \<lparr>wt_running = True, wt_debounce = False\<rparr>
     (on_home (\<lambda>h. h(ConfigYaml \<mapsto> ''new'')) demo_daemon))"

lemma demo_reload: "(daemon_step demo_daemon_env)\<^sup>*\<^sup>* demo_daemon demo_reloaded" "Get_config (ap_cfg (dm_api demo_reloaded)) = demo_cfg1"
proof -
  let ?E = demo_daemon_env
  let ?d = "on_home (\<lambda>h. h(ConfigYaml \<mapsto> ''new'')) demo_daemon"
  have io: "ae_io (de_api ?E) = no_io_faults" "ae_yaml (de_api ?E) = demo_daemon_yaml"
    by (simp_all add: demo_daemon_env_def demo_api_env_def)
  have edit: "daemon_step ?E demo_daemon ?d" by (rule step_files)
  have same: "same_model ?E ?E" by (simp add: same_model_def)
  obtain w' where "watch_daemon ?E Sighup \<lparr>wt_running = True, wt_debounce = False\<rparr> ?d = (w', demo_reloaded)"
    by (simp add: demo_reloaded_def) (metis prod.collapse)
  then have "daemon_step ?E ?d demo_reloaded" by (rule step_watch[OF same])
  then show "(daemon_step ?E)\<^sup>*\<^sup>* demo_daemon demo_reloaded"
    by (rule rtranclp.rtrancl_into_rtrancl[OF r_into_rtranclp[of "daemon_step ?E", OF edit]])

  have cfg: "Reload no_io_faults demo_daemon_yaml m (ap_home (dm_api ?d)) = (\<lparr>cm_cfg = demo_cfg1\<rparr>, Some demo_cfg1)" for m
    by (simp add: Reload_def ReadFile_def no_io_faults_def on_home_def demo_daemon_yaml_def)
  show "Get_config (ap_cfg (dm_api demo_reloaded)) = demo_cfg1"
    by (simp add: demo_reloaded_def watch_daemon_def watch_step_def reload_def io cfg onLoad_def Let_def Get_config_def)
qed

theorem reload_like_restart_witness:
  "\<exists>c1 c2. c2 = restarted latin1 (\<lambda>_. Entities []) (with_threshold (9 / 2) demo_cfg0) (gl_ready (eg_gliner (dm_engine demo_reloaded))) \<and>
     ap_coord (dm_api (onLoad demo_daemon_env demo_cfg0 demo_reloaded)) = Some c1 \<and>
     (\<forall>srt hash ck t. map_option snd (ScanAndRedact srt latin1 hash ck c1 t) = map_option snd (ScanAndRedact srt latin1 hash ck c2 t))"
proof -
  obtain h' where b: "Build demo_daemon_env demo_logger [ConfigYaml \<mapsto> ''old''] = (h', Inr demo_daemon)" using demo_build(1) by blast
  have eqs: "ae_T (de_api demo_daemon_env) = latin1" "de_detect demo_daemon_env = (\<lambda>_. Entities [])"
    "sc_EntropyThreshold (cf_Scanning (Get_config (ap_cfg (dm_api demo_daemon)))) = 9 / 2"
    by (simp_all add: demo_daemon_env_def demo_api_env_def demo_build(2)) (simp add: demo_cfg0_def DefaultConfig_def)
  show ?thesis using reload_like_restart[OF b demo_reload(1), of demo_cfg0] unfolding eqs by blast
qed

definition demo_mistral :: request where
  "demo_mistral = \<lparr>rq_Host = ''api.mistral.ai'', rq_Method = ''POST'', rq_Path = ''/v1/chat/completions'',
     rq_Body = ReadOk (OtherText ''my key''), rq_ContentLength = 6\<rparr>"

theorem reload_keeps_domains_witness:
  "''api.mistral.ai'' \<in> set (pc_InterceptedDomains (cf_Proxy (Get_config (ap_cfg (dm_api demo_reloaded))))) \<and>
   (\<exists>p. ap_proxy (dm_api demo_reloaded) = Some p \<and>
     handle_request latin1 (\<lambda>_. 0) \<lparr>he_reqID = [], he_totalMs = 0, he_now = 0\<rparr> p (\<lambda>s t. None) () demo_mistral = Some ((), demo_mistral, None, []))"
proof -
  obtain h' where b: "Build demo_daemon_env demo_logger [ConfigYaml \<mapsto> ''old''] = (h', Inr demo_daemon)" using demo_build(1) by blast
  have T: "ae_T (de_api demo_daemon_env) = latin1" by (simp add: demo_daemon_env_def demo_api_env_def)
  have "\<not> ShouldIntercept latin1 (New_filter latin1 (pc_InterceptedDomains (cf_Proxy demo_cfg0)) (pc_BlockedDomains (cf_Proxy demo_cfg0)))
      (rq_Host demo_mistral)"
    by code_simp
  then have "\<exists>p. ap_proxy (dm_api demo_reloaded) = Some p \<and>
      handle_request latin1 (\<lambda>_. 0) \<lparr>he_reqID = [], he_totalMs = 0, he_now = 0\<rparr> p (\<lambda>s t. None) () demo_mistral = Some ((), demo_mistral, None, [])"
    using reload_keeps_domains[OF b demo_reload(1) demo_build(2)[symmetric], of demo_mistral] T by simp
  then show ?thesis by (simp add: demo_reload(2)) (simp add: demo_cfg1_def)
qed

lemma start_not_routed_example:
  "\<exists>d. Start_daemon demo_daemon_env demo_daemon = (d, None) \<and>
     handleProxyStatus (dm_api d) = (200, ProxyBody True (Some ''127.0.0.1:4000'') (Some False))"
proof -
  obtain h' where b: "Build demo_daemon_env demo_logger [ConfigYaml \<mapsto> ''old''] = (h', Inr demo_daemon)" using demo_build(1) by blast
  have bind: "ae_bind (de_api demo_daemon_env) = Some ''127.0.0.1:4000''" by (simp add: demo_daemon_env_def demo_api_env_def)
  have en: "pc_Enabled (cf_Proxy (Get_config (ap_cfg (dm_api demo_daemon))))" by (simp add: demo_build(2)) (simp add: demo_cfg0_def)
  have "snd (Start_daemon demo_daemon_env demo_daemon) = None"
    by (simp add: Start_daemon_def Let_def start_listeners_def start_proxy_listener_def startControlSocket_def demo_daemon_env_def demo_api_env_def
        split: prod.split option.split) (simp add: Start_proxy_def)
  then obtain d where "Start_daemon demo_daemon_env demo_daemon = (d, None)" by (metis prod.collapse)
  then show ?thesis using start_not_routed[OF b _ bind en] by blast
qed

end
