(* ===== verification/PresidioProps.thy ===== *)
theory PresidioProps
  imports Presidio
begin

text \<open>
  Properties of the pattern layer: what its checksums detect, which of its patterns compile,
  that access keys are found, and where it panics.
\<close>

subsection \<open>Errors in one digit\<close>

definition luhn_digit :: "bool \<Rightarrow> char \<Rightarrow> int" where
  "luhn_digit alt c = (let d = digit_val c in if alt then if 2 * d > 9 then 2 * d - 9 else 2 * d else d)"

lemma luhn_sum_Cons: "luhn_sum alt (c # cs) = luhn_digit alt c + luhn_sum (\<not> alt) cs"
  by (simp add: luhn_digit_def Let_def)

lemma luhn_sum_update:
  "i < length cs \<Longrightarrow>
   \<exists>a. luhn_sum alt (cs[i := c]) = luhn_sum alt cs - luhn_digit a (cs ! i) + luhn_digit a c"
proof (induction cs arbitrary: i alt)
  case (Cons x cs)
  show ?case
  proof (cases i)
    case 0
    then show ?thesis by (auto simp: luhn_sum_Cons simp del: luhn_sum.simps intro: exI [of _ alt])
  next
    case (Suc j)
    with Cons.IH [of j "\<not> alt"] Cons.prems show ?thesis
      by (auto simp: luhn_sum_Cons simp del: luhn_sum.simps)
  qed
qed simp

lemma digit_val_eq: "is_digit c \<Longrightarrow> digit_val c = int (of_char c) - 48"
  by (simp add: is_digit_def char_between_def digit_val_def)

lemma digit_val_range: "is_digit c \<Longrightarrow> 0 \<le> digit_val c \<and> digit_val c \<le> 9"
  by (auto simp: is_digit_def char_between_def digit_val_eq)

lemma digit_val_inj:
  assumes "is_digit c" "is_digit d" "digit_val c = digit_val d"
  shows "c = d"
proof -
  have "(of_char c :: nat) = of_char d" using assms by (simp add: digit_val_eq)
  then show ?thesis by (metis char_of_char)
qed

lemma double_digit_inj:
  fixes x y :: int
  assumes "(if 2 * x > 9 then 2 * x - 9 else 2 * x) = (if 2 * y > 9 then 2 * y - 9 else 2 * y)"
  shows "x = y \<or> 2 * x = 2 * y - 9 \<or> 2 * x - 9 = 2 * y"
  using assms by (auto split: if_splits)

lemma luhn_digit_inj:
  assumes "is_digit c" "is_digit d" "luhn_digit a c = luhn_digit a d"
  shows "c = d"
proof (rule digit_val_inj [OF assms(1,2)])
  have odd: "2 * x \<noteq> 2 * y - (9 :: int)" for x y by presburger
  show "digit_val c = digit_val d"
    using assms(3) double_digit_inj [of "digit_val c" "digit_val d"]
      odd [of "digit_val c" "digit_val d"] odd [of "digit_val d" "digit_val c"]
    by (auto simp: luhn_digit_def Let_def split: if_splits)
qed

lemma luhn_digit_range: "is_digit c \<Longrightarrow> 0 \<le> luhn_digit a c \<and> luhn_digit a c \<le> 9"
  using digit_val_range [of c] by (auto simp: luhn_digit_def Let_def)

text \<open>A change smaller than the modulus changes the residue.\<close>

lemma residue_changes:
  fixes s d m :: int
  assumes "s mod m = 0" "(s + d) mod m = 0" "\<bar>d\<bar> < m"
  shows "d = 0"
proof -
  have "m dvd s" "m dvd s + d" using assms(1,2) by auto
  then have "m dvd d" by (simp add: dvd_add_right_iff)
  then show ?thesis using assms(3) dvd_imp_le_int [of d m] by fastforce
qed

lemma luhn_one_digit:
  assumes "list_all is_digit ds" "luhn ds" "i < length ds" "is_digit c" "c \<noteq> ds ! i"
  shows "\<not> luhn (ds[i := c])"
proof
  assume l: "luhn (ds[i := c])"
  let ?j = "length ds - i - 1"
  have j: "?j < length (rev ds)" "rev ds ! ?j = ds ! i" using assms(3) by (simp_all add: rev_nth)
  have di: "is_digit (ds ! i)" using assms(1,3) by (simp add: list_all_length)
  obtain a where a: "luhn_sum False ((rev ds)[?j := c]) =
      luhn_sum False (rev ds) + (luhn_digit a c - luhn_digit a (ds ! i))"
    using luhn_sum_update [OF j(1), of False c] j(2) by (auto simp: algebra_simps)
  have "luhn_digit a c - luhn_digit a (ds ! i) = 0"
  proof (rule residue_changes)
    show "luhn_sum False (rev ds) mod 10 = 0" using assms(2) by (simp add: luhn_def)
    show "(luhn_sum False (rev ds) + (luhn_digit a c - luhn_digit a (ds ! i))) mod 10 = 0"
      using l assms(3) unfolding a [symmetric] by (simp add: luhn_def rev_update)
    show "\<bar>luhn_digit a c - luhn_digit a (ds ! i)\<bar> < 10"
      using luhn_digit_range [OF di, of a] luhn_digit_range [OF assms(4), of a] by linarith
  qed
  then show False using luhn_digit_inj [OF assms(4) di, of a] assms(5) by simp
qed

lemma weighted_sum_update:
  "i < length ds \<Longrightarrow> length ws = length ds \<Longrightarrow>
   weighted_sum ws (ds[i := c]) = weighted_sum ws ds + (digit_val c - digit_val (ds ! i)) * ws ! i"
proof (induction ds arbitrary: i ws)
  case (Cons d ds)
  then show ?case
    by (cases ws; cases i) (auto simp: weighted_sum_def algebra_simps)
qed simp

lemma aba_one_digit:
  assumes "list_all is_digit ds" "abaChecksum ds" "i < length ds" "is_digit c" "c \<noteq> ds ! i"
  shows "\<not> abaChecksum (ds[i := c])"
proof
  assume l: "abaChecksum (ds[i := c])"
  let ?ws = "[3, 7, 1, 3, 7, 1, 3, 7, 1] :: int list"
  let ?d = "digit_val c - digit_val (ds ! i)"
  have len: "length ds = 9" using assms(2) by (simp add: abaChecksum_def)
  have di: "is_digit (ds ! i)" using assms(1,3) by (simp add: list_all_length)
  have "list_all (\<lambda>w. coprime w 10) ?ws" by (simp add: coprime_iff_gcd_eq_1 gcd_non_0_int)
  then have w: "coprime (?ws ! i) 10"
    using assms(3) len unfolding list_all_length by simp
  have eq: "(weighted_sum ?ws ds + ?d * ?ws ! i) mod 10 = 0" "weighted_sum ?ws ds mod 10 = 0"
    using l assms(2,3) len weighted_sum_update [of i ds ?ws c] by (simp_all add: abaChecksum_def)
  have "10 dvd weighted_sum ?ws ds + ?d * ?ws ! i" "10 dvd weighted_sum ?ws ds" using eq by blast+
  then have "10 dvd ?d * ?ws ! i" by (simp add: dvd_add_right_iff)
  then have "10 dvd ?d" using w by (simp add: coprime_commute coprime_dvd_mult_left_iff)
  then have "?d = 0"
    using residue_changes [of 0 10 ?d] digit_val_range [OF di] digit_val_range [OF assms(4)] by auto
  then show False using digit_val_inj [OF assms(4) di] assms(5) by simp
qed

subsection \<open>Patterns that do not compile\<close>

text \<open>Which entries of the table \<open>regexp.Compile\<close> accepts.\<close>

definition compiles :: "raw \<Rightarrow> string \<times> bool" where
  "compiles d = (raw_ruleID d, Compile (raw_pattern d) \<noteq> None)"

lemma compiles1:
  "map compiles (presidio_raws1 T) =
    [(''credit_card_luhn'', False),
     (''crypto_btc'', True),
     (''crypto_eth'', True),
     (''email_regex'', True),
     (''iban_presidio'', True),
     (''ipv4'', True),
     (''ipv6'', True),
     (''url_bare'', True),
     (''dob_mdy'', True),
     (''dob_dmy'', True)]"
  by code_simp

lemma compiles2:
  "map compiles (presidio_raws2 T) =
    [(''mac_colon_dash'', True),
     (''mac_colon_dash'', True),
     (''mac_cisco_dot'', True),
     (''us_ssn_dash'', True),
     (''us_itin_dash'', True),
     (''us_itin_bare'', True),
     (''us_passport_numeric'', True),
     (''us_passport_alpha'', True),
     (''us_driver_license'', True),
     (''us_bank_number'', True)]"
  by code_simp

lemma compiles3:
  "map compiles (presidio_raws3 T) =
    [(''aba_routing_dashed'', True),
     (''aba_routing_bare'', True),
     (''dea_license'', True),
     (''us_mbi_separated'', True),
     (''us_mbi_bare'', True),
     (''us_npi_separated'', True),
     (''us_npi_bare'', True),
     (''uk_nhs'', True),
     (''uk_nino'', False),
     (''uk_postcode'', True)]"
  by code_simp

lemma compiles4:
  "map compiles (presidio_raws4 T) =
    [(''uk_passport'', True),
     (''uk_driving_licence'', True),
     (''ca_sin'', True),
     (''ca_sin'', True),
     (''au_tfn'', True),
     (''in_pan'', True),
     (''es_nif'', True),
     (''de_passport'', True),
     (''sg_nric_fin'', True)]"
  by code_simp

lemma compiles5:
  "map compiles (presidio_raws5 T) =
    [(''person_id_generic'', True),
     (''swift_bic'', True),
     (''cvv'', True),
     (''phone_parens'', True),
     (''phone_dash_dot'', True),
     (''phone_intl_plus'', True),
     (''phone_leading_zero'', True),
     (''phone_double_zero'', True),
     (''aws_access_key'', True),
     (''aws_secret_key'', True)]"
  by code_simp

lemma compiles6:
  "map compiles (presidio_raws6 T) =
    [(''gcp_api_key'', True),
     (''private_key_pem'', True),
     (''jwt'', True),
     (''connection_string'', True),
     (''generic_secret_kv'', True),
     (''generic_secret_pwd'', True),
     (''password_prose'', False),
     (''imei'', True),
     (''cc_expiry'', True),
     (''insurance_id'', True)]"
  by code_simp

lemma compiles7:
  "map compiles (presidio_raws7 T) =
    [(''registration_id_generic'', False),
     (''iban_simple'', True),
     (''credit_card_4x4'', True),
     (''health_plan_id'', True),
     (''medical_record_mrn'', False),
     (''biometric_id'', False),
     (''license_plate'', True),
     (''url_with_token'', True),
     (''us_ssn_dash'', True),
     (''us_ssn_space'', True)]"
  by code_simp

lemmas compiles_table = compiles1 compiles2 compiles3 compiles4 compiles5 compiles6 compiles7

lemma compile_raws_ids:
  "map pd_ruleID (compile_raws (\<lambda>_. True) ds) = map fst (filter snd (map compiles ds))"
  by (induction ds) (auto simp: compiles_def split: option.split)

lemma compilePatterns_ids:
  "map pd_ruleID (compilePatterns T (\<lambda>_. True)) = map fst (filter snd (map compiles (presidio_raws T)))"
  by (simp add: compilePatterns_def compile_raws_ids)

subsection \<open>One rule alone\<close>

lemma compile_raws_enabled:
  "compile_raws en ds = compile_raws en (filter (\<lambda>d. raw_ruleID d = [] \<or> en (raw_ruleID d)) ds)"
  by (induction ds) (auto split: option.split)

definition only_rule :: "string \<Rightarrow> string \<Rightarrow> bool" where
  "only_rule i j \<longleftrightarrow> i = j"

definition rule_raws :: "unicode_tables \<Rightarrow> string \<Rightarrow> raw list" where
  "rule_raws T i = filter (\<lambda>d. raw_ruleID d = [] \<or> only_rule i (raw_ruleID d)) (presidio_raws T)"

lemma compilePatterns_only: "compilePatterns T (only_rule i) = compile_raws (only_rule i) (rule_raws T i)"
  unfolding compilePatterns_def rule_raws_def by (rule compile_raws_enabled)

subsection \<open>Access keys\<close>

definition aws_re :: regexp where
  "aws_re = RCat (RClass False [(65, 65)]) (RCat (RClass False [(75, 75)]) (RCat (RClass False [(73, 73)])
     (RCat (RClass False [(65, 65)]) (RCat (RRep (RClass False [(48, 57), (65, 90)]) 16 (Some 16) True) REmpty))))"

lemma aws_compiles: "Compile ''AKIA[0-9A-Z]{16}'' = Some aws_re"
  by code_simp

definition key_char :: "char \<Rightarrow> bool" where
  "key_char c \<longleftrightarrow> is_digit c \<or> char_between CHR ''A'' CHR ''Z'' c"

lemma aws_ends:
  assumes "map snd xs = map of_char (''AKIA'' @ ds)" "length ds = 16" "list_all key_char ds"
  shows "\<exists>q. ends aws_re (p, xs @ rest) = [(q, rest)]"
proof -
  obtain a b c d ys where xs: "xs = a # b # c # d # ys"
    and hd: "snd a = 65" "snd b = 75" "snd c = 73" "snd d = 65" and ys: "map snd ys = map of_char ds"
    using assms(1) by (auto simp: map_eq_Cons_conv)
  have "length ys = 16" using ys assms(2) by (metis length_map)
  moreover have "list_all (in_class False [(48, 57), (65, 90)]) (map snd ys)"
    using assms(3) unfolding ys
    by (auto simp: list_all_iff in_class_def key_char_def is_digit_def char_between_def)
  ultimately obtain q where
    "exact_ends (ends (RClass False [(48, 57), (65, 90)])) 16 (Some 65, ys @ rest) = [(q, rest)]"
    using exact_ends_class [of False "[(48, 57), (65, 90)]" ys "Some 65" rest] by auto
  then show ?thesis using hd by (simp add: aws_re_def xs in_class_def del: exact_ends.simps)
qed

lemma aws_found:
  assumes "length ds = 16" "list_all key_char ds"
  shows "\<exists>(a, b) \<in> set (FindAllStringIndex aws_re (pre @ ''AKIA'' @ ds @ post)). a \<le> go_len pre \<and> go_len pre < b"
proof -
  let ?key = "''AKIA'' @ ds" and ?t = "pre @ ''AKIA'' @ ds @ post"
  have len: "go_len ds = 16" using assms(1) by (simp add: go_len_def)
  have "ascii ?key"
    using assms(2) by (auto simp: ascii_def list_all_iff key_char_def is_digit_def char_between_def)
  then obtain ys where ys: "range_from (go_len pre) (?key @ post) = ys @ range_from (go_len pre + go_len ?key) post"
    "map snd ys = map of_char ?key"
    using range_from_ascii_append by blast
  obtain xs where xs: "go_range ?t = xs @ range_from (go_len pre) (?key @ post)"
    using range_from_split [of "CHR ''A''" 0 pre "''KIA'' @ ds @ post"] by (auto simp: go_range_def)
  obtain z zs where z: "ys = z # zs" "fst z = go_len pre"
    using ys range_from_rec [of "?key @ post" "go_len pre"] by (cases ys) auto
  let ?p = "if xs = [] then None else Some (snd (last xs))" and ?rest = "range_from (go_len pre + go_len ?key) post"
  obtain q where q: "ends aws_re (?p, z # zs @ ?rest) = [(q, ?rest)]"
    using aws_ends [OF ys(2) assms, of ?p ?rest] z by auto
  have "byte_pos (go_len pre + go_len ?key + go_len post) (q, ?rest) = go_len pre + go_len ?key"
    using positioned_range_from [of "go_len pre + go_len ?key" post q] by blast
  then have "byte_pos (go_len ?t) (q, ?rest) \<noteq> fst z" using z(2) len by (simp add: algebra_simps)
  then show ?thesis
    using FindAll_complete [of ?t xs z "zs @ ?rest", OF _ q] xs ys(1) z by simp
qed

text \<open>What the pattern matches is exactly a key.\<close>

definition access_key :: "string \<Rightarrow> bool" where
  "access_key k \<longleftrightarrow> length k = 20 \<and> take 4 k = ''AKIA'' \<and> list_all key_char (drop 4 k)"

lemma aws_match:
  assumes "(a, b) \<in> set (FindAllStringIndex aws_re t)"
  shows "access_key (seg t a b)"
proof -
  obtain pre mid post st st' where m: "t = pre @ mid @ post" "a = go_len pre" "b = go_len pre + go_len mid"
    "snd st = range_from a (mid @ post)" "snd st' = range_from b post" "(st, st') \<in> matches aws_re"
    using FindAll_matches[OF assms] by blast
  let ?cls = "RClass False [(48, 57), (65, 90)]"
  have low: "list_all (\<lambda>(a, b). b < 0x80) [(n, n)]" "list_all (\<lambda>(a, b). b < 0x80) [(48, 57 :: nat), (65, 90)]" if "n < 0x80" for n :: nat
    using that by simp_all
  obtain s1 s2 s3 s4 where st: "(st, s1) \<in> matches (RClass False [(65, 65)])" "(s1, s2) \<in> matches (RClass False [(75, 75)])"
    "(s2, s3) \<in> matches (RClass False [(73, 73)])" "(s3, s4) \<in> matches (RClass False [(65, 65)])" "(s4, st') \<in> matches ?cls ^^ 16"
    using m(6) by (auto simp: aws_re_def relcomp_unfold simp del: matches.simps(2) relpow.simps)
  obtain c1 t1 where 1: "mid @ post = c1 # t1" "in_class False [(65, 65)] (of_char c1)" "snd s1 = range_from (a + 1) t1"
    using class_byte[OF st(1) low(1) m(4)] by auto
  obtain c2 t2 where 2: "t1 = c2 # t2" "in_class False [(75, 75)] (of_char c2)" "snd s2 = range_from (a + 1 + 1) t2"
    using class_byte[OF st(2) low(1) 1(3)] by auto
  obtain c3 t3 where 3: "t2 = c3 # t3" "in_class False [(73, 73)] (of_char c3)" "snd s3 = range_from (a + 1 + 1 + 1) t3"
    using class_byte[OF st(3) low(1) 2(3)] by auto
  obtain c4 t4 where 4: "t3 = c4 # t4" "in_class False [(65, 65)] (of_char c4)" "snd s4 = range_from (a + 1 + 1 + 1 + 1) t4"
    using class_byte[OF st(4) low(1) 3(3)] by auto
  obtain cs s' where 5: "t4 = cs @ s'" "length cs = 16" "list_all (\<lambda>c. in_class False [(48, 57), (65, 90)] (of_char c)) cs"
    "snd st' = range_from (a + 1 + 1 + 1 + 1 + int 16) s'"
    using class_bytes[OF st(5) low(2) 4(3), of 0] by auto
  let ?k = "c1 # c2 # c3 # c4 # cs"
  have bytes: "mid @ post = ?k @ s'" by (simp add: 1(1) 2(1) 3(1) 4(1) 5(1))
  have "go_len mid + go_len post = 20 + go_len s'" using arg_cong[OF bytes, of go_len] 5(2) by (simp add: go_len_def)
  then have n: "b + go_len post = a + 20 + go_len s'" using m(2,3) by simp
  have "byte_pos (b + go_len post) (None, range_from b post) = b" using positioned_range_from[of b post None] by blast
  moreover have "byte_pos (a + 20 + go_len s') (None, range_from (a + 20) s') = a + 20" using positioned_range_from[of "a + 20" s' None] by blast
  moreover have "range_from b post = range_from (a + 20) s'" using m(5) 5(4) by (simp add: add.commute)
  ultimately have "b = a + 20" using n by metis
  then have "length mid = 20" using m(2,3) by (simp add: go_len_def)
  then have "mid = take 20 (mid @ post)" by simp
  also have "\<dots> = ?k" unfolding bytes using 5(2) by simp
  finally have "mid = ?k" .
  moreover have "c1 = CHR ''A''" "c2 = CHR ''K''" "c3 = CHR ''I''" "c4 = CHR ''A''"
    using 1(2) 2(2) 3(2) 4(2) by (simp_all add: in_class_def of_char_eq_iff[of _ "CHR ''A''", where 'a = nat, symmetric]
      of_char_eq_iff[of _ "CHR ''K''", where 'a = nat, symmetric] of_char_eq_iff[of _ "CHR ''I''", where 'a = nat, symmetric])
  moreover have "list_all key_char cs"
    using 5(3) by (auto simp: list_all_iff in_class_def key_char_def is_digit_def char_between_def)
  moreover have "seg t a b = mid" using m(1-3) by (simp add: seg_def go_len_def)
  ultimately show ?thesis using 5(2) by (simp add: access_key_def)
qed

lemma access_key_append: "access_key K \<Longrightarrow> \<exists>ds. K = ''AKIA'' @ ds \<and> length ds = 16 \<and> list_all key_char ds"
  using append_take_drop_id[of 4 K] unfolding access_key_def by (intro exI[of _ "drop 4 K"]) simp

lemma key_char_below: "key_char c \<Longrightarrow> of_char c \<le> (90 :: nat)"
  unfolding key_char_def is_digit_def char_between_def by (elim disjE conjE; simp)

lemma access_key_below:
  assumes "access_key K" "c \<in> set K"
  shows "of_char c \<le> (90 :: nat)"
proof -
  obtain ds where "K = ''AKIA'' @ ds" "list_all key_char ds" using access_key_append[OF assms(1)] by blast
  then have "key_char c \<or> c \<in> set ''AKIA''" using assms(2) by (auto simp: list_all_iff)
  then show ?thesis using key_char_below[of c] by auto
qed

definition aws_raw :: raw where
  "aws_raw = Raw ''AWS_ACCESS_KEY'' ''aws_access_key'' ''AKIA[0-9A-Z]{16}'' (9 / 10) [] None False"

lemma aws_raw_in_table: "aws_raw \<in> set (presidio_raws T)"
  unfolding aws_raw_def presidio_raws_def presidio_raws5_def
  by (simp only: set_append list.set Un_iff insert_iff simp_thms)

lemma compile_raws_mem:
  "d \<in> set ds \<Longrightarrow> Compile (raw_pattern d) = Some re \<Longrightarrow> en (raw_ruleID d) \<Longrightarrow>
   \<lparr>pd_label = raw_label d, pd_ruleID = raw_ruleID d, pd_re = re, pd_score = raw_score d,
    pd_context = raw_context d, pd_validate = raw_validate d, pd_contextReq = raw_contextReq d\<rparr>
   \<in> set (compile_raws en ds)"
  by (induction ds) (auto split: option.split)

lemma presidio_Scan_patterns:
  "presidio_Scan T (presidio_NewWithEnabled T en) text = ScanOk fs \<longleftrightarrow>
   scan_patterns (compilePatterns T en) text (ToLower T text) = Some fs"
  by (simp add: presidio_Scan_def presidio_NewWithEnabled_def rebuild_def split: option.split)

text \<open>
  While its rule is enabled, every AWS access key in a text, whatever surrounds it, starts inside a finding whose
  value is such a key.
\<close>

lemma presidio_finds_key:
  assumes "on ''aws_access_key''" "presidio_Scan T (presidio_NewWithEnabled T on) t = ScanOk fs"
    and "access_key K" "t = pre @ K @ post"
  shows "\<exists>f \<in> set fs. Start f \<le> go_len pre \<and> go_len pre < End f \<and> access_key (Value f)"
proof -
  obtain ds where ds: "K = ''AKIA'' @ ds" "length ds = 16" "list_all key_char ds" using access_key_append[OF assms(3)] by blast
  let ?p = "\<lparr>pd_label = ''AWS_ACCESS_KEY'', pd_ruleID = ''aws_access_key'', pd_re = aws_re, pd_score = 9 / 10,
      pd_context = [], pd_validate = None, pd_contextReq = False\<rparr>"
  have p: "?p \<in> set (compilePatterns T on)"
    using compile_raws_mem [OF aws_raw_in_table, of aws_re on] assms(1) aws_compiles
    by (simp add: aws_raw_def compilePatterns_def)
  obtain a b where ab: "(a, b) \<in> set (FindAllStringIndex aws_re t)" "a \<le> go_len pre" "go_len pre < b"
    using aws_found [OF ds(2,3), of pre post] by (auto simp: assms(4) ds(1))
  let ?f = "\<lparr>Label = ''AWS_ACCESS_KEY'', Value = seg t a b, Start = a, End = b, Confidence = 9 / 10, Layer = ''presidio''\<rparr>"
  have "scan_match ?p t (ToLower T t) (a, b) = Some (Some ?f)"
    using FindAll_props [OF ab(1)] by (simp add: scan_match_def context_score_def go_slice_Some)
  moreover have "scan_patterns (compilePatterns T on) t (ToLower T t) = Some fs"
    using assms(2) by (simp add: presidio_Scan_patterns)
  ultimately have "?f \<in> set fs"
    using scan_patterns_complete [of _ t _ fs ?p "(a, b)"] p ab(1) by fastforce
  then show ?thesis using ab(2,3) aws_match[OF ab(1)] by force
qed

text \<open>A scanner with the rule for social security numbers alone.\<close>

definition ssn_scanner :: presidio where
  "ssn_scanner = presidio_NewWithEnabled latin1 (only_rule ''us_ssn_dash'')"

lemma ssn_scan:
  "presidio_Scan latin1 ssn_scanner text =
     (case scan_patterns (compile_raws (only_rule ''us_ssn_dash'') (rule_raws latin1 ''us_ssn_dash'')) text
             (ToLower latin1 text) of
        None \<Rightarrow> ScanPanic | Some fs \<Rightarrow> ScanOk fs)"
  by (simp add: presidio_Scan_def ssn_scanner_def presidio_NewWithEnabled_def rebuild_def compilePatterns_only)

lemma ssn_found:
  "presidio_Scan latin1 ssn_scanner ''my ssn: 223-45-6788'' =
     ScanOk [\<lparr>Label = ''US_SSN'', Value = ''223-45-6788'', Start = 8, End = 19, Confidence = 85 / 100,
              Layer = ''presidio''\<rparr>,
             \<lparr>Label = ''US_SSN'', Value = ''223-45-6788'', Start = 8, End = 19, Confidence = 85 / 100,
              Layer = ''presidio''\<rparr>]"
  unfolding ssn_scan by code_simp

subsection \<open>Properties\<close>

text \<open>
  The pattern layer reports exactly what stands in the text: the value of every finding is
  the slice of the text at its positions, its confidence is at least 0.3, and its label is that
  of one of the compiled patterns.
\<close>

lemma presidio_exact:
  assumes "presidio_Scan T s text = ScanOk fs" and "f \<in> set fs"
  shows "located text f \<and> 3 / 10 \<le> Confidence f \<and> Layer f = ''presidio'' \<and>
    (\<exists>ps. presidio_state s = Some ps \<and> Label f \<in> pd_label ` set ps)"
  using presidio_finding [OF assms] scan_match_props by fastforce

lemma presidio_exact_example:
  "located ''my ssn: 223-45-6788'' \<lparr>Label = ''US_SSN'', Value = ''223-45-6788'', Start = 8, End = 19,
     Confidence = 85 / 100, Layer = ''presidio''\<rparr>"
  using presidio_exact [OF ssn_found] by simp

text \<open>
  On ASCII texts the pattern layer never panics, whatever rules are enabled.
\<close>

lemma presidio_ascii_safe:
  assumes "ascii text"
  shows "\<exists>fs. presidio_Scan T (presidio_Reconfigure T s enabled) text = ScanOk fs"
  using presidio_no_panic [OF assms, of T "presidio_Reconfigure T s enabled"]
  by (auto simp: presidio_Scan_def split: option.splits)

definition kelvin_text :: string where
  "kelvin_text = concat (replicate 60 [CHR 0xE2, CHR 0x84, CHR 0xAA]) @ '' 223-45-6788''"


text \<open>
  The Luhn and routing-number checksums detect every error in a single digit.
\<close>

lemma checksums_detect_one_digit:
  assumes "list_all is_digit ds" and "i < length ds" and "is_digit c" and "c \<noteq> ds ! i"
  shows "(luhn ds \<longrightarrow> \<not> luhn (ds[i := c])) \<and> (abaChecksum ds \<longrightarrow> \<not> abaChecksum (ds[i := c]))"
  using luhn_one_digit [OF assms(1) _ assms(2-4)] aba_one_digit [OF assms(1) _ assms(2-4)] by blast

lemma checksums_detect_one_digit_example:
  "luhn ''4539578763621486'' \<and> \<not> luhn ''4539578763621487'' \<and>
   abaChecksum ''021000021'' \<and> \<not> abaChecksum ''021000022''"
proof -
  have l: "luhn ''4539578763621486''" and a: "abaChecksum ''021000021''" by code_simp+
  have "\<not> luhn (''4539578763621486''[15 := CHR ''7''])"
    using checksums_detect_one_digit [of "''4539578763621486''" 15 "CHR ''7''"] l
    by (simp add: is_digit_def char_between_def)
  moreover have "\<not> abaChecksum (''021000021''[8 := CHR ''2''])"
    using checksums_detect_one_digit [of "''021000021''" 8 "CHR ''2''"] a
    by (simp add: is_digit_def char_between_def)
  ultimately show ?thesis using l a by simp
qed

text \<open>
  Six of the patterns use look-around assertions, which Go's regular expressions do not
  have; \<open>compilePatterns\<close> drops them without an error. The rules of the catalogue that the
  pattern layer should implement and for which no pattern is left are exactly these seven (one
  of them has no pattern at all).
\<close>

lemma presidio_rules_without_pattern:
  "map rs_ID (filter (\<lambda>r. rs_Layer r = ''presidio'' \<and>
       rs_ID r \<notin> set (map pd_ruleID (compilePatterns T (\<lambda>_. True)))) AllRules) =
   [''password_prose'', ''credit_card_luhn'', ''credit_card_bare'', ''medical_record_mrn'', ''biometric_id'',
    ''uk_nino'', ''registration_id_generic'']"
  unfolding compilePatterns_ids presidio_raws_def map_append compiles_table
  by code_simp

end
