(* ===== verification/RegexLayer.thy ===== *)
theory RegexLayer
  imports Presidio
begin

text \<open>
  The layer of plain regular expressions: \<open>internal/scanner/regex/regex.go\<close>. Patterns are pairs of a
  name and a pattern; \<open>New\<close> compiles the default patterns and the user's, and leaves out those that
  do not compile. It respects the contract \<open>exact_layer\<close> and returns on every text.
\<close>

type_synonym PatternDef = "string \<times> string"

record regex_scanner =
  rs_patterns :: "(string \<times> regexp) list"

definition DefaultPatterns :: "PatternDef list" where
  \<open>DefaultPatterns =
     [(''EMAIL'', rx CHR ''~'' ''[a-zA-Z0-9._%+~-]+@[a-zA-Z0-9.~-]+~.[a-zA-Z]{2,}''),
      (''SSN'', rx CHR ''~'' ''~b~d{3}-~d{2}-~d{4}~b''),
      (''SSN'', rx CHR ''~'' ''~b~d{3}~s~d{2}~s~d{4}~b''),
      (''CREDIT-CARD'', rx CHR ''~'' ''~b~d{4}[~s~-]~d{4}[~s~-]~d{4}[~s~-]~d{4}~b''),
      (''PHONE'', rx CHR ''~'' ''~(~d{3}~)[~s.~-]?~d{3}[~s.~-]?~d{4}''),
      (''PHONE'', rx CHR ''~'' ''~b~d{3}[~-~.]~d{3}[~-~.]~d{4}~b''),
      (''PHONE'', rx CHR ''~'' ''~+~d{1,4}[~s~-.]?~(?~d{1,5}~)?[~s~-.]?~d{2,5}[~s~-.]?~d{2,5}[~s~-.]?~d{0,5}''),
      (''PHONE'', rx CHR ''~'' ''~b0~d{2,4}[~s.~-]~d{3,8}[~s.~-]?~d{0,6}~b''),
      (''PHONE'', rx CHR ''~'' ''~b00~d{2,4}[~s.~-]~d{2,5}[~s~-.]?~d{3,5}[~s~-.]?~d{0,5}~b''),
      (''AWS-ACCESS-KEY'', ''AKIA[0-9A-Z]{16}''),
      (''AWS-SECRET-KEY'', rx CHR ''~'' ''(?i)aws_secret_access_key~s*[=:]~s*[A-Za-z0-9/+=]{40}''),
      (''GCP-API-KEY'', rx CHR ''~'' ''AIza[0-9A-Za-z~-_]{35}''),
      (''PRIVATE-KEY'', rx CHR ''~'' ''(?s)-----BEGIN~s+(RSA |EC |DSA |OPENSSH )?PRIVATE KEY-----.*?-----END~s+(RSA |EC |DSA |OPENSSH )?PRIVATE KEY-----''),
      (''JWT'', rx CHR ''~'' ''eyJ[A-Za-z0-9_-]+~.eyJ[A-Za-z0-9_-]+~.[A-Za-z0-9_~-]+''),
      (''CONNECTION-STRING'', rx CHR ''~'' ''(?i)(mongodb|postgres|mysql|redis|amqp):~/~/[^~s]+''),
      (''GENERIC-SECRET'', rx CHR ''~'' ''(?i)(password|secret|token|api_key|apikey)~s*[=:]~s*['"]?[A-Za-z0-9/+=~-_]{8,}['"]?''),
      (''GENERIC-SECRET'', rx CHR ''~'' ''(?i)(password|passwd|pwd)~s*[=:]~s*['"]?[^~s'"]{4,}['"]?''),
      (''IP-ADDRESS'', rx CHR ''~'' ''~b(?:~d{1,3}~.){3}~d{1,3}~b''),
      (''IPV6-ADDRESS'', rx CHR ''~'' ''~b[0-9a-fA-F]{1,4}(?::[0-9a-fA-F]{1,4}){7}~b''),
      (''IPV6-ADDRESS'', rx CHR ''~'' ''~b[0-9a-fA-F]{1,4}(?::[0-9a-fA-F]{1,4}){2,7}::[0-9a-fA-F:]*~b''),
      (''PASSPORT'', rx CHR ''~'' ''(?i)(?:passport|travel~s+doc(?:ument)?)~s*(?:no|number|#|:)~s*[A-Z]{0,2}~d{6,9}~b''),
      (''DRIVER-LICENSE'', rx CHR ''~'' ''(?i)(?:driver'?s?~s*(?:license|licence|lic)|DL|DMV)~s*(?:no|number|#|:)~s*[A-Z0-9][~-.]?[A-Z0-9]{5,12}~b''),
      (''IBAN'', rx CHR ''~'' ''~b[A-Z]{2}~d{2}[A-Z0-9]{4}~d{7}[A-Z0-9]{0,16}~b''),
      (''MAC-ADDRESS'', rx CHR ''~'' ''~b[0-9a-fA-F]{2}[:~-~s][0-9a-fA-F]{2}[:~-~s][0-9a-fA-F]{2}[:~-~s][0-9a-fA-F]{2}[:~-~s][0-9a-fA-F]{2}[:~-~s][0-9a-fA-F]{2}~b''),
      (''IMEI'', rx CHR ''~'' ''~b~d{2}-~d{6}-~d{6}-~d{1}~b''),
      (''CREDIT-CARD'', rx CHR ''~'' ''~b(?:4~d{12}(?:~d{3})?|5[1-5]~d{14}|3[47]~d{13}|6(?:011|5~d{2})~d{12})~b''),
      (''PASSWORD'', rx CHR ''~'' ''(?i)(?:password|passwd|pwd|passcode)~s*(?:is|was|:)~s*(?!(?:valid|invalid|temporary|required|optional|incorrect|correct|wrong|right|expired|changed|reset|secure|strong|weak|empty|null|blank|missing|set|enabled|disabled|locked|unlocked)~b)[^~s,;]{4,40}''),
      (''CC-EXPIRY'', rx CHR ''~'' ''~b(?:0[1-9]|1[0-2])~/(?:2[0-9]|3[0-9])~b''),
      (''URL'', rx CHR ''~'' ''https?://(?!(?:www~.)?(?:w3~.org|xbrl~.org|fpml~.org|xmlsoap~.org|schemas~.xmlsoap~.org|xml~.org))[^~s<>"')~]]+''),
      (''BANK-ACCOUNT'', rx CHR ''~'' ''(?i)(?:account|acct|routing)~s*(?:no|number|num|#|:)~s*[A-Z]{0,4}~d{6,18}~b''),
      (''INSURANCE-ID'', rx CHR ''~'' ''(?i)(?:insurance|policy|health~s*plan|member)~s*(?:no|number|id|#|:)~s*[A-Z]{0,3}~d{6,12}~b''),
      (''REGISTRATION-ID'', rx CHR ''~'' ''(?i)(?:student|registration|reg|enrollment)~s*(?:no|number|id|#|:)~s*(?=[A-Z0-9~-]*~d)[A-Z0-9~-]{5,15}~b'')]\<close>

text \<open>The loop of \<open>New\<close> over the patterns.\<close>

definition regex_New :: "PatternDef list \<Rightarrow> PatternDef list \<Rightarrow> regex_scanner" where
  "regex_New defaults custom =
     \<lparr>rs_patterns = List.map_filter (\<lambda>(n, p). map_option (\<lambda>re. (n, re)) (Compile p)) (defaults @ custom)\<rparr>"

definition regex_match :: "string \<Rightarrow> string \<Rightarrow> int \<times> int \<Rightarrow> finding option" where
  "regex_match name text m =
     (case go_slice text (fst m) (snd m) of
        None \<Rightarrow> None
      | Some v \<Rightarrow> Some \<lparr>Label = name, Value = v, Start = fst m, End = snd m, Confidence = 1, Layer = ''regex''\<rparr>)"

fun regex_matches :: "string \<Rightarrow> string \<Rightarrow> (int \<times> int) list \<Rightarrow> finding list option" where
  "regex_matches name text [] = Some []"
| "regex_matches name text (m # ms) =
     (case regex_match name text m of
        None \<Rightarrow> None
      | Some f \<Rightarrow> map_option (\<lambda>fs. f # fs) (regex_matches name text ms))"

fun regex_patterns :: "(string \<times> regexp) list \<Rightarrow> string \<Rightarrow> finding list option" where
  "regex_patterns [] text = Some []"
| "regex_patterns (p # ps) text =
     (case regex_matches (fst p) text (FindAllStringIndex (snd p) text) of
        None \<Rightarrow> None
      | Some fs \<Rightarrow> map_option (\<lambda>gs. fs @ gs) (regex_patterns ps text))"

definition regex_Scan :: "regex_scanner \<Rightarrow> string \<Rightarrow> scan_outcome" where
  "regex_Scan s text =
     (case regex_patterns (rs_patterns s) text of None \<Rightarrow> ScanPanic | Some fs \<Rightarrow> ScanOk fs)"

lemma regex_matches_eq:
  "(\<And>a b. (a, b) \<in> set ms \<Longrightarrow> 0 \<le> a \<and> a \<le> b \<and> b \<le> go_len text) \<Longrightarrow>
   regex_matches name text ms = Some (map (\<lambda>m. \<lparr>Label = name, Value = seg text (fst m) (snd m), Start = fst m,
     End = snd m, Confidence = 1, Layer = ''regex''\<rparr>) ms)"
proof (induction ms)
  case (Cons m ms)
  have "0 \<le> fst m \<and> fst m \<le> snd m \<and> snd m \<le> go_len text" using Cons.prems [of "fst m" "snd m"] by simp
  moreover have "0 \<le> a \<and> a \<le> b \<and> b \<le> go_len text" if "(a, b) \<in> set ms" for a b
    using that by (intro Cons.prems) simp
  note Cons.IH [OF this]
  ultimately show ?case by (simp add: regex_match_def go_slice_Some)
qed simp

text \<open>The layer returns on every text, and its findings are the matches of its patterns.\<close>

lemma regex_Scan_eq:
  "regex_Scan s text = ScanOk (concat (map (\<lambda>p. map (\<lambda>m. \<lparr>Label = fst p, Value = seg text (fst m) (snd m),
     Start = fst m, End = snd m, Confidence = 1, Layer = ''regex''\<rparr>) (FindAllStringIndex (snd p) text)) (rs_patterns s)))"
proof -
  have "regex_patterns ps text = Some (concat (map (\<lambda>p. map (\<lambda>m. \<lparr>Label = fst p, Value = seg text (fst m) (snd m),
     Start = fst m, End = snd m, Confidence = 1, Layer = ''regex''\<rparr>) (FindAllStringIndex (snd p) text)) ps))" for ps
    by (induction ps) (use FindAll_props in \<open>auto simp: regex_matches_eq\<close>)
  then show ?thesis by (simp add: regex_Scan_def)
qed

interpretation regex: exact_layer "regex_Scan s" for s
  by unfold_locales (use FindAll_props in \<open>fastforce simp: regex_Scan_eq in_range_def\<close>)+

end
