(* ===== verification/Processes.thy ===== *)
theory Processes
  imports Sessions Lifecycle
begin

text \<open>
  What the lister of sessions reads from the operating system on macOS: \<open>internal/sessions/sessions_darwin.go\<close>. On other systems
  nothing is read (\<open>sessions_other.go\<close>, \<open>other_env\<close>).

  The output of \<open>ps\<close> and \<open>lsof\<close>, the parser of dates and the name service are parameters. \<open>mac_env\<close> puts the parsers together to the surroundings
  \<open>sess_env\<close> of \<open>Sessions\<close>. \<open>ps_line_parsed\<close>: a line of \<open>ps\<close> is read correctly, whatever the widths of its columns.
  \<open>argument_passes_for_tag\<close>: the arguments of a process are read as if they were its environment, so that a process that talks to a provider
  directly is called protected when one of its arguments is the tag.
\<close>

subsection \<open>Words and lines\<close>

fun fields_from :: "(nat \<times> string) list \<Rightarrow> string \<Rightarrow> string list" where
  "fields_from [] cur = (if cur = [] then [] else [cur])"
| "fields_from ((r, b) # cs) cur =
     (if rune_IsSpace r then (if cur = [] then fields_from cs [] else cur # fields_from cs [])
      else fields_from cs (cur @ b))"

definition Fields :: "string \<Rightarrow> string list" where
  "Fields s = fields_from (chunks s) []"

text \<open>The lines that \<open>bufio.Scanner\<close> yields with a buffer of \<open>2\<^sup>2\<^sup>0\<close> bytes, and whether it came to the end.\<close>

definition max_line :: nat where "max_line = 1048575"

fun take_lines :: "string list \<Rightarrow> string list \<times> bool" where
  "take_lines [] = ([], True)"
| "take_lines (l # ls) =
     (if length l > max_line then ([], False)
      else let (rest, ok) = take_lines ls in ((if l \<noteq> [] \<and> last l = CHR 0x0D then butlast l else l) # rest, ok))"

definition scan_lines :: "string \<Rightarrow> string list \<times> bool" where
  "scan_lines s = (let ls = SplitByte s newline_char in take_lines (if last ls = [] then butlast ls else ls))"

subsection \<open>Processes\<close>

text \<open>The number that \<open>strconv.Atoi\<close> returns beside an error: the nearest one in range, or zero.\<close>

definition Atoi_value :: "string \<Rightarrow> int" where
  "Atoi_value s =
     (let (neg, ds) = (case s of c # t \<Rightarrow> if c = CHR ''-'' then (True, t) else if c = CHR ''+'' then (False, t) else (False, s)
                              | [] \<Rightarrow> (False, s));
          v = (if neg then - digits_value ds else digits_value ds)
      in if \<not> all_digits ds then 0 else max (- (2 ^ 63)) (min (2 ^ 63 - 1) v))"

definition ps_proc :: "(string \<Rightarrow> int option) \<Rightarrow> int \<Rightarrow> string \<Rightarrow> proc option" where
  "ps_proc parseANSIC zero text =
     (let line = TrimSpace text; fields = Fields line
      in if line = [] then None
         else if length fields < 9 then None
         else case Atoi_checked (fields ! 0) of
                None \<Rightarrow> None
              | Some pid \<Rightarrow>
                  Some \<lparr>pr_PID = pid, pr_PPID = Atoi_value (fields ! 1), pr_User = fields ! 2,
                        pr_Command = JoinByte (drop 8 fields) CHR '' '',
                        pr_StartedAt = (case parseANSIC (JoinByte (take 5 (drop 3 fields)) CHR '' '') of None \<Rightarrow> zero | Some t \<Rightarrow> t)\<rparr>)"

text \<open>\<open>None\<close> is an error.\<close>

definition scanProcesses :: "(string \<Rightarrow> int option) \<Rightarrow> int \<Rightarrow> string option \<Rightarrow> proc list option" where
  "scanProcesses parseANSIC zero ps =
     (case ps of
        None \<Rightarrow> None
      | Some out \<Rightarrow>
          (case scan_lines out of
             (ls, ok) \<Rightarrow> if ok then Some (List.map_filter (ps_proc parseANSIC zero) ls) else None))"

subsection \<open>The environment of a process\<close>

definition env_first :: "char \<Rightarrow> bool" where
  "env_first c \<longleftrightarrow> c = CHR ''_'' \<or> rune_between 65 90 (of_char c) \<or> rune_between 97 122 (of_char c)"

definition isEnvKey :: "string \<Rightarrow> bool" where
  "isEnvKey k = (case k of [] \<Rightarrow> False | c # cs \<Rightarrow> env_first c \<and> list_all (\<lambda>c. env_first c \<or> rune_between 48 57 (of_char c)) cs)"

definition env_token :: "string \<Rightarrow> (string \<rightharpoonup> string) \<Rightarrow> string \<rightharpoonup> string" where
  "env_token tok env =
     (let eq = Index tok ''=''
      in if eq > 0 \<and> isEnvKey (take (nat eq) tok) then env(take (nat eq) tok \<mapsto> drop (nat eq + 1) tok) else env)"

definition processEnv :: "string option \<Rightarrow> (string \<rightharpoonup> string) option" where
  "processEnv ps = map_option (\<lambda>out. fold env_token (Fields (TrimSpace out)) Map.empty) ps"

subsection \<open>The connections of a process\<close>

datatype command_result = Ran string | Exited int string | NotRun

definition conn_of_line :: "string \<Rightarrow> string option" where
  "conn_of_line line =
     (if \<not> Contains line ''->'' then None
      else let rest = drop (nat (Index line ''->'') + 2) line
           in Some (TrimSpace (takeWhile (\<lambda>c. c \<noteq> CHR '' '' \<and> c \<noteq> CHR 0x09) rest)))"

text \<open>The connections and whether there was an error.\<close>

definition processConnections :: "command_result \<Rightarrow> string list \<times> bool" where
  "processConnections lsof =
     (case lsof of
        Ran out \<Rightarrow> (case scan_lines out of (ls, ok) \<Rightarrow> (List.map_filter conn_of_line ls, \<not> ok))
      | Exited code out \<Rightarrow> ([], \<not> (code = 1 \<and> out = []))
      | NotRun \<Rightarrow> ([], True))"

subsection \<open>The machine\<close>

record machine =
  mc_ps :: "string option"
  mc_psE :: "int \<Rightarrow> string option"
  mc_lsof :: "int \<Rightarrow> command_result"
  mc_lookup :: "string \<Rightarrow> string list option"
  mc_parseANSIC :: "string \<Rightarrow> int option"
  mc_zero :: int
  mc_now :: int

definition mac_env :: "machine \<Rightarrow> sess_env" where
  "mac_env M =
     \<lparr>en_processes = scanProcesses (mc_parseANSIC M) (mc_zero M) (mc_ps M), en_env = (\<lambda>pid. processEnv (mc_psE M pid)),
      en_connections = (\<lambda>pid. fst (processConnections (mc_lsof M pid))), en_lookup = mc_lookup M, en_now = mc_now M\<rparr>"

definition other_env :: "int \<Rightarrow> sess_env" where
  "other_env now = \<lparr>en_processes = None, en_env = (\<lambda>_. None), en_connections = (\<lambda>_. []), en_lookup = (\<lambda>_. None), en_now = now\<rparr>"

subsection \<open>Reading a line of \<open>ps\<close>\<close>

text \<open>Words with white space before them; the first may have none.\<close>

definition spaces :: "string \<Rightarrow> bool" where
  "spaces s \<longleftrightarrow> ascii s \<and> list_all (\<lambda>c. rune_IsSpace (of_char c)) s"

definition word_ok :: "string \<Rightarrow> bool" where
  "word_ok w \<longleftrightarrow> w \<noteq> [] \<and> ascii w \<and> list_all (\<lambda>c. \<not> rune_IsSpace (of_char c)) w"

definition laid_out :: "(string \<times> string) list \<Rightarrow> string" where
  "laid_out items = concat (map (\<lambda>(sp, w). sp @ w) items)"

definition columns :: "(string \<times> string) list \<Rightarrow> bool" where
  "columns items \<longleftrightarrow> list_all (\<lambda>(sp, w). spaces sp \<and> word_ok w) items \<and> list_all (\<lambda>(sp, w). sp \<noteq> []) (tl items)"

lemma fields_spaces: "list_all (\<lambda>c. rune_IsSpace (of_char c)) s \<Longrightarrow>
  fields_from (map (\<lambda>c. (of_char c, [c])) s @ cs) cur = (if s = [] then fields_from cs cur else (if cur = [] then [] else [cur]) @ fields_from cs [])"
  by (induction s arbitrary: cur) auto

lemma fields_word: "list_all (\<lambda>c. \<not> rune_IsSpace (of_char c)) w \<Longrightarrow>
  fields_from (map (\<lambda>c. (of_char c, [c])) w @ cs) cur = fields_from cs (cur @ w)"
  by (induction w arbitrary: cur) auto

lemma fields_items:
  "list_all (\<lambda>(sp, w). spaces sp \<and> word_ok w) items \<Longrightarrow> list_all (\<lambda>(sp, w). sp \<noteq> []) items \<Longrightarrow>
   fields_from (map (\<lambda>c. (of_char c, [c])) (laid_out items)) cur = (if cur = [] then [] else [cur]) @ map snd items"
proof (induction items arbitrary: cur)
  case (Cons it items)
  obtain sp w where it: "it = (sp, w)" by (cases it)
  have "fields_from (map (\<lambda>c. (of_char c, [c])) (laid_out (it # items))) cur =
      (if cur = [] then [] else [cur]) @ fields_from (map (\<lambda>c. (of_char c, [c])) (laid_out items)) w"
    using Cons.prems by (simp add: it laid_out_def spaces_def word_ok_def fields_spaces fields_word)
  also have "\<dots> = (if cur = [] then [] else [cur]) @ [w] @ map snd items"
    using Cons by (simp add: it word_ok_def)
  finally show ?case by (simp add: it)
qed (simp add: laid_out_def)

lemma ascii_laid_out: "columns items \<Longrightarrow> ascii (laid_out items)"
  by (induction items) (auto simp: columns_def laid_out_def spaces_def word_ok_def ascii_def list_all_iff)

lemma Fields_laid_out:
  assumes "columns items"
  shows "Fields (laid_out items) = map snd items"
proof (cases items)
  case (Cons it rest)
  obtain sp w where it: "it = (sp, w)" by (cases it)
  have ok: "spaces sp" "word_ok w" "list_all (\<lambda>(sp, w). spaces sp \<and> word_ok w) rest" "list_all (\<lambda>(sp, w). sp \<noteq> []) rest"
    using assms by (simp_all add: columns_def Cons it)
  have "Fields (laid_out items) = fields_from (map (\<lambda>c. (of_char c, [c])) (laid_out rest)) w"
    using ok(1,2) by (simp add: Fields_def chunks_ascii[OF ascii_laid_out[OF assms]])
      (simp add: Cons it laid_out_def spaces_def word_ok_def fields_spaces fields_word)
  then show ?thesis using fields_items[OF ok(3,4), of w] ok(2) by (simp add: word_ok_def Cons it)
qed (simp add: Fields_def laid_out_def chunks_code)

lemma TrimSpace_ascii:
  assumes "ascii s"
  shows "TrimSpace s = rev (dropWhile (\<lambda>c. rune_IsSpace (of_char c)) (rev (dropWhile (\<lambda>c. rune_IsSpace (of_char c)) s)))"
proof -
  have *: "dropWhile (\<lambda>(r, _). rune_IsSpace r) (map (\<lambda>c. (of_char c, [c])) xs) = map (\<lambda>c. (of_char c, [c])) (dropWhile (\<lambda>c. rune_IsSpace (of_char c)) xs)"
    for xs :: string by (simp add: dropWhile_map comp_def)
  show ?thesis by (simp add: TrimSpace_def chunks_ascii[OF assms] * rev_map comp_def)
qed

text \<open>Trimming takes the white space before the first word away, and nothing else.\<close>

lemma TrimSpace_laid_out:
  assumes "columns ((sp, w) # rest)"
  shows "TrimSpace (laid_out ((sp, w) # rest)) = laid_out (([], w) # rest)" "columns (([], w) # rest)"
proof -
  let ?space = "\<lambda>c :: char. rune_IsSpace (of_char c)"
  let ?t = "laid_out (([], w) # rest)"
  have cols: "spaces sp" "word_ok w" "list_all (\<lambda>(sp, w). spaces sp \<and> word_ok w) rest" using assms by (simp_all add: columns_def)
  have front: "dropWhile ?space (laid_out ((sp, w) # rest)) = ?t"
  proof -
    have "dropWhile ?space ?t = ?t" using cols(2) by (cases w) (simp_all add: laid_out_def word_ok_def)
    moreover have "dropWhile ?space (sp @ ?t) = dropWhile ?space ?t"
      using cols(1) by (intro dropWhile_append2) (auto simp: spaces_def list_all_iff)
    ultimately show ?thesis by (simp add: laid_out_def)
  qed
  have "?t \<noteq> [] \<and> \<not> ?space (last ?t)"
    using cols(2,3)
  proof (induction rest rule: rev_induct)
    case Nil
    then show ?case by (auto simp: laid_out_def word_ok_def list_all_iff)
  next
    case (snoc it its)
    obtain sp' w' where "it = (sp', w')" by (cases it)
    then show ?case using snoc.prems by (auto simp: laid_out_def word_ok_def list_all_iff)
  qed
  then have "rev (dropWhile ?space (rev ?t)) = ?t" by (cases "rev ?t") (auto simp: last_rev hd_rev dropWhile_eq_self_iff)
  then show "TrimSpace (laid_out ((sp, w) # rest)) = ?t"
    using TrimSpace_ascii[OF ascii_laid_out[OF assms]] front by simp
  show "columns (([], w) # rest)" using assms by (simp add: columns_def spaces_def)
qed

lemma Fields_TrimSpace:
  assumes "columns items" "items \<noteq> []"
  shows "Fields (TrimSpace (laid_out items)) = map snd items" "TrimSpace (laid_out items) \<noteq> []"
proof -
  obtain sp w rest where items: "items = (sp, w) # rest" using assms(2) by (metis neq_Nil_conv prod.collapse)
  note t = TrimSpace_laid_out[OF assms(1)[unfolded items]]
  show "Fields (TrimSpace (laid_out items)) = map snd items" using Fields_laid_out[OF t(2)] unfolding items t(1) by simp
  show "TrimSpace (laid_out items) \<noteq> []"
    using assms(1) unfolding items t(1) by (simp add: laid_out_def columns_def word_ok_def)
qed

lemma ps_line_parsed:
  assumes "columns items" "map snd items = [pid, ppid, user, d1, d2, d3, d4, d5] @ cmd" "cmd \<noteq> []"
    and "Atoi_checked pid = Some p" "Atoi_checked ppid = Some pp" "parse (JoinByte [d1, d2, d3, d4, d5] CHR '' '') = Some t"
  shows "ps_proc parse zero (laid_out items) =
    Some \<lparr>pr_PID = p, pr_PPID = pp, pr_User = user, pr_Command = JoinByte cmd CHR '' '', pr_StartedAt = t\<rparr>"
proof -
  have "items \<noteq> []" using assms(2) by auto
  note f = Fields_TrimSpace[OF assms(1) this]
  have "Atoi_value ppid = pp" using assms(5) by (auto simp: Atoi_checked_def Atoi_value_def Let_def in_int64_def split: if_splits list.splits)
  moreover have "\<not> length (map snd items) < 9" using assms(3) unfolding assms(2) by (cases cmd) simp_all
  ultimately show ?thesis using f assms(4,6) unfolding ps_proc_def Let_def f(1) unfolding assms(2) by (simp add: numeral_eq_Suc)
qed

subsection \<open>Arguments that pass for an environment\<close>

lemma index_from_byte: "index_from i s [c] = (if c \<in> set s then i + int (length (takeWhile (\<lambda>d. d \<noteq> c) s)) else - 1)"
  by (induction s arbitrary: i) (auto simp: HasPrefix_def)

lemma Index_byte_first: "c \<notin> set k \<Longrightarrow> Index (k @ c # v) [c] = int (length k)"
  by (simp add: Index_def index_from_byte takeWhile_append)

lemma env_token_eq: "CHR ''='' \<notin> set k \<Longrightarrow> isEnvKey k \<Longrightarrow> env_token (k @ CHR ''='' # v) env = env(k \<mapsto> v)"
  using Index_byte_first[of "CHR ''=''" k v] by (auto simp: env_token_def Let_def isEnvKey_def[of "[]"])

text \<open>The last assignment to a name counts.\<close>

lemma env_token_other:
  assumes "\<not> HasPrefix tok (k @ ''='')"
  shows "env_token tok env k = env k"
proof (cases "CHR ''='' \<in> set tok")
  case True
  obtain k' v where tok: "tok = k' @ CHR ''='' # v" "CHR ''='' \<notin> set k'" using split_list_first[OF True] by blast
  then have "k' \<noteq> k" using assms by (auto simp: HasPrefix_iff)
  then show ?thesis using Index_byte_first[OF tok(2), of v] by (simp add: env_token_def tok(1) Let_def)
qed (simp add: env_token_def Index_def index_from_byte)

lemma fold_env_token_other: "list_all (\<lambda>tok. \<not> HasPrefix tok (k @ ''='')) toks \<Longrightarrow> fold env_token toks env k = env k"
  by (induction toks arbitrary: env) (simp_all add: env_token_other)

lemma processEnv_last:
  assumes "columns items" "map snd items = ws @ (k @ CHR ''='' # v) # ws'" "CHR ''='' \<notin> set k" "isEnvKey k"
    and "list_all (\<lambda>tok. \<not> HasPrefix tok (k @ ''='')) ws'"
  shows "\<exists>env. processEnv (Some (laid_out items)) = Some env \<and> env k = Some v"
proof -
  have "items \<noteq> []" using assms(2) by auto
  then have "Fields (TrimSpace (laid_out items)) = ws @ (k @ CHR ''='' # v) # ws'" using Fields_TrimSpace(1)[OF assms(1)] assms(2) by simp
  moreover have "fold env_token ws' (env_token (k @ CHR ''='' # v) env) k = Some v" for env
    using assms(3-5) by (subst fold_env_token_other) (simp_all add: env_token_eq)
  ultimately show ?thesis by (simp add: processEnv_def)
qed

lemma classify_conns_direct:
  "c \<in> set cs \<Longrightarrow> splitHostPort c = (host, ''443'') \<Longrightarrow> host \<in> li_hostIPs l \<Longrightarrow> host \<noteq> [] \<Longrightarrow> snd (splitHostPort (li_proxyAddr l)) \<noteq> ''443'' \<Longrightarrow>
   c \<in> set (ss_DirectAIConn (classify_conns l cs s))"
proof (induction cs arbitrary: s)
  case (Cons d ds)
  have keep: "set (ss_DirectAIConn s) \<subseteq> set (ss_DirectAIConn (classify_conns l xs s))" for xs s
    by (induction l xs s rule: classify_conns.induct) (auto simp: Let_def split: prod.splits if_splits)
  show ?case
  proof (cases "d = c")
    case True
    have "c \<in> set (ss_DirectAIConn (classify_conns l ds (s\<lparr>ss_DirectAIConn := ss_DirectAIConn s @ [c]\<rparr>)))" using keep by fastforce
    then show ?thesis using True Cons.prems by (simp add: split_beta Let_def)
  next
    case False
    then show ?thesis using Cons by (simp add: split_beta Let_def)
  qed
qed simp

lemma classify_conns_frame: "ss_BoundFlag (classify_conns l cs s) = ss_BoundFlag s" "ss_PID (classify_conns l cs s) = ss_PID s"
  by (induction l cs s rule: classify_conns.induct) (auto simp: Let_def split: prod.splits)

lemma sessions_of_mem:
  "p \<in> set procs \<Longrightarrow> pr_PID p \<noteq> li_currentPID l \<Longrightarrow> classifyTool T (pr_Command p) \<noteq> [] \<Longrightarrow>
   session_of env l p (classifyTool T (pr_Command p)) \<in> set (sessions_of T env l procs)"
  by (induction procs) (auto simp: Let_def)

text \<open>
  C39. An argument passes for the tag of a bound shell. Let a process of an AI tool have a connection to port 443 of a provider, and let \<open>ps -E\<close> print
  for it, in columns of any width, words among which \<open>REDACTR_BOUND=1\<close> is the last assignment to that name: an argument of the command
  is enough, as the words are not told apart from those of the environment. Then the list of sessions calls the process protected, although
  the direct connection is on record in the same entry, and the proxy sees nothing of its traffic.
\<close>

theorem argument_passes_for_tag:
  assumes "scanProcesses (mc_parseANSIC M) (mc_zero M) (mc_ps M) = Some procs" "p \<in> set procs" "pr_PID p \<noteq> li_currentPID l"
    and "classifyTool T (pr_Command p) \<noteq> []"
    and "mc_psE M (pr_PID p) = Some (laid_out items)" "columns items" "map snd items = args @ ''REDACTR_BOUND=1'' # rest"
    and "list_all (\<lambda>tok. \<not> HasPrefix tok ''REDACTR_BOUND='') rest"
    and "c \<in> set (fst (processConnections (mc_lsof M (pr_PID p))))" "splitHostPort c = (host, ''443'')" "host \<noteq> []"
    and "host \<in> li_hostIPs (refreshHostIPs (mac_env M) l)" "snd (splitHostPort (li_proxyAddr l)) \<noteq> ''443''"
    and "slice_sort session_less (srt session_less)" "List_sessions T srt (mac_env M) l = (l', Some out)"
  shows "\<exists>s \<in> set out. ss_PID s = pr_PID p \<and> ss_Status s = StatusProtected \<and> c \<in> set (ss_DirectAIConn s)"
proof -
  let ?l = "refreshHostIPs (mac_env M) l"
  let ?s = "session_of (mac_env M) ?l p (classifyTool T (pr_Command p))"
  have same: "li_currentPID ?l = li_currentPID l" "li_proxyAddr ?l = li_proxyAddr l" by (simp_all add: refreshHostIPs_def Let_def)
  have tag: "''REDACTR_BOUND=1'' = BoundEnvKey @ CHR ''='' # BoundEnvValue" "BoundEnvKey @ ''='' = ''REDACTR_BOUND=''"
    by (simp_all add: BoundEnvKey_def BoundEnvValue_def)
  have key: "isEnvKey BoundEnvKey" "CHR ''='' \<notin> set BoundEnvKey" by code_simp+
  obtain e where "processEnv (Some (laid_out items)) = Some e" "e BoundEnvKey = Some BoundEnvValue"
    using processEnv_last[OF assms(6) _ key(2,1)] assms(7,8) unfolding tag by blast
  then have env: "en_env (mac_env M) (pr_PID p) = Some e" "e BoundEnvKey = Some BoundEnvValue" using assms(5) by (simp_all add: mac_env_def)
  have conns: "en_connections (mac_env M) (pr_PID p) = fst (processConnections (mc_lsof M (pr_PID p)))" by (simp add: mac_env_def)
  have "ss_PID ?s = pr_PID p \<and> ss_Status ?s = StatusProtected \<and> c \<in> set (ss_DirectAIConn ?s)"
    using env classify_conns_direct[OF assms(9,10,12,11), of]  assms(13) same(2)
    by (simp add: session_of_def conns decide_def classifyConnections_def classify_conns_frame split_beta)
  moreover have "?s \<in> set out"
  proof -
    have "en_processes (mac_env M) = Some procs" using assms(1) by (simp add: mac_env_def)
    then have "out = srt session_less (sessions_of T (mac_env M) ?l procs)" using assms(15) by (auto simp: List_sessions_def Let_def)
    then show ?thesis using sessions_of_mem[of p procs ?l T "mac_env M"] assms(2-4) same(1) slice_sort.set_srt[OF assms(14)] by simp
  qed
  ultimately show ?thesis by blast
qed

subsection \<open>Example\<close>

definition demo_machine :: machine where
  "demo_machine = \<lparr>mc_ps = Some ''  42     1 ann   Thu Apr 23 09:08:24 2026 claude REDACTR_BOUND=1'',
     mc_psE = (\<lambda>_. Some (''claude REDACTR_BOUND=1 HOME=/Users/ann'')),
     mc_lsof = (\<lambda>_. Ran ''claude 42 ann 9u IPv4 0x1 0t0 TCP 10.0.0.5:53842->192.0.2.1:443 (ESTABLISHED)''),
     mc_lookup = (\<lambda>_. Some [''192.0.2.1'']), mc_parseANSIC = (\<lambda>_. Some 5), mc_zero = 0, mc_now = 100000000000\<rparr>"

definition demo_proc :: proc where
  "demo_proc = \<lparr>pr_PID = 42, pr_PPID = 1, pr_User = ''ann'', pr_Command = ''claude REDACTR_BOUND=1'', pr_StartedAt = 5\<rparr>"

definition demo_words :: "(string \<times> string) list" where
  "demo_words = [([], ''claude''), ('' '', ''REDACTR_BOUND=1''), ('' '', ''HOME=/Users/ann'')]"

theorem argument_passes_for_tag_witness:
  "\<exists>l' out s. List_sessions latin1 insertion_sort (mac_env demo_machine) (New_lister 0 7) = (l', Some out) \<and> s \<in> set out \<and>
     ss_PID s = 42 \<and> ss_Status s = StatusProtected \<and> ''192.0.2.1:443'' \<in> set (ss_DirectAIConn s)"
proof -
  let ?M = demo_machine and ?l = "New_lister 0 7"
  have scan: "scanProcesses (mc_parseANSIC ?M) (mc_zero ?M) (mc_ps ?M) = Some [demo_proc]" by code_simp
  have tool: "classifyTool latin1 (pr_Command demo_proc) \<noteq> []" by code_simp
  have psE: "mc_psE ?M (pr_PID demo_proc) = Some (laid_out demo_words)" by (simp add: demo_machine_def demo_words_def laid_out_def)
  have cols: "columns demo_words" by code_simp
  have words: "map snd demo_words = [''claude''] @ ''REDACTR_BOUND=1'' # [''HOME=/Users/ann'']" by (simp add: demo_words_def)
  have rest: "list_all (\<lambda>tok. \<not> HasPrefix tok ''REDACTR_BOUND='') [''HOME=/Users/ann'']" by code_simp
  have conn: "''192.0.2.1:443'' \<in> set (fst (processConnections (mc_lsof ?M (pr_PID demo_proc))))" by code_simp
  have split: "splitHostPort ''192.0.2.1:443'' = (''192.0.2.1'', ''443'')" by code_simp
  have ips: "''192.0.2.1'' \<in> li_hostIPs (refreshHostIPs (mac_env ?M) ?l)"
    by (simp add: refreshHostIPs_def mac_env_def demo_machine_def New_lister_def AIHosts_def)
  have addr: "snd (splitHostPort (li_proxyAddr ?l)) \<noteq> ''443''" by code_simp
  obtain l' out where list: "List_sessions latin1 insertion_sort (mac_env ?M) ?l = (l', Some out)"
    using scan by (simp add: List_sessions_def mac_env_def Let_def)
  have "\<exists>s \<in> set out. ss_PID s = pr_PID demo_proc \<and> ss_Status s = StatusProtected \<and> ''192.0.2.1:443'' \<in> set (ss_DirectAIConn s)"
    by (rule argument_passes_for_tag[OF scan _ _ tool psE cols words rest conn split _ ips addr _ list])
       (simp_all add: demo_proc_def New_lister_def ranked.slice_sort_axioms)
  then show ?thesis using list by (auto simp: demo_proc_def)
qed

end
