(* ===== verification/Sni.thy ===== *)
theory Sni
  imports Domain "HOL-Library.Word"
begin

text \<open>
  The parser of a TLS ClientHello, \<open>internal/proxy/sni.go\<close>, and the decision of the transparent
  listener on a new connection, \<open>handleTransparent\<close> of \<open>internal/proxy/transparent.go\<close>.

  Bytes are 8-bit words. Every index and slice of the code is one that panics out of range:
  \<open>byte_at\<close> and \<open>cut\<close> pass the value on, or yield \<open>None\<close>. The result \<open>Inl\<close> is an error.

  The parser never panics, whatever the bytes (\<open>parseSNI_never_panics\<close>), and it finds the name in
  every well-formed hello (\<open>parseSNI_finds_name\<close>).
\<close>

subsection \<open>Access to bytes\<close>

type_synonym byte = "8 word"

definition byte_at :: "'a list \<Rightarrow> int \<Rightarrow> ('a \<Rightarrow> 'b option) \<Rightarrow> 'b option" where
  "byte_at xs i k = (if 0 \<le> i \<and> i < go_len xs then k (xs ! nat i) else None)"

definition cut :: "'a list \<Rightarrow> int \<Rightarrow> int \<Rightarrow> ('a list \<Rightarrow> 'b option) \<Rightarrow> 'b option" where
  "cut xs a b k = (case go_slice xs a b of None \<Rightarrow> None | Some ys \<Rightarrow> k ys)"

text \<open>\<open>binary.BigEndian.Uint16(xs)\<close> reads the first two bytes, and panics when there are fewer.\<close>

definition Uint16 :: "byte list \<Rightarrow> (nat \<Rightarrow> 'b option) \<Rightarrow> 'b option" where
  "Uint16 xs k = byte_at xs 1 (\<lambda>lo. byte_at xs 0 (\<lambda>hi. k (unat hi * 256 + unat lo)))"

type_synonym sni_result = "string + string"

definition bytes_string :: "byte list \<Rightarrow> string" where
  "bytes_string bs = map (\<lambda>b. char_of (unat b)) bs"

definition errNoSNI :: string where
  "errNoSNI = ''client hello has no SNI extension''"

subsection \<open>The parser\<close>

text \<open>The loop over the names of the list.\<close>

function sni_names :: "byte list \<Rightarrow> sni_result option" where
  "sni_names list =
     (if go_len list < 3 then Some (Inl errNoSNI)
      else byte_at list 0 (\<lambda>nameType. cut list 1 3 (\<lambda>l. Uint16 l (\<lambda>nameLen.
             if go_len list < 3 + int nameLen then Some (Inl ''tls: SNI name truncated'')
             else if nameType = 0 then cut list 3 (3 + int nameLen) (\<lambda>name. Some (Inr (bytes_string name)))
             else sni_names (drop (3 + nameLen) list)))))"
  by pat_completeness auto
termination
  by (relation "measure length") (auto simp: go_len_def)

text \<open>The loop over the extensions.\<close>

function sni_exts :: "byte list \<Rightarrow> sni_result option" where
  "sni_exts exts =
     (if go_len exts < 4 then Some (Inl errNoSNI)
      else cut exts 0 2 (\<lambda>t. Uint16 t (\<lambda>extType. cut exts 2 4 (\<lambda>l. Uint16 l (\<lambda>extDataLen.
             if go_len exts < 4 + int extDataLen then Some (Inl ''tls: extension truncated'')
             else cut exts 4 (4 + int extDataLen) (\<lambda>extData.
               if extType = 0 then
                 (if go_len extData < 2 then Some (Inl ''tls: short SNI list'')
                  else cut extData 0 2 (\<lambda>n. Uint16 n (\<lambda>listLen.
                         if go_len extData < 2 + int listLen then Some (Inl ''tls: SNI list truncated'')
                         else cut extData 2 (2 + int listLen) sni_names)))
               else sni_exts (drop (4 + extDataLen) exts)))))))"
  by pat_completeness auto
termination
  by (relation "measure length") (auto simp: go_len_def)

declare sni_names.simps [simp del] sni_exts.simps [simp del]

text \<open>The part of the hello after the fixed fields, from position \<open>p\<close> of the body on.\<close>

definition hello_fields :: "byte list \<Rightarrow> sni_result option" where
  "hello_fields body =
     (if go_len body < 2 + 32 + 1 then Some (Inl ''tls: hello too short'')
      else byte_at body 34 (\<lambda>sid. let sidLen = unat sid; p = 35 in
        if go_len body < p + int sidLen then Some (Inl ''tls: bad session id'')
        else let p = p + int sidLen in
        if go_len body < p + 2 then Some (Inl ''tls: missing cipher suites length'')
        else cut body p (go_len body) (\<lambda>r. Uint16 r (\<lambda>csLen. let p = p + 2 in
        if go_len body < p + int csLen then Some (Inl ''tls: bad cipher suites'')
        else let p = p + int csLen in
        if go_len body < p + 1 then Some (Inl ''tls: missing compression methods length'')
        else byte_at body p (\<lambda>cm. let cmLen = unat cm; p = p + 1 in
        if go_len body < p + int cmLen then Some (Inl ''tls: bad compression methods'')
        else let p = p + int cmLen in
        if go_len body < p + 2 then Some (Inl ''tls: missing extensions length'')
        else cut body p (go_len body) (\<lambda>r. Uint16 r (\<lambda>extLen. let p = p + 2 in
        if go_len body < p + int extLen then Some (Inl ''tls: extensions truncated'')
        else cut body p (p + int extLen) sni_exts)))))))"

definition parseSNI :: "byte list \<Rightarrow> sni_result option" where
  "parseSNI data =
     (if go_len data < 5 then Some (Inl ''tls: short record header'')
      else byte_at data 0 (\<lambda>t. if t \<noteq> 0x16 then Some (Inl ''tls: not a handshake record'')
      else cut data 3 5 (\<lambda>l. Uint16 l (\<lambda>recLen.
      if go_len data < 5 + int recLen then Some (Inl ''tls: record truncated'')
      else cut data 5 (5 + int recLen) (\<lambda>hs.
      if go_len hs < 4 then Some (Inl ''tls: short handshake'')
      else byte_at hs 0 (\<lambda>ht. if ht \<noteq> 1 then Some (Inl ''tls: not a ClientHello'')
      else byte_at hs 1 (\<lambda>a. byte_at hs 2 (\<lambda>b. byte_at hs 3 (\<lambda>c.
        let hsLen = unat a * 65536 + unat b * 256 + unat c in
        if go_len hs < 4 + int hsLen then Some (Inl ''tls: handshake truncated'')
        else cut hs 4 (4 + int hsLen) hello_fields)))))))))"

text \<open>
  What \<open>handleTransparent\<close> does with the bytes that a connection offers; \<open>peek n\<close> is
  \<open>br.Peek(n)\<close> on a buffer of 16 KiB, and fails when fewer bytes arrive or more are asked for.
\<close>

datatype transparent_action = CloseConn | ServeConnect string

definition peek_bytes :: "byte list \<Rightarrow> int \<Rightarrow> byte list option" where
  "peek_bytes stream n = (if n \<le> 16 * 1024 \<and> n \<le> go_len stream then Some (take (nat n) stream) else None)"

definition handleTransparent ::
  "unicode_tables \<Rightarrow> domain_filter \<Rightarrow> byte list \<Rightarrow> transparent_action option" where
  "handleTransparent T f stream =
     (case peek_bytes stream 5 of
        None \<Rightarrow> Some CloseConn
      | Some header \<Rightarrow>
          byte_at header 0 (\<lambda>t. if t \<noteq> 0x16 then Some CloseConn
          else byte_at header 3 (\<lambda>a. byte_at header 4 (\<lambda>b.
            let recLen = int (unat a * 256 + unat b)
            in if recLen \<le> 0 \<or> recLen > 16 * 1024 then Some CloseConn
               else case peek_bytes stream (5 + recLen) of
                      None \<Rightarrow> Some CloseConn
                    | Some hello \<Rightarrow>
                        (case parseSNI hello of
                           None \<Rightarrow> None
                         | Some (Inl _) \<Rightarrow> Some CloseConn
                         | Some (Inr host) \<Rightarrow>
                             if \<not> ShouldIntercept T f host then Some CloseConn
                             else Some (ServeConnect (''CONNECT '' @ host @ '':443 HTTP/1.1'' @ [CHR 0x0D, CHR 0x0A] @
                                    ''Host: '' @ host @ '':443'' @ [CHR 0x0D, CHR 0x0A, CHR 0x0D, CHR 0x0A])))))))"

subsection \<open>No panics\<close>

lemma byte_at_ok [slice_simps]: "0 \<le> i \<Longrightarrow> i < go_len xs \<Longrightarrow> byte_at xs i k = k (xs ! nat i)"
  by (simp add: byte_at_def)

lemma cut_ok [slice_simps]: "0 \<le> a \<Longrightarrow> a \<le> b \<Longrightarrow> b \<le> go_len xs \<Longrightarrow> cut xs a b k = k (seg xs a b)"
  by (simp add: cut_def go_slice_Some)

lemma Uint16_ok [slice_simps]: "2 \<le> go_len xs \<Longrightarrow> Uint16 xs k = k (unat (xs ! 0) * 256 + unat (xs ! 1))"
  by (simp add: Uint16_def byte_at_def)

lemma sni_names_total: "sni_names list \<noteq> None"
proof (induction list rule: sni_names.induct)
  case (1 list)
  then show ?case
    by (subst sni_names.simps) (auto simp: slice_simps Let_def)
qed

lemma sni_exts_total: "sni_exts exts \<noteq> None"
proof (induction exts rule: sni_exts.induct)
  case (1 exts)
  then show ?case
    by (subst sni_exts.simps) (auto simp: slice_simps Let_def sni_names_total [simplified])
qed

lemma hello_fields_total: "hello_fields body \<noteq> None"
  by (auto simp: hello_fields_def slice_simps Let_def sni_exts_total [simplified])

lemma parseSNI_total: "parseSNI data \<noteq> None"
  by (auto simp: parseSNI_def slice_simps Let_def hello_fields_total [simplified])

subsection \<open>Well-formed hellos\<close>

definition be16 :: "nat \<Rightarrow> byte list" where
  "be16 n = [word_of_nat (n div 256), word_of_nat n]"

definition be24 :: "nat \<Rightarrow> byte list" where
  "be24 n = [word_of_nat (n div 65536), word_of_nat (n div 256), word_of_nat n]"

definition ext_bytes :: "nat \<times> byte list \<Rightarrow> byte list" where
  "ext_bytes e = be16 (fst e) @ be16 (length (snd e)) @ snd e"

definition sni_list :: "byte list \<Rightarrow> byte list" where
  "sni_list name = [0] @ be16 (length name) @ name"

definition sni_ext :: "byte list \<Rightarrow> byte list" where
  "sni_ext name = ext_bytes (0, be16 (length (sni_list name)) @ sni_list name)"

definition hello_body :: "byte list \<Rightarrow> byte list \<Rightarrow> byte list \<Rightarrow> byte list \<Rightarrow> byte list \<Rightarrow> byte list" where
  "hello_body fixed sid cs cm exts =
     fixed @ [word_of_nat (length sid)] @ sid @ be16 (length cs) @ cs @ [word_of_nat (length cm)] @ cm @
     be16 (length exts) @ exts"

definition client_hello :: "byte list \<Rightarrow> byte list" where
  "client_hello body =
     (let hs = [1] @ be24 (length body) @ body in [0x16, 3, 1] @ be16 (length hs) @ hs)"

lemma length_be [simp]: "length (be16 n) = 2" "length (be24 n) = 3"
  by (simp_all add: be16_def be24_def)

lemma go_len_be [simp]: "go_len (be16 n) = 2" "go_len (be24 n) = 3"
  by (simp_all add: go_len_def)

lemma unat_of_nat_8 [simp]: "unat (word_of_nat n :: 8 word) = n mod 256"
  by (simp add: unat_of_nat)

lemma uint_of_nat_8: "n < 256 \<Longrightarrow> uint (word_of_nat n :: 8 word) = int n"
  by (simp add: uint_nat)

lemma Uint16_be16: "n < 65536 \<Longrightarrow> Uint16 (be16 n @ xs) k = k n"
  by (simp add: be16_def Uint16_ok go_len_def)

lemma cut_append: "a = go_len xs \<Longrightarrow> b = a + go_len ys \<Longrightarrow> cut (xs @ ys @ zs) a b k = k ys"
  by (simp add: cut_ok seg_def go_len_def)

lemma byte_at_append: "i = go_len xs \<Longrightarrow> byte_at (xs @ y # zs) i k = k y"
  by (simp add: byte_at_def go_len_def)

lemma nonneg: "\<not> go_len xs < 0" "\<not> int n + go_len xs < 0"
  by (simp_all add: not_less)

lemma sni_names_name:
  assumes "length name < 65536"
  shows "sni_names (sni_list name) = Some (Inr (bytes_string name))"
proof -
  have "byte_at (sni_list name) 0 k = k 0" "cut (sni_list name) 1 3 l = l (be16 (length name))"
    "cut (sni_list name) 3 (3 + int (length name)) l = l name" for k :: "byte \<Rightarrow> sni_result option" and l :: "byte list \<Rightarrow> sni_result option"
    using cut_append [of 1 "[0]" 3 "be16 (length name)" name l] cut_append [of 3 "[0] @ be16 (length name)" "3 + int (length name)" name "[]" l]
    by (simp_all add: sni_list_def byte_at_def go_len_def)
  moreover have "Uint16 (be16 (length name)) k = k (length name)" for k :: "nat \<Rightarrow> sni_result option"
    using Uint16_be16 [OF assms, of "[]"] by simp
  moreover have "go_len (sni_list name) = 3 + int (length name)" by (simp add: sni_list_def go_len_def)
  ultimately show ?thesis by (subst sni_names.simps) simp
qed


lemma sni_exts_sni:
  assumes "length (sni_list name) < 65534"
  shows "sni_exts (sni_ext name @ rest) = Some (Inr (bytes_string name))"
proof -
  let ?l = "sni_list name"
  define D where "D = be16 (length ?l) @ ?l"
  define E where "E = sni_ext name @ rest"
  have e: "E = be16 0 @ be16 (length D) @ D @ rest" by (simp add: E_def D_def sni_ext_def ext_bytes_def)
  have c: "cut E 0 2 k = k (be16 0)" "cut E 2 4 k = k (be16 (length D))"
    "cut E 4 (4 + int (length D)) k = k D" "cut D 0 2 k = k (be16 (length ?l))"
    "cut D 2 (2 + int (length ?l)) k = k ?l" for k :: "byte list \<Rightarrow> sni_result option"
    using cut_append [of 0 "[]" 2 "be16 0" "be16 (length D) @ D @ rest" k]
      cut_append [of 2 "be16 0" 4 "be16 (length D)" "D @ rest" k]
      cut_append [of 4 "be16 0 @ be16 (length D)" "4 + int (length D)" D rest k]
      cut_append [of 0 "[]" 2 "be16 (length ?l)" ?l k]
      cut_append [of 2 "be16 (length ?l)" "2 + int (length ?l)" ?l "[]" k]
    by (simp_all add: e D_def go_len_def)
  have u: "Uint16 (be16 n) k = k n" if "n < 65536" for n and k :: "nat \<Rightarrow> sni_result option"
    using Uint16_be16 [OF that, of "[]"] by simp
  have len: "go_len E = 4 + int (length D) + go_len rest" by (simp add: e go_len_def)
  have d: "go_len D = 2 + int (length ?l)" "length D < 65536" using assms by (simp_all add: D_def go_len_def)
  have "sni_names ?l = Some (Inr (bytes_string name))"
    using assms by (intro sni_names_name) (simp add: sni_list_def)
  then have "sni_exts E = Some (Inr (bytes_string name))"
    using assms d by (subst sni_exts.simps) (simp add: c u len nonneg)
  then show ?thesis by (simp add: E_def)
qed

lemma sni_exts_skip:
  assumes "0 < fst e" "fst e < 65536" "length (snd e) < 65536"
  shows "sni_exts (ext_bytes e @ rest) = sni_exts rest"
proof -
  define E where "E = ext_bytes e @ rest"
  have e: "E = be16 (fst e) @ be16 (length (snd e)) @ snd e @ rest" by (simp add: E_def ext_bytes_def)
  have c: "cut E 0 2 k = k (be16 (fst e))" "cut E 2 4 k = k (be16 (length (snd e)))"
    "cut E 4 (4 + int (length (snd e))) k = k (snd e)" for k :: "byte list \<Rightarrow> sni_result option"
    using cut_append [of 0 "[]" 2 "be16 (fst e)" "be16 (length (snd e)) @ snd e @ rest" k]
      cut_append [of 2 "be16 (fst e)" 4 "be16 (length (snd e))" "snd e @ rest" k]
      cut_append [of 4 "be16 (fst e) @ be16 (length (snd e))" "4 + int (length (snd e))" "snd e" rest k]
    by (simp_all add: e go_len_def)
  have u: "Uint16 (be16 n) k = k n" if "n < 65536" for n and k :: "nat \<Rightarrow> sni_result option"
    using Uint16_be16 [OF that, of "[]"] by simp
  have len: "go_len E = 4 + int (length (snd e)) + go_len rest" by (simp add: e go_len_def)
  have "drop (4 + length (snd e)) E = rest" unfolding e by simp
  then have "sni_exts E = sni_exts rest"
    using assms by (subst sni_exts.simps) (simp add: c u len nonneg)
  then show ?thesis by (simp add: E_def)
qed

lemma sni_exts_finds:
  assumes "\<forall>e \<in> set before. 0 < fst e \<and> fst e < 65536 \<and> length (snd e) < 65536"
    and "length (sni_list name) < 65534"
  shows "sni_exts (concat (map ext_bytes before) @ sni_ext name @ rest) = Some (Inr (bytes_string name))"
  using assms by (induction before) (simp_all add: sni_exts_skip sni_exts_sni)

lemma hello_fields_finds:
  assumes "length fixed = 34" "length sid < 256" "length cs < 65536" "length cm < 256" "length exts < 65536"
  shows "hello_fields (hello_body fixed sid cs cm exts) = sni_exts exts"
proof -
  define B where "B = hello_body fixed sid cs cm exts"
  let ?p1 = "35 + int (length sid)" let ?p2 = "?p1 + 2 + int (length cs)" let ?p3 = "?p2 + 1 + int (length cm)"
  have len: "go_len B = ?p3 + 2 + int (length exts)"
    using assms(1) by (simp add: B_def hello_body_def go_len_def)
  have a: "byte_at B 34 k = k (word_of_nat (length sid))"
    "p = ?p2 \<Longrightarrow> byte_at B p k = k (word_of_nat (length cm))" for p and k :: "byte \<Rightarrow> sni_result option"
    using byte_at_append [of 34 fixed "word_of_nat (length sid)" _ k] assms(1)
      byte_at_append [of ?p2 "fixed @ [word_of_nat (length sid)] @ sid @ be16 (length cs) @ cs" "word_of_nat (length cm)" _ k]
    by (simp_all add: B_def hello_body_def go_len_def)
  have c: "p = ?p1 \<Longrightarrow> cut B p q k = k (be16 (length cs) @ cs @ [word_of_nat (length cm)] @ cm @ be16 (length exts) @ exts)"
    "p = ?p3 \<Longrightarrow> cut B p q k = k (be16 (length exts) @ exts)"
    if "q = ?p3 + 2 + int (length exts)" for p q and k :: "byte list \<Rightarrow> sni_result option"
    using cut_append [of ?p1 "fixed @ [word_of_nat (length sid)] @ sid" q
        "be16 (length cs) @ cs @ [word_of_nat (length cm)] @ cm @ be16 (length exts) @ exts" "[]" k]
      cut_append [of ?p3 "fixed @ [word_of_nat (length sid)] @ sid @ be16 (length cs) @ cs @ [word_of_nat (length cm)] @ cm"
        q "be16 (length exts) @ exts" "[]" k] assms(1) that
    by (simp_all add: B_def hello_body_def go_len_def)
  have d: "p = ?p3 + 2 \<Longrightarrow> q = ?p3 + 2 + int (length exts) \<Longrightarrow> cut B p q k = k exts"
    for p q and k :: "byte list \<Rightarrow> sni_result option"
    using cut_append [of "?p3 + 2" "fixed @ [word_of_nat (length sid)] @ sid @ be16 (length cs) @ cs @ [word_of_nat (length cm)] @ cm @ be16 (length exts)"
        q exts "[]" k] assms(1)
    by (simp add: B_def hello_body_def go_len_def)
  have "hello_fields B = sni_exts exts"
    unfolding hello_fields_def using assms by (simp add: len a c d Uint16_be16 Let_def uint_of_nat_8)
  then show ?thesis by (simp add: B_def)
qed

lemma parseSNI_hello:
  assumes "length body + 4 < 65536"
  shows "parseSNI (client_hello body @ rest) = hello_fields body"
proof -
  define hs where "hs = [1] @ be24 (length body) @ body"
  define D where "D = client_hello body @ rest"
  have e: "D = [0x16, 3, 1] @ be16 (length hs) @ hs @ rest" by (simp add: D_def hs_def client_hello_def)
  have hs: "length hs = 4 + length body" by (simp add: hs_def)
  have b: "byte_at D 0 k = k 0x16" "byte_at hs 0 k = k 1" "byte_at hs 1 k = k (word_of_nat (length body div 65536))"
    "byte_at hs 2 k = k (word_of_nat (length body div 256))" "byte_at hs 3 k = k (word_of_nat (length body))"
    for k :: "byte \<Rightarrow> sni_result option"
    by (simp_all add: e hs_def be24_def byte_at_def go_len_def)
  have c: "cut D 3 5 k = k (be16 (length hs))" "cut D 5 (5 + int (length hs)) k = k hs"
    "cut hs 4 (4 + int (length body)) k = k body" for k :: "byte list \<Rightarrow> sni_result option"
    using cut_append [of 3 "[0x16, 3, 1]" 5 "be16 (length hs)" "hs @ rest" k]
      cut_append [of 5 "[0x16, 3, 1] @ be16 (length hs)" "5 + int (length hs)" hs rest k]
      cut_append [of 4 "[1] @ be24 (length body)" "4 + int (length body)" body "[]" k]
    by (simp_all add: e hs_def go_len_def)
  have u: "Uint16 (be16 (length hs)) k = k (length hs)" for k :: "nat \<Rightarrow> sni_result option"
    using Uint16_be16 [of "length hs" "[]" k] assms hs by simp
  have len: "go_len D = 5 + int (length hs) + go_len rest" "go_len hs = 4 + int (length body)"
    by (simp_all add: e hs go_len_def)
  have n: "length body div 65536 = 0" "length body div 256 mod 256 * 256 + length body mod 256 = length body"
    using assms by simp_all
  have "parseSNI D = hello_fields body"
    unfolding parseSNI_def by (simp add: b c u len nonneg n)
  then show ?thesis by (simp add: D_def)
qed

subsection \<open>Properties\<close>

text \<open>
  The parser of the ClientHello never panics: on every sequence of bytes it returns a name or
  an error, and so the transparent listener decides on every connection.
\<close>

lemma parseSNI_never_panics:
  "(\<exists>r. parseSNI data = Some r) \<and> (\<exists>a. handleTransparent T f data = Some a)"
proof -
  have p: "parseSNI d \<noteq> None" for d by (rule parseSNI_total)
  have "handleTransparent T f data \<noteq> None"
    by (auto simp: handleTransparent_def peek_bytes_def slice_simps go_len_def Let_def
        split: option.splits sum.splits dest: p [THEN notE])
  then show ?thesis using p [of data] by blast
qed

text \<open>
  C31. From every well-formed ClientHello, whatever its session, cipher suites, compression methods
  and other extensions, the parser returns the server name, also when more bytes follow.
\<close>

theorem parseSNI_finds_name:
  assumes "length fixed = 34" "length sid < 256" "length cs < 65536" "length cm < 256"
    and "\<forall>e \<in> set before. 0 < fst e \<and> fst e < 65536 \<and> length (snd e) < 65536"
    and "exts = concat (map ext_bytes before) @ sni_ext name @ after"
    and "length (hello_body fixed sid cs cm exts) + 4 < 65536"
  shows "parseSNI (client_hello (hello_body fixed sid cs cm exts) @ rest) = Some (Inr (bytes_string name))"
proof -
  have "length exts < 65530" using assms(7) by (simp add: hello_body_def)
  moreover have "length (sni_list name) < 65534"
    using calculation assms(6) by (simp add: sni_ext_def ext_bytes_def)
  ultimately show ?thesis
    using assms(1-4,6) sni_exts_finds [OF assms(5)] parseSNI_hello [OF assms(7)]
    by (simp add: hello_fields_finds)
qed

theorem parseSNI_finds_name_witness:
  "parseSNI (client_hello (hello_body (replicate 34 7) [1, 2] [0x13, 0x01] [0]
     (ext_bytes (23, []) @ sni_ext [0x61, 0x2E, 0x69, 0x6F]))) = Some (Inr ''a.io'')"
proof -
  have "parseSNI (client_hello (hello_body (replicate 34 7) [1, 2] [0x13, 0x01] [0]
     (concat (map ext_bytes [(23, [])]) @ sni_ext [0x61, 0x2E, 0x69, 0x6F] @ [])) @ []) =
     Some (Inr (bytes_string [0x61, 0x2E, 0x69, 0x6F]))"
    by (rule parseSNI_finds_name [of _ _ _ _ "[(23, [])]" _ _ "[]"])
       (simp_all add: hello_body_def sni_ext_def ext_bytes_def sni_list_def)
  moreover have "bytes_string [0x61, 0x2E, 0x69, 0x6F] = ''a.io''" by code_simp
  ultimately show ?thesis by simp
qed

end
