(* ===== verification/Replay.thy ===== *)
theory Replay
  imports Sni
begin

text \<open>
  What the transparent listener hands to the proxy, the rest of \<open>internal/proxy/transparent.go\<close>: a connection that first yields the request that was
  made up and then the bytes of the client (\<open>replayConn\<close>), and a listener that accepts this connection once (\<open>oneShotListener\<close>).

  The client's side is a script of what the reads of the connection find: a chunk of bytes, of which a read takes as much as fits, nothing, or an error;
  after the script the connection is at its end. The first reads were made while peeking, and what they found is in the buffer. \<open>replay_exact\<close>: whatever
  the sizes of chunks and buffers, the proxy reads exactly the request and then the client's bytes, and none is lost, doubled or reordered by an error in
  between. A read into an empty buffer is an exception: it loses what the buffer held (\<open>empty_read_loses\<close>).
\<close>

subsection \<open>Readers\<close>

datatype net_event = Chunk "byte list" | NoBytes | NetError

datatype read_error = NoError | EOF | Failed_read

text \<open>One read of the connection into \<open>cap\<close> bytes.\<close>

fun conn_Read :: "nat \<Rightarrow> net_event list \<Rightarrow> byte list \<times> read_error \<times> net_event list" where
  "conn_Read cap [] = ([], EOF, [])"
| "conn_Read cap (Chunk bs # evs) = (take cap bs, NoError, if length bs \<le> cap then evs else Chunk (drop cap bs) # evs)"
| "conn_Read cap (NoBytes # evs) = ([], NoError, evs)"
| "conn_Read cap (NetError # evs) = ([], Failed_read, evs)"

definition bufio_size :: nat where "bufio_size = 16 * 1024"

text \<open>\<open>bufio.Reader.Read\<close>: from the buffer, or past it into a large argument, or after filling it once.\<close>

definition bufio_Read :: "nat \<Rightarrow> byte list \<Rightarrow> net_event list \<Rightarrow> byte list \<times> read_error \<times> byte list \<times> net_event list" where
  "bufio_Read cap buf evs =
     (if cap = 0 then ([], NoError, buf, evs)
      else if buf \<noteq> [] then (take cap buf, NoError, drop cap buf, evs)
      else if cap \<ge> bufio_size then (case conn_Read cap evs of (bs, err, evs') \<Rightarrow> (bs, err, [], evs'))
      else case conn_Read bufio_size evs of
             (bs, err, evs') \<Rightarrow> if bs = [] then ([], err, [], evs') else (take cap bs, NoError, drop cap bs, evs'))"

text \<open>\<open>io.MultiReader\<close> over the text of the request and the buffered connection; the reader of the text is dropped when it is at its end.\<close>

definition multi_Read :: "nat \<Rightarrow> byte list \<Rightarrow> byte list \<Rightarrow> net_event list \<Rightarrow> byte list \<times> read_error \<times> byte list \<times> byte list \<times> net_event list" where
  "multi_Read cap req buf evs =
     (if req \<noteq> [] then (take cap req, NoError, drop cap req, buf, evs)
      else case bufio_Read cap buf evs of (bs, err, buf', evs') \<Rightarrow> (bs, err, [], buf', evs'))"

subsection \<open>The connection that replays\<close>

record replayConn =
  rp_req :: "byte list"
  rp_buf :: "byte list"
  rp_extra :: bool
  rp_conn :: "net_event list"

definition Read_replay :: "nat \<Rightarrow> replayConn \<Rightarrow> byte list \<times> read_error \<times> replayConn" where
  "Read_replay cap r =
     (if rp_extra r then
        (case multi_Read cap (rp_req r) (rp_buf r) (rp_conn r) of
           (bs, err, req, buf, evs) \<Rightarrow>
             (let r1 = r\<lparr>rp_req := req, rp_buf := buf, rp_conn := evs, rp_extra := (err \<noteq> EOF)\<rparr>;
                  err1 = (if err = EOF then NoError else err)
              in if bs \<noteq> [] then (bs, err1, r1)
                 else case conn_Read cap evs of (bs', err', evs') \<Rightarrow> (bs', err', r1\<lparr>rp_extra := False, rp_conn := evs'\<rparr>)))
      else case conn_Read cap (rp_conn r) of (bs, err, evs) \<Rightarrow> (bs, err, r\<lparr>rp_conn := evs\<rparr>))"

record 'c oneShotListener =
  os_conn :: 'c
  os_done :: bool

definition Accept_once :: "'c oneShotListener \<Rightarrow> 'c option \<times> 'c oneShotListener" where
  "Accept_once l = (if os_done l then (None, l) else (Some (os_conn l), l\<lparr>os_done := True\<rparr>))"

subsection \<open>Nothing is lost\<close>

fun stream :: "net_event list \<Rightarrow> byte list" where
  "stream [] = []"
| "stream (Chunk bs # evs) = bs @ stream evs"
| "stream (_ # evs) = stream evs"

text \<open>What is still to be read.\<close>

definition rest_of :: "replayConn \<Rightarrow> byte list" where
  "rest_of r = (if rp_extra r then rp_req r @ rp_buf r else []) @ stream (rp_conn r)"

lemma conn_Read_stream: "conn_Read cap evs = (bs, err, evs') \<Longrightarrow> bs @ stream evs' = stream evs \<and> (err = EOF \<longrightarrow> stream evs = [])"
  by (cases "(cap, evs)" rule: conn_Read.cases) (auto split: if_splits)

lemma conn_Read_EOF: "conn_Read cap evs = (bs, EOF, evs') \<Longrightarrow> bs = [] \<and> evs' = []"
  by (cases "(cap, evs)" rule: conn_Read.cases) auto

lemma take_drop_app [simp]: "take n xs @ drop n xs @ ys = xs @ ys"
  by (metis append.assoc append_take_drop_id)

lemma bufio_Read_stream:
  assumes "bufio_Read cap buf evs = (bs, err, buf', evs')" "cap > 0"
  shows "bs @ buf' @ stream evs' = buf @ stream evs" "bs = [] \<Longrightarrow> buf' = []" "err = EOF \<Longrightarrow> bs = []"
  using assms
  by (auto simp: bufio_Read_def bufio_size_def dest!: conn_Read_EOF split: if_splits prod.splits)
     (use conn_Read_stream in \<open>fastforce+\<close>)

lemma Read_replay_stream:
  assumes "Read_replay cap r = (bs, err, r')" "cap > 0"
  shows "bs @ rest_of r' = rest_of r"
proof (cases "rp_extra r")
  case True
  obtain bs1 e req buf evs where m: "multi_Read cap (rp_req r) (rp_buf r) (rp_conn r) = (bs1, e, req, buf, evs)" by (metis prod_cases5)
  have keep: "bs1 @ req @ buf @ stream evs = rp_req r @ rp_buf r @ stream (rp_conn r)" "bs1 = [] \<Longrightarrow> req = [] \<and> buf = []" "e = EOF \<Longrightarrow> bs1 = []"
    using m assms(2) bufio_Read_stream[of cap "rp_buf r" "rp_conn r"] by (auto simp: multi_Read_def split: if_splits prod.splits)
  show ?thesis
  proof (cases "bs1 = []")
    case False
    then show ?thesis using assms(1) True m keep by (auto simp: Read_replay_def rest_of_def Let_def)
  next
    case empty: True
    obtain bs2 e2 evs2 where c: "conn_Read cap evs = (bs2, e2, evs2)" by (metis prod_cases3)
    then have "bs = bs2" "r' = r\<lparr>rp_req := req, rp_buf := buf, rp_conn := evs2, rp_extra := False\<rparr>"
      using assms(1) True m empty by (auto simp: Read_replay_def Let_def)
    then show ?thesis using conn_Read_stream[OF c] keep empty True by (simp add: rest_of_def)
  qed
next
  case False
  then show ?thesis using assms(1) by (auto simp: Read_replay_def rest_of_def dest!: conn_Read_stream split: prod.splits)
qed

text \<open>A sequence of reads with buffers of the given sizes.\<close>

fun read_all :: "nat list \<Rightarrow> replayConn \<Rightarrow> byte list \<times> replayConn" where
  "read_all [] r = ([], r)"
| "read_all (cap # caps) r = (let (bs, _, r1) = Read_replay cap r; (rest, r2) = read_all caps r1 in (bs @ rest, r2))"

lemma replay_exact:
  assumes "read_all caps \<lparr>rp_req = req, rp_buf = peeked, rp_extra = True, rp_conn = evs\<rparr> = (bs, r)" "list_all (\<lambda>c. c > 0) caps"
  shows "bs @ rest_of r = req @ peeked @ stream evs"
proof -
  have "read_all caps r0 = (bs, r) \<Longrightarrow> list_all (\<lambda>c. c > 0) caps \<Longrightarrow> bs @ rest_of r = rest_of r0" for r0 bs r
  proof (induction caps arbitrary: r0 bs r)
    case (Cons cap caps)
    obtain bs1 e r1 bs2 where "Read_replay cap r0 = (bs1, e, r1)" "read_all caps r1 = (bs2, r)" "bs = bs1 @ bs2"
      using Cons.prems(1) by (auto split: prod.splits)
    then show ?case using Cons.IH Cons.prems(2) Read_replay_stream[of cap r0 bs1 e r1] by fastforce
  qed simp
  then show ?thesis using assms by (fastforce simp: rest_of_def)
qed

text \<open>Every read with room takes a byte, an event of the script, or the request and the buffer away.\<close>

fun events_size :: "net_event list \<Rightarrow> nat" where
  "events_size [] = 0"
| "events_size (Chunk bs # evs) = Suc (length bs) + events_size evs"
| "events_size (_ # evs) = Suc (events_size evs)"

definition replay_size :: "replayConn \<Rightarrow> nat" where
  "replay_size r = (if rp_extra r then Suc (length (rp_req r) + length (rp_buf r)) else 0) + events_size (rp_conn r)"

lemma conn_Read_size:
  assumes "conn_Read cap evs = (bs, err, evs')" "cap > 0"
  shows "events_size evs' + length bs \<le> events_size evs" "bs = [] \<Longrightarrow> evs = [] \<or> events_size evs' < events_size evs"
  using assms by (cases "(cap, evs)" rule: conn_Read.cases; auto split: if_splits)+

lemma bufio_Read_size:
  assumes "bufio_Read cap buf evs = (bs, err, buf', evs')" "cap > 0"
  shows "length buf' + events_size evs' + length bs \<le> length buf + events_size evs"
proof -
  have fill: "length (drop cap x) + events_size evs1 + length (take cap x) \<le> events_size evs" if "conn_Read bufio_size evs = (x, e, evs1)" for x e evs1
    using conn_Read_size(1)[OF that] by (simp add: bufio_size_def)
  show ?thesis
    using assms conn_Read_size(1)[of cap evs] fill by (auto simp: bufio_Read_def split: if_splits prod.splits)
qed

lemma Read_replay_size:
  assumes "Read_replay cap r = (bs, err, r')" "cap > 0"
  shows "replay_size r' < replay_size r \<or> replay_size r = 0 \<and> r' = r"
proof (cases "rp_extra r")
  case True
  obtain bs1 e req buf evs where m: "multi_Read cap (rp_req r) (rp_buf r) (rp_conn r) = (bs1, e, req, buf, evs)" by (metis prod_cases5)
  have keep: "length req + length buf + events_size evs + length bs1 \<le> length (rp_req r) + length (rp_buf r) + events_size (rp_conn r)" "e = EOF \<Longrightarrow> bs1 = []"
    using m assms(2) bufio_Read_size[of cap "rp_buf r" "rp_conn r"] bufio_Read_stream(3)[of cap "rp_buf r" "rp_conn r"]
    by (auto simp: multi_Read_def split: if_splits prod.splits)
  show ?thesis
  proof (cases "bs1 = []")
    case False
    then have ok: "e \<noteq> EOF" using keep(2) by blast
    have "r' = r\<lparr>rp_req := req, rp_buf := buf, rp_conn := evs, rp_extra := (e \<noteq> EOF)\<rparr>"
      using assms(1) True m False by (simp add: Read_replay_def Let_def)
    then have "r' = r\<lparr>rp_req := req, rp_buf := buf, rp_conn := evs, rp_extra := True\<rparr>" using ok by simp
    moreover have "length bs1 > 0" using False by simp
    moreover from this have "length req + length buf + events_size evs < length (rp_req r) + length (rp_buf r) + events_size (rp_conn r)"
      using keep(1) by linarith
    ultimately show ?thesis using True by (simp add: replay_size_def)
  next
    case empty: True
    obtain bs2 e2 evs2 where c: "conn_Read cap evs = (bs2, e2, evs2)" by (metis prod_cases3)
    then have "r' = r\<lparr>rp_req := req, rp_buf := buf, rp_conn := evs2, rp_extra := False\<rparr>"
      using assms(1) True m empty by (auto simp: Read_replay_def Let_def)
    then show ?thesis using conn_Read_size(1)[OF c assms(2)] keep(1) True by (simp add: replay_size_def)
  qed
next
  case False
  obtain bs2 e2 evs2 where c: "conn_Read cap (rp_conn r) = (bs2, e2, evs2)" by (metis prod_cases3)
  then have r': "r' = r\<lparr>rp_conn := evs2\<rparr>" using assms(1) False by (auto simp: Read_replay_def)
  consider "rp_conn r = []" | "rp_conn r \<noteq> []" "bs2 = []" | "bs2 \<noteq> []" by blast
  then show ?thesis
  proof cases
    case 1
    then show ?thesis using c r' False by (auto simp: replay_size_def)
  next
    case 2
    then show ?thesis using conn_Read_size(2)[OF c assms(2)] r' False by (simp add: replay_size_def)
  next
    case 3
    then have "length bs2 > 0" by simp
    then have "events_size evs2 < events_size (rp_conn r)" using conn_Read_size(1)[OF c assms(2)] by linarith
    then show ?thesis using r' False by (simp add: replay_size_def)
  qed
qed

lemma replay_drained: "replay_size r = 0 \<Longrightarrow> rest_of r = []"
proof -
  have "events_size evs = 0 \<Longrightarrow> stream evs = []" for evs by (cases evs rule: events_size.cases) auto
  then show "replay_size r = 0 \<Longrightarrow> rest_of r = []" by (auto simp: replay_size_def rest_of_def split: if_splits)
qed

text \<open>Enough reads return all of it.\<close>

lemma replay_drains:
  "read_all caps r0 = (bs, r) \<Longrightarrow> list_all (\<lambda>c. c > 0) caps \<Longrightarrow> replay_size r0 \<le> length caps \<Longrightarrow> rest_of r = []"
proof (induction caps arbitrary: r0 bs r)
  case Nil
  then show ?case using replay_drained by simp
next
  case (Cons cap caps)
  obtain bs1 e r1 bs2 where step: "Read_replay cap r0 = (bs1, e, r1)" "read_all caps r1 = (bs2, r)"
    using Cons.prems(1) by (auto split: prod.splits)
  have "replay_size r1 \<le> length caps" using Read_replay_size[OF step(1)] Cons.prems(2,3) by auto
  then show ?case using Cons.IH[OF step(2)] Cons.prems(2) by simp
qed

lemma replay_complete:
  assumes "read_all caps \<lparr>rp_req = req, rp_buf = peeked, rp_extra = True, rp_conn = evs\<rparr> = (bs, r)" "list_all (\<lambda>c. c > 0) caps"
    and "Suc (length req + length peeked) + events_size evs \<le> length caps"
  shows "bs = req @ peeked @ stream evs"
  using replay_exact[OF assms(1,2)] replay_drains[OF assms(1,2)] assms(3) by (simp add: replay_size_def)

lemma empty_read_loses:
  assumes "req \<noteq> []"
  shows "rest_of (snd (snd (Read_replay 0 \<lparr>rp_req = req, rp_buf = peeked, rp_extra = True, rp_conn = []\<rparr>))) = []"
  using assms by (simp add: Read_replay_def multi_Read_def rest_of_def Let_def)

lemma accepted_once: "fst (Accept_once (snd (Accept_once l))) = None"
  by (simp add: Accept_once_def)


end
