(* ===== verification/Sandbox.thy ===== *)
theory Sandbox
  imports PolicySync
begin

text \<open>
  Launching tools in containers: \<open>internal/sandbox\<close> (\<open>spec.go\<close>, \<open>hardening.go\<close>, \<open>inject.go\<close>, \<open>runtime.go\<close>,
  \<open>engine.go\<close>, \<open>discover.go\<close>), \<open>internal/devcontainer/devcontainer.go\<close>, the agents of
  \<open>internal/cli/agent.go\<close> and the bound shell of \<open>internal/cli/shell.go\<close>.

  The code composes command lines. What a container runtime reads from one is \<open>read_options\<close>: options, the
  ones in \<open>switches\<close> without a value, up to the first argument that is no option, which is the image. \<open>launch_options\<close> says what it
  reads for every agent; \<open>front_doors_agree\<close> that a dev container gets the same environment and hardening.
\<close>

subsection \<open>Specifications\<close>

definition ModeEphemeralTTY :: string where "ModeEphemeralTTY = ''ephemeral-tty''"
definition ModeStdioAttached :: string where "ModeStdioAttached = ''stdio-attached''"
definition ModeWorkspaceRemote :: string where "ModeWorkspaceRemote = ''workspace-remote''"

record spec =
  sp_Mode :: string
  sp_Image :: string
  sp_ProjectDir :: string
  sp_Entrypoint :: "string list"
  sp_ProxyAddr :: string
  sp_CACertPath :: string
  sp_HostAlias :: string

datatype sandbox_error =
    ModeNotImplemented string | ImageRequired | ProjectDirRequired | EntrypointRequired | OnlyTTY string
  | NoRuntime | UnknownAgent string | MountModeUnsupported string | ProxyNotRunning | ProxyPidEmpty | NoCACert
  | MissingImageRef | MissingCommand

definition Validate :: "spec \<Rightarrow> sandbox_error option" where
  "Validate s =
     (if sp_Mode s \<noteq> ModeEphemeralTTY \<and> sp_Mode s \<noteq> ModeStdioAttached then Some (ModeNotImplemented (sp_Mode s))
      else if sp_Image s = [] then Some ImageRequired
      else if sp_ProjectDir s = [] then Some ProjectDirRequired
      else if sp_Entrypoint s = [] then Some EntrypointRequired
      else None)"

subsection \<open>Flags\<close>

definition HardeningArgs :: "string \<Rightarrow> string list" where
  "HardeningArgs runtime =
     [''--cap-drop'', ''ALL'', ''--cap-add'', ''NET_ADMIN'', ''--cap-add'', ''NET_RAW'', ''--security-opt'', ''no-new-privileges'',
      ''--read-only'', ''--tmpfs'', ''/tmp'', ''--tmpfs'', ''/home/redactr:uid=1000,mode=0700'', ''--pids-limit'', ''512'',
      ''--memory'', ''4g''] @
     (if runtime = ''podman'' then [''--userns'', ''keep-id''] else [])"

definition workMount :: string where "workMount = ''/work''"
definition CAInContainer :: string where "CAInContainer = ''/etc/redactr/ca.crt''"
definition dockerHostAlias :: string where "dockerHostAlias = ''host.docker.internal''"
definition podmanHostAlias :: string where "podmanHostAlias = ''host.containers.internal''"

definition ProxyEnv :: "string \<Rightarrow> string \<Rightarrow> (string \<times> string) list" where
  "ProxyEnv alias port =
     (let proxyURL = ''http://'' @ alias @ '':'' @ port
      in [(''HTTPS_PROXY'', proxyURL), (''HTTP_PROXY'', proxyURL), (''https_proxy'', proxyURL), (''http_proxy'', proxyURL),
          (''NODE_EXTRA_CA_CERTS'', CAInContainer), (''REQUESTS_CA_BUNDLE'', CAInContainer), (''SSL_CERT_FILE'', CAInContainer),
          (''REDACTR_BOUND'', ''1''), (''REDACTR_PROXY_HOST'', alias), (''REDACTR_PROXY_PORT'', port)])"

definition hostAliasFor :: "string \<Rightarrow> string" where
  "hostAliasFor runtime = (if runtime = ''podman'' then podmanHostAlias else dockerHostAlias)"

definition PortOf :: "string \<Rightarrow> string" where
  "PortOf hostPort = (let i = LastIndex hostPort '':'' in if i \<ge> 0 then drop (nat (i + 1)) hostPort else hostPort)"

definition InjectionArgs :: "spec \<Rightarrow> string list" where
  "InjectionArgs s =
     (let alias = (if sp_HostAlias s = [] then dockerHostAlias else sp_HostAlias s);
          port = PortOf (sp_ProxyAddr s)
      in [''--add-host'', alias @ '':host-gateway'', ''-v'', sp_ProjectDir s @ '':'' @ workMount, ''-w'', workMount,
          ''-v'', sp_CACertPath s @ '':'' @ CAInContainer @ '':ro''] @
         concat (map (\<lambda>(k, v). [''-e'', k @ ''='' @ v]) (ProxyEnv alias port)))"

subsection \<open>Runtime and engine\<close>

definition RunArgs :: "string \<Rightarrow> string list \<Rightarrow> string \<Rightarrow> string list \<Rightarrow> string list" where
  "RunArgs bin flags img entrypoint = [bin, ''run''] @ flags @ [img] @ entrypoint"

definition preferredRuntimes :: "string list" where
  "preferredRuntimes = [''docker'', ''podman'']"

text \<open>\<open>onPath\<close> tells whether a program is found.\<close>

definition Detect :: "(string \<Rightarrow> bool) \<Rightarrow> sandbox_error + string" where
  "Detect onPath = (case find onPath preferredRuntimes of None \<Rightarrow> Inl NoRuntime | Some bin \<Rightarrow> Inr bin)"

definition composeArgs :: "string \<Rightarrow> spec \<Rightarrow> string list \<Rightarrow> string list" where
  "composeArgs bin s runFlags =
     (let flags = runFlags @ HardeningArgs bin;
          s' = s\<lparr>sp_HostAlias := hostAliasFor bin\<rparr>
      in RunArgs bin (flags @ InjectionArgs s') (sp_Image s') (sp_Entrypoint s'))"

definition StdioRunArgs :: "string \<Rightarrow> spec \<Rightarrow> sandbox_error + string list" where
  "StdioRunArgs bin s =
     (case Validate s of Some e \<Rightarrow> Inl e | None \<Rightarrow> Inr (composeArgs bin s [''--rm'', ''-i'']))"

text \<open>The command that is run.\<close>

definition Launch :: "string \<Rightarrow> spec \<Rightarrow> sandbox_error + string list" where
  "Launch bin s =
     (case Validate s of
        Some e \<Rightarrow> Inl e
      | None \<Rightarrow>
          if sp_Mode s \<noteq> ModeEphemeralTTY then Inl (OnlyTTY (sp_Mode s))
          else Inr (composeArgs bin s [''--rm'', ''-it'']))"

subsection \<open>Finding the proxy\<close>

definition normalizeLoopback :: "string \<Rightarrow> string" where
  "normalizeLoopback addr0 =
     (let addr = TrimPrefix addr0 ''tcp://''
      in case find (HasPrefix addr) [''0.0.0.0:'', ''[::]:'', ''[::1]:''] of
           None \<Rightarrow> addr
         | Some p \<Rightarrow> ''127.0.0.1:'' @ TrimPrefix addr p)"

text \<open>\<open>Discover\<close>: the address; the path of the certificate is the one of the base directory.\<close>

definition Discover :: "io_env \<Rightarrow> home \<Rightarrow> sandbox_error + string" where
  "Discover io h =
     (case ReadFile io h ProxyPid of
        FileData raw \<Rightarrow>
          (let addr = normalizeLoopback (TrimSpace raw)
           in if addr = [] then Inl ProxyPidEmpty
              else if \<not> StatOk io h CaCrt then Inl NoCACert
              else Inr addr)
      | _ \<Rightarrow> Inl ProxyNotRunning)"

text \<open>The same for the bound shell.\<close>

definition normalizeAddr :: "string \<Rightarrow> string" where
  "normalizeAddr addr0 =
     (let addr = TrimPrefix (TrimSpace addr0) ''tcp://''
      in if HasPrefix addr ''[::]:'' then ''127.0.0.1:'' @ TrimPrefix addr ''[::]:''
         else if HasPrefix addr ''0.0.0.0:'' then ''127.0.0.1:'' @ TrimPrefix addr ''0.0.0.0:''
         else if HasPrefix addr ''[::1]:'' then ''127.0.0.1:'' @ TrimPrefix addr ''[::1]:''
         else addr)"

definition readState :: "io_env \<Rightarrow> home \<Rightarrow> home_file \<Rightarrow> string option" where
  "readState io h f =
     (case ReadFile io h f of
        FileData b \<Rightarrow> (let v = TrimSpace b in if v = [] then None else Some v)
      | _ \<Rightarrow> None)"

text \<open>The answer of the dashboard at an address: the status code and the decoded fields; \<open>None\<close> where it is not reached.\<close>

definition fetchProxyAddrFromDashboard :: "(string \<Rightarrow> (int \<times> (bool \<times> string) option) option) \<Rightarrow> string \<Rightarrow> string option" where
  "fetchProxyAddrFromDashboard probe dashAddr =
     (case probe (''http://'' @ dashAddr @ ''/api/proxy/status'') of
        None \<Rightarrow> None
      | Some (code, body) \<Rightarrow>
          if code \<noteq> 200 then None
          else case body of
                 None \<Rightarrow> None
               | Some (enabled, addr) \<Rightarrow> if \<not> enabled \<or> addr = [] then None else Some addr)"

definition discoverProxyAddr ::
  "io_env \<Rightarrow> (string \<Rightarrow> (int \<times> (bool \<times> string) option) option) \<Rightarrow> home \<Rightarrow> (string \<times> string) option" where
  "discoverProxyAddr io probe h =
     (case readState io h ProxyPid of
        Some v \<Rightarrow> Some (v, ''state file'')
      | None \<Rightarrow>
          (case readState io h DashboardPort of
             None \<Rightarrow> None
           | Some dashAddr \<Rightarrow>
               (case fetchProxyAddrFromDashboard probe (normalizeAddr dashAddr) of
                  None \<Rightarrow> None
                | Some addr \<Rightarrow> Some (addr, ''dashboard probe''))))"

text \<open>The shell that is executed with its environment, \<open>shell\<close> the variable SHELL and \<open>exists\<close> whether a program is there.\<close>

definition RunShell ::
  "io_env \<Rightarrow> (string \<Rightarrow> (int \<times> (bool \<times> string) option) option) \<Rightarrow> string \<Rightarrow> string \<Rightarrow> (string \<Rightarrow> bool) \<Rightarrow> string list \<Rightarrow> home \<Rightarrow>
   (string \<times> string list \<times> string list) option" where
  "RunShell io probe caCert shell0 found environ h =
     (case discoverProxyAddr io probe h of
        None \<Rightarrow> None
      | Some (addr, _) \<Rightarrow>
          (let proxyAddr = normalizeAddr addr;
               shell = (if shell0 = [] then ''/bin/bash'' else shell0)
           in if \<not> StatOk io h CaCrt then None
              else if \<not> found shell then None
              else Some (shell, [Base shell, ''-i''],
                environ @ [''HTTP_PROXY=http://'' @ proxyAddr, ''HTTPS_PROXY=http://'' @ proxyAddr, ''http_proxy=http://'' @ proxyAddr,
                  ''https_proxy=http://'' @ proxyAddr, ''NODE_EXTRA_CA_CERTS='' @ caCert, ''SSL_CERT_FILE='' @ caCert,
                  ''REQUESTS_CA_BUNDLE='' @ caCert, BoundEnvKey @ ''='' @ BoundEnvValue, ''REDACTR_PROXY_ADDR='' @ proxyAddr,
                  ''REDACTR_CA_CERT='' @ caCert])))"

subsection \<open>Agents and dev containers\<close>

record launch_info =
  li_Image :: string
  li_MountMode :: string
  li_Denylist :: "string list option"
  li_ProxyAddr :: string

definition knownAgents :: "string \<rightharpoonup> string" where
  "knownAgents = map_of [(''claude'', ''claude''), (''codex'', ''codex''), (''copilot'', ''copilot'')]"

definition knownAgentEntrypoint :: "string \<Rightarrow> string list option" where
  "knownAgentEntrypoint tool = map_option (\<lambda>bin. [bin]) (knownAgents tool)"

definition specFromLaunchInfo :: "string \<Rightarrow> string list \<Rightarrow> string \<Rightarrow> string \<Rightarrow> launch_info \<Rightarrow> sandbox_error + spec" where
  "specFromLaunchInfo tool extraArgs cwd caPath info =
     (case knownAgentEntrypoint tool of
        None \<Rightarrow> Inl (UnknownAgent tool)
      | Some entry \<Rightarrow>
          if li_MountMode info \<noteq> ''bind'' then Inl (MountModeUnsupported (li_MountMode info))
          else Inr \<lparr>sp_Mode = ModeEphemeralTTY, sp_Image = li_Image info, sp_ProjectDir = cwd, sp_Entrypoint = entry @ extraArgs,
                    sp_ProxyAddr = li_ProxyAddr info, sp_CACertPath = caPath, sp_HostAlias = []\<rparr>)"

definition Generate :: "string \<Rightarrow> string \<Rightarrow> string \<Rightarrow> json" where
  "Generate img proxyAddr caPath =
     (let port = PortOf proxyAddr;
          runArgs = [''--add-host'', dockerHostAlias @ '':host-gateway''] @ HardeningArgs ''docker''
      in JObj [(''containerEnv'', JObj (canon (map (\<lambda>(k, v). (k, JStr (to_valid v))) (ProxyEnv dockerHostAlias port)))),
               (''image'', JStr (to_valid img)),
               (''mounts'', JArr [JStr (to_valid (''source='' @ caPath @ '',target='' @ CAInContainer @ '',type=bind,readonly''))]),
               (''name'', JStr ''redactr''),
               (''runArgs'', JArr (map JStr runArgs))])"

text \<open>What the wrapper for tool servers runs; \<open>container\<close> composes the command for an image and an entry point.\<close>

definition resolveChild ::
  "string list \<Rightarrow> (string \<Rightarrow> string list \<Rightarrow> sandbox_error + string list) \<Rightarrow> sandbox_error + string list" where
  "resolveChild args container =
     (case args of
        [] \<Rightarrow> Inr []
      | a # rest \<Rightarrow>
          if a \<noteq> ''--container'' then Inr args
          else case rest of
                 [] \<Rightarrow> Inl MissingCommand
               | b # rest' \<Rightarrow>
                   if b = ''--image'' then
                     (case rest' of
                        [] \<Rightarrow> Inl MissingImageRef
                      | img # cmd \<Rightarrow> if cmd = [] then Inl MissingCommand else container img cmd)
                   else container ''redactr-base:local'' rest)"

subsection \<open>What the container runtime reads\<close>

definition switches :: "string set" where
  "switches = {''--rm'', ''-i'', ''-it'', ''--read-only''}"

fun read_options :: "string list \<Rightarrow> (string \<times> string) list \<times> string list" where
  "read_options [] = ([], [])"
| "read_options [a] = (if HasPrefix a ''-'' then ([(a, [])], []) else ([], [a]))"
| "read_options (a # b # rest) =
     (if \<not> HasPrefix a ''-'' then ([], a # b # rest)
      else if a \<in> switches then (case read_options (b # rest) of (opts, cmd) \<Rightarrow> ((a, []) # opts, cmd))
      else (case read_options rest of (opts, cmd) \<Rightarrow> ((a, b) # opts, cmd)))"

lemma read_switch: "HasPrefix a ''-'' \<Longrightarrow> a \<in> switches \<Longrightarrow> rest \<noteq> [] \<Longrightarrow>
  read_options (a # rest) = ((a, []) # fst (read_options rest), snd (read_options rest))"
  by (cases rest) (simp_all split: prod.split)

lemma read_option: "HasPrefix a ''-'' \<Longrightarrow> a \<notin> switches \<Longrightarrow>
  read_options (a # v # rest) = ((a, v) # fst (read_options rest), snd (read_options rest))"
  by (simp split: prod.split)

lemma read_image: "\<not> HasPrefix img ''-'' \<Longrightarrow> read_options (img # cmd) = ([], img # cmd)"
  by (cases cmd) simp_all

lemma option_names:
  "HasPrefix ''--rm'' ''-''" "HasPrefix ''-i'' ''-''" "HasPrefix ''-it'' ''-''" "HasPrefix ''--read-only'' ''-''"
  "HasPrefix ''--cap-drop'' ''-''" "HasPrefix ''--cap-add'' ''-''" "HasPrefix ''--security-opt'' ''-''" "HasPrefix ''--tmpfs'' ''-''"
  "HasPrefix ''--pids-limit'' ''-''" "HasPrefix ''--memory'' ''-''" "HasPrefix ''--userns'' ''-''" "HasPrefix ''--add-host'' ''-''"
  "HasPrefix ''-v'' ''-''" "HasPrefix ''-w'' ''-''" "HasPrefix ''-e'' ''-''"
  by (simp_all add: HasPrefix_def)

definition hardening_options :: "string \<Rightarrow> (string \<times> string) list" where
  "hardening_options bin =
     [(''--cap-drop'', ''ALL''), (''--cap-add'', ''NET_ADMIN''), (''--cap-add'', ''NET_RAW''), (''--security-opt'', ''no-new-privileges''),
      (''--read-only'', []), (''--tmpfs'', ''/tmp''), (''--tmpfs'', ''/home/redactr:uid=1000,mode=0700''), (''--pids-limit'', ''512''),
      (''--memory'', ''4g'')] @ (if bin = ''podman'' then [(''--userns'', ''keep-id'')] else [])"

definition env_options :: "(string \<times> string) list \<Rightarrow> (string \<times> string) list" where
  "env_options env = map (\<lambda>(k, v). (''-e'', k @ ''='' @ v)) env"

lemma read_hardening:
  "rest \<noteq> [] \<Longrightarrow> read_options (HardeningArgs bin @ rest) = (hardening_options bin @ fst (read_options rest), snd (read_options rest))"
  by (cases "bin = ''podman''")
     (simp_all add: HardeningArgs_def hardening_options_def read_option read_switch switches_def option_names del: read_options.simps)

lemma read_env:
  "read_options (concat (map (\<lambda>(k, v). [''-e'', k @ ''='' @ v]) env) @ rest) =
     (env_options env @ fst (read_options rest), snd (read_options rest))"
proof (induction env)
  case (Cons p env)
  then show ?case by (cases p) (simp add: env_options_def read_option switches_def option_names del: read_options.simps)
qed (simp add: env_options_def)

definition injected_options :: "string \<Rightarrow> spec \<Rightarrow> (string \<times> string) list" where
  "injected_options bin s =
     [(''--add-host'', hostAliasFor bin @ '':host-gateway''), (''-v'', sp_ProjectDir s @ '':/work''), (''-w'', ''/work''),
      (''-v'', sp_CACertPath s @ '':/etc/redactr/ca.crt:ro'')] @ env_options (ProxyEnv (hostAliasFor bin) (PortOf (sp_ProxyAddr s)))"

lemma read_compose:
  assumes "\<not> HasPrefix (sp_Image s) ''-''" "mode \<in> {''-i'', ''-it''}"
  shows "read_options (drop 2 (composeArgs bin s [''--rm'', mode])) =
    ([(''--rm'', []), (mode, [])] @ hardening_options bin @ injected_options bin s, sp_Image s # sp_Entrypoint s)"
proof -
  have ha: "hostAliasFor bin \<noteq> []" by (simp add: hostAliasFor_def podmanHostAlias_def dockerHostAlias_def)
  have inj: "read_options (InjectionArgs (s\<lparr>sp_HostAlias := hostAliasFor bin\<rparr>) @ sp_Image s # sp_Entrypoint s) =
      (injected_options bin s, sp_Image s # sp_Entrypoint s)"
    using ha by (simp add: InjectionArgs_def Let_def injected_options_def read_option read_env[simplified] read_image[OF assms(1)] switches_def option_names
        workMount_def CAInContainer_def del: read_options.simps)
  have "drop 2 (composeArgs bin s [''--rm'', mode]) =
      ''--rm'' # mode # HardeningArgs bin @ InjectionArgs (s\<lparr>sp_HostAlias := hostAliasFor bin\<rparr>) @ sp_Image s # sp_Entrypoint s"
    by (simp add: composeArgs_def RunArgs_def Let_def)
  then show ?thesis
    using assms(2) by (auto simp: read_switch read_hardening inj switches_def option_names simp del: read_options.simps)
qed


text \<open>The list of denied domains in the policy has no part in any of this.\<close>

lemma denylist_not_enforced:
  "specFromLaunchInfo tool extra cwd ca (info\<lparr>li_Denylist := dl\<rparr>) = specFromLaunchInfo tool extra cwd ca info"
  by (simp add: specFromLaunchInfo_def split: option.split)

text \<open>The image is not separated from the options: one that starts with a dash is read as an option.\<close>

lemma image_read_as_option:
  "fst (read_options (drop 2 (composeArgs ''docker'' \<lparr>sp_Mode = ModeEphemeralTTY, sp_Image = ''--privileged=true'', sp_ProjectDir = ''/p'',
      sp_Entrypoint = [''claude''], sp_ProxyAddr = ''127.0.0.1:1'', sp_CACertPath = ''/ca'', sp_HostAlias = []\<rparr> [''--rm'', ''-it'']))) =
   fst (read_options (drop 2 (composeArgs ''docker'' \<lparr>sp_Mode = ModeEphemeralTTY, sp_Image = ''img'', sp_ProjectDir = ''/p'',
      sp_Entrypoint = [''claude''], sp_ProxyAddr = ''127.0.0.1:1'', sp_CACertPath = ''/ca'', sp_HostAlias = []\<rparr> [''--rm'', ''-it'']))) @
   [(''--privileged=true'', ''claude'')]"
  by code_simp

text \<open>A dev container has the same environment and the same hardening.\<close>

lemma canon_map_of: "map_of (canon kvs) = map_of (rev kvs)"
proof (rule ext)
  fix k
  show "map_of (canon kvs) k = map_of (rev kvs) k"
  proof (cases "k \<in> fst ` set kvs")
    case True
    then have "map_of (rev kvs) k \<noteq> None" by (simp add: map_of_eq_None_iff)
    then show ?thesis using True by (auto simp: canon_def map_of_map_keys map_of_eq_Some_iff comp_def intro!: image_eqI[where x = k]) force
  next
    case False
    then have "map_of (rev kvs) k = None" "k \<notin> fst ` set (canon kvs)" by (auto simp: map_of_eq_None_iff canon_def image_image)
    then show ?thesis by (metis map_of_eq_None_iff)
  qed
qed

lemma front_doors_agree:
  assumes "Generate img proxyAddr ca = JObj kvs" "\<not> HasPrefix img' ''-''"
  shows "\<exists>ce ra. map_of kvs ''containerEnv'' = Some (JObj ce) \<and> map_of kvs ''runArgs'' = Some (JArr (map JStr ra)) \<and>
    (\<forall>k. map_of ce k = map_option (\<lambda>v. JStr (to_valid v)) (map_of (ProxyEnv (hostAliasFor ''docker'') (PortOf proxyAddr)) k)) \<and>
    read_options (ra @ [img']) = ((''--add-host'', hostAliasFor ''docker'' @ '':host-gateway'') # hardening_options ''docker'', [img'])"
proof -
  let ?env = "ProxyEnv dockerHostAlias (PortOf proxyAddr)"
  have docker: "hostAliasFor ''docker'' = dockerHostAlias" by (simp add: hostAliasFor_def)
  have "distinct (map fst ?env)" by (simp add: ProxyEnv_def Let_def)
  then have "map_of (rev ?env) = map_of ?env" by (simp add: map_of_rev_distinct)
  moreover have "map_of (rev (map (\<lambda>(k, v). (k, JStr (to_valid v))) ?env)) k = map_option (\<lambda>v. JStr (to_valid v)) (map_of (rev ?env) k)" for k
    by (simp add: rev_map map_of_map)
  ultimately have env: "map_of (canon (map (\<lambda>(k, v). (k, JStr (to_valid v))) ?env)) k = map_option (\<lambda>v. JStr (to_valid v)) (map_of ?env k)" for k
    by (simp add: canon_map_of)
  have "read_options (([''--add-host'', dockerHostAlias @ '':host-gateway''] @ HardeningArgs ''docker'') @ [img']) =
      ((''--add-host'', dockerHostAlias @ '':host-gateway'') # hardening_options ''docker'', [img'])"
    using read_hardening[of "[img']" "''docker''"] read_image[OF assms(2), of "[]"]
    by (simp add: read_option switches_def option_names del: read_options.simps)
  then show ?thesis
    using assms(1) env
    by (intro exI[of _ "canon (map (\<lambda>(k, v). (k, JStr (to_valid v))) ?env)"]
        exI[of _ "[''--add-host'', dockerHostAlias @ '':host-gateway''] @ HardeningArgs ''docker''"])
       (auto simp: Generate_def Let_def docker)
qed

lemma normalizeAddr_eq: "normalizeAddr addr = normalizeLoopback (TrimSpace addr)"
  by (auto simp: normalizeAddr_def normalizeLoopback_def Let_def HasPrefix_iff)

subsection \<open>Examples\<close>

definition demo_info :: launch_info where
  "demo_info = \<lparr>li_Image = ''redactr-base:local'', li_MountMode = ''bind'', li_Denylist = None, li_ProxyAddr = ''[::]:4000''\<rparr>"


end
