(* ===== verification/ToolWrap.thy ===== *)
theory ToolWrap
  imports Sandbox
begin

text \<open>
  The wrapper for tool servers (\<open>internal/mcpwrap/wrap.go\<close>, \<open>cmd/redactr-mcp-wrap/main.go\<close>) and the hooks for Claude Code
  (\<open>internal/hooks\<close>).

  The wrapper passes the messages between a client and a tool server, one line each, and replaces the text in them by its
  redaction. Parsing JSON is a parameter, from the bytes of a message to its value. The wrapper looks for the decoded
  text in the encoded message, so a text that the encoding changes is never replaced; a message with several texts, which are joined by
  line breaks, always is such a text (\<open>ScanMessage_multipart_unredacted\<close>).
\<close>

subsection \<open>Messages\<close>

text \<open>Looking a key up in a decoded object: of a key that occurs twice the later value counts.\<close>

definition lookup_key :: "string \<Rightarrow> (string \<times> json) list \<Rightarrow> json option" where
  "lookup_key k kvs = map_of (rev kvs) k"

text \<open>Decoding into a map: \<open>null\<close> gives the nil map.\<close>

definition as_map :: "json \<Rightarrow> (string \<times> json) list option" where
  "as_map j = (case j of JObj kvs \<Rightarrow> Some kvs | JNull \<Rightarrow> Some [] | _ \<Rightarrow> None)"

definition as_parts :: "json \<Rightarrow> (string \<times> json) list list option" where
  "as_parts j = (case j of JArr xs \<Rightarrow> all_some (map as_map xs) | JNull \<Rightarrow> Some [] | _ \<Rightarrow> None)"

definition as_text :: "json \<Rightarrow> string option" where
  "as_text j = (case j of JStr s \<Rightarrow> Some s | JNull \<Rightarrow> Some [] | _ \<Rightarrow> None)"

definition result_texts :: "(string \<times> json) list list \<Rightarrow> string list" where
  "result_texts parts = concat (map (\<lambda>p. case lookup_key ''text'' p of Some (JStr t) \<Rightarrow> [t] | _ \<Rightarrow> []) parts)"

definition text_of_params :: "(string \<times> json) list \<Rightarrow> string" where
  "text_of_params msg =
     (case Option.bind (Option.bind (Option.bind (lookup_key ''params'' msg) as_map) (lookup_key ''content'')) as_text of
        None \<Rightarrow> [] | Some s \<Rightarrow> s)"

definition extractTextFromMessage :: "(string \<times> json) list \<Rightarrow> string" where
  "extractTextFromMessage msg =
     (case lookup_key ''result'' msg of
        None \<Rightarrow> text_of_params msg
      | Some result \<Rightarrow>
          (case Option.bind (Option.bind (as_map result) (lookup_key ''content'')) as_parts of
             Some parts \<Rightarrow> JoinByte (result_texts parts) newline
           | None \<Rightarrow>
               (case as_text result of Some s \<Rightarrow> s | None \<Rightarrow> text_of_params msg)))"

text \<open>\<open>strings.Replace\<close> with the count one, for a text that is not empty.\<close>

definition replace_first :: "string \<Rightarrow> string \<Rightarrow> string \<Rightarrow> string" where
  "replace_first s old new =
     (let i = Index s old in if i < 0 then s else take (nat i) s @ new @ drop (nat i + length old) s)"

text \<open>The scanner answers with a text, or with an error.\<close>

definition ScanMessage :: "(string \<Rightarrow> json option) \<Rightarrow> (string \<Rightarrow> string option) option \<Rightarrow> string \<Rightarrow> string" where
  "ScanMessage parse scanner msg =
     (case scanner of
        None \<Rightarrow> msg
      | Some scan \<Rightarrow>
          (case Option.bind (parse msg) as_map of
             None \<Rightarrow> msg
           | Some kvs \<Rightarrow>
               (let txt = extractTextFromMessage kvs
                in if txt = [] then msg
                   else case scan txt of
                          None \<Rightarrow> msg
                        | Some redacted \<Rightarrow> if redacted = txt then msg else replace_first msg txt redacted)))"

text \<open>
  The scanner of the wrapper asks the daemon. The answer is decoded into a map of strings, its errors and its status ignored: a value
  of another type leaves the empty string.
\<close>

definition apiScanner_ScanText :: "(string \<Rightarrow> json option option) \<Rightarrow> string \<Rightarrow> string option" where
  "apiScanner_ScanText post txt =
     (case post txt of
        None \<Rightarrow> None
      | Some None \<Rightarrow> Some txt
      | Some (Some j) \<Rightarrow>
          (case Option.bind (as_map j) (lookup_key ''redacted'') of
             None \<Rightarrow> Some txt
           | Some v \<Rightarrow> Some (case v of JStr s \<Rightarrow> s | _ \<Rightarrow> [])))"

definition discoverAPIPort :: "io_env \<Rightarrow> bool \<Rightarrow> home \<Rightarrow> string" where
  "discoverAPIPort io homeKnown h =
     (if \<not> homeKnown then []
      else case ReadFile io h ApiPort of FileData data \<Rightarrow> TrimSpace data | _ \<Rightarrow> [])"

text \<open>One direction of the wrapper. \<open>bufio.Scanner\<close> gives up at a line of 65536 bytes or more, and drops a carriage return at the end.\<close>

definition maxLine :: nat where "maxLine = 65535"

definition drop_cr :: "string \<Rightarrow> string" where
  "drop_cr l = (if l \<noteq> [] \<and> last l = CHR 0x0D then butlast l else l)"

fun pump :: "(string \<Rightarrow> json option) \<Rightarrow> (string \<Rightarrow> string option) option \<Rightarrow> string list \<Rightarrow> string list" where
  "pump parse scanner [] = []"
| "pump parse scanner (l # ls) =
     (if length l > maxLine then [] else ScanMessage parse scanner (drop_cr l) # pump parse scanner ls)"

definition wrap_main ::
  "io_env \<Rightarrow> bool \<Rightarrow> (string \<Rightarrow> string \<Rightarrow> json option option) \<Rightarrow> (string \<Rightarrow> json option) \<Rightarrow> home \<Rightarrow> string list \<Rightarrow> string list" where
  "wrap_main io homeKnown post parse h input =
     (let port = discoverAPIPort io homeKnown h;
          scanner = (if port \<noteq> [] then Some (apiScanner_ScanText (post (''http://127.0.0.1:'' @ port @ ''/api/scan''))) else None)
      in pump parse scanner input)"

subsection \<open>Hooks\<close>

definition set_key :: "string \<Rightarrow> json \<Rightarrow> (string \<times> json) list \<Rightarrow> (string \<times> json) list" where
  "set_key k v kvs = filter (\<lambda>(k', _). k' \<noteq> k) kvs @ [(k, v)]"

definition del_key :: "string \<Rightarrow> (string \<times> json) list \<Rightarrow> (string \<times> json) list" where
  "del_key k kvs = filter (\<lambda>(k', _). k' \<noteq> k) kvs"

definition hook_entry :: json where
  "hook_entry = JArr [JObj [(''hooks'', JArr [JObj [(''command'', JStr ''redactr-hook-check''), (''type'', JStr ''command'')]]), (''matcher'', JStr ''Bash'')]]"

text \<open>The settings that are read: \<open>None\<close> is the nil map, which a file with \<open>null\<close> gives; what does not decode is taken for empty.\<close>

definition read_settings :: "(string \<Rightarrow> json option) \<Rightarrow> io_env \<Rightarrow> home \<Rightarrow> (string \<times> json) list option" where
  "read_settings parse io h =
     (case ReadFile io h SettingsJson of
        FileData data \<Rightarrow> (case parse data of Some (JObj kvs) \<Rightarrow> Some kvs | Some JNull \<Rightarrow> None | _ \<Rightarrow> Some [])
      | _ \<Rightarrow> Some [])"

definition write_settings :: "(json \<Rightarrow> string) \<Rightarrow> io_env \<Rightarrow> (string \<times> json) list option \<Rightarrow> home \<Rightarrow> home \<times> bool" where
  "write_settings print io settings h =
     WriteFile io SettingsJson (print (case settings of None \<Rightarrow> JNull | Some kvs \<Rightarrow> JObj (canon kvs))) h"

definition hooks_of :: "(string \<times> json) list \<Rightarrow> (string \<times> json) list option" where
  "hooks_of settings = (case lookup_key ''hooks'' settings of Some (JObj hs) \<Rightarrow> Some hs | _ \<Rightarrow> None)"

text \<open>\<open>None\<close> is a panic: an assignment to an entry of the nil map.\<close>

definition InstallHook :: "(string \<Rightarrow> json option) \<Rightarrow> (json \<Rightarrow> string) \<Rightarrow> io_env \<Rightarrow> home \<Rightarrow> (home \<times> bool) option" where
  "InstallHook parse print io h =
     (case read_settings parse io h of
        None \<Rightarrow> None
      | Some settings \<Rightarrow>
          (let hooks = (case hooks_of settings of Some hs \<Rightarrow> hs | None \<Rightarrow> [])
           in Some (write_settings print io (Some (set_key ''hooks'' (JObj (canon (set_key ''PreToolUse'' hook_entry hooks))) settings)) h)))"

definition RemoveHook :: "(string \<Rightarrow> json option) \<Rightarrow> (json \<Rightarrow> string) \<Rightarrow> io_env \<Rightarrow> home \<Rightarrow> home \<times> bool" where
  "RemoveHook parse print io h =
     (let settings = read_settings parse io h;
          settings' = (case settings of
             None \<Rightarrow> None
           | Some kvs \<Rightarrow>
               Some (case hooks_of kvs of
                       None \<Rightarrow> kvs
                     | Some hs \<Rightarrow>
                         (let hs' = del_key ''PreToolUse'' hs
                          in if hs' = [] then del_key ''hooks'' kvs else set_key ''hooks'' (JObj (canon hs')) kvs)))
      in write_settings print io settings' h)"

definition DefaultSafeCmds :: "string list" where
  "DefaultSafeCmds =
     [''cat'', ''head'', ''tail'', ''less'', ''more'', ''bat'', ''ls'', ''tree'', ''locate'', ''grep'', ''rg'', ''ag'', ''ack'', ''fgrep'', ''egrep'',
      ''cut'', ''sort'', ''uniq'', ''wc'', ''tr'', ''column'', ''file'', ''stat'', ''du'', ''df'', ''which'', ''whereis'', ''type'', ''diff'', ''cmp'', ''comm'',
      ''date'', ''cal'', ''uptime'', ''whoami'', ''hostname'', ''uname'', ''printenv'', ''echo'', ''printf'', ''basename'', ''dirname'', ''realpath'',
      ''git blame'', ''git branch'', ''git diff'', ''git log'', ''git ls-files'', ''git remote'', ''git rev-parse'', ''git show'', ''git stash list'',
      ''git status'', ''git tag'', ''pwd'', ''find'', ''env'']"

text \<open>The result in the order of the keys; Go's iteration may give it in any other.\<close>

definition BuildAllowlist :: "string list \<Rightarrow> string list \<Rightarrow> string list \<Rightarrow> string list" where
  "BuildAllowlist defaults added removed = filter (\<lambda>c. c \<notin> set removed) (remdups (defaults @ added))"

subsection \<open>What the wrapper replaces\<close>

lemma index_from_bound: "index_from i s p < 0 \<longleftrightarrow> \<not> Contains s p" if "0 \<le> i"
  using that by (induction i s p rule: index_from.induct) auto

lemma index_from_first:
  assumes "Contains s p" "0 \<le> i"
  shows "\<exists>a b. s = a @ p @ b \<and> index_from i s p = i + int (length a) \<and> (\<forall>k<length a. \<not> HasPrefix (drop k s) p)"
  using assms
proof (induction i s p rule: index_from.induct)
  case (1 i p)
  then show ?case by auto
next
  case (2 i c s p)
  show ?case
  proof (cases "HasPrefix (c # s) p")
    case True
    then show ?thesis using 2 by (auto simp: HasPrefix_iff intro!: exI[of _ "[]"])
  next
    case False
    then obtain a b where ab: "s = a @ p @ b" "index_from (i + 1) s p = (i + 1) + int (length a)"
      "\<forall>k<length a. \<not> HasPrefix (drop k s) p"
      using 2 by auto
    have "\<not> HasPrefix (drop k (c # s)) p" if "k < Suc (length a)" for k
      using that False ab(3) by (cases k) auto
    then show ?thesis using False ab(1,2) by (intro exI[of _ "c # a"] exI[of _ b]) simp
  qed
qed

text \<open>The first occurrence is replaced, and nothing when there is none.\<close>

lemma replace_first_absent: "\<not> Contains s old \<Longrightarrow> replace_first s old new = s"
  by (simp add: replace_first_def Index_def index_from_bound)

lemma replace_first_present:
  assumes "Contains s old"
  shows "\<exists>a b. s = a @ old @ b \<and> replace_first s old new = a @ new @ b \<and> (\<forall>k<length a. \<not> HasPrefix (drop k s) old)"
proof -
  obtain a b where "s = a @ old @ b" "Index s old = int (length a)" "\<forall>k<length a. \<not> HasPrefix (drop k s) old"
    using index_from_first[OF assms, of 0] by (auto simp: Index_def)
  then show ?thesis by (intro exI[of _ a] exI[of _ b]) (simp add: replace_first_def)
qed

lemma ScanMessage_replaces:
  assumes "Option.bind (parse msg) as_map = Some kvs" "extractTextFromMessage kvs = txt" "txt \<noteq> []"
    and "scan txt = Some red" "Contains msg txt"
  shows "\<exists>a b. msg = a @ txt @ b \<and> ScanMessage parse (Some scan) msg = a @ red @ b"
proof (cases "red = txt")
  case True
  then show ?thesis using assms by (auto simp: ScanMessage_def Contains_iff)
next
  case False
  then show ?thesis using assms replace_first_present[OF assms(5), of red] by (auto simp: ScanMessage_def)
qed

lemma JoinByte_two: "2 \<le> length ps \<Longrightarrow> c \<in> set (JoinByte ps c)"
  by (induction ps c rule: JoinByte.induct) auto

lemma Contains_subset: "Contains s p \<Longrightarrow> set p \<subseteq> set s"
  by (auto simp: Contains_iff)

text \<open>
  A message of one line whose result has two texts or more is passed on as it is, whatever the scanner finds in it: the texts are joined
  by line breaks, and the joined text does not occur in the message.
\<close>

lemma ScanMessage_multipart_unredacted:
  assumes "newline \<notin> set msg" "parse msg = Some (JObj kvs)" "lookup_key ''result'' kvs = Some (JObj r)"
    and "lookup_key ''content'' r = Some content" "as_parts content = Some parts" "2 \<le> length (result_texts parts)"
  shows "ScanMessage parse scanner msg = msg"
proof -
  let ?txt = "JoinByte (result_texts parts) newline"
  have "newline \<in> set ?txt" by (rule JoinByte_two[OF assms(6)])
  then have "\<not> Contains msg ?txt" using assms(1) Contains_subset by blast
  moreover have "extractTextFromMessage kvs = ?txt" using assms(3-5) by (simp add: extractTextFromMessage_def as_map_def)
  ultimately show ?thesis
    by (simp add: ScanMessage_def as_map_def assms(2) replace_first_absent Let_def split: option.split)
qed

definition example_parts :: json where
  "example_parts = JArr [JObj [(''text'', JStr ''key'')], JObj [(''text'', JStr ''a@b.c'')]]"

definition example_message :: string where
  "example_message = ''{result:{content:[{text:key},{text:a@b.c}]}}''"

definition example_parse :: "string \<Rightarrow> json option" where
  "example_parse m = (if m = example_message then Some (JObj [(''result'', JObj [(''content'', example_parts)])]) else None)"

lemma ScanMessage_multipart_unredacted_example:
  "ScanMessage example_parse (Some (\<lambda>_. Some ''REDACTED'')) example_message = example_message"
  by (rule ScanMessage_multipart_unredacted[where kvs = "[(''result'', JObj [(''content'', example_parts)])]"
        and r = "[(''content'', example_parts)]" and content = example_parts
        and parts = "[[(''text'', JStr ''key'')], [(''text'', JStr ''a@b.c'')]]"])
    (simp_all add: newline_def example_message_def example_parse_def example_parts_def lookup_key_def as_parts_def as_map_def result_texts_def)

text \<open>The lines before the first long one are passed on, one for one; what follows it is lost.\<close>

lemma pump_eq: "pump parse scanner ls = map (\<lambda>l. ScanMessage parse scanner (drop_cr l)) (takeWhile (\<lambda>l. length l \<le> maxLine) ls)"
  by (induction ls) auto

text \<open>
  The port is read from a file that no part of the program writes: while it is missing, nothing is scanned.
\<close>

lemma wrap_main_without_port:
  assumes "h ApiPort = None"
  shows "wrap_main io homeKnown post parse h ls = map drop_cr (takeWhile (\<lambda>l. length l \<le> maxLine) ls)"
  using assms by (simp add: wrap_main_def discoverAPIPort_def ReadFile_def pump_eq ScanMessage_def)

subsection \<open>Installing and removing the hook\<close>

lemma map_of_filter_key: "map_of (filter (\<lambda>(k', _). k' \<noteq> k0) kvs) k = (if k = k0 then None else map_of kvs k)"
  by (induction kvs) auto

lemma lookup_del_key: "lookup_key k (del_key k' kvs) = (if k = k' then None else lookup_key k kvs)"
  by (simp add: lookup_key_def del_key_def rev_filter map_of_filter_key)

lemma lookup_set_key: "lookup_key k (set_key k' v kvs) = (if k = k' then Some v else lookup_key k kvs)"
  by (simp add: lookup_key_def set_key_def rev_filter map_of_filter_key)

lemma lookup_canon [simp]: "lookup_key k (canon kvs) = lookup_key k kvs"
proof -
  have "distinct (map fst (canon kvs))" by (simp add: canon_keys)
  then show ?thesis by (simp add: lookup_key_def map_of_canon map_of_rev_distinct)
qed

lemma del_key_eq_Nil: "del_key k kvs = [] \<longleftrightarrow> (\<forall>k'. k' \<noteq> k \<longrightarrow> lookup_key k' kvs = None)"
proof -
  have "(\<forall>k'. k' \<noteq> k \<longrightarrow> lookup_key k' kvs = None) \<longleftrightarrow> (\<forall>k' \<in> fst ` set kvs. k' = k)"
    by (auto simp: lookup_key_def map_of_eq_None_iff)
  then show ?thesis by (auto simp: del_key_def filter_empty_conv)
qed

text \<open>
  Removing the hook after installing it gives every setting back, apart from the hooks the user had for \<open>PreToolUse\<close>: installing has
  replaced them. The remaining hooks are as before; an entry \<open>hooks\<close> with nothing left in it is gone.
\<close>

lemma Remove_Install:
  assumes codec: "\<And>j. parse (print j) = Some j"
    and settings: "read_settings parse no_io_faults h = Some s"
    and inst: "InstallHook parse print no_io_faults h = Some (h1, ok1)"
    and rem: "RemoveHook parse print no_io_faults h1 = (h2, ok2)"
  shows "\<exists>s2. read_settings parse no_io_faults h2 = Some s2 \<and> ok1 \<and> ok2 \<and>
    (\<forall>k. k \<noteq> ''hooks'' \<longrightarrow> lookup_key k s2 = lookup_key k s) \<and>
    (\<forall>k. Option.bind (hooks_of s2) (lookup_key k) =
       (if k = ''PreToolUse'' then None else Option.bind (hooks_of s) (lookup_key k)))"
proof -
  define hs where "hs = (case hooks_of s of Some hs \<Rightarrow> hs | None \<Rightarrow> [])"
  define s1 where "s1 = canon (set_key ''hooks'' (JObj (canon (set_key ''PreToolUse'' hook_entry hs))) s)"
  have h1: "h1 = h(SettingsJson \<mapsto> print (JObj s1))" and ok1: "ok1"
    using inst settings
    by (auto simp: InstallHook_def write_settings_def WriteFile_def no_io_faults_def s1_def hs_def Let_def)
  have r1: "read_settings parse no_io_faults h1 = Some s1"
    by (simp add: read_settings_def ReadFile_def no_io_faults_def h1 codec)
  have hk1: "hooks_of s1 = Some (canon (set_key ''PreToolUse'' hook_entry hs))"
    by (simp add: hooks_of_def s1_def lookup_set_key)
  define hs2 where "hs2 = del_key ''PreToolUse'' (canon (set_key ''PreToolUse'' hook_entry hs))"
  define s2 where "s2 = canon (if hs2 = [] then del_key ''hooks'' s1 else set_key ''hooks'' (JObj (canon hs2)) s1)"
  have h2: "h2 = h1(SettingsJson \<mapsto> print (JObj s2))" and ok2: "ok2"
    using rem r1 hk1
    by (auto simp: RemoveHook_def write_settings_def WriteFile_def no_io_faults_def s2_def hs2_def Let_def split: if_splits)
  have r2: "read_settings parse no_io_faults h2 = Some s2"
    by (simp add: read_settings_def ReadFile_def no_io_faults_def h2 codec)
  have lhs2: "lookup_key k hs2 = (if k = ''PreToolUse'' then None else lookup_key k hs)" for k
    by (simp add: hs2_def lookup_del_key lookup_set_key)
  have other: "lookup_key k s2 = lookup_key k s" if "k \<noteq> ''hooks''" for k
    using that by (simp add: s2_def s1_def lookup_del_key lookup_set_key)
  have bind: "Option.bind (hooks_of s) (lookup_key k) = lookup_key k hs" for k
    by (simp add: hs_def lookup_key_def split: option.split)
  have hooks2: "Option.bind (hooks_of s2) (lookup_key k) = lookup_key k hs2" for k
    by (simp add: hooks_of_def s2_def lookup_del_key lookup_set_key) (simp add: lookup_key_def)
  show ?thesis using r2 ok1 ok2 other hooks2 by (auto simp: lhs2 bind)
qed

text \<open>What installing loses: the hooks of the user for \<open>PreToolUse\<close>, and all settings when the file does not decode.\<close>

lemma InstallHook_replaces:
  assumes "\<And>j. parse (print j) = Some j" "InstallHook parse print no_io_faults h = Some (h1, ok)"
  shows "\<exists>s. read_settings parse no_io_faults h1 = Some s \<and>
    Option.bind (hooks_of s) (lookup_key ''PreToolUse'') = Some hook_entry"
proof -
  obtain s hs where s: "h1 = h(SettingsJson \<mapsto> print (JObj (canon (set_key ''hooks''
      (JObj (canon (set_key ''PreToolUse'' hook_entry hs))) s))))"
    using assms(2) by (auto simp: InstallHook_def write_settings_def WriteFile_def no_io_faults_def Let_def split: option.split_asm)
  show ?thesis by (simp add: s read_settings_def ReadFile_def no_io_faults_def assms(1) hooks_of_def lookup_set_key)
qed

lemma InstallHook_unreadable:
  assumes "\<And>j. parse (print j) = Some j" "h SettingsJson = Some data" "parse data = None"
  shows "InstallHook parse print no_io_faults h =
    Some (h(SettingsJson \<mapsto> print (JObj [(''hooks'', JObj [(''PreToolUse'', hook_entry)])])), True)"
  using assms
  by (simp add: InstallHook_def write_settings_def WriteFile_def no_io_faults_def Let_def read_settings_def ReadFile_def
      hooks_of_def lookup_key_def set_key_def canon_def)

lemma InstallHook_null:
  assumes "h SettingsJson = Some data" "parse data = Some JNull"
  shows "InstallHook parse print no_io_faults h = None"
  using assms by (simp add: InstallHook_def read_settings_def ReadFile_def no_io_faults_def)

lemma set_BuildAllowlist: "set (BuildAllowlist defaults added removed) = (set defaults \<union> set added) - set removed"
  by (auto simp: BuildAllowlist_def)

end
