(* ===== verification/Platform.thy ===== *)
theory Platform
  imports Processes Replay ToolWrap Sandbox Lifecycle LocalAPI
begin

text \<open>
  Where the program meets the operating system: the listener for redirected connections
  (\<open>internal/proxy/transparent.go\<close>, \<open>StartTransparent\<close> of \<open>proxy.go\<close>), the command of a wrapped tool server
  (\<open>cmd/redactr-mcp-wrap/main.go\<close>), stopping a session and opening a shell (\<open>internal/sessions/sessions_darwin.go\<close>,
  \<open>sessions_other.go\<close>), and the lock on Windows (\<open>internal/lifecycle/lifecycle_windows.go\<close>).

  Running a command is a parameter: it gives the combined output and, where it fails, the error.

  \<open>container_child\<close>: what a tool server in a container is allowed. \<open>launched_program\<close>: the shell that the new terminal runs is the
  program only if its path has no blank. \<open>windows_no_exclusion\<close>: on Windows the lock excludes nobody.
\<close>

subsection \<open>Redirected connections\<close>

datatype 'c accept_result = Accepted 'c | AcceptFailed | ListenerClosed

text \<open>The accept loop over what the calls of \<open>Accept\<close> give: the connections that are handled, and whether the loop has ended.\<close>

fun startTransparent :: "'c accept_result list \<Rightarrow> 'c list \<times> bool" where
  "startTransparent [] = ([], False)"
| "startTransparent (Accepted c # rs) = (let (cs, ended) = startTransparent rs in (c # cs, ended))"
| "startTransparent (AcceptFailed # rs) = startTransparent rs"
| "startTransparent (ListenerClosed # rs) = ([], True)"

text \<open>\<open>bind\<close> is the address of a listener at the given address of this machine, if it can be opened.\<close>

definition StartTransparent :: "(string \<Rightarrow> string option) \<Rightarrow> int \<Rightarrow> string option" where
  "StartTransparent bind port = bind (''127.0.0.1:'' @ fmt_int port)"

text \<open>\<open>http.Server.Serve\<close> accepts until that fails; here it is given the listener of one connection.\<close>

fun serve_accepted :: "nat \<Rightarrow> 'c oneShotListener \<Rightarrow> 'c list \<times> bool" where
  "serve_accepted 0 l = ([], False)"
| "serve_accepted (Suc n) l =
     (case Accept_once l of
        (None, l') \<Rightarrow> ([], True)
      | (Some c, l') \<Rightarrow> (let (cs, ended) = serve_accepted n l' in (c # cs, ended)))"

definition serveConn :: "nat \<Rightarrow> 'c \<Rightarrow> 'c list \<times> bool" where
  "serveConn n c = serve_accepted n \<lparr>os_conn = c, os_done = False\<rparr>"

text \<open>A connection is handled exactly if it was accepted before the listener was closed; a failure in between loses none.\<close>

lemma startTransparent_eq:
  "startTransparent rs =
     (List.map_filter (\<lambda>r. case r of Accepted c \<Rightarrow> Some c | _ \<Rightarrow> None) (takeWhile (\<lambda>r. r \<noteq> ListenerClosed) rs), ListenerClosed \<in> set rs)"
  by (induction rs rule: startTransparent.induct) (auto simp: List.map_filter_simps)

text \<open>Serving a connection ends after it was handed over once; two rounds are enough.\<close>

lemma serveConn_once: "n \<ge> 2 \<Longrightarrow> serveConn n c = ([c], True)"
proof -
  assume "n \<ge> 2"
  then obtain k where "n = Suc (Suc k)" by (metis Suc_le_D numeral_2_eq_2 Suc_le_mono)
  then show ?thesis by (simp add: serveConn_def Accept_once_def)
qed

subsection \<open>Wrapped tool servers\<close>

datatype wrap_error = WrapUsage | WrapFailed sandbox_error

text \<open>The arguments include the name of the program; \<open>ca\<close> is the path of the certificate and \<open>cwd\<close> the directory the program runs in.\<close>

definition container_argv ::
  "io_env \<Rightarrow> home \<Rightarrow> (string \<Rightarrow> bool) \<Rightarrow> string \<Rightarrow> string \<Rightarrow> string \<Rightarrow> string list \<Rightarrow> sandbox_error + string list" where
  "container_argv io h onPath ca cwd img entry =
     (case Discover io h of
        Inl e \<Rightarrow> Inl e
      | Inr addr \<Rightarrow>
          (case Detect onPath of
             Inl e \<Rightarrow> Inl e
           | Inr bin \<Rightarrow>
               StdioRunArgs bin
                 \<lparr>sp_Mode = ModeStdioAttached, sp_Image = img, sp_ProjectDir = cwd, sp_Entrypoint = entry, sp_ProxyAddr = addr,
                   sp_CACertPath = ca, sp_HostAlias = []\<rparr>))"

definition wrap_child ::
  "io_env \<Rightarrow> home \<Rightarrow> (string \<Rightarrow> bool) \<Rightarrow> string \<Rightarrow> string \<Rightarrow> string list \<Rightarrow> wrap_error + string list" where
  "wrap_child io h onPath ca cwd args =
     (if length args < 2 then Inl WrapUsage
      else case resolveChild (tl args) (container_argv io h onPath ca cwd) of
             Inl e \<Rightarrow> Inl (WrapFailed e)
           | Inr argv \<Rightarrow> Inr argv)"

lemma container_argv_Inr:
  "container_argv io h onPath ca cwd img entry = Inr argv \<Longrightarrow>
     \<exists>addr bin s. Discover io h = Inr addr \<and> bin \<in> set preferredRuntimes \<and> entry \<noteq> [] \<and> img \<noteq> [] \<and> cwd \<noteq> [] \<and>
       s = \<lparr>sp_Mode = ModeStdioAttached, sp_Image = img, sp_ProjectDir = cwd, sp_Entrypoint = entry, sp_ProxyAddr = addr,
             sp_CACertPath = ca, sp_HostAlias = []\<rparr> \<and>
       argv = composeArgs bin s [''--rm'', ''-i'']"
  by (auto simp: container_argv_def StdioRunArgs_def Validate_def Detect_def find_Some_iff split: sum.splits option.splits if_splits)
     (use nth_mem in blast)

lemma resolveChild_Inr:
  "resolveChild args k = Inr argv \<Longrightarrow> args \<noteq> [] \<Longrightarrow>
     argv = args \<and> hd args \<noteq> ''--container'' \<or> hd args = ''--container'' \<and> (\<exists>img entry. entry \<noteq> [] \<and> k img entry = Inr argv)"
  by (auto simp: resolveChild_def split: list.splits if_splits)

text \<open>There is always a program to run: the first element of the list is taken without a check.\<close>

lemma wrap_child_nonempty:
  assumes "wrap_child io h onPath ca cwd args = Inr argv"
  shows "argv \<noteq> []"
proof -
  have "resolveChild (tl args) (container_argv io h onPath ca cwd) = Inr argv" "tl args \<noteq> []"
    using assms by (cases args; auto simp: wrap_child_def split: if_splits sum.splits)+
  from resolveChild_Inr[OF this] this(2) show ?thesis
    by (auto dest!: container_argv_Inr simp: composeArgs_def RunArgs_def Let_def)
qed

text \<open>
  A tool server in a container runs with the options of an agent: capabilities dropped, the root read-only, the project and the
  certificate mounted, and the environment that leads to the proxy that is running.
\<close>

lemma container_child:
  assumes "wrap_child io h onPath ca cwd (prog # ''--container'' # ''--image'' # img # entry) = Inr argv" "\<not> HasPrefix img ''-''"
  shows "\<exists>addr bin s. Discover io h = Inr addr \<and> bin \<in> set preferredRuntimes \<and> sp_ProxyAddr s = addr \<and> sp_CACertPath s = ca \<and>
    sp_ProjectDir s = cwd \<and>
    read_options (drop 2 argv) = ([(''--rm'', []), (''-i'', [])] @ hardening_options bin @ injected_options bin s, img # entry)"
proof -
  have "container_argv io h onPath ca cwd img entry = Inr argv"
    using assms(1) by (auto simp: wrap_child_def resolveChild_def split: sum.splits if_splits)
  from container_argv_Inr[OF this] obtain addr bin s where "Discover io h = Inr addr" "bin \<in> set preferredRuntimes"
    and s: "s = \<lparr>sp_Mode = ModeStdioAttached, sp_Image = img, sp_ProjectDir = cwd, sp_Entrypoint = entry, sp_ProxyAddr = addr,
      sp_CACertPath = ca, sp_HostAlias = []\<rparr>"
    and argv: "argv = composeArgs bin s [''--rm'', ''-i'']" by blast
  moreover have "read_options (drop 2 argv) =
      ([(''--rm'', []), (''-i'', [])] @ hardening_options bin @ injected_options bin s, sp_Image s # sp_Entrypoint s)"
    unfolding argv by (rule read_compose) (use assms(2) s in simp_all)
  ultimately show ?thesis by (intro exI[of _ addr] exI[of _ bin] exI[of _ s]) simp
qed

subsection \<open>Sessions on macOS\<close>

definition Stop_process :: "(string list \<Rightarrow> string \<times> string option) \<Rightarrow> int \<Rightarrow> string option" where
  "Stop_process run pid =
     (case run [''kill'', fmt_int pid] of
        (_, None) \<Rightarrow> None
      | (out, Some err) \<Rightarrow> Some (''kill '' @ fmt_int pid @ '': '' @ err @ '' ('' @ TrimSpace out @ '')''))"

text \<open>The quoting verb \<open>%q\<close> for printable ASCII.\<close>

definition go_quote :: "string \<Rightarrow> string" where
  "go_quote s = CHR 0x22 # concat (map (\<lambda>c. if c = CHR 0x22 \<or> c = CHR 0x5C then [CHR 0x5C, c] else [c]) s) @ [CHR 0x22]"

definition terminal_script :: "string \<Rightarrow> string" where
  "terminal_script binary =
     ''tell application '' @ go_quote ''Terminal'' @ [CHR 0x0A, CHR 0x09, CHR 0x09] @ ''activate'' @ [CHR 0x0A, CHR 0x09, CHR 0x09] @
     ''do script '' @ go_quote (binary @ '' shell'') @ [CHR 0x0A, CHR 0x09] @ ''end tell''"

definition LaunchProtectedShell :: "(string list \<Rightarrow> string \<times> string option) \<Rightarrow> string \<Rightarrow> string option" where
  "LaunchProtectedShell run binary =
     (if binary = [] then Some ''redactr binary path not provided''
      else case run [''osascript'', ''-e'', terminal_script binary] of
             (_, None) \<Rightarrow> None
           | (out, Some err) \<Rightarrow> Some (''osascript: '' @ err @ '' ('' @ TrimSpace out @ '')''))"

text \<open>How the terminal reads the text back: a string of AppleScript, whose content the shell splits into words.\<close>

fun read_quoted :: "string \<Rightarrow> (string \<times> string) option" where
  "read_quoted [] = None"
| "read_quoted (c # s) =
     (if c = CHR 0x22 then Some ([], s)
      else if c = CHR 0x5C then
        (case s of [] \<Rightarrow> None | d # s' \<Rightarrow> map_option (\<lambda>(t, r). (d # t, r)) (read_quoted s'))
      else map_option (\<lambda>(t, r). (c # t, r)) (read_quoted s))"

lemma read_quoted_concat:
  "read_quoted (concat (map (\<lambda>c. if c = CHR 0x22 \<or> c = CHR 0x5C then [CHR 0x5C, c] else [c]) s) @ CHR 0x22 # rest) = Some (s, rest)"
  by (induction s) auto

lemma go_quote_read: "read_quoted (tl (go_quote s) @ rest) = Some (s, rest)"
  by (simp add: go_quote_def read_quoted_concat)

lemma SplitByte_app_last: "c \<notin> set t \<Longrightarrow> SplitByte (s @ c # t) c = SplitByte s c @ [t]"
proof (induction s)
  case Nil
  then show ?case by (induction t) auto
next
  case (Cons d s)
  obtain p ps where "SplitByte s c = p # ps" using SplitByte_nonempty[of s c] by (cases "SplitByte s c") auto
  then show ?case using Cons by simp
qed

lemma SplitByte_single: "SplitByte s c = [p] \<longleftrightarrow> p = s \<and> c \<notin> set s"
proof
  assume one: "SplitByte s c = [p]"
  then have "p = s" using JoinByte_SplitByte[of s c] by simp
  moreover have "c \<notin> set s"
  proof
    assume "c \<in> set s"
    then obtain a b where "s = a @ c # b" "c \<notin> set b" by (meson split_list_last)
    then show False using one SplitByte_app_last[of c b a] by simp
  qed
  ultimately show "p = s \<and> c \<notin> set s" by simp
next
  assume "p = s \<and> c \<notin> set s"
  then show "SplitByte s c = [p]" by (induction s arbitrary: p) auto
qed

text \<open>
  The command is the path and the word \<open>shell\<close>, without quotes around the path: the shell of the terminal runs the program exactly
  if its path has no blank.
\<close>

lemma launched_program:
  assumes "list_all (\<lambda>c. c \<noteq> CHR 0x22 \<and> c \<noteq> CHR 0x5C) binary"
  shows "\<exists>pre rest. terminal_script binary = pre @ go_quote (binary @ '' shell'') @ rest \<and>
      read_quoted (tl (go_quote (binary @ '' shell'')) @ rest) = Some (binary @ '' shell'', rest)"
    and "SplitByte (binary @ '' shell'') CHR '' '' = [binary, ''shell''] \<longleftrightarrow> CHR '' '' \<notin> set binary"
proof -
  show "\<exists>pre rest. terminal_script binary = pre @ go_quote (binary @ '' shell'') @ rest \<and>
      read_quoted (tl (go_quote (binary @ '' shell'')) @ rest) = Some (binary @ '' shell'', rest)"
    unfolding terminal_script_def go_quote_read
    by (rule exI[of _ "''tell application '' @ go_quote ''Terminal'' @ [CHR 0x0A, CHR 0x09, CHR 0x09] @ ''activate'' @
      [CHR 0x0A, CHR 0x09, CHR 0x09] @ ''do script ''"], rule exI[of _ "[CHR 0x0A, CHR 0x09] @ ''end tell''"]) simp
  have "SplitByte (binary @ CHR '' '' # ''shell'') CHR '' '' = SplitByte binary CHR '' '' @ [''shell'']"
    by (rule SplitByte_app_last) simp
  then show "SplitByte (binary @ '' shell'') CHR '' '' = [binary, ''shell''] \<longleftrightarrow> CHR '' '' \<notin> set binary"
    using SplitByte_single[of binary "CHR '' ''" binary] by simp
qed

lemma launch_with_blank: "SplitByte (''/Applications/Redactr AI/redactr'' @ '' shell'') CHR '' '' = [''/Applications/Redactr'', ''AI/redactr'', ''shell'']"
  by code_simp

text \<open>Any process can be stopped, whether or not it is in the list of sessions: the number in the address is all that is looked at.\<close>

lemma stop_any_process:
  assumes "Atoi_checked pidStr = Some pid" "pid > 1" "ae_kill env = Stop_process run" "snd (run [''kill'', fmt_int pid]) = None"
  shows "handleStopSession env pidStr = ([pid], 200, StatusOk [(''pid'', fmt_int pid)])"
proof -
  have "Stop_process run pid = None" using assms(4) by (cases "run [''kill'', fmt_int pid]") (simp add: Stop_process_def)
  then show ?thesis using assms(1-3) by (simp add: handleStopSession_def)
qed

subsection \<open>Other platforms\<close>

definition errUnsupported :: string where
  "errUnsupported = ''session discovery is currently only implemented for macOS''"

definition other_scanProcesses :: "string + proc list" where
  "other_scanProcesses = Inl errUnsupported"

definition other_Stop :: "int \<Rightarrow> string option" where
  "other_Stop pid = Some errUnsupported"

definition other_LaunchProtectedShell :: "string \<Rightarrow> string option" where
  "other_LaunchProtectedShell binary = Some errUnsupported"

definition PlatformSupported :: "string \<Rightarrow> bool" where
  "PlatformSupported goos \<longleftrightarrow> goos = ''darwin''"

text \<open>On Windows a lock is granted whoever holds one; \<open>holders\<close> are the processes that have acquired it and not released it.\<close>

definition windows_AcquireSingleton :: "nat \<Rightarrow> nat list \<Rightarrow> nat list \<times> bool" where
  "windows_AcquireSingleton pid holders = (holders @ [pid], True)"

definition windows_Release :: "nat \<Rightarrow> nat list \<Rightarrow> nat list \<times> bool" where
  "windows_Release pid holders = (remove1 pid holders, True)"

definition windows_ReapOrphans :: "home \<Rightarrow> home \<times> bool" where
  "windows_ReapOrphans h = (h, True)"

lemma windows_no_exclusion:
  "fst (windows_AcquireSingleton 8 (fst (windows_AcquireSingleton 7 []))) = [7, 8]"
  by (simp add: windows_AcquireSingleton_def)

end
