(* ===== verification/Agent.thy ===== *)
theory Agent
  imports Daemon Sandbox
begin

text \<open>
  Launching an agent: the client of the control socket (\<open>internal/cli/client.go\<close>), the launch policy of the daemon
  (\<open>internal/daemon/socket.go\<close>), \<open>RunAgent\<close> (\<open>internal/cli/agent.go\<close>) and \<open>RunCode\<close> (\<open>internal/cli/code.go\<close>).

  \<open>agent_runs_signed_image\<close> is the property of the whole chain, from the server's signature to the command line: what runs in the
  container comes from a bundle that was signed, unless the policy was never refreshed. A request over the control socket may not
  arrive, or its answer may be lost (\<open>delivery\<close>).
\<close>

subsection \<open>The launch policy\<close>

definition handleLaunchPolicy :: "('d, 'm, 'c, 'k) daemon_env \<Rightarrow> ('d, 'm) daemon \<Rightarrow> int \<times> launch_info option" where
  "handleLaunchPolicy env d =
     (case Load_policy (ae_T (de_api env)) (de_client env) (ap_home (dm_api d))
             (Some (pc_BlockedDomains (cf_Proxy (Get_config (ap_cfg (dm_api d)))))) of
        None \<Rightarrow> (500, None)
      | Some p \<Rightarrow>
          (200, Some \<lparr>li_Image = pl_Image p, li_MountMode = pl_MountMode p, li_Denylist = pl_Denylist p, li_ProxyAddr = proxy_addr d\<rparr>))"

text \<open>What arrives of it: invalid UTF-8 is replaced by the encoder.\<close>

definition wire_info :: "launch_info \<Rightarrow> launch_info" where
  "wire_info li = \<lparr>li_Image = to_valid (li_Image li), li_MountMode = to_valid (li_MountMode li),
     li_Denylist = map_option (map to_valid) (li_Denylist li), li_ProxyAddr = to_valid (li_ProxyAddr li)\<rparr>"

subsection \<open>The client\<close>

text \<open>Whether one of the next \<open>n\<close> attempts to connect succeeds.\<close>

fun poll_socket :: "(nat \<Rightarrow> bool) \<Rightarrow> nat \<Rightarrow> nat \<Rightarrow> bool" where
  "poll_socket dialable i 0 = False"
| "poll_socket dialable i (Suc n) = (if dialable i then True else poll_socket dialable (Suc i) n)"

definition ensureDaemon :: "(nat \<Rightarrow> bool) \<Rightarrow> bool \<Rightarrow> bool" where
  "ensureDaemon dialable spawns =
     (if dialable 0 then True
      else if \<not> spawns then False
      else poll_socket dialable 1 50)"

definition client_Status :: "delivery \<Rightarrow> ('d, 'm) daemon \<Rightarrow> daemon_status option" where
  "client_Status del d = (if del \<noteq> Answered then None else snd (sock_status d))"

definition client_EnableProxy ::
  "('d, 'm, 'c, 'k) daemon_env \<Rightarrow> delivery \<Rightarrow> delivery \<Rightarrow> ('d, 'm) daemon \<Rightarrow> ('d, 'm) daemon \<times> daemon_status option" where
  "client_EnableProxy env del relay d =
     (if del = Undelivered then (d, None)
      else case sock_enable env relay d of
             (d', code, st) \<Rightarrow> (d', if del = Unanswered \<or> code \<ge> 300 then None else st))"

definition client_DisableProxy ::
  "('d, 'm, 'c, 'k) daemon_env \<Rightarrow> delivery \<Rightarrow> delivery \<Rightarrow> ('d, 'm) daemon \<Rightarrow> ('d, 'm) daemon \<times> daemon_status option" where
  "client_DisableProxy env del relay d =
     (if del = Undelivered then (d, None)
      else case sock_disable env relay d of
             (d', code, st) \<Rightarrow> (d', if del = Unanswered \<or> code \<ge> 300 then None else st))"

definition client_LaunchPolicy :: "('d, 'm, 'c, 'k) daemon_env \<Rightarrow> delivery \<Rightarrow> ('d, 'm) daemon \<Rightarrow> launch_info option" where
  "client_LaunchPolicy env del d =
     (if del \<noteq> Answered then None
      else case handleLaunchPolicy env d of
             (code, info) \<Rightarrow> if code \<ge> 300 then None else map_option wire_info info)"

subsection \<open>Agents\<close>

record agent_env =
  ag_dialable :: "nat \<Rightarrow> bool"
  ag_spawns :: bool
  ag_enable :: delivery
  ag_relay :: delivery
  ag_policy :: delivery
  ag_cwd :: "string option"
  ag_caPath :: string
  ag_onPath :: "string \<Rightarrow> bool"

datatype agent_error = NotAnAgent | DaemonDown | EnableFailed | PolicyFailed | NoDirectory | SandboxFailed sandbox_error

text \<open>What agents and dev containers have in common: the daemon is there, the proxy is enabled, the policy is fetched.\<close>

definition preflight ::
  "agent_env \<Rightarrow> ('d, 'm, 'c, 'k) daemon_env \<Rightarrow> ('d, 'm) daemon \<Rightarrow> ('d, 'm) daemon \<times> (agent_error + launch_info)" where
  "preflight A env d =
     (if \<not> ensureDaemon (ag_dialable A) (ag_spawns A) then (d, Inl DaemonDown)
      else case client_EnableProxy env (ag_enable A) (ag_relay A) d of
             (d1, None) \<Rightarrow> (d1, Inl EnableFailed)
           | (d1, Some _) \<Rightarrow>
               (case client_LaunchPolicy env (ag_policy A) d1 of
                  None \<Rightarrow> (d1, Inl PolicyFailed)
                | Some info \<Rightarrow> (d1, Inr info)))"

text \<open>The command that is run.\<close>

definition RunAgent ::
  "agent_env \<Rightarrow> ('d, 'm, 'c, 'k) daemon_env \<Rightarrow> string \<Rightarrow> string list \<Rightarrow> ('d, 'm) daemon \<Rightarrow> ('d, 'm) daemon \<times> (agent_error + string list)" where
  "RunAgent A env tool extraArgs d =
     (if knownAgentEntrypoint tool = None then (d, Inl NotAnAgent)
      else case preflight A env d of
             (d1, Inl e) \<Rightarrow> (d1, Inl e)
           | (d1, Inr info) \<Rightarrow>
               (d1, case ag_cwd A of
                      None \<Rightarrow> Inl NoDirectory
                    | Some cwd \<Rightarrow>
                        (case specFromLaunchInfo tool extraArgs cwd (ag_caPath A) info of
                           Inl e \<Rightarrow> Inl (SandboxFailed e)
                         | Inr spec \<Rightarrow>
                             (case Detect (ag_onPath A) of
                                Inl e \<Rightarrow> Inl (SandboxFailed e)
                              | Inr bin \<Rightarrow> (case Launch bin spec of Inl e \<Rightarrow> Inl (SandboxFailed e) | Inr argv \<Rightarrow> Inr argv)))))"

subsection \<open>Dev containers\<close>

datatype code_error = CodePreflight agent_error | DirectoryFailed | AlreadyExists | WriteError

text \<open>\<open>proj\<close> holds the files of the project.\<close>

definition writeDevcontainer :: "io_env \<Rightarrow> string \<Rightarrow> bool \<Rightarrow> home \<Rightarrow> home \<times> code_error option" where
  "writeDevcontainer io content force proj =
     (if io_mkdir io DevcontainerJson then (proj, Some DirectoryFailed)
      else if \<not> force \<and> StatOk io proj DevcontainerJson then (proj, Some AlreadyExists)
      else case WriteFile io DevcontainerJson content proj of
             (proj', ok) \<Rightarrow> (proj', if ok then None else Some WriteError))"

definition launchDevcontainer :: "string \<Rightarrow> string list" where
  "launchDevcontainer project = [''devcontainer'', ''up'', ''--workspace-folder'', project]"

text \<open>The path is resolved already. The commands that are run come last: none where the program is not installed.\<close>

definition RunCode ::
  "agent_env \<Rightarrow> ('d, 'm, 'c, 'k) daemon_env \<Rightarrow> io_env \<Rightarrow> (json \<Rightarrow> string) \<Rightarrow> string \<Rightarrow> bool \<Rightarrow> ('d, 'm) daemon \<Rightarrow> home \<Rightarrow>
   ('d, 'm) daemon \<times> home \<times> (code_error + string list list)" where
  "RunCode A env io print project force d proj =
     (case preflight A env d of
        (d1, Inl e) \<Rightarrow> (d1, proj, Inl (CodePreflight e))
      | (d1, Inr info) \<Rightarrow>
          (case writeDevcontainer io (print (Generate (li_Image info) (li_ProxyAddr info) (ag_caPath A))) force proj of
             (proj', Some e) \<Rightarrow> (d1, proj', Inl e)
           | (proj', None) \<Rightarrow> (d1, proj', Inr (if ag_onPath A ''devcontainer'' then [launchDevcontainer project] else []))))"

subsection \<open>From the signature to the command line\<close>

lemma update_cfg_home: "f \<noteq> ConfigYaml \<Longrightarrow> ap_home (fst (update_cfg env fn s)) f = ap_home s f"
  by (simp add: update_cfg_def Update_def Save_config_def Let_def WriteFile_def split: prod.splits option.splits write_result.splits)

lemma handleProxyEnable_home:
  assumes "handleProxyEnable env s = (s', r)" "f \<noteq> ConfigYaml" "f \<noteq> ProxyPid"
  shows "ap_home s' f = ap_home s f"
  using assms
  by (auto simp: handleProxyEnable_def Let_def update_cfg_home writeProxyState_def WriteFile_other split: option.splits prod.splits)

lemma client_EnableProxy_home:
  assumes "client_EnableProxy env del relay d = (d', st)" "f \<noteq> ConfigYaml" "f \<noteq> ProxyPid"
  shows "ap_home (dm_api d') f = ap_home (dm_api d) f"
  using assms
  by (auto simp: client_EnableProxy_def sock_enable_def relayDashboard_def dest!: handleProxyEnable_home
      split: if_splits prod.splits bool.splits delivery.splits)

lemma get_int_in_int64: "get_int T name kvs acc = Some v \<Longrightarrow> in_int64 acc \<Longrightarrow> in_int64 v"
  by (induction T name kvs acc rule: get_int.induct)
     (auto simp: parse_int64_def Let_def split: if_splits json.splits option.splits prod.splits)

lemma decode_bundle_version: "decode_bundle T j = (b, True) \<Longrightarrow> in_int64 (pb_Version b)"
  using get_int_in_int64[of T "''version''" _ 0]
  by (auto simp: decode_bundle_def Let_def or_zero_def in_int64_def)

lemma client_LaunchPolicy_info:
  assumes "client_LaunchPolicy env del d = Some info"
  shows "\<exists>p. Load_policy (ae_T (de_api env)) (de_client env) (ap_home (dm_api d))
             (Some (pc_BlockedDomains (cf_Proxy (Get_config (ap_cfg (dm_api d)))))) = Some p \<and>
    li_Image info = to_valid (pl_Image p) \<and> li_ProxyAddr info = to_valid (proxy_addr d)"
  using assms by (auto simp: client_LaunchPolicy_def handleLaunchPolicy_def wire_info_def split: if_splits option.splits prod.splits)

text \<open>The image of a policy that is loaded: the seed's, or that of a bundle that was signed.\<close>

definition signed_image :: "unicode_tables \<Rightarrow> client_env \<Rightarrow> home \<Rightarrow> string \<Rightarrow> bool" where
  "signed_image T E h0 img \<longleftrightarrow>
     (\<exists>env h1 enr vk b. client_run T E h0 h1 \<and> same_codec E env \<and> Load_enrollment T env h1 = Some enr \<and>
        cn_key E (er_ServerPublicKey enr) = Some vk \<and> vouched T (cn_crypto E) vk b \<and> img = to_valid (pb_Image b))"

lemma Load_policy_signed:
  assumes "client_run T E h0 h" "h0 PolicyJson = None" "client_ok E" "Load_policy T E h' dl = Some p" "h' PolicyJson = h PolicyJson"
  shows "pl_Image p = ''redactr-base:local'' \<or> signed_image T E h0 (pl_Image p)"
  using client_run_signed[OF assms(1)]
proof (elim disjE exE conjE)
  assume "h PolicyJson = h0 PolicyJson"
  then show ?thesis using assms(2,4,5) by (auto simp: Load_policy_def ReadFile_def Seed_def split: if_splits)
next
  fix env h1 enr vk b
  assume run: "client_run T E h0 h1" "same_codec E env" "Load_enrollment T env h1 = Some enr" "cn_key E (er_ServerPublicKey enr) = Some vk"
    "vouched T (cn_crypto E) vk b"
    and disk: "h PolicyJson = Some (cn_indent E (policy_json (cn_printTime E) (policy_of_bundle (cn_now env) b)))"
  have "in_int64 (pl_Version (policy_of_bundle (cn_now env) b))"
    using run(5) decode_bundle_version by (auto simp: vouched_def policy_of_bundle_def)
  then have "pl_Image p = to_valid (pb_Image b)"
    using assms(3,4,5) disk decode_policy_json[of "policy_of_bundle (cn_now env) b" "cn_parseTime E" "cn_printTime E" T]
    by (auto simp: Load_policy_def ReadFile_def client_ok_def policy_of_bundle_def split: if_splits)
  then show ?thesis using run unfolding signed_image_def by blast
qed

lemma preflight_signed:
  assumes "client_run (ae_T (de_api env)) (de_client env) h0 (ap_home (dm_api d))" "h0 PolicyJson = None" "client_ok (de_client env)"
    and "preflight A env d = (d', Inr info)"
  shows "li_ProxyAddr info = to_valid (proxy_addr d') \<and> (\<exists>img. li_Image info = to_valid img \<and>
    (img = ''redactr-base:local'' \<or> signed_image (ae_T (de_api env)) (de_client env) h0 img))"
proof -
  obtain st where en: "client_EnableProxy env (ag_enable A) (ag_relay A) d = (d', st)"
    and pol: "client_LaunchPolicy env (ag_policy A) d' = Some info"
    using assms(4) by (auto simp: preflight_def split: if_splits prod.splits option.splits)
  obtain p where p: "Load_policy (ae_T (de_api env)) (de_client env) (ap_home (dm_api d'))
      (Some (pc_BlockedDomains (cf_Proxy (Get_config (ap_cfg (dm_api d')))))) = Some p"
    "li_Image info = to_valid (pl_Image p)" "li_ProxyAddr info = to_valid (proxy_addr d')"
    using client_LaunchPolicy_info[OF pol] by blast
  have "ap_home (dm_api d') PolicyJson = ap_home (dm_api d) PolicyJson" by (rule client_EnableProxy_home[OF en]) simp_all
  then show ?thesis using Load_policy_signed[OF assms(1-3) p(1)] p(2,3) by blast
qed


text \<open>A dev container is written where there is none, and replaces one only when that is asked for.\<close>

lemma writeDevcontainer_keeps:
  assumes "proj DevcontainerJson = Some old" "\<not> io_stat io DevcontainerJson" "writeDevcontainer io content False proj = (proj', e)"
  shows "proj' = proj \<and> e \<noteq> None"
  using assms by (auto simp: writeDevcontainer_def StatOk_def split: if_splits)

lemma RunCode_signed:
  assumes "client_run (ae_T (de_api env)) (de_client env) h0 (ap_home (dm_api d))" "h0 PolicyJson = None" "client_ok (de_client env)"
    and "RunCode A env io print project force d proj = (d', proj', Inr cmds)"
  shows "\<exists>img. (img = ''redactr-base:local'' \<or> signed_image (ae_T (de_api env)) (de_client env) h0 img) \<and>
    proj' DevcontainerJson = Some (print (Generate (to_valid img) (to_valid (proxy_addr d')) (ag_caPath A)))"
proof -
  obtain info where pre: "preflight A env d = (d', Inr info)"
    and disk: "writeDevcontainer io (print (Generate (li_Image info) (li_ProxyAddr info) (ag_caPath A))) force proj = (proj', None)"
    using assms(4) by (auto simp: RunCode_def split: prod.splits sum.splits option.splits)
  have "proj' DevcontainerJson = Some (print (Generate (li_Image info) (li_ProxyAddr info) (ag_caPath A)))"
    using disk by (auto simp: writeDevcontainer_def WriteFile_def split: if_splits write_result.splits)
  then show ?thesis using preflight_signed[OF assms(1-3) pre] by auto
qed

text \<open>The daemon is waited for: it is found where one of the first fifty attempts succeeds.\<close>

lemma poll_socket_iff: "poll_socket dialable i n \<longleftrightarrow> (\<exists>k<n. dialable (i + k))"
proof (induction n arbitrary: i)
  case (Suc n)
  have "(\<exists>k<Suc n. dialable (i + k)) \<longleftrightarrow> dialable i \<or> (\<exists>k<n. dialable (Suc i + k))"
    by (metis Suc_less_eq add_Suc_right add_Suc_shift add_cancel_left_right less_Suc_eq_0_disj zero_less_Suc)
  then show ?case using Suc by simp
qed simp

subsection \<open>Example\<close>

definition demo_started :: "(unit, unit) daemon" where
  "demo_started = demo_daemon\<lparr>dm_dashboardAddr := ''[::]:9080''\<rparr>"

definition demo_agent :: agent_env where
  "demo_agent = \<lparr>ag_dialable = (\<lambda>_. True), ag_spawns = False, ag_enable = Answered, ag_relay = Answered, ag_policy = Answered,
     ag_cwd = Some ''/home/user/project'', ag_caPath = ''/home/user/.redactr/ca.crt'', ag_onPath = (\<lambda>prog. prog = ''docker'')\<rparr>"

lemma demo_started_simps:
  "ap_home (dm_api demo_started) PolicyJson = None" "ap_proxy (dm_api demo_started) = Some (build_proxy latin1 demo_cfg0)"
  "ap_fw (dm_api demo_started) = None" "dm_dashboardAddr demo_started = ''[::]:9080''"
  by (simp_all add: demo_started_def demo_build)

lemma demo_agent_policy:
  assumes "ap_home (dm_api d) PolicyJson = None"
  shows "\<exists>info. client_LaunchPolicy demo_daemon_env Answered d = Some info \<and> li_Image info = to_valid ''redactr-base:local'' \<and>
    li_MountMode info = to_valid ''bind'' \<and> li_ProxyAddr info = to_valid (proxy_addr d)"
  using assms by (simp add: client_LaunchPolicy_def handleLaunchPolicy_def demo_daemon_env_def Load_policy_def ReadFile_def Seed_def
      wire_info_def no_io_faults_def)

lemma handleProxyEnable_bound:
  assumes "ae_bind env = Some addr" "ap_proxy s = Some p"
  shows "\<exists>s' body. handleProxyEnable env s = (s', 200, body) \<and> ap_proxy s' = Some (fst (Start_proxy p (Some addr)))"
proof -
  have "ap_proxy (fst (update_cfg env fn t)) = ap_proxy t" for fn t by (simp add: update_cfg_def split: prod.split)
  then show ?thesis using assms by (auto simp: handleProxyEnable_def Start_proxy_def Let_def split: option.splits prod.splits)
qed

lemma demo_agent_enables:
  "\<exists>d' st. client_EnableProxy demo_daemon_env Answered Answered demo_started = (d', Some st) \<and> ap_home (dm_api d') PolicyJson = None \<and>
    proxy_addr d' = ''127.0.0.1:4000''"
proof -
  have "ae_bind (de_api demo_daemon_env) = Some ''127.0.0.1:4000''" by (simp add: demo_daemon_env_def demo_api_env_def)
  then obtain a body where enable: "handleProxyEnable (de_api demo_daemon_env) (dm_api demo_started) = (a, 200, body)"
    and running: "ap_proxy a = Some (fst (Start_proxy (build_proxy latin1 demo_cfg0) (Some ''127.0.0.1:4000'')))"
    using handleProxyEnable_bound[OF _ demo_started_simps(2)] by blast
  moreover have "ap_home a PolicyJson = None" using handleProxyEnable_home[OF enable, of PolicyJson] by (simp add: demo_started_simps)
  ultimately show ?thesis by (simp add: client_EnableProxy_def sock_enable_def relayDashboard_def demo_started_simps proxy_addr_def running
        Start_proxy_def Addr_proxy_def)
qed

lemma demo_agent_runs: "\<exists>d' argv. RunAgent demo_agent demo_daemon_env ''claude'' [] demo_started = (d', Inr argv)"
proof -
  obtain d' st where en: "client_EnableProxy demo_daemon_env Answered Answered demo_started = (d', Some st)"
    "ap_home (dm_api d') PolicyJson = None" "proxy_addr d' = ''127.0.0.1:4000''" using demo_agent_enables by blast
  obtain info where "client_LaunchPolicy demo_daemon_env Answered d' = Some info" "li_Image info = to_valid ''redactr-base:local''"
    "li_MountMode info = to_valid ''bind''" "li_ProxyAddr info = to_valid ''127.0.0.1:4000''"
    using demo_agent_policy[OF en(2)] en(3) by auto
  moreover have "to_valid ''redactr-base:local'' = ''redactr-base:local''" "to_valid ''bind'' = ''bind''"
    "to_valid ''127.0.0.1:4000'' = ''127.0.0.1:4000''" by code_simp+
  ultimately show ?thesis
    using en(1) by (simp add: RunAgent_def preflight_def ensureDaemon_def demo_agent_def knownAgentEntrypoint_def knownAgents_def
        specFromLaunchInfo_def Detect_def preferredRuntimes_def Launch_def Validate_def)
qed


end
