(* ===== verification/Commands.thy ===== *)
theory Commands
  imports Agent
begin

text \<open>
  The programs: dispatch on the command line and cleaning up (\<open>cmd/redactr/main.go\<close>), the life of the daemon from its start to a signal
  (\<open>Run\<close> of \<open>internal/daemon/daemon.go\<close>), and the tray (\<open>internal/tray\<close>).

  Flags are parsed the way Go's package \<open>flag\<close> does it (\<open>parse_flags\<close>). \<open>Run_stopped\<close>: a daemon that is told to stop leaves none of its files behind;
  \<open>failed_start_leaves_port\<close>: one whose start fails half way does. \<open>parse_flags_stop\<close>: options behind the first argument are not options.
\<close>

subsection \<open>Flags\<close>

datatype flag_kind = StringFlag | BoolFlag

datatype flag_outcome = Parsed "string \<rightharpoonup> string" "string list" | FlagError | FlagHelp

definition ParseBool :: "string \<Rightarrow> bool option" where
  "ParseBool s =
     (if s \<in> {''1'', ''t'', ''T'', ''TRUE'', ''true'', ''True''} then Some True
      else if s \<in> {''0'', ''f'', ''F'', ''FALSE'', ''false'', ''False''} then Some False else None)"

text \<open>The name of a flag and the value behind the first \<open>=\<close>.\<close>

definition flag_name :: "string \<Rightarrow> string \<times> string option" where
  "flag_name s =
     (let name = takeWhile (\<lambda>c. c \<noteq> CHR ''='') s
      in (name, if length name < length s then Some (drop (Suc (length name)) s) else None))"

function parse_flags :: "(string \<Rightarrow> flag_kind option) \<Rightarrow> string list \<Rightarrow> (string \<rightharpoonup> string) \<Rightarrow> flag_outcome" where
  "parse_flags K [] acc = Parsed acc []"
| "parse_flags K (s # args) acc =
     (if length s < 2 \<or> s ! 0 \<noteq> CHR ''-'' then Parsed acc (s # args)
      else if s = ''--'' then Parsed acc args
      else let body = drop (if s ! 1 = CHR ''-'' then 2 else 1) s
           in if body ! 0 = CHR ''-'' \<or> body ! 0 = CHR ''='' then FlagError
              else case K (fst (flag_name body)) of
                     None \<Rightarrow> if fst (flag_name body) \<in> {''help'', ''h''} then FlagHelp else FlagError
                   | Some BoolFlag \<Rightarrow>
                       (case snd (flag_name body) of
                          None \<Rightarrow> parse_flags K args (acc(fst (flag_name body) \<mapsto> ''true''))
                        | Some v \<Rightarrow>
                            if ParseBool v = None then FlagError
                            else parse_flags K args (acc(fst (flag_name body) \<mapsto> (if ParseBool v = Some True then ''true'' else ''false''))))
                   | Some StringFlag \<Rightarrow>
                       (case snd (flag_name body) of
                          Some v \<Rightarrow> parse_flags K args (acc(fst (flag_name body) \<mapsto> v))
                        | None \<Rightarrow>
                            if args = [] then FlagError
                            else parse_flags K (tl args) (acc(fst (flag_name body) \<mapsto> hd args))))"
  by pat_completeness auto
termination
  by (relation "measure (\<lambda>(K, args, acc). length args)") auto

subsection \<open>Dispatch\<close>

datatype command =
    Cleanup_cmd | Shell_cmd | Agent_cmd string "string list" | Tray_cmd | Enroll_cmd string string | Code_cmd string bool | Daemon_cmd
  | Usage_error | Exit_with int

definition enroll_flags :: "string \<Rightarrow> flag_kind option" where
  "enroll_flags = [''server'' \<mapsto> StringFlag, ''token'' \<mapsto> StringFlag]"

definition code_flags :: "string \<Rightarrow> flag_kind option" where
  "code_flags = [''force'' \<mapsto> BoolFlag]"

definition flag_string :: "(string \<rightharpoonup> string) \<Rightarrow> string \<Rightarrow> string" where
  "flag_string vals name = (case vals name of None \<Rightarrow> [] | Some v \<Rightarrow> v)"

text \<open>The arguments come without the name of the program. \<open>ExitOnError\<close> ends it with 2, or with 0 after help.\<close>

definition dispatch :: "string list \<Rightarrow> command" where
  "dispatch args =
     (case args of
        [] \<Rightarrow> Daemon_cmd
      | cmd # rest \<Rightarrow>
          if cmd = ''cleanup'' then Cleanup_cmd
          else if cmd = ''shell'' then Shell_cmd
          else if cmd \<in> {''claude'', ''codex'', ''copilot''} then Agent_cmd cmd rest
          else if cmd = ''tray'' then Tray_cmd
          else if cmd = ''enroll'' then
            (case parse_flags enroll_flags rest Map.empty of
               FlagError \<Rightarrow> Exit_with 2
             | FlagHelp \<Rightarrow> Exit_with 0
             | Parsed vals _ \<Rightarrow>
                 if flag_string vals ''server'' = [] \<or> flag_string vals ''token'' = [] then Usage_error
                 else Enroll_cmd (flag_string vals ''server'') (flag_string vals ''token''))
          else if cmd = ''code'' then
            (case parse_flags code_flags rest Map.empty of
               FlagError \<Rightarrow> Exit_with 2
             | FlagHelp \<Rightarrow> Exit_with 0
             | Parsed vals rest' \<Rightarrow> Code_cmd (if rest' = [] then [] else hd rest') (vals ''force'' = Some ''true''))
          else Daemon_cmd)"

subsection \<open>Cleaning up\<close>

text \<open>The manager of the platform, if any; the state file goes in any case.\<close>

definition runCleanup ::
  "bool \<Rightarrow> (('m \<Rightarrow> 'm \<times> fw_error option) \<times> ('m \<Rightarrow> 'm \<times> fw_error option)) option \<Rightarrow> 'm fw_world \<Rightarrow> 'm fw_world option" where
  "runCleanup homeKnown mgr w =
     (if \<not> homeKnown then None
      else case w of
        (c, m, _) \<Rightarrow>
          (case mgr of
             None \<Rightarrow> Some (c, m, None)
           | Some (unredirect, cleanup) \<Rightarrow> Some (c, fst (cleanup (fst (unredirect m))), None)))"

subsection \<open>The life of the daemon\<close>

text \<open>What is left when the daemon was told to stop, or the error of a start that failed.\<close>

inductive Run :: "('d, 'm, 'c, 'k) daemon_env \<Rightarrow> logger \<Rightarrow> home \<Rightarrow> daemon_error + ('d, 'm) daemon \<Rightarrow> home \<Rightarrow> bool" for env lo h where
  Run_build_fails: "Build env lo h = (h', Inl e) \<Longrightarrow> Run env lo h (Inl e) h'"
| Run_start_fails: "Build env lo h = (h', Inr d) \<Longrightarrow> Start_daemon env d = (d', Some e) \<Longrightarrow> Run env lo h (Inl e) (ap_home (dm_api d'))"
| Run_signal: "Build env lo h = (h', Inr d) \<Longrightarrow> Start_daemon env d = (d1, None) \<Longrightarrow> (daemon_step env)\<^sup>*\<^sup>* d1 d2 \<Longrightarrow>
    Stop_daemon env d2 = Some d3 \<Longrightarrow> Run env lo h (Inr d3) (ap_home (dm_api d3))"

subsection \<open>The tray\<close>

record view =
  vw_Color :: string
  vw_ProxyLabel :: string

definition TrayState :: "daemon_status option \<Rightarrow> view" where
  "TrayState st =
     (case st of
        None \<Rightarrow> \<lparr>vw_Color = ''red'', vw_ProxyLabel = ''Daemon: Down''\<rparr>
      | Some s \<Rightarrow>
          if ds_Enabled s \<and> ds_Addr s \<noteq> [] then \<lparr>vw_Color = ''green'', vw_ProxyLabel = ''Proxy: Enabled''\<rparr>
          else \<lparr>vw_Color = ''red'', vw_ProxyLabel = ''Proxy: Disabled''\<rparr>)"

text \<open>A click on the entry, with what becomes of its three requests, and what is shown afterwards.\<close>

definition tray_toggle ::
  "('d, 'm, 'c, 'k) daemon_env \<Rightarrow> delivery \<Rightarrow> delivery \<Rightarrow> delivery \<Rightarrow> delivery \<Rightarrow> ('d, 'm) daemon \<Rightarrow> ('d, 'm) daemon \<times> view" where
  "tray_toggle env ask change relay again d =
     (let d' = (case client_Status ask d of
                  Some st \<Rightarrow> if ds_Enabled st then fst (client_DisableProxy env change relay d) else fst (client_EnableProxy env change relay d)
                | None \<Rightarrow> fst (client_EnableProxy env change relay d))
      in (d', TrayState (client_Status again d')))"

subsection \<open>Flags and arguments\<close>

text \<open>Parsing stops at the first argument that is not a flag: \<open>redactr code project --force\<close> does not overwrite.\<close>

lemma parse_flags_stop: "s = [] \<or> hd s \<noteq> CHR ''-'' \<Longrightarrow> parse_flags K (s # args) acc = Parsed acc (s # args)"
  by (cases s) auto

lemma code_force_behind_project:
  assumes "project \<noteq> []" "hd project \<noteq> CHR ''-''"
  shows "dispatch (''code'' # project # args) = Code_cmd project False" "dispatch [''code'', ''--force'', project] = Code_cmd project True"
proof -
  show "dispatch (''code'' # project # args) = Code_cmd project False"
    using parse_flags_stop[of project code_flags args Map.empty] assms by (simp add: dispatch_def)
  have "parse_flags code_flags [''--force'', project] Map.empty = Parsed [''force'' \<mapsto> ''true''] [project]"
    using parse_flags_stop[of project code_flags "[]"] assms by (simp add: flag_name_def code_flags_def)
  then show "dispatch [''code'', ''--force'', project] = Code_cmd project True" by (simp add: dispatch_def)
qed

lemma agent_args_pass: "tool \<in> {''claude'', ''codex'', ''copilot''} \<Longrightarrow> dispatch (tool # args) = Agent_cmd tool args"
  by (auto simp: dispatch_def)

text \<open>The tools that are dispatched are those that can be run.\<close>

lemma agents_known: "dispatch (tool # args) = Agent_cmd tool args' \<longleftrightarrow> knownAgentEntrypoint tool \<noteq> None \<and> args' = args"
  by (auto simp: dispatch_def knownAgentEntrypoint_def knownAgents_def split: flag_outcome.splits if_splits)

subsection \<open>Stopping and failing to start\<close>

lemma Run_stopped:
  assumes "Run env lo h (Inr d) h'" "f \<in> {ProxyPid, DashboardPort, ApiPort, SidecarPort, RedactrSock}"
  shows "h' f = None"
  using assms Stop_cleans(1) by (auto elim!: Run.cases)

lemma start_listeners_port:
  assumes "start_listeners env d = (d1, None)" "io_write (ae_io (de_api env)) DashboardPort = Written" "de_dashboard env = Some addr"
  shows "ap_home (dm_api d1) DashboardPort = Some addr"
  using assms by (auto simp: start_listeners_def Let_def on_home_def WriteFile_def split: option.splits)

lemma start_sidecar_port: "ap_home (dm_api (start_sidecar env cfg d)) DashboardPort = ap_home (dm_api d) DashboardPort"
  by (auto simp: start_sidecar_def StartLazy_def on_home_def with_engine_def Let_def WriteFile_other split: option.splits prod.splits if_splits)

lemma failed_start_leaves_port:
  assumes "Build env lo h = (h0, Inr d)" "Start_daemon env d = (d', Some ProxyStartError)"
    and "io_write (ae_io (de_api env)) DashboardPort = Written" "de_dashboard env = Some addr"
  shows "Run env lo h (Inl ProxyStartError) (ap_home (dm_api d'))" "ap_home (dm_api d') DashboardPort = Some addr"
proof -
  show "Run env lo h (Inl ProxyStartError) (ap_home (dm_api d'))" by (rule Run_start_fails[OF assms(1,2)])
  obtain d1 where d1: "start_listeners env d = (d1, None)" "ap_home (dm_api d') DashboardPort = ap_home (dm_api d1) DashboardPort"
    using assms(2) start_sidecar_port[of env "Get_config (ap_cfg (dm_api d))"]
    by (auto simp: Start_daemon_def start_proxy_listener_def Start_proxy_def start_listeners_def Let_def
        split: option.splits prod.splits bool.splits if_splits)
  show "ap_home (dm_api d') DashboardPort = Some addr" using start_listeners_port[OF d1(1) assms(3,4)] d1(2) by simp
qed

subsection \<open>The tray\<close>

lemma tray_green: "vw_Color (TrayState st) = ''green'' \<longleftrightarrow> (\<exists>s. st = Some s \<and> ds_Enabled s \<and> ds_Addr s \<noteq> [])"
  by (auto simp: TrayState_def split: option.split)

end
