(* ===== verification/Spawn.thy ===== *)
theory Spawn
  imports Commands Mux "HOL-Library.Word"
begin

text \<open>
  How a daemon comes to run when a command needs one: the process that is started (\<open>internal/cli/client_unix.go\<close>,
  \<open>client_windows.go\<close>), the script it looks for (\<open>Build\<close> of \<open>internal/daemon/daemon.go\<close>), the command of the model's process
  (\<open>internal/sidecar/manager.go\<close>), and the routes of its control socket (\<open>internal/daemon/socket.go\<close>).

  Paths are absolute. \<open>stat\<close> is whether a file is there.

  \<open>project_script_runs\<close>: the daemon that an agent's start brings up has the project as its working directory, and the
  working directory is where it first looks for the script of the model, so that a project can bring a program of its own.
\<close>

subsection \<open>Paths\<close>

definition join_path :: "string list \<Rightarrow> string" where
  "join_path parts = CHR ''/'' # JoinByte (clean_segments (concat (map (\<lambda>p. SplitByte p CHR ''/'') parts)) []) CHR ''/''"

definition dir_path :: "string \<Rightarrow> string" where
  "dir_path p = CHR ''/'' # JoinByte (clean_segments (butlast (SplitByte p CHR ''/'')) []) CHR ''/''"

subsection \<open>The process of the daemon\<close>

text \<open>The command, the directory it runs in (that of its parent, as none is set) and how it is detached.\<close>

record daemon_process =
  pn_argv :: "string list"
  pn_dir :: string
  pn_setsid :: bool
  pn_flags :: "32 word"

definition spawnDaemon_unix :: "string option \<Rightarrow> string \<Rightarrow> daemon_process option" where
  "spawnDaemon_unix exe cwd =
     (case exe of
        None \<Rightarrow> None
      | Some self \<Rightarrow> Some \<lparr>pn_argv = [self], pn_dir = cwd, pn_setsid = True, pn_flags = 0\<rparr>)"

definition detachedProcess :: "32 word" where "detachedProcess = 0x00000008"
definition createNewProcessGroup :: "32 word" where "createNewProcessGroup = 0x00000200"
definition createNoWindow :: "32 word" where "createNoWindow = 0x08000000"

unbundle bit_operations_syntax

definition spawnDaemon_windows :: "string option \<Rightarrow> string \<Rightarrow> daemon_process option" where
  "spawnDaemon_windows exe cwd =
     (case exe of
        None \<Rightarrow> None
      | Some self \<Rightarrow>
          Some \<lparr>pn_argv = [self], pn_dir = cwd, pn_setsid = False, pn_flags = detachedProcess OR createNewProcessGroup OR createNoWindow\<rparr>)"

subsection \<open>The script of the model\<close>

definition sidecar_script :: "string \<Rightarrow> string option \<Rightarrow> string option \<Rightarrow> (string \<Rightarrow> bool) \<Rightarrow> string" where
  "sidecar_script baseDir exe wd stat =
     (let s0 = join_path [baseDir, ''..'', ''sidecar'', ''gliner'', ''server.py''];
          s1 = (case exe of
                  None \<Rightarrow> s0
                | Some e \<Rightarrow>
                    (let c = join_path [dir_path e, ''..'', ''sidecar'', ''gliner'', ''server.py''] in if stat c then c else s0))
      in case wd of
           None \<Rightarrow> s1
         | Some w \<Rightarrow> (let c = join_path [w, ''sidecar'', ''gliner'', ''server.py''] in if stat c then c else s1))"

definition sidecar_argv :: "string \<Rightarrow> int \<Rightarrow> string list" where
  "sidecar_argv script port = [''python3'', script, fmt_int port]"

text \<open>The command that the daemon of a process runs for the model at its start, if it runs one.\<close>

definition model_command ::
  "('d, 'm, 'c, 'k) daemon_env \<Rightarrow> string \<Rightarrow> daemon_process \<Rightarrow> (string \<Rightarrow> bool) \<Rightarrow> config \<Rightarrow> string list option" where
  "model_command env baseDir p stat cfg =
     (if glinerEnabled cfg \<and> \<not> de_ephemeral env
      then map_option (sidecar_argv (sidecar_script baseDir (Some (hd (pn_argv p))) (Some (pn_dir p)) stat)) (sx_freePort (de_sidecar env))
      else None)"

subsection \<open>The control socket\<close>

datatype control_route = ControlStatus | ControlEnable | ControlDisable | ControlLaunchPolicy

definition control_mux :: "((string \<Rightarrow> string) \<Rightarrow> control_route) mux" where
  "control_mux = new_mux
     [(''GET /status'', \<lambda>_. ControlStatus), (''POST /proxy/enable'', \<lambda>_. ControlEnable), (''POST /proxy/disable'', \<lambda>_. ControlDisable),
      (''GET /launch-policy'', \<lambda>_. ControlLaunchPolicy)]"

text \<open>The answers: a status, or what a container is launched with.\<close>

datatype control_answer = StatusAnswer int "daemon_status option" | LaunchAnswer int "launch_info option"

definition serve_control ::
  "('d, 'm, 'c, 'k) daemon_env \<Rightarrow> delivery \<Rightarrow> string \<Rightarrow> string \<Rightarrow> ('d, 'm) daemon \<Rightarrow> ('d, 'm) daemon \<times> control_answer mux_result" where
  "serve_control env relay m path d =
     (case find_handler control_mux m path of
        Handler ControlStatus \<Rightarrow> (case sock_status d of (code, st) \<Rightarrow> (d, Handler (StatusAnswer code st)))
      | Handler ControlEnable \<Rightarrow> (case sock_enable env relay d of (d', code, st) \<Rightarrow> (d', Handler (StatusAnswer code st)))
      | Handler ControlDisable \<Rightarrow> (case sock_disable env relay d of (d', code, st) \<Rightarrow> (d', Handler (StatusAnswer code st)))
      | Handler ControlLaunchPolicy \<Rightarrow> (case handleLaunchPolicy env d of (code, info) \<Rightarrow> (d, Handler (LaunchAnswer code info)))
      | RedirectTo p \<Rightarrow> (d, RedirectTo p)
      | MethodNotAllowed \<Rightarrow> (d, MethodNotAllowed)
      | NotFound \<Rightarrow> (d, NotFound))"

lemma control_routes:
  "find_handler control_mux ''GET'' ''/status'' = Handler ControlStatus"
  "find_handler control_mux ''POST'' ''/proxy/enable'' = Handler ControlEnable"
  "find_handler control_mux ''POST'' ''/proxy/disable'' = Handler ControlDisable"
  "find_handler control_mux ''GET'' ''/launch-policy'' = Handler ControlLaunchPolicy"
  "find_handler control_mux ''GET'' ''/proxy/enable'' = MethodNotAllowed"
  "find_handler control_mux ''GET'' ''/'' = NotFound"
  by code_simp+

lemma control_mux_eq:
  "control_mux =
     [(''GET'', [Lit ''status''], \<lambda>_. ControlStatus), (''POST'', [Lit ''proxy'', Lit ''enable''], \<lambda>_. ControlEnable),
      (''POST'', [Lit ''proxy'', Lit ''disable''], \<lambda>_. ControlDisable), (''GET'', [Lit ''launch-policy''], \<lambda>_. ControlLaunchPolicy)]"
  by (simp add: control_mux_def new_mux_def parse_pattern_def Index_def HasPrefix_def)

text \<open>Only a POST changes the daemon.\<close>

lemma control_get_keeps:
  assumes "m \<noteq> ''POST''"
  shows "fst (serve_control env relay m path d) = d"
proof (cases "find_handler control_mux m path")
  case (Handler rt)
  then have "rt \<noteq> ControlEnable" "rt \<noteq> ControlDisable"
    using find_handler_sound[OF Handler] assms unfolding control_mux_eq by auto
  then show ?thesis using Handler by (cases rt) (simp_all add: serve_control_def split: prod.split)
qed (simp_all add: serve_control_def)

text \<open>The client's requests reach the operation they are meant for.\<close>

lemma client_requests:
  "client_Status Answered d = (case serve_control env relay ''GET'' ''/status'' d of (_, Handler (StatusAnswer _ st)) \<Rightarrow> st | _ \<Rightarrow> None)"
  "fst (client_EnableProxy env Answered relay d) = fst (serve_control env relay ''POST'' ''/proxy/enable'' d)"
  "fst (client_DisableProxy env Answered relay d) = fst (serve_control env relay ''POST'' ''/proxy/disable'' d)"
  by (simp_all add: serve_control_def control_routes client_Status_def client_EnableProxy_def client_DisableProxy_def split: prod.split)

subsection \<open>Whose script runs\<close>

lemma spawn_flags: "pn_flags (the (spawnDaemon_windows (Some self) cwd)) = 0x08000208"
  by (simp add: spawnDaemon_windows_def detachedProcess_def createNewProcessGroup_def createNoWindow_def)

lemma model_rules_default: "glinerEnabled DefaultConfig"
  by code_simp

text \<open>
  An agent is started in a project that has a file \<open>sidecar/gliner/server.py\<close>, and no daemon is running: the daemon that is
  spawned runs this file, outside any container.
\<close>

lemma project_script_runs:
  assumes "spawnDaemon_unix (Some self) project = Some p" "stat (join_path [project, ''sidecar'', ''gliner'', ''server.py''])"
    and "glinerEnabled cfg" "\<not> de_ephemeral env" "sx_freePort (de_sidecar env) = Some port"
  shows "model_command env baseDir p stat cfg =
    Some [''python3'', join_path [project, ''sidecar'', ''gliner'', ''server.py''], fmt_int port]"
  using assms by (auto simp: model_command_def spawnDaemon_unix_def sidecar_script_def sidecar_argv_def Let_def)

lemma project_script_example:
  "join_path [''/home/user/project'', ''sidecar'', ''gliner'', ''server.py''] = ''/home/user/project/sidecar/gliner/server.py''"
  "sidecar_script ''/home/user/.redactr'' (Some ''/usr/local/bin/redactr'') (Some ''/home/user/project'') (\<lambda>_. False) =
     ''/home/user/sidecar/gliner/server.py''"
  "sidecar_script ''/home/user/.redactr'' (Some ''/usr/local/bin/redactr'') (Some ''/home/user/project'') (\<lambda>f. f = ''/usr/local/sidecar/gliner/server.py'') =
     ''/usr/local/sidecar/gliner/server.py''"
  by code_simp+

text \<open>The process is the one that \<open>StartLazy\<close> starts, whose port is what the command names.\<close>

lemma model_command_started:
  assumes "model_command env baseDir p stat cfg = Some argv" "sx_spawns (de_sidecar env)"
  shows "sm_process (dm_sidecar (start_sidecar env cfg d)) \<and> last argv = fmt_int (sm_port (dm_sidecar (start_sidecar env cfg d)))"
  using assms
  by (auto simp: model_command_def sidecar_argv_def start_sidecar_def StartLazy_def on_home_def split: if_splits prod.splits)

end
