(* ===== verification/Tray.thy ===== *)
theory Tray
  imports Commands "HOL-Library.Word"
begin

text \<open>
  The tray: its icons (\<open>internal/tray/icon.go\<close>) and its loop (\<open>internal/tray/tray_systray.go\<close>) on macOS and Windows.

  Pictures are lists of rows of pixels, bytes are words of 8 bits; the PNG encoder is a parameter. \<open>ico_image\<close> reads an icon
  the way the format describes it and gives back what was wrapped (\<open>icoWrap_read\<close>); the size is a field of 32 bits, which wraps.
  In the loop, an event comes with what becomes of the requests that the tray makes to the daemon. The tray always shows what the last
  answer said (\<open>tray_shows_last\<close>), which need not be what holds.
\<close>

subsection \<open>Icons\<close>

type_synonym rgba = "8 word \<times> 8 word \<times> 8 word \<times> 8 word"

definition icon_color :: "string \<Rightarrow> rgba" where
  "icon_color c = (if c = ''green'' then (0x2e, 0xcc, 0x40, 0xff) else (0xff, 0x41, 0x36, 0xff))"

text \<open>
  The disc of radius 10 in a square of 22: with the coordinates doubled, the centre of pixel \<open>x\<close> is \<open>2x + 1\<close>
  and that of the square is 22. The halves are exact in floating point.
\<close>

definition in_circle :: "nat \<Rightarrow> nat \<Rightarrow> bool" where
  "in_circle x y \<longleftrightarrow> (2 * int x + 1 - 22)\<^sup>2 + (2 * int y + 1 - 22)\<^sup>2 \<le> 400"

definition circle_image :: "rgba \<Rightarrow> rgba list list" where
  "circle_image c = map (\<lambda>y. map (\<lambda>x. if in_circle x y then c else (0, 0, 0, 0)) [0..<22]) [0..<22]"

definition le16 :: "16 word \<Rightarrow> 8 word list" where
  "le16 w = [ucast w, ucast (drop_bit 8 w)]"

definition le32 :: "32 word \<Rightarrow> 8 word list" where
  "le32 w = [ucast w, ucast (drop_bit 8 w), ucast (drop_bit 16 w), ucast (drop_bit 24 w)]"

definition icoWrap :: "8 word list \<Rightarrow> 8 word list" where
  "icoWrap png =
     le16 0 @ le16 1 @ le16 1 @
     [22, 22, 0, 0] @ le16 1 @ le16 32 @ le32 (word_of_nat (length png)) @ le32 (6 + 16) @
     png"

definition iconBytes :: "(rgba list list \<Rightarrow> 8 word list) \<Rightarrow> string \<Rightarrow> string \<Rightarrow> 8 word list" where
  "iconBytes png goos c =
     (let p = png (circle_image (icon_color c)) in if goos = ''windows'' then icoWrap p else p)"

text \<open>Reading an icon with one image: reserved and type, the count, and in the directory entry the size and the offset of the image.\<close>

fun le_value :: "8 word list \<Rightarrow> nat" where
  "le_value [] = 0"
| "le_value (b # bs) = unat b + 256 * le_value bs"

definition word_at :: "nat \<Rightarrow> nat \<Rightarrow> 8 word list \<Rightarrow> nat" where
  "word_at i n bs = le_value (take n (drop i bs))"

definition ico_image :: "8 word list \<Rightarrow> 8 word list option" where
  "ico_image bs =
     (if length bs < 22 \<or> word_at 0 2 bs \<noteq> 0 \<or> word_at 2 2 bs \<noteq> 1 \<or> word_at 4 2 bs \<noteq> 1 then None
      else
        (let size = word_at 14 4 bs; off = word_at 18 4 bs
         in if off + size \<le> length bs then Some (take size (drop off bs)) else None))"

lemma le32_value: "le_value (le32 w) = unat w"
proof -
  have small: "unat w < 4294967296" using unsigned_less[of w, where 'a = nat] by simp
  have byte: "unat (ucast (drop_bit n w) :: 8 word) = unat w div 2 ^ n mod 256" for n
    using small by (simp add: unsigned_ucast_eq unsigned_drop_bit_eq take_bit_eq_mod flip: drop_bit_eq_div)
  have split: "n mod 256 + 256 * (n div 256 mod 256) + 65536 * (n div 65536 mod 256) + 16777216 * (n div 16777216) = n" for n :: nat
  proof -
    have "n div 65536 = n div 256 div 256" "n div 16777216 = n div 65536 div 256" by (simp_all flip: div_mult2_eq)
    then show ?thesis
      using mod_div_mult_eq[of n 256] mod_div_mult_eq[of "n div 256" 256] mod_div_mult_eq[of "n div 65536" 256] by linarith
  qed
  show ?thesis using byte[of 0] small split[of "unat w"] by (simp add: le32_def byte)
qed

lemma icoWrap_read:
  "ico_image (icoWrap png) = Some (take (length png mod 2 ^ 32) png)"
proof -
  let ?size = "word_of_nat (length png) :: 32 word"
  have bytes: "icoWrap png = [0, 0, 1, 0, 1, 0, 22, 22, 0, 0, 1, 0, 32, 0] @ le32 ?size @ [22, 0, 0, 0] @ png"
    by (simp add: icoWrap_def le16_def le32_def)
  have len: "length (le32 ?size) = 4" by (simp add: le32_def)
  then have "word_at 14 4 (icoWrap png) = le_value (le32 ?size)" by (simp add: bytes word_at_def)
  then have "word_at 14 4 (icoWrap png) = length png mod 2 ^ 32" by (simp add: le32_value unat_of_nat)
  moreover have "word_at 18 4 (icoWrap png) = 22" using len by (simp add: bytes word_at_def)
  moreover have "word_at 0 2 (icoWrap png) = 0" "word_at 2 2 (icoWrap png) = 1" "word_at 4 2 (icoWrap png) = 1"
    by (simp_all add: bytes word_at_def)
  moreover have "length (icoWrap png) = 22 + length png" "drop 22 (icoWrap png) = png" using len by (simp_all add: bytes)
  ultimately show ?thesis by (simp add: ico_image_def Let_def)
qed

text \<open>What is wrapped comes back, as long as its size fits into the field.\<close>

lemma icoWrap_roundtrip: "length png < 2 ^ 32 \<Longrightarrow> ico_image (icoWrap png) = Some png"
  by (simp add: icoWrap_read)

lemma circle_symmetric:
  "x < 22 \<Longrightarrow> in_circle x y = in_circle (21 - x) y" "in_circle x y = in_circle y x"
  by (auto simp: in_circle_def of_nat_diff power2_eq_square algebra_simps)

lemma circle_size: "length (filter (\<lambda>(x, y). in_circle x y) (List.product [0..<22] [0..<22])) = 316"
  by code_simp

text \<open>The two icons differ in every pixel of the disc, so that the color tells whether the proxy routes.\<close>

lemma icon_color_eq: "icon_color c = icon_color ''green'' \<longleftrightarrow> c = ''green''"
  by (simp add: icon_color_def)

subsection \<open>The loop\<close>

record tray =
  ty_icon :: string
  ty_tooltip :: string
  ty_title :: string
  ty_quit :: bool

definition em_dash :: string where
  "em_dash = [CHR 0xE2, CHR 0x80, CHR 0x94]"

definition ellipsis :: string where
  "ellipsis = [CHR 0xE2, CHR 0x80, CHR 0xA6]"

definition tray_ready :: tray where
  "tray_ready = \<lparr>ty_icon = ''red'', ty_tooltip = ''redactr '' @ em_dash @ '' Proxy: '' @ ellipsis, ty_title = ''Proxy: '' @ ellipsis, ty_quit = False\<rparr>"

definition show_view :: "view \<Rightarrow> tray \<Rightarrow> tray" where
  "show_view v t = t\<lparr>ty_icon := vw_Color v, ty_tooltip := ''redactr '' @ em_dash @ '' '' @ vw_ProxyLabel v, ty_title := vw_ProxyLabel v\<rparr>"

definition tray_apply :: "delivery \<Rightarrow> ('d, 'm) daemon \<Rightarrow> tray \<Rightarrow> tray" where
  "tray_apply ask d t = show_view (TrayState (client_Status ask d)) t"

datatype tray_event = Tick delivery | ToggleClicked delivery delivery delivery delivery | QuitClicked

text \<open>One round of the loop; after the entry Quit it has returned. The view that is shown is that of \<open>TrayState\<close>.\<close>

fun tray_step :: "('d, 'm, 'c, 'k) daemon_env \<Rightarrow> tray_event \<Rightarrow> ('d, 'm) daemon \<times> tray \<Rightarrow> ('d, 'm) daemon \<times> tray" where
  "tray_step env (Tick ask) (d, t) = (if ty_quit t then (d, t) else (d, tray_apply ask d t))"
| "tray_step env (ToggleClicked ask change relay again) (d, t) =
     (if ty_quit t then (d, t)
      else case tray_toggle env ask change relay again d of (d', v) \<Rightarrow> (d', show_view v t))"
| "tray_step env QuitClicked (d, t) = (d, t\<lparr>ty_quit := True\<rparr>)"

definition tray_Run :: "('d, 'm, 'c, 'k) daemon_env \<Rightarrow> delivery \<Rightarrow> tray_event list \<Rightarrow> ('d, 'm) daemon \<Rightarrow> ('d, 'm) daemon \<times> tray" where
  "tray_Run env ask evs d = fold (tray_step env) evs (d, tray_apply ask d tray_ready)"

lemma tray_quit_step: "ty_quit t \<Longrightarrow> tray_step env ev (d, t) = (d, t)"
  by (cases ev) auto

text \<open>After Quit nothing is shown and nothing is asked of the daemon.\<close>

lemma tray_quit_ends: "ty_quit t \<Longrightarrow> fold (tray_step env) evs (d, t) = (d, t)"
  by (induction evs) (auto simp: tray_quit_step)

definition tray_shows :: "tray \<Rightarrow> bool" where
  "tray_shows t \<longleftrightarrow> (\<exists>st. ty_icon t = vw_Color (TrayState st) \<and> ty_title t = vw_ProxyLabel (TrayState st) \<and>
     ty_tooltip t = ''redactr '' @ em_dash @ '' '' @ vw_ProxyLabel (TrayState st))"

lemma tray_shows_step: "tray_shows (snd x) \<Longrightarrow> tray_shows (snd (tray_step env ev x))"
  by (cases x; cases ev)
     (auto simp: tray_apply_def tray_shows_def show_view_def tray_toggle_def Let_def split: prod.splits)

text \<open>Icon, tooltip and entry always belong to one answer of the daemon, or to its silence.\<close>

lemma tray_shows_last: "tray_shows (snd (tray_Run env ask evs d))"
proof -
  have "tray_shows (snd x) \<Longrightarrow> tray_shows (snd (fold (tray_step env) evs x))" for x
    by (induction evs arbitrary: x) (auto simp: tray_shows_step)
  moreover have "tray_shows (tray_apply ask d tray_ready)" by (auto simp: tray_apply_def tray_shows_def show_view_def)
  ultimately show ?thesis by (simp add: tray_Run_def)
qed

text \<open>A round in which the daemon answers shows green exactly when its proxy is on and has an address.\<close>

lemma tray_tick_green:
  "\<not> ty_quit t \<Longrightarrow> ty_icon (snd (tray_step env (Tick ask) (d, t))) = ''green'' \<longleftrightarrow>
     (\<exists>s. client_Status ask d = Some s \<and> ds_Enabled s \<and> ds_Addr s \<noteq> [])"
  by (simp add: tray_apply_def show_view_def tray_green)

end
