(* ===== verification/ImageBuild.thy ===== *)
theory ImageBuild
  imports Presidio PolicySync
begin

text \<open>
  The image pipeline of the control plane, \<open>internal/server/imagebuild/imagebuild.go\<close>: the check of an administrator's Dockerfile, and
  the commands that build, push and sign the image.

  A command of the shell is a parameter, a function of its arguments that gives the output and the text of an error; \<open>Build_image\<close>
  returns the commands it ran beside its result. \<open>shell_builder\<close> is the builder that the server is started with
  (\<open>cmd/redactr-server/main.go\<close>), an instance of the parameter \<open>sv_builder\<close> of \<open>ServerAPI\<close>. Of the two patterns the code uses only one group, and
  each group is determined by the text of the match: it is the run of characters that are not white space at the end, and the
  last 71 bytes.
\<close>

subsection \<open>The patterns\<close>

definition fromRe :: regexp where
  "fromRe = the (Compile (rx CHR ''~'' ''(?im)^~s*FROM~s+(~S+)''))"

definition digestRe :: regexp where
  "digestRe = the (Compile (rx CHR ''~'' ''digest:~s*(sha256:[0-9a-f]{64})''))"

definition first_match :: "regexp \<Rightarrow> string \<Rightarrow> string option" where
  "first_match re s = (case FindAllStringIndex re s of [] \<Rightarrow> None | (a, b) # _ \<Rightarrow> go_slice s a b)"

definition re_space :: "char \<Rightarrow> bool" where
  "re_space c \<longleftrightarrow> in_class False [(9, 10), (12, 13), (32, 32)] (of_char c)"

definition from_image :: "string \<Rightarrow> string option" where
  "from_image dockerfile = map_option (\<lambda>m. rev (takeWhile (\<lambda>c. \<not> re_space c) (rev m))) (first_match fromRe dockerfile)"

definition pushed_digest :: "string \<Rightarrow> string option" where
  "pushed_digest out = map_option (\<lambda>m. drop (length m - 71) m) (first_match digestRe out)"

subsection \<open>Building\<close>

record build_spec =
  bs_Dockerfile :: string
  bs_BaseRef :: string
  bs_TargetRef :: string

record build_result =
  br_Ref :: string
  br_Digest :: string

record build_env =
  bx_tmp :: "string + string"
  bx_write :: "string option"
  bx_run :: "string list \<Rightarrow> string \<times> string option"
  bx_cosignKey :: string

definition extends_base :: "string \<Rightarrow> string \<Rightarrow> bool" where
  "extends_base base img \<longleftrightarrow> img = base \<or> HasPrefix img (base @ '':'') \<or> HasPrefix img (base @ [CHR 0x40])"

definition build_cmd :: "string \<Rightarrow> build_spec \<Rightarrow> string list" where
  "build_cmd dir spec = [''docker'', ''build'', ''-t'', bs_TargetRef spec, ''-f'', dir @ ''/Dockerfile'', dir]"

definition push_cmd :: "build_spec \<Rightarrow> string list" where
  "push_cmd spec = [''docker'', ''push'', bs_TargetRef spec]"

definition sign_cmd :: "build_env \<Rightarrow> build_spec \<Rightarrow> string \<Rightarrow> string list" where
  "sign_cmd E spec digest = [''cosign'', ''sign'', ''--key'', bx_cosignKey E, bs_TargetRef spec @ CHR 0x40 # digest]"

definition Build_image :: "build_env \<Rightarrow> build_spec \<Rightarrow> string list list \<times> (string + build_result)" where
  "Build_image E spec =
     (case from_image (bs_Dockerfile spec) of
        None \<Rightarrow> ([], Inl (''Dockerfile must be FROM '' @ bs_BaseRef spec))
      | Some img \<Rightarrow>
          if \<not> extends_base (bs_BaseRef spec) img then ([], Inl (''Dockerfile must be FROM '' @ bs_BaseRef spec))
          else case bx_tmp E of
            Inl err \<Rightarrow> ([], Inl err)
          | Inr dir \<Rightarrow>
              (case bx_write E of
                 Some err \<Rightarrow> ([], Inl err)
               | None \<Rightarrow>
                   (case snd (bx_run E (build_cmd dir spec)) of
                      Some err \<Rightarrow> ([build_cmd dir spec], Inl (''docker build: '' @ err))
                    | None \<Rightarrow>
                        (case bx_run E (push_cmd spec) of
                           (_, Some err) \<Rightarrow> ([build_cmd dir spec, push_cmd spec], Inl (''docker push: '' @ err))
                         | (pushOut, None) \<Rightarrow>
                             (case pushed_digest pushOut of
                                None \<Rightarrow> ([build_cmd dir spec, push_cmd spec], Inl ''could not parse pushed digest from output'')
                              | Some digest \<Rightarrow>
                                  ([build_cmd dir spec, push_cmd spec, sign_cmd E spec digest],
                                   case snd (bx_run E (sign_cmd E spec digest)) of
                                     Some err \<Rightarrow> Inl (''cosign sign: '' @ err)
                                   | None \<Rightarrow> Inr \<lparr>br_Ref = bs_TargetRef spec, br_Digest = digest\<rparr>))))))"

definition shell_builder :: "build_env \<Rightarrow> string \<Rightarrow> string \<Rightarrow> string \<Rightarrow> string + string \<times> string" where
  "shell_builder E dockerfile base target =
     (case snd (Build_image E \<lparr>bs_Dockerfile = dockerfile, bs_BaseRef = base, bs_TargetRef = target\<rparr>) of
        Inl err \<Rightarrow> Inl err
      | Inr res \<Rightarrow> Inr (br_Ref res, br_Digest res))"

text \<open>The server as \<open>main\<close> sets it up: without a registry there is no builder.\<close>

definition start_server :: "server_db \<Rightarrow> string \<Rightarrow> string \<Rightarrow> build_env \<Rightarrow> api_server" where
  "start_server db adminKey registry E =
     (let s = New_server db adminKey
      in if registry \<noteq> [] then SetBuilder s (Some (shell_builder E)) registry else s)"

subsection \<open>The bytes of a match\<close>

lemma first_match_bytes:
  assumes "first_match re s = Some m"
  shows "\<exists>pre post i st st'. s = pre @ m @ post \<and> snd st = range_from i (m @ post) \<and> snd st' = range_from (i + go_len m) post \<and> (st, st') \<in> matches re"
proof -
  obtain a b rest where ab: "FindAllStringIndex re s = (a, b) # rest" "go_slice s a b = Some m"
    using assms by (auto simp: first_match_def split: list.splits)
  then obtain pre mid post st st' where p: "s = pre @ mid @ post" "a = go_len pre" "b = go_len pre + go_len mid"
    "snd st = range_from a (mid @ post)" "snd st' = range_from b post" "(st, st') \<in> matches re"
    using FindAll_matches[of a b re s] by auto
  then have "m = mid" using ab(2) by (auto simp: go_slice_def seg_def go_len_def split: if_splits)
  then show ?thesis using p by blast
qed

subsection \<open>The digest\<close>

text \<open>A pattern that starts with a word.\<close>

definition lit :: "string \<Rightarrow> regexp \<Rightarrow> regexp" where
  "lit w r = foldr (\<lambda>c. RCat (RClass False [(of_char c, of_char c)])) w r"

definition digest_tail :: regexp where
  "digest_tail = lit ''sha256:'' (RCat (RRep (RClass False [(48, 57), (97, 102)]) 64 (Some 64) True) REmpty)"

lemma digestRe_eq: "digestRe = lit ''digest:'' (RCat (RRep (RClass False [(9, 10), (12, 13), (32, 32)]) 0 None True) (RCat digest_tail REmpty))"
  by code_simp

lemma lit_bytes:
  "(st, st') \<in> matches (lit w r) \<Longrightarrow> ascii w \<Longrightarrow> snd st = range_from i s \<Longrightarrow>
   \<exists>s' y. s = w @ s' \<and> snd y = range_from (i + go_len w) s' \<and> (y, st') \<in> matches r"
proof (induction w arbitrary: st i s)
  case Nil
  then have "s = [] @ s \<and> snd st = range_from (i + go_len []) s \<and> (st, st') \<in> matches r" by (simp add: lit_def go_len_def)
  then show ?case by blast
next
  case (Cons c w)
  obtain y where y: "(st, y) \<in> matches (RClass False [(of_char c, of_char c)])" "(y, st') \<in> matches (lit w r)"
    using Cons.prems(1) unfolding lit_def by (simp del: matches.simps(2)) blast
  obtain c' s1 where c: "s = c' # s1" "in_class False [(of_char c, of_char c)] (of_char c')" "snd y = range_from (i + 1) s1"
    using class_byte[OF y(1) _ Cons.prems(3)] Cons.prems(2) by auto
  have "c' = c" using c(2) by (simp add: in_class_def)
  moreover obtain s' z where "s1 = w @ s'" "snd z = range_from (i + 1 + go_len w) s'" "(z, st') \<in> matches r"
    using Cons.IH[OF y(2) _ c(3)] Cons.prems(2) by auto
  moreover have "i + 1 + go_len w = i + go_len (c # w)" by (simp add: go_len_def)
  ultimately show ?case using c(1) by (metis append_Cons)
qed

definition digest_char :: "char \<Rightarrow> bool" where
  "digest_char c \<longleftrightarrow> is_digit c \<or> char_between CHR ''a'' CHR ''f'' c"

lemma pushed_digest_form:
  assumes "pushed_digest out = Some d"
  shows "\<exists>pre hex post. out = pre @ d @ post \<and> d = ''sha256:'' @ hex \<and> length hex = 64 \<and> list_all digest_char hex"
proof -
  obtain m where m: "first_match digestRe out = Some m" "d = drop (length m - 71) m" using assms by (auto simp: pushed_digest_def)
  obtain pre post i st st' where st: "out = pre @ m @ post" "snd st = range_from i (m @ post)"
    "snd st' = range_from (i + go_len m) post" "(st, st') \<in> matches digestRe" using first_match_bytes[OF m(1)] by blast
  have words: "ascii ''digest:''" "ascii ''sha256:''" "go_len ''digest:'' = 7" "go_len ''sha256:'' = 7" by (simp_all add: go_len_def)
  obtain s1 y where y: "m @ post = ''digest:'' @ s1" "snd y = range_from (i + 7) s1"
    "(y, st') \<in> matches (RCat (RRep (RClass False [(9, 10), (12, 13), (32, 32)]) 0 None True) (RCat digest_tail REmpty))"
    using lit_bytes[OF st(4)[unfolded digestRe_eq] words(1) st(2)] unfolding words by blast
  obtain z where z: "(y, z) \<in> matches (RRep (RClass False [(9, 10), (12, 13), (32, 32)]) 0 None True)" "(z, st') \<in> matches digest_tail"
    using y(3) unfolding matches.simps(1,3) by blast
  obtain ws s2 where ws: "s1 = ws @ s2" "snd z = range_from (i + 7 + go_len ws) s2" using later_bytes[OF z(1) y(2)] by blast
  obtain s3 x where x: "s2 = ''sha256:'' @ s3" "snd x = range_from (i + 7 + go_len ws + 7) s3"
    "(x, st') \<in> matches (RCat (RRep (RClass False [(48, 57), (97, 102)]) 64 (Some 64) True) REmpty)"
    using lit_bytes[OF z(2)[unfolded digest_tail_def] words(2) ws(2)] unfolding words by blast
  have pow: "(x, st') \<in> matches (RClass False [(48, 57), (97, 102)]) ^^ 64" using x(3) by (simp del: matches.simps(2) relpow.simps)
  then obtain hex s4 where hex: "s3 = hex @ s4" "length hex = 64" "list_all (\<lambda>c. in_class False [(48, 57), (97, 102)] (of_char c)) hex"
    "snd st' = range_from (i + 7 + go_len ws + 7 + 64) s4"
    using class_bytes[OF pow _ x(2)] by auto
  have all: "m @ post = ((''digest:'' @ ws) @ (''sha256:'' @ hex)) @ s4" using y(1) ws(1) x(1) hex(1) by simp
  define j where "j = i + 7 + go_len ws + 7 + 64"
  have "go_len (m @ post) = 78 + go_len ws + go_len s4" unfolding all using hex(2) by (simp add: go_len_def)
  then have total: "i + go_len m + go_len post = j + go_len s4" by (simp add: j_def go_len_def)
  have "byte_pos (i + go_len m + go_len post) st' = i + go_len m"
    using positioned_range_from[of "i + go_len m" post "fst st'"] st(3) by (metis prod.collapse)
  moreover have "byte_pos (j + go_len s4) st' = j"
    using positioned_range_from[of j s4 "fst st'"] hex(4) by (metis j_def prod.collapse)
  ultimately have "go_len post = go_len s4" using total by simp
  then have "length post = length s4" by (simp add: go_len_def)
  then have eq: "m = (''digest:'' @ ws) @ (''sha256:'' @ hex)" "post = s4" using iffD1[OF append_eq_append_conv[OF disjI2] all] by blast+
  have "length m - 71 = length (''digest:'' @ ws)" unfolding eq(1) using hex(2) by simp
  then have "d = ''sha256:'' @ hex" using m(2) eq(1) by simp
  moreover have "list_all digest_char hex"
    using hex(3) by (auto simp: list_all_iff in_class_def digest_char_def is_digit_def char_between_def)
  moreover have "out = (pre @ ''digest:'' @ ws) @ (''sha256:'' @ hex) @ post" using st(1) eq(1) by simp
  ultimately show ?thesis using hex(2) by blast
qed

subsection \<open>A build\<close>

text \<open>Every branch of a build: what was refused ran nothing; what succeeded was built, pushed and signed under the digest of the push.\<close>

lemma Build_image_ok:
  assumes "Build_image E spec = (cmds, Inr res)"
  shows "\<exists>img dir out. from_image (bs_Dockerfile spec) = Some img \<and> extends_base (bs_BaseRef spec) img \<and>
    cmds = [build_cmd dir spec, push_cmd spec, sign_cmd E spec (br_Digest res)] \<and> list_all (\<lambda>c. snd (bx_run E c) = None) cmds \<and>
    fst (bx_run E (push_cmd spec)) = out \<and> pushed_digest out = Some (br_Digest res) \<and> br_Ref res = bs_TargetRef spec"
  using assms by (auto simp: Build_image_def split: option.splits if_splits sum.splits prod.splits)

lemma Build_image_refused:
  "fst (Build_image E spec) \<noteq> [] \<Longrightarrow> \<exists>img. from_image (bs_Dockerfile spec) = Some img \<and> extends_base (bs_BaseRef spec) img"
  by (auto simp: Build_image_def split: option.splits if_splits)

text \<open>Only the first stage is looked at, so that a later one may start from any image.\<close>

lemma fromRe_eq:
  "fromRe = RCat REmpty (RCat RBeginLine (RCat (RRep (RClass False [(9, 10), (12, 13), (32, 32)]) 0 None True)
     (RCat (RClass False [(70, 70), (102, 102)]) (RCat (RClass False [(82, 82), (114, 114)])
     (RCat (RClass False [(79, 79), (111, 111)]) (RCat (RClass False [(77, 77), (109, 109)])
     (RCat (RRep (RClass False [(9, 10), (12, 13), (32, 32)]) 1 None True)
     (RCat (RCat (RRep (RClass False [(0, 8), (11, 11), (14, 31), (33, 1114111), (65, 90), (97, 122), (8490, 8490), (383, 383)]) 1 None True)
        REmpty) REmpty))))))))"
  by code_simp

lemma first_stage_only: "from_image (''FROM redactr-base AS base'' @ CHR 0x0A # rest) = Some ''redactr-base''"
proof -
  have "\<exists>x. FindAllStringIndex fromRe (''FROM redactr-base AS base'' @ CHR 0x0A # rest) = (0, 17) # x"
    by (simp add: FindAllStringIndex_def go_range_def range_from_rec decode_rune_ascii fromRe_eq at_begin_line_def in_class_def progress_def byte_pos_def)
  then obtain x where x: "FindAllStringIndex fromRe (''FROM redactr-base AS base'' @ CHR 0x0A # rest) = (0, 17) # x" by blast
  have "first_match fromRe (''FROM redactr-base AS base'' @ CHR 0x0A # rest) = Some ''FROM redactr-base''"
    unfolding first_match_def x by (simp add: go_slice_def seg_def go_len_def)
  moreover have "rev (takeWhile (\<lambda>c. \<not> re_space c) (rev ''FROM redactr-base'')) = ''redactr-base''" by code_simp
  ultimately show ?thesis by (simp add: from_image_def)
qed

lemma unchecked_stages:
  assumes "bx_tmp E = Inr dir" "bx_write E = None" "\<And>c. snd (bx_run E c) = None" "pushed_digest (fst (bx_run E [''docker'', ''push'', target])) = Some digest"
  shows "snd (Build_image E \<lparr>bs_Dockerfile = ''FROM redactr-base AS base'' @ CHR 0x0A # rest, bs_BaseRef = ''redactr-base'', bs_TargetRef = target\<rparr>) =
    Inr \<lparr>br_Ref = target, br_Digest = digest\<rparr>"
proof -
  define df where "df = ''FROM redactr-base AS base'' @ CHR 0x0A # rest"
  have "from_image df = Some ''redactr-base''" unfolding df_def by (rule first_stage_only)
  moreover obtain out where "bx_run E [''docker'', ''push'', target] = (out, None)" "pushed_digest out = Some digest"
    using assms(3)[of "[''docker'', ''push'', target]"] assms(4) by (metis prod.collapse)
  ultimately show ?thesis unfolding df_def[symmetric] using assms(1-3) by (simp add: Build_image_def extends_base_def push_cmd_def)
qed

subsection \<open>From a build to the policy\<close>

lemma image_rows_keep_policies:
  "InsertImage F i now og tag db = (db', res) \<Longrightarrow> db_policies db' = db_policies db"
  "SetImageResult F i ref digest status db = (db', res') \<Longrightarrow> db_policies db' = db_policies db"
  by (auto simp: InsertImage_def SetImageResult_def split: if_splits)

lemma pin_image_policy:
  assumes "pin_image T env db og pinned = (db', resp)"
  shows "if rs_code resp = 200
    then \<exists>bd v. (\<forall>og'. select_row po_org og' (db_policies db') = (if og' = og then
              Some \<lparr>po_org = og, po_bundle = bd, po_version = v, po_updated = se_now env\<rparr> else select_row po_org og' (db_policies db))) \<and>
            pb_Image (served T bd v) = to_valid pinned
    else db_policies db' = db_policies db"
proof (cases "rs_code resp = 200")
  case True
  obtain raw v0 where get: "GetPolicy (se_faults env 3) db og = Inr (raw, v0)"
    using assms True by (auto simp: pin_image_def reply_def split: sum.splits)
  define b where "b = canonicalBundle ((fst (decode_bundle T raw))\<lparr>pb_Image := pinned\<rparr>)"
  obtain v where "PutPolicy (se_faults env 4) (se_now env) og b db = (db', Inr v)"
    using assms True get by (auto simp: pin_image_def b_def reply_def Let_def split: sum.splits prod.splits)
  moreover have "pb_Image (served T b v) = to_valid pinned"
    by (simp add: served_def b_def canonicalBundle_def Let_def decode_bundle_json in_int64_def)
  ultimately show ?thesis using True PutPolicy_Inr(2) by auto
next
  case False
  then show ?thesis
    using assms by (auto simp: pin_image_def PutPolicy_def reply_def Let_def split: sum.splits prod.splits if_splits)
qed

lemma handleBuildImage_cases:
  assumes "sv_builder s = Some build" "handleBuildImage T env s i r = (db', resp)"
  shows "db_policies db' = db_policies (sv_db s) \<and> rs_code resp \<noteq> 200 \<or>
    (\<exists>df tag ref digest db2. build df ''redactr-base'' (sv_registry s @ ''/'' @ i @ ''/'' @ tag) = Inr (ref, digest) \<and>
      db_policies db2 = db_policies (sv_db s) \<and> pin_image T env db2 i (ref @ CHR 0x40 # digest) = (db', resp))"
proof -
  have rows: "db_policies (fst (SetImageResult F k ref digest status db)) = db_policies db" for F k ref digest status db
    using image_rows_keep_policies(2) prod.collapse by metis
  show ?thesis
    using assms unfolding handleBuildImage_def with_org_def
    by (auto simp: reply_def rows dest!: image_rows_keep_policies(1) split: sum.splits option.splits prod.splits if_splits)
qed

subsection \<open>What the server relies on\<close>

text \<open>A builder pushes under the name it was given, and returns the digest of what was signed.\<close>

locale image_builder =
  fixes build :: "string \<Rightarrow> string \<Rightarrow> string \<Rightarrow> string + string \<times> string"
    and signed :: "string \<Rightarrow> string \<Rightarrow> bool"
  assumes built_signed: "build df base target = Inr (ref, digest) \<Longrightarrow> ref = target \<and> signed target digest"
begin

lemma pinned_signed:
  assumes "sv_builder s = Some build" "handleBuildImage T env s i r = (db', resp)"
  shows "if rs_code resp = 200
    then \<exists>tag digest bd v. let target = sv_registry s @ ''/'' @ i @ ''/'' @ tag in
      signed target digest \<and>
      (\<forall>og'. select_row po_org og' (db_policies db') = (if og' = i then
         Some \<lparr>po_org = i, po_bundle = bd, po_version = v, po_updated = se_now env\<rparr> else select_row po_org og' (db_policies (sv_db s)))) \<and>
      pb_Image (served T bd v) = to_valid (target @ CHR 0x40 # digest)
    else db_policies db' = db_policies (sv_db s)"
  using handleBuildImage_cases[OF assms]
proof (elim disjE conjE exE)
  fix df tag ref digest db2
  assume b: "build df ''redactr-base'' (sv_registry s @ ''/'' @ i @ ''/'' @ tag) = Inr (ref, digest)"
    and db2: "db_policies db2 = db_policies (sv_db s)" and pin: "pin_image T env db2 i (ref @ CHR 0x40 # digest) = (db', resp)"
  note ref = built_signed[OF b]
  show ?thesis
  proof (cases "rs_code resp = 200")
    case True
    then show ?thesis using pin_image_policy[OF pin] ref unfolding db2 Let_def if_P[OF True] by metis
  qed (use pin_image_policy[OF pin] db2 in auto)
qed simp

end

text \<open>The command line tools as a builder.\<close>

definition signed_by :: "build_env \<Rightarrow> string \<Rightarrow> string \<Rightarrow> bool" where
  "signed_by E target digest \<longleftrightarrow>
     (\<exists>hex pushed. digest = ''sha256:'' @ hex \<and> length hex = 64 \<and> list_all digest_char hex \<and>
        bx_run E [''docker'', ''push'', target] = (pushed, None) \<and> (\<exists>pre post. pushed = pre @ digest @ post) \<and>
        snd (bx_run E [''cosign'', ''sign'', ''--key'', bx_cosignKey E, target @ CHR 0x40 # digest]) = None)"

lemma shell_builder_signed:
  assumes "shell_builder E df base target = Inr (ref, digest)"
  shows "ref = target \<and> signed_by E target digest"
proof -
  define spec where "spec = \<lparr>bs_Dockerfile = df, bs_BaseRef = base, bs_TargetRef = target\<rparr>"
  obtain cmds res where build: "Build_image E spec = (cmds, Inr res)" "ref = br_Ref res" "digest = br_Digest res"
    using assms by (auto simp: shell_builder_def spec_def split: sum.splits) (metis prod.collapse)
  then have facts: "snd (bx_run E (push_cmd spec)) = None" "snd (bx_run E (sign_cmd E spec digest)) = None"
    "pushed_digest (fst (bx_run E (push_cmd spec))) = Some digest" "ref = target"
    using Build_image_ok[OF build(1)] by (auto simp: spec_def)
  obtain pre hex post where hex: "fst (bx_run E (push_cmd spec)) = pre @ digest @ post" "digest = ''sha256:'' @ hex" "length hex = 64"
    "list_all digest_char hex" using pushed_digest_form[OF facts(3)] by blast
  have "bx_run E [''docker'', ''push'', target] = (pre @ digest @ post, None)"
    using facts(1) hex(1) by (simp add: push_cmd_def spec_def prod_eq_iff)
  moreover have "snd (bx_run E [''cosign'', ''sign'', ''--key'', bx_cosignKey E, target @ CHR 0x40 # digest]) = None"
    using facts(2) by (simp add: sign_cmd_def spec_def)
  ultimately show ?thesis using facts(4) hex(2-4) unfolding signed_by_def by blast
qed

interpretation shell: image_builder "shell_builder E" "signed_by E" for E
  by unfold_locales (rule shell_builder_signed)

text \<open>
  C23. An organisation's image is pinned to what was signed. When the request of an administrator to build an image is answered with 200, then
  the image was pushed to the registry under the name of the organisation and the tag, \<open>cosign\<close> succeeded in signing that name with a SHA-256
  digest that the push had printed, and the policy served to the organisation's devices from now on names exactly this reference; no
  other organisation's policy changes. With any other answer no policy changes, whatever had been built or pushed by then.
\<close>

theorem built_image_pinned:
  assumes "reg \<noteq> []" "handleBuildImage T env (start_server db key reg E) i r = (db', resp)"
  shows "if rs_code resp = 200
    then \<exists>tag hex pushed bd v. let target = reg @ ''/'' @ i @ ''/'' @ tag; digest = ''sha256:'' @ hex in
      length hex = 64 \<and> list_all digest_char hex \<and> bx_run E [''docker'', ''push'', target] = (pushed, None) \<and> (\<exists>pre post. pushed = pre @ digest @ post) \<and>
      snd (bx_run E [''cosign'', ''sign'', ''--key'', bx_cosignKey E, target @ CHR 0x40 # digest]) = None \<and>
      (\<forall>og'. select_row po_org og' (db_policies db') = (if og' = i then
         Some \<lparr>po_org = i, po_bundle = bd, po_version = v, po_updated = se_now env\<rparr> else select_row po_org og' (db_policies db))) \<and>
      pb_Image (served T bd v) = to_valid (target @ CHR 0x40 # digest)
    else db_policies db' = db_policies db"
proof -
  let ?s = "start_server db key reg E"
  have s: "sv_builder ?s = Some (shell_builder E)" "sv_registry ?s = reg" "sv_db ?s = db"
    using assms(1) by (simp_all add: start_server_def SetBuilder_def New_server_def)
  note pinned = shell.pinned_signed[OF s(1) assms(2), unfolded s Let_def]
  show ?thesis
  proof (cases "rs_code resp = 200")
    case True
    show ?thesis using pinned unfolding if_P[OF True] Let_def signed_by_def by blast
  qed (use pinned in simp)
qed

subsection \<open>Example\<close>

definition demo_run :: "string list \<Rightarrow> string \<times> string option" where
  "demo_run c = (if c ! 1 = ''push'' then (''latest: digest: sha256:'' @ replicate 64 CHR ''d'' @ '' size: 1234'', None) else ([], None))"

definition demo_build_env :: build_env where
  "demo_build_env = \<lparr>bx_tmp = Inr ''/tmp/redactr-build-1'', bx_write = None, bx_run = demo_run, bx_cosignKey = ''./keys/cosign.key''\<rparr>"

definition demo_build_request :: api_request where
  "demo_build_request = \<lparr>ar_route = AdminBuildImage ''acme'', ar_authorization = [], ar_adminKey = ''key'', ar_ifNoneMatch = [], ar_query = (\<lambda>_. []),
     ar_body = Some (JObj [(''dockerfile'', JStr ''FROM redactr-base''), (''tag'', JStr ''tools'')])\<rparr>"

definition demo_org_db :: server_db where
  "demo_org_db = fst (CreateOrg (\<lambda>_. False) ''acme'' 0 ''Acme'' empty_db)"

lemma demo_build_ok:
  "rs_code (snd (handleBuildImage latin1 demo_senv (start_server demo_org_db ''key'' ''reg'' demo_build_env) ''acme'' demo_build_request)) = 200"
  by code_simp

theorem built_image_pinned_witness:
  "\<exists>db' resp tag hex bd v.
     handleBuildImage latin1 demo_senv (start_server demo_org_db ''key'' ''reg'' demo_build_env) ''acme'' demo_build_request = (db', resp) \<and>
     rs_code resp = 200 \<and> length hex = 64 \<and> list_all digest_char hex \<and>
     select_row po_org ''acme'' (db_policies db') = Some \<lparr>po_org = ''acme'', po_bundle = bd, po_version = v, po_updated = 5000000000\<rparr> \<and>
     pb_Image (served latin1 bd v) = to_valid ((''reg'' @ ''/'' @ ''acme'' @ ''/'' @ tag) @ CHR 0x40 # ''sha256:'' @ hex)"
proof -
  obtain db' resp where run: "handleBuildImage latin1 demo_senv (start_server demo_org_db ''key'' ''reg'' demo_build_env) ''acme'' demo_build_request = (db', resp)"
    by (metis prod.collapse)
  then have ok: "rs_code resp = 200" using demo_build_ok by simp
  have now: "se_now demo_senv = 5000000000" by (simp add: demo_senv_def)
  have "''reg'' \<noteq> []" by simp
  then obtain tag hex bd v where "length hex = 64" "list_all digest_char hex"
    "\<forall>og'. select_row po_org og' (db_policies db') = (if og' = ''acme'' then
       Some \<lparr>po_org = ''acme'', po_bundle = bd, po_version = v, po_updated = 5000000000\<rparr> else select_row po_org og' (db_policies demo_org_db))"
    "pb_Image (served latin1 bd v) = to_valid ((''reg'' @ ''/'' @ ''acme'' @ ''/'' @ tag) @ CHR 0x40 # ''sha256:'' @ hex)"
    using built_image_pinned[OF _ run] unfolding if_P[OF ok] Let_def now by blast
  moreover from this(3) have "select_row po_org ''acme'' (db_policies db') = Some \<lparr>po_org = ''acme'', po_bundle = bd, po_version = v, po_updated = 5000000000\<rparr>"
    by simp
  ultimately show ?thesis using run ok by blast
qed

end
