(* ===== verification/ServerMain.thy ===== *)
theory ServerMain
  imports ImageBuild Routing Certs
begin

text \<open>
  The program of the control plane: \<open>cmd/redactr-server/main.go\<close>, with the opening of its database
  (\<open>Open\<close> of \<open>internal/server/store/store.go\<close>) and the text form of public keys (\<open>internal/signing/signing.go\<close> and
  \<open>parsePublicKey\<close> of \<open>internal/licensing/licensing.go\<close>).

  \<open>server_main\<close> is the start: the settings from the environment, the database, the key, the handler and the
  listener, in this order. What SQLite does with a file is a parameter, as are generated keys, random bytes and what a port does.

  A server that runs has a key for administrators (\<open>running_admin_key\<close>), and without it a request changes no more than a device may
  (\<open>running_without_key\<close>). What it has stored is there after a restart (\<open>Open_again\<close>).
\<close>

subsection \<open>Public keys\<close>

text \<open>\<open>pem\<close> gives the bytes of the first block of a text, \<open>x509\<close> the key in them; of a key on an elliptic curve the curve is known.\<close>

datatype 'k public_key = Ecdsa string 'k | OtherKey

definition PublicKeyPEM :: "('k \<Rightarrow> string option) \<Rightarrow> (string \<Rightarrow> string \<Rightarrow> string) \<Rightarrow> 'k \<Rightarrow> string option" where
  "PublicKeyPEM marshal encode pub = map_option (encode ''PUBLIC KEY'') (marshal pub)"

definition ParsePublicKeyPEM :: "(string \<Rightarrow> string option) \<Rightarrow> (string \<Rightarrow> string + 'k public_key) \<Rightarrow> string \<Rightarrow> string + 'k" where
  "ParsePublicKeyPEM pem x509 s =
     (case pem s of
        None \<Rightarrow> Inl ''no PEM block''
      | Some block \<Rightarrow>
          (case x509 block of
             Inl err \<Rightarrow> Inl err
           | Inr (Ecdsa curve k) \<Rightarrow> if curve \<noteq> ''P-256'' then Inl ''not an ECDSA P-256 public key'' else Inr k
           | Inr OtherKey \<Rightarrow> Inl ''not an ECDSA P-256 public key''))"

definition license_parsePublicKey :: "(string \<Rightarrow> string option) \<Rightarrow> (string \<Rightarrow> string + 'k public_key) \<Rightarrow> string \<Rightarrow> string + 'k" where
  "license_parsePublicKey pem x509 s =
     (case pem s of
        None \<Rightarrow> Inl ''no PEM block found''
      | Some block \<Rightarrow>
          (case x509 block of
             Inl err \<Rightarrow> Inl err
           | Inr (Ecdsa curve k) \<Rightarrow> if curve \<noteq> ''P-256'' then Inl ''key is not ECDSA P-256'' else Inr k
           | Inr OtherKey \<Rightarrow> Inl ''key is not ECDSA P-256''))"

lemma PublicKeyPEM_roundtrip:
  assumes "\<And>ty b. pem (encode ty b) = Some b" "\<And>b. marshal pub = Some b \<Longrightarrow> x509 b = Inr (Ecdsa ''P-256'' pub)"
    and "PublicKeyPEM marshal encode pub = Some s"
  shows "ParsePublicKeyPEM pem x509 s = Inr pub" "license_parsePublicKey pem x509 s = Inr pub"
  using assms by (auto simp: PublicKeyPEM_def ParsePublicKeyPEM_def license_parsePublicKey_def)

text \<open>The two parsers accept the same texts. Neither looks at the type of the block.\<close>

lemma parsers_agree:
  "(\<exists>k. ParsePublicKeyPEM pem x509 s = Inr k) \<longleftrightarrow> (\<exists>k. license_parsePublicKey pem x509 s = Inr k)"
  "ParsePublicKeyPEM pem x509 s = Inr k \<Longrightarrow> license_parsePublicKey pem x509 s = Inr k"
  by (auto simp: ParsePublicKeyPEM_def license_parsePublicKey_def split: option.splits sum.splits public_key.splits if_splits)

subsection \<open>The database\<close>

text \<open>
  Whether the driver opens the file, takes the pragma and executes the schema, which creates what is missing. The result is the
  database and whether a handle stays open.
\<close>

record sqlite =
  sq_open :: bool
  sq_pragma :: bool
  sq_schema :: bool

definition Open_store :: "sqlite \<Rightarrow> server_db option \<Rightarrow> server_db option \<times> bool" where
  "Open_store q file =
     (if \<not> sq_open q then (None, False)
      else if \<not> sq_pragma q then (None, False)
      else if \<not> sq_schema q then (None, False)
      else (Some (case file of None \<Rightarrow> empty_db | Some db \<Rightarrow> db), True))"

lemma Open_handle: "snd (Open_store q file) \<longleftrightarrow> fst (Open_store q file) \<noteq> None"
  by (simp add: Open_store_def)

lemma Open_again:
  assumes "fst (Open_store q file) = Some db" "db_run db tr db'" "sq_open q'" "sq_pragma q'" "sq_schema q'"
  shows "fst (Open_store q' (Some db')) = Some db'"
  using assms by (simp add: Open_store_def)

subsection \<open>The program\<close>

definition env_or :: "(string \<Rightarrow> string) \<Rightarrow> string \<Rightarrow> string \<Rightarrow> string" where
  "env_or vars k def = (let v = vars k in if v \<noteq> [] then v else def)"

definition NewRawToken :: "string \<Rightarrow> string" where
  "NewRawToken random = EncodeToString random"

text \<open>
  What the program finds: the variables of its environment, 24 random bytes, SQLite and the files it is given, the directory of the
  key, and on which addresses it can listen.
\<close>

record ('c, 'k) server_start =
  ss_vars :: "string \<Rightarrow> string"
  ss_random :: string
  ss_sqlite :: sqlite
  ss_dbfile :: "string \<Rightarrow> server_db option"
  ss_io :: io_env
  ss_pki :: "('c, 'k) pki"
  ss_build :: build_env
  ss_listens :: "string \<Rightarrow> bool"

datatype server_fatal = FatalStore | FatalKeys | FatalServe

record 'k running_server =
  rn_addr :: string
  rn_dbPath :: string
  rn_keyDir :: string
  rn_key :: 'k
  rn_server :: api_server

definition server_main :: "('c, 'k) server_start \<Rightarrow> home \<Rightarrow> home \<times> (server_fatal + 'k running_server)" where
  "server_main E h =
     (let addr = env_or (ss_vars E) ''REDACTR_SERVER_ADDR'' '':8080'';
          dbPath = env_or (ss_vars E) ''REDACTR_SERVER_DB'' ''./redactr-server.db'';
          keyDir = env_or (ss_vars E) ''REDACTR_SERVER_KEY_DIR'' ''./keys'';
          adminKey = ss_vars E ''REDACTR_ADMIN_KEY'';
          adminKey = (if adminKey = [] then NewRawToken (ss_random E) else adminKey)
      in case fst (Open_store (ss_sqlite E) (ss_dbfile E dbPath)) of
           None \<Rightarrow> (h, Inl FatalStore)
         | Some db \<Rightarrow>
             (case LoadOrCreate (ss_io E) (ss_pki E) h of
                (h', None) \<Rightarrow> (h', Inl FatalKeys)
              | (h', Some key) \<Rightarrow>
                  (let reg = ss_vars E ''REDACTR_REGISTRY'';
                       cosign = env_or (ss_vars E) ''REDACTR_COSIGN_KEY'' ''./keys/cosign.key'';
                       handler = start_server db adminKey reg ((ss_build E)\<lparr>bx_cosignKey := cosign\<rparr>)
                   in if \<not> ss_listens E addr then (h', Inl FatalServe)
                      else (h', Inr \<lparr>rn_addr = addr, rn_dbPath = dbPath, rn_keyDir = keyDir, rn_key = key, rn_server = handler\<rparr>))))"

lemma EncodeToString_nonempty: "s \<noteq> [] \<Longrightarrow> EncodeToString s \<noteq> []"
  using Decode_Encode[of s] by (auto simp: DecodeString_def)

lemma start_server_key: "sv_adminKey (start_server db key reg E) = key"
  by (simp add: start_server_def SetBuilder_def New_server_def Let_def)

lemma running_admin_key:
  assumes "server_main E h = (h', Inr rn)" "length (ss_random E) = 24"
  shows "sv_adminKey (rn_server rn) \<noteq> []"
proof -
  have "ss_random E \<noteq> []" using assms(2) by auto
  then have "NewRawToken (ss_random E) \<noteq> []" by (simp add: NewRawToken_def EncodeToString_nonempty)
  then show ?thesis
    using assms(1) by (auto simp: server_main_def start_server_key Let_def split: option.splits prod.splits if_splits)
qed

text \<open>
  Without the administrator's key, a request to a running server enrolls a device, or it is one of a device; no organisation,
  token of enrollment by an administrator, policy or image changes.
\<close>

lemma EnrollDevice_tables:
  "db_orgs (fst (EnrollDevice F i t name pl now db)) = db_orgs db"
  "db_policies (fst (EnrollDevice F i t name pl now db)) = db_policies db"
  "db_images (fst (EnrollDevice F i t name pl now db)) = db_images db"
  "map tk_hash (db_tokens (fst (EnrollDevice F i t name pl now db))) = map tk_hash (db_tokens db)"
  by (auto simp: EnrollDevice_def Let_def update_rows_def comp_def split: option.splits)

lemma running_without_key:
  assumes "server_main E h = (h', Inr rn)" "length (ss_random E) = 24"
    and "s = (rn_server rn)\<lparr>sv_db := db\<rparr>" and "ar_adminKey r = [] \<or> ar_adminKey r \<noteq> sv_adminKey s"
    and "serve_request T C S env s m path r = (db', res)"
  shows "db_orgs db' = db_orgs db \<and> db_policies db' = db_policies db \<and> db_images db' = db_images db \<and>
    map tk_hash (db_tokens db') = map tk_hash (db_tokens db)"
proof -
  have s: "sv_db s = db" using assms(3) by simp
  have "\<not> (sv_adminKey s \<noteq> [] \<and> ar_adminKey r = sv_adminKey s)"
    using assms(3,4) running_admin_key[OF assms(1,2)] by auto
  with request_effect[OF assms(5)]
  consider "db' = db"
    | raw name pl where "db' = fst (EnrollDevice (se_faults env 0) (se_ids env 0) (HashToken C raw) name pl (se_now env) db)"
    | ds es where "db' = db\<lparr>db_devices := ds, db_events := es\<rparr>"
    unfolding s by blast
  then show ?thesis
  proof cases
    case (3 ds es)
    then show ?thesis by simp
  qed (simp_all add: EnrollDevice_tables)
qed

text \<open>A key that is not given is another one after every start, so that administrators are locked out until they read the log.\<close>

lemma generated_key_changes:
  assumes "server_main E h = (h1, Inr rn)" "server_main (E\<lparr>ss_random := random\<rparr>) h1 = (h2, Inr rn')"
    and "ss_vars E ''REDACTR_ADMIN_KEY'' = []" "random \<noteq> ss_random E"
  shows "sv_adminKey (rn_server rn') \<noteq> sv_adminKey (rn_server rn)"
proof -
  have "NewRawToken random \<noteq> NewRawToken (ss_random E)"
    using assms(4) Decode_Encode by (metis NewRawToken_def option.inject)
  then show ?thesis
    using assms(1-3) by (auto simp: server_main_def start_server_key Let_def split: option.splits prod.splits if_splits)
qed

end
