(* ===== verification/LocalRoutes.thy ===== *)
theory LocalRoutes
  imports LocalAPI Mux
begin

text \<open>
  The routes of the daemon's local interface: the patterns that \<open>registerRoutes\<close> of \<open>internal/api/routes.go\<close> registers,
  and the listener of \<open>internal/api/server.go\<close>.

  \<open>serve_local\<close> is the answer to a request as it arrives. A request carries no credentials, and the handlers look at
  nothing but the query and the decoded body. A panic of a handler is \<open>None\<close>. The web socket and the embedded
  files are opaque answers (the hub of the web sockets is theory \<open>Hub\<close>).

  \<open>local_route_found\<close>: each handler is reached by the address the dashboard uses. \<open>reading_keeps\<close>: a GET changes nothing
  but what the lister of sessions remembers.
\<close>

subsection \<open>Requests\<close>

datatype local_route =
    LGetConfig | LUpdateConfig | LGetLogs | LGetStats | LProxyEnable | LProxyDisable | LProxyStatus | LCacheStats | LCacheClear
  | LScan | LListSessions | LStopSession string | LLaunchShell | LGetRules | LPutRules | LGetLicense | LWebSocket | LStatic

definition registerRoutes :: "bool \<Rightarrow> (string \<times> ((string \<Rightarrow> string) \<Rightarrow> local_route)) list" where
  "registerRoutes hub =
     [(''GET /api/config'', \<lambda>_. LGetConfig),
      (''PUT /api/config'', \<lambda>_. LUpdateConfig),
      (''GET /api/logs'', \<lambda>_. LGetLogs),
      (''GET /api/stats'', \<lambda>_. LGetStats),
      (''POST /api/proxy/enable'', \<lambda>_. LProxyEnable),
      (''POST /api/proxy/disable'', \<lambda>_. LProxyDisable),
      (''GET /api/proxy/status'', \<lambda>_. LProxyStatus),
      (''GET /api/cache/stats'', \<lambda>_. LCacheStats),
      (''POST /api/cache/clear'', \<lambda>_. LCacheClear),
      (''POST /api/scan'', \<lambda>_. LScan),
      (''GET /api/sessions'', \<lambda>_. LListSessions),
      (''POST /api/sessions/{pid}/stop'', \<lambda>v. LStopSession (v ''pid'')),
      (''POST /api/shell/launch'', \<lambda>_. LLaunchShell),
      (''GET /api/rules'', \<lambda>_. LGetRules),
      (''PUT /api/rules'', \<lambda>_. LPutRules),
      (''GET /api/license'', \<lambda>_. LGetLicense)] @
     (if hub then [(''/api/ws'', \<lambda>_. LWebSocket)] else []) @
     [(''/'', \<lambda>_. LStatic)]"

definition local_mux :: "bool \<Rightarrow> ((string \<Rightarrow> string) \<Rightarrow> local_route) mux" where
  "local_mux hub = new_mux (registerRoutes hub)"

text \<open>The query of a request and what its body decodes to, for each of the handlers that decode one.\<close>

record local_request =
  lq_limit :: string
  lq_provider :: string
  lq_config :: "config option"
  lq_text :: "string option"
  lq_rules :: "rule_map option"

datatype local_answer = LocalReply local_reply | Upgraded | StaticFile

definition local_handler ::
  "('d, 'm) api_env \<Rightarrow> local_request \<Rightarrow> local_route \<Rightarrow> ('d, 'm) api_state \<Rightarrow>
   (('d, 'm) api_state \<times> int list \<times> local_answer) option" where
  "local_handler env q rt s =
     (let keep = (\<lambda>reply. Some (s, [], LocalReply reply));
          set = (\<lambda>(s', reply). Some (s', [], LocalReply reply))
      in case rt of
           LGetConfig \<Rightarrow> keep (handleGetConfig s)
         | LUpdateConfig \<Rightarrow> set (handleUpdateConfig env (lq_config q) s)
         | LGetLogs \<Rightarrow> keep (handleGetLogs env (lq_limit q) (lq_provider q) s)
         | LGetStats \<Rightarrow> keep (handleGetStats env s)
         | LProxyEnable \<Rightarrow> set (handleProxyEnable env s)
         | LProxyDisable \<Rightarrow> set (handleProxyDisable env s)
         | LProxyStatus \<Rightarrow> keep (handleProxyStatus s)
         | LCacheStats \<Rightarrow> keep (handleCacheStats s)
         | LCacheClear \<Rightarrow> set (handleCacheClear s)
         | LScan \<Rightarrow> Option.bind (handleScan env (lq_text q) s) set
         | LListSessions \<Rightarrow> set (handleListSessions env s)
         | LStopSession pid \<Rightarrow> (case handleStopSession env pid of (killed, reply) \<Rightarrow> Some (s, killed, LocalReply reply))
         | LLaunchShell \<Rightarrow> keep (handleLaunchShell env s)
         | LGetRules \<Rightarrow> keep (handleGetRules s)
         | LPutRules \<Rightarrow> set (handlePutRules env (lq_rules q) s)
         | LGetLicense \<Rightarrow> keep (handleGetLicense s)
         | LWebSocket \<Rightarrow> Some (s, [], Upgraded)
         | LStatic \<Rightarrow> Some (s, [], StaticFile))"

definition serve_local ::
  "('d, 'm) api_env \<Rightarrow> string \<Rightarrow> string \<Rightarrow> local_request \<Rightarrow> ('d, 'm) api_state \<Rightarrow>
   (('d, 'm) api_state \<times> int list \<times> local_answer mux_result) option" where
  "serve_local env m path q s =
     (case find_handler (local_mux (ap_hub s \<noteq> None)) m path of
        Handler rt \<Rightarrow> map_option (\<lambda>(s', killed, a). (s', killed, Handler a)) (local_handler env q rt s)
      | RedirectTo p \<Rightarrow> Some (s, [], RedirectTo p)
      | MethodNotAllowed \<Rightarrow> Some (s, [], MethodNotAllowed)
      | NotFound \<Rightarrow> Some (s, [], NotFound))"

subsection \<open>The listener\<close>

text \<open>
  The address of the listener and those that accept connections. \<open>bind\<close> is the address of a listener on a port of all
  interfaces, \<open>None\<close> when it cannot be opened; the variable is then set to no listener.
\<close>

record api_listener =
  al_listener :: "string option"
  al_open :: "string list"

definition Start_api :: "api_listener \<Rightarrow> string option \<Rightarrow> api_listener \<times> string option" where
  "Start_api l bind =
     (case bind of
        None \<Rightarrow> (l\<lparr>al_listener := None\<rparr>, None)
      | Some addr \<Rightarrow> (l\<lparr>al_listener := Some addr, al_open := al_open l @ [addr]\<rparr>, Some addr))"

text \<open>Closing a listener that is closed already is an error.\<close>

definition Stop_api :: "api_listener \<Rightarrow> api_listener \<times> bool" where
  "Stop_api l =
     (case al_listener l of
        None \<Rightarrow> (l, True)
      | Some addr \<Rightarrow> (l\<lparr>al_open := filter (\<lambda>a. a \<noteq> addr) (al_open l)\<rparr>, addr \<in> set (al_open l)))"

lemma Start_Stop_api:
  "Start_api \<lparr>al_listener = None, al_open = []\<rparr> bind = (l, r) \<Longrightarrow> al_open (fst (Stop_api l)) = []"
  by (auto simp: Start_api_def Stop_api_def split: option.splits)

text \<open>A server that is started twice closes only its second listener; a second start that fails leaves the first open for good.\<close>

lemma Start_api_twice:
  "fst (Stop_api (fst (Start_api (fst (Start_api \<lparr>al_listener = None, al_open = []\<rparr> (Some ''[::]:9080''))) None))) =
   \<lparr>al_listener = None, al_open = [''[::]:9080'']\<rparr>"
  by code_simp

subsection \<open>The routes\<close>

lemma local_mux_eq:
  "local_mux hub =
     [(''GET'', [Lit ''api'', Lit ''config''], \<lambda>_. LGetConfig),
      (''PUT'', [Lit ''api'', Lit ''config''], \<lambda>_. LUpdateConfig),
      (''GET'', [Lit ''api'', Lit ''logs''], \<lambda>_. LGetLogs),
      (''GET'', [Lit ''api'', Lit ''stats''], \<lambda>_. LGetStats),
      (''POST'', [Lit ''api'', Lit ''proxy'', Lit ''enable''], \<lambda>_. LProxyEnable),
      (''POST'', [Lit ''api'', Lit ''proxy'', Lit ''disable''], \<lambda>_. LProxyDisable),
      (''GET'', [Lit ''api'', Lit ''proxy'', Lit ''status''], \<lambda>_. LProxyStatus),
      (''GET'', [Lit ''api'', Lit ''cache'', Lit ''stats''], \<lambda>_. LCacheStats),
      (''POST'', [Lit ''api'', Lit ''cache'', Lit ''clear''], \<lambda>_. LCacheClear),
      (''POST'', [Lit ''api'', Lit ''scan''], \<lambda>_. LScan),
      (''GET'', [Lit ''api'', Lit ''sessions''], \<lambda>_. LListSessions),
      (''POST'', [Lit ''api'', Lit ''sessions'', Wild ''pid'', Lit ''stop''], \<lambda>v. LStopSession (v ''pid'')),
      (''POST'', [Lit ''api'', Lit ''shell'', Lit ''launch''], \<lambda>_. LLaunchShell),
      (''GET'', [Lit ''api'', Lit ''rules''], \<lambda>_. LGetRules),
      (''PUT'', [Lit ''api'', Lit ''rules''], \<lambda>_. LPutRules),
      (''GET'', [Lit ''api'', Lit ''license''], \<lambda>_. LGetLicense)] @
     (if hub then [([], [Lit ''api'', Lit ''ws''], \<lambda>_. LWebSocket)] else []) @
     [([], [Rest], \<lambda>_. LStatic)]"
  by (simp add: local_mux_def new_mux_def registerRoutes_def parse_pattern_def Index_def HasPrefix_def)

fun local_path :: "local_route \<Rightarrow> string \<times> string" where
  "local_path LGetConfig = (''GET'', ''/api/config'')"
| "local_path LUpdateConfig = (''PUT'', ''/api/config'')"
| "local_path LGetLogs = (''GET'', ''/api/logs'')"
| "local_path LGetStats = (''GET'', ''/api/stats'')"
| "local_path LProxyEnable = (''POST'', ''/api/proxy/enable'')"
| "local_path LProxyDisable = (''POST'', ''/api/proxy/disable'')"
| "local_path LProxyStatus = (''GET'', ''/api/proxy/status'')"
| "local_path LCacheStats = (''GET'', ''/api/cache/stats'')"
| "local_path LCacheClear = (''POST'', ''/api/cache/clear'')"
| "local_path LScan = (''POST'', ''/api/scan'')"
| "local_path LListSessions = (''GET'', ''/api/sessions'')"
| "local_path (LStopSession i) = (''POST'', ''/api/sessions/'' @ i @ ''/stop'')"
| "local_path LLaunchShell = (''POST'', ''/api/shell/launch'')"
| "local_path LGetRules = (''GET'', ''/api/rules'')"
| "local_path LPutRules = (''PUT'', ''/api/rules'')"
| "local_path LGetLicense = (''GET'', ''/api/license'')"
| "local_path LWebSocket = (''GET'', ''/api/ws'')"
| "local_path LStatic = (''GET'', ''/'')"

lemma local_route_found:
  assumes "\<And>i. rt = LStopSession i \<Longrightarrow> plain_id i"
  shows "find_handler (local_mux True) (fst (local_path rt)) (snd (local_path rt)) = Handler rt"
proof -
  have split: "SplitByte (i @ CHR ''/'' # rest) CHR ''/'' = i # SplitByte rest CHR ''/''"
    "unescape i = Some i" "i \<noteq> ''/''" if "plain_id i" for i rest
    using that by (auto simp: plain_id_def SplitByte_at unescape_plain)
  show ?thesis
    using assms
    by (cases rt) (auto simp: local_mux_eq mux_eval split plain_id_def HasSuffix_def CountByte_def pathUnescape_def)
qed

text \<open>The root has a pattern for every method, so that the interface refuses no method: a wrong one goes to the embedded files.\<close>

lemma local_wrong_method:
  "find_handler (local_mux hub) ''POST'' ''/api/config'' = Handler LStatic"
  "find_handler (local_mux hub) ''GET'' ''/api/proxy/disable'' = Handler LStatic"
proof -
  have "find_handler (local_mux True) ''POST'' ''/api/config'' = Handler LStatic"
    "find_handler (local_mux False) ''POST'' ''/api/config'' = Handler LStatic"
    "find_handler (local_mux True) ''GET'' ''/api/proxy/disable'' = Handler LStatic"
    "find_handler (local_mux False) ''GET'' ''/api/proxy/disable'' = Handler LStatic"
    by code_simp+
  then show "find_handler (local_mux hub) ''POST'' ''/api/config'' = Handler LStatic"
    "find_handler (local_mux hub) ''GET'' ''/api/proxy/disable'' = Handler LStatic"
    by (cases hub; simp)+
qed

lemma local_handled:
  assumes "find_handler (local_mux hub) m path = Handler rt"
  shows "rt = LWebSocket \<or> rt = LStatic \<or> m = fst (local_path rt) \<or> m = ''HEAD'' \<and> fst (local_path rt) = ''GET''"
  using find_handler_sound[OF assms] unfolding local_mux_eq by auto

text \<open>Reading changes nothing: a GET or HEAD, to whatever address, changes at most what the lister of sessions remembers and stops no process.\<close>

lemma reading_keeps:
  assumes "serve_local env m path q s = Some (s', killed, a)" "m = ''GET'' \<or> m = ''HEAD''"
  shows "s' = s\<lparr>ap_sessions := ap_sessions s'\<rparr> \<and> killed = []"
proof (cases "find_handler (local_mux (ap_hub s \<noteq> None)) m path")
  case (Handler rt)
  have list: "fst (handleListSessions env s) = s\<lparr>ap_sessions := ap_sessions (fst (handleListSessions env s))\<rparr>"
    by (auto simp: handleListSessions_def Let_def split: option.splits prod.splits)
  have "fst (local_path rt) \<noteq> ''HEAD''" by (cases rt) simp_all
  then have "fst (local_path rt) = ''GET'' \<or> rt = LWebSocket \<or> rt = LStatic" using local_handled[OF Handler] assms(2) by auto
  then show ?thesis
    using assms(1) Handler list by (cases rt) (auto simp: serve_local_def local_handler_def Let_def split: prod.splits)
qed (use assms in \<open>auto simp: serve_local_def\<close>)

text \<open>The switch of the proxy is open to everyone who reaches the port: its address is all that a request needs.\<close>

lemma disable_unguarded:
  "serve_local env ''POST'' ''/api/proxy/disable'' q s =
     (case handleProxyDisable env s of (s', reply) \<Rightarrow> Some (s', [], Handler (LocalReply reply)))"
proof -
  have "find_handler (local_mux True) ''POST'' ''/api/proxy/disable'' = Handler LProxyDisable"
    "find_handler (local_mux False) ''POST'' ''/api/proxy/disable'' = Handler LProxyDisable"
    by code_simp+
  then have "find_handler (local_mux hub) ''POST'' ''/api/proxy/disable'' = Handler LProxyDisable" for hub
    by (cases hub) simp_all
  then show ?thesis by (simp add: serve_local_def local_handler_def split_beta)
qed

end
