(* ===== verification/Observability.thy ===== *)
theory Observability
  imports LocalRoutes Daemon
begin

text \<open>
  The administration server (\<open>internal/admin/admin.go\<close>) and its metrics (\<open>internal/admin/metrics.go\<close>).

  The metrics are a fold over what the request handler of the proxy emits (\<open>event\<close> of theory \<open>ProxyHandler\<close>): counters by
  their labels, and histograms with the default buckets of the Prometheus library. Durations are the milliseconds that are divided by 1000
  where they are observed; the bounds of the buckets are given in milliseconds too, and the sum is exact where the library adds
  floating-point numbers.

  \<open>request_metrics\<close>: what one scanned request adds. \<open>run_histogram\<close>: a histogram counts every observation in one bucket.
\<close>

subsection \<open>Metrics\<close>

definition DefBuckets :: "int list" where
  "DefBuckets = [5, 10, 25, 50, 100, 250, 500, 1000, 2500, 5000, 10000]"

text \<open>The number of observations in each bucket, the last one for what is above all bounds, and their sum.\<close>

record histogram =
  hg_buckets :: "nat list"
  hg_sum :: int

definition empty_histogram :: histogram where
  "empty_histogram = \<lparr>hg_buckets = replicate (length DefBuckets + 1) 0, hg_sum = 0\<rparr>"

fun bucket_of :: "int list \<Rightarrow> int \<Rightarrow> nat" where
  "bucket_of [] v = 0"
| "bucket_of (b # bs) v = (if v \<le> b then 0 else Suc (bucket_of bs v))"

definition Observe :: "int \<Rightarrow> histogram \<Rightarrow> histogram" where
  "Observe v h =
     (let i = bucket_of DefBuckets v
      in \<lparr>hg_buckets = (hg_buckets h)[i := hg_buckets h ! i + 1], hg_sum = hg_sum h + v\<rparr>)"

record metrics =
  RequestsTotal :: "string \<times> string \<Rightarrow> nat"
  EntitiesRedactedTotal :: "string \<times> string \<Rightarrow> nat"
  RequestDuration :: "string \<Rightarrow> histogram"
  DetectionDuration :: "string \<Rightarrow> histogram"
  ErrorsTotal :: "string \<times> string \<Rightarrow> nat"

definition no_metrics :: metrics where
  "no_metrics = \<lparr>RequestsTotal = (\<lambda>_. 0), EntitiesRedactedTotal = (\<lambda>_. 0), RequestDuration = (\<lambda>_. empty_histogram),
     DetectionDuration = (\<lambda>_. empty_histogram), ErrorsTotal = (\<lambda>_. 0)\<rparr>"

definition inc :: "'a \<Rightarrow> ('a \<Rightarrow> nat) \<Rightarrow> 'a \<Rightarrow> nat" where
  "inc k f = f(k := f k + 1)"

fun metric_step :: "metrics \<Rightarrow> event \<Rightarrow> metrics" where
  "metric_step m (IncRequests upstream status) = m\<lparr>RequestsTotal := inc (upstream, status) (RequestsTotal m)\<rparr>"
| "metric_step m (IncEntities entity layer) = m\<lparr>EntitiesRedactedTotal := inc (entity, layer) (EntitiesRedactedTotal m)\<rparr>"
| "metric_step m (IncErrors layer kind) = m\<lparr>ErrorsTotal := inc (layer, kind) (ErrorsTotal m)\<rparr>"
| "metric_step m (ObserveRequest upstream v) =
     m\<lparr>RequestDuration := (RequestDuration m)(upstream := Observe v (RequestDuration m upstream))\<rparr>"
| "metric_step m (ObserveDetection layer v) =
     m\<lparr>DetectionDuration := (DetectionDuration m)(layer := Observe v (DetectionDuration m layer))\<rparr>"
| "metric_step m _ = m"

definition metrics_of :: "event list \<Rightarrow> metrics \<Rightarrow> metrics" where
  "metrics_of evs m = foldl metric_step m evs"

subsection \<open>The administration server\<close>

datatype admin_page = HealthPage | MetricsPage

definition admin_mux :: "((string \<Rightarrow> string) \<Rightarrow> admin_page) mux" where
  "admin_mux = new_mux [(''GET /health'', \<lambda>_. HealthPage), (''GET /metrics'', \<lambda>_. MetricsPage)]"

datatype admin_body = Health string "string \<rightharpoonup> string" | Metrics metrics

definition serve_admin_page :: "layer list \<Rightarrow> metrics \<Rightarrow> string \<Rightarrow> string \<Rightarrow> (int \<times> admin_body) mux_result" where
  "serve_admin_page ls mt m path =
     (case find_handler admin_mux m path of
        Handler HealthPage \<Rightarrow> (case handleHealth ls of (code, status, models) \<Rightarrow> Handler (code, Health status models))
      | Handler MetricsPage \<Rightarrow> Handler (200, Metrics mt)
      | RedirectTo p \<Rightarrow> RedirectTo p
      | MethodNotAllowed \<Rightarrow> MethodNotAllowed
      | NotFound \<Rightarrow> NotFound)"

definition Start_admin :: "api_listener \<Rightarrow> string option \<Rightarrow> api_listener \<times> string option" where
  "Start_admin l bind =
     (case bind of
        None \<Rightarrow> (l\<lparr>al_listener := None\<rparr>, None)
      | Some addr \<Rightarrow> (l\<lparr>al_listener := Some addr, al_open := al_open l @ [addr]\<rparr>, Some addr))"

definition Stop_admin :: "api_listener \<Rightarrow> api_listener \<times> bool" where
  "Stop_admin l =
     (case al_listener l of
        None \<Rightarrow> (l, True)
      | Some addr \<Rightarrow> (l\<lparr>al_open := filter (\<lambda>a. a \<noteq> addr) (al_open l)\<rparr>, addr \<in> set (al_open l)))"

lemma admin_pages:
  "find_handler admin_mux ''GET'' ''/health'' = Handler HealthPage" "find_handler admin_mux ''HEAD'' ''/metrics'' = Handler MetricsPage"
  "find_handler admin_mux ''POST'' ''/health'' = MethodNotAllowed" "find_handler admin_mux ''GET'' ''/'' = NotFound"
  "find_handler admin_mux ''GET'' ''/health/'' = NotFound"
  by code_simp+

text \<open>The page is healthy exactly when every layer is ready.\<close>

lemma handleHealth_eq:
  "handleHealth ls =
     (let models = foldl (\<lambda>models l. models(layer_Name l \<mapsto> if layer_Ready l then ''ready'' else ''not ready'')) Map.empty ls
      in if list_all layer_Ready ls then (200, ''healthy'', models) else (503, ''degraded'', models))"
proof -
  have "foldl (\<lambda>(models, healthy) l. if layer_Ready l then (models(layer_Name l \<mapsto> ''ready''), healthy)
          else (models(layer_Name l \<mapsto> ''not ready''), False)) (m0, h0) ls =
      (foldl (\<lambda>models l. models(layer_Name l \<mapsto> if layer_Ready l then ''ready'' else ''not ready'')) m0 ls,
       h0 \<and> list_all layer_Ready ls)" for m0 h0
    by (induction ls arbitrary: m0 h0) auto
  then show ?thesis by (simp add: handleHealth_def Let_def)
qed

lemma health_served:
  "serve_admin_page ls mt ''GET'' ''/health'' = (case handleHealth ls of (code, status, models) \<Rightarrow> Handler (code, Health status models))"
  by (simp add: serve_admin_page_def admin_pages)

subsection \<open>What a histogram holds\<close>

lemma bucket_of_bound: "bucket_of bs v \<le> length bs"
  by (induction bs) auto

lemma bucket_of_iff:
  "sorted bs \<Longrightarrow> i \<le> length bs \<Longrightarrow> bucket_of bs v = i \<longleftrightarrow> (i < length bs \<longrightarrow> v \<le> bs ! i) \<and> (0 < i \<longrightarrow> bs ! (i - 1) < v)"
proof (induction bs arbitrary: i)
  case (Cons b bs)
  show ?case
  proof (cases i)
    case 0
    then show ?thesis by auto
  next
    case (Suc j)
    have "b < v" if "bs ! (j - 1) < v" "0 < j" using that Cons.prems Suc by (auto simp: less_Suc_eq_le intro: le_less_trans)
    then show ?thesis using Cons.IH[of j] Cons.prems Suc by (cases j) auto
  qed
qed simp

definition histogram_ok :: "histogram \<Rightarrow> int list \<Rightarrow> bool" where
  "histogram_ok h vs \<longleftrightarrow> length (hg_buckets h) = length DefBuckets + 1 \<and> sum_list (hg_buckets h) = length vs \<and>
     hg_sum h = sum_list vs \<and>
     (\<forall>i \<le> length DefBuckets. hg_buckets h ! i = length (filter (\<lambda>v. bucket_of DefBuckets v = i) vs))"

lemma histogram_ok_empty: "histogram_ok empty_histogram []"
  by (auto simp: histogram_ok_def empty_histogram_def sum_list_replicate nth_Cons split: nat.split)

lemma histogram_ok_Observe:
  assumes "histogram_ok h vs"
  shows "histogram_ok (Observe v h) (vs @ [v])"
proof -
  let ?i = "bucket_of DefBuckets v"
  have i: "?i < length (hg_buckets h)" using assms bucket_of_bound[of DefBuckets v] by (simp add: histogram_ok_def)
  then have "sum_list ((hg_buckets h)[?i := hg_buckets h ! ?i + 1]) = sum_list (hg_buckets h) + 1"
    by (simp add: sum_list_update)
  then show ?thesis using assms i by (auto simp: histogram_ok_def Observe_def Let_def nth_list_update)
qed

text \<open>What the events observe, of one upstream and of one layer.\<close>

definition request_times :: "string \<Rightarrow> event list \<Rightarrow> int list" where
  "request_times u evs = List.map_filter (\<lambda>e. case e of ObserveRequest u' v \<Rightarrow> if u' = u then Some v else None | _ \<Rightarrow> None) evs"

lemma request_times_snoc:
  "request_times u (evs @ [e]) = request_times u evs @ (case e of ObserveRequest u' v \<Rightarrow> if u' = u then [v] else [] | _ \<Rightarrow> [])"
  by (induction evs) (auto simp: request_times_def List.map_filter_simps split: event.splits)

lemma metrics_of_snoc: "metrics_of (evs @ [e]) m = metric_step (metrics_of evs m) e"
  by (simp add: metrics_of_def)

lemma metrics_of_append: "metrics_of (evs @ evs') m = metrics_of evs' (metrics_of evs m)"
  by (simp add: metrics_of_def)

lemma run_histogram: "histogram_ok (RequestDuration (metrics_of evs no_metrics) u) (request_times u evs)"
proof (induction evs rule: rev_induct)
  case Nil
  then show ?case by (simp add: metrics_of_def no_metrics_def request_times_def map_filter_def histogram_ok_empty)
next
  case (snoc e evs)
  have other: "RequestDuration (metric_step m e) = RequestDuration m" if "\<nexists>u v. e = ObserveRequest u v" for m
    using that by (cases e) auto
  show ?case
  proof (cases "\<exists>u v. e = ObserveRequest u v")
    case True
    then show ?thesis using snoc histogram_ok_Observe by (auto simp: metrics_of_snoc request_times_snoc)
  next
    case False
    then have "request_times u (evs @ [e]) = request_times u evs" by (auto simp: request_times_snoc split: event.splits)
    then show ?thesis using snoc other[OF False] by (simp add: metrics_of_snoc)
  qed
qed

subsection \<open>What a request adds\<close>

lemma RequestsTotal_count:
  "RequestsTotal (metrics_of evs m) (u, st) = RequestsTotal m (u, st) + length (filter (\<lambda>e. e = IncRequests u st) evs)"
proof (induction evs rule: rev_induct)
  case (snoc e evs)
  then show ?case by (cases e) (auto simp: metrics_of_snoc inc_def)
qed (simp add: metrics_of_def)

lemma EntitiesRedactedTotal_count:
  "EntitiesRedactedTotal (metrics_of evs m) (en, la) =
   EntitiesRedactedTotal m (en, la) + length (filter (\<lambda>e. e = IncEntities en la) evs)"
proof (induction evs rule: rev_induct)
  case (snoc e evs)
  then show ?case by (cases e) (auto simp: metrics_of_snoc inc_def)
qed (simp add: metrics_of_def)

lemma ErrorsTotal_count:
  "ErrorsTotal (metrics_of evs m) (la, k) = ErrorsTotal m (la, k) + length (filter (\<lambda>e. e = IncErrors la k) evs)"
proof (induction evs rule: rev_induct)
  case (snoc e evs)
  then show ?case by (cases e) (auto simp: metrics_of_snoc inc_def)
qed (simp add: metrics_of_def)

text \<open>
  A scanned request is counted once, under its status; each finding is counted for its label and layer, whether or not it was
  replaced; a layer that was skipped is an error of that layer.
\<close>

lemma request_metrics:
  assumes m': "m' = metrics_of (report_events env host rep) m"
  shows "RequestsTotal m' (u, st) = RequestsTotal m (u, st) + (if u = host \<and> st = status_of rep then 1 else 0)"
    "EntitiesRedactedTotal m' (en, la) =
       EntitiesRedactedTotal m (en, la) + length (filter (\<lambda>f. Label f = en \<and> Layer f = la) (Findings rep))"
    "ErrorsTotal m' (la, k) = ErrorsTotal m (la, k) +
       (if k = ''skipped'' then length (filter (\<lambda>lr. info_Skipped lr \<and> info_Name lr = la) (LayerResults rep)) else 0)"
proof -
  have none: "filter (\<lambda>e. e = x) (concat (map (\<lambda>lr. ObserveDetection (info_Name lr) (info_LatencyMs lr) #
      (if info_Skipped lr then [IncErrors (info_Name lr) ''skipped''] else [])) lrs)) = []"
    if "\<nexists>l v. x = ObserveDetection l v" "\<nexists>l k. x = IncErrors l k" for x lrs
    using that by (induction lrs) auto
  have errors: "length (filter (\<lambda>e. e = IncErrors la k) (concat (map (\<lambda>lr. ObserveDetection (info_Name lr) (info_LatencyMs lr) #
      (if info_Skipped lr then [IncErrors (info_Name lr) ''skipped''] else [])) lrs))) =
      (if k = ''skipped'' then length (filter (\<lambda>lr. info_Skipped lr \<and> info_Name lr = la) lrs) else 0)" for lrs
    by (induction lrs) auto
  have maps: "filter (\<lambda>e. e = x) (map f xs) = []" if "\<And>y. f y \<noteq> x" for x and f :: "finding \<Rightarrow> event" and xs
    using that by (induction xs) auto
  show "RequestsTotal m' (u, st) = RequestsTotal m (u, st) + (if u = host \<and> st = status_of rep then 1 else 0)"
    by (simp add: m' RequestsTotal_count report_events_def none maps)
  show "EntitiesRedactedTotal m' (en, la) =
      EntitiesRedactedTotal m (en, la) + length (filter (\<lambda>f. Label f = en \<and> Layer f = la) (Findings rep))"
    by (simp add: m' EntitiesRedactedTotal_count report_events_def none maps filter_map comp_def)
  show "ErrorsTotal m' (la, k) = ErrorsTotal m (la, k) +
      (if k = ''skipped'' then length (filter (\<lambda>lr. info_Skipped lr \<and> info_Name lr = la) (LayerResults rep)) else 0)"
    by (simp add: m' ErrorsTotal_count report_events_def errors maps)
qed

text \<open>A request whose body has no message of a user is forwarded and not counted.\<close>

lemma unread_not_counted:
  assumes "rq_Body req = ReadOk body" "ExtractLastUserMessage T (body_json body) = Inl e" "px_bypass p = None"
  shows "handle_request T blen env p scan s req = Some (s, req, None, [])"
  using assms by (simp add: handle_request_def)

end
