(* ===== verification/Hub.thy ===== *)
theory Hub
  imports Prelude
begin

text \<open>
  The hub of the dashboard's web sockets, \<open>internal/api/ws.go\<close>, as a step relation: \<open>Run\<close> serves one of its channels at a time and writes a message to
  its clients one after the other, in any order, while other goroutines may put messages into the buffered channel (\<open>Broadcast\<close>).

  A step carries the action it performs. A write that does not return is one that never happens: the connections have no deadline. \<open>hub_delivers\<close>: a
  client gets every message in the order of the broadcasts, from its registration on. \<open>stalled_client_blocks\<close>: while a single client does not
  take its message, at most 256 more broadcasts return, and no client comes or goes. The proxy broadcasts the report of a request
  before it forwards the request (\<open>onScan\<close> in \<open>internal/daemon/daemon.go\<close>), so that then its requests hang.
\<close>

subsection \<open>Data\<close>

text \<open>\<open>hb_writing\<close> is the message in hand with the clients that have not got it yet.\<close>

record 'c hub =
  hb_clients :: "'c set"
  hb_broadcast :: "string list"
  hb_writing :: "('c set \<times> string) option"

definition broadcast_cap :: nat where "broadcast_cap = 256"

definition NewHub :: "'c hub" where
  "NewHub = \<lparr>hb_clients = {}, hb_broadcast = [], hb_writing = None\<rparr>"

datatype 'c hub_action = Registered 'c | Unregistered 'c | Sent string | Taken string | Wrote 'c string | Dropped 'c | Finished

subsection \<open>Steps\<close>

inductive hub_step :: "'c hub \<Rightarrow> 'c hub_action \<Rightarrow> 'c hub \<Rightarrow> bool" where
  hub_register: "hb_writing s = None \<Longrightarrow> hub_step s (Registered c) (s\<lparr>hb_clients := insert c (hb_clients s)\<rparr>)"
| hub_unregister: "hb_writing s = None \<Longrightarrow> hub_step s (Unregistered c) (s\<lparr>hb_clients := hb_clients s - {c}\<rparr>)"
| hub_broadcast: "length (hb_broadcast s) < broadcast_cap \<Longrightarrow> hub_step s (Sent m) (s\<lparr>hb_broadcast := hb_broadcast s @ [m]\<rparr>)"
| hub_take: "hb_writing s = None \<Longrightarrow> hb_broadcast s = m # ms \<Longrightarrow>
    hub_step s (Taken m) (s\<lparr>hb_broadcast := ms, hb_writing := Some (hb_clients s, m)\<rparr>)"
| hub_write: "hb_writing s = Some (R, m) \<Longrightarrow> c \<in> R \<Longrightarrow> hub_step s (Wrote c m) (s\<lparr>hb_writing := Some (R - {c}, m)\<rparr>)"
| hub_write_fails: "hb_writing s = Some (R, m) \<Longrightarrow> c \<in> R \<Longrightarrow>
    hub_step s (Dropped c) (s\<lparr>hb_writing := Some (R - {c}, m), hb_clients := hb_clients s - {c}\<rparr>)"
| hub_done: "hb_writing s = Some ({}, m) \<Longrightarrow> hub_step s Finished (s\<lparr>hb_writing := None\<rparr>)"

text \<open>\<open>Broadcast\<close> drops what cannot be encoded.\<close>

definition Broadcast :: "('v \<Rightarrow> string option) \<Rightarrow> 'v \<Rightarrow> 'c hub \<Rightarrow> 'c hub \<Rightarrow> bool" where
  "Broadcast marshal v s s' = (case marshal v of None \<Rightarrow> s' = s | Some data \<Rightarrow> hub_step s (Sent data) s')"

inductive hub_run :: "'c hub \<Rightarrow> 'c hub_action list \<Rightarrow> 'c hub \<Rightarrow> bool" where
  run_nil: "hub_run s [] s"
| run_snoc: "hub_run s acts s1 \<Longrightarrow> hub_step s1 a s2 \<Longrightarrow> hub_run s (acts @ [a]) s2"

inductive_cases hub_stepE: "hub_step s a s'"
inductive_cases Broadcast_stepE: "hub_step s (Sent m) s'"

subsection \<open>Delivery\<close>

fun sent_of :: "'c hub_action \<Rightarrow> string list" where
  "sent_of (Sent m) = [m]" | "sent_of _ = []"

fun taken_of :: "'c hub_action \<Rightarrow> string list" where
  "taken_of (Taken m) = [m]" | "taken_of _ = []"

fun wrote_of :: "'c \<Rightarrow> 'c hub_action \<Rightarrow> string list" where
  "wrote_of c (Wrote c' m) = (if c' = c then [m] else [])" | "wrote_of c _ = []"

text \<open>The actions from the last registration of a client on.\<close>

definition since :: "'c \<Rightarrow> 'c hub_action list \<Rightarrow> 'c hub_action list" where
  "since c acts = rev (takeWhile (\<lambda>a. a \<noteq> Registered c) (rev acts))"

lemma since_snoc: "since c (acts @ [a]) = (if a = Registered c then [] else since c acts @ [a])"
  by (simp add: since_def)

definition pending :: "'c \<Rightarrow> 'c hub \<Rightarrow> string list" where
  "pending c s = (case hb_writing s of None \<Rightarrow> [] | Some (R, m) \<Rightarrow> if c \<in> R then [m] else [])"

lemma hub_run_wf:
  "hub_run s acts s' \<Longrightarrow> s = NewHub \<Longrightarrow> length (hb_broadcast s') \<le> broadcast_cap \<and> (\<forall>R m. hb_writing s' = Some (R, m) \<longrightarrow> R \<subseteq> hb_clients s')"
proof (induction rule: hub_run.induct)
  case (run_snoc s acts s1 a s2)
  then show ?case by (auto elim!: hub_stepE)
qed (simp add: NewHub_def)

lemma hub_run_sent:
  "hub_run s acts s' \<Longrightarrow> s = NewHub \<Longrightarrow> concat (map sent_of acts) = concat (map taken_of acts) @ hb_broadcast s'"
proof (induction rule: hub_run.induct)
  case (run_snoc s acts s1 a s2)
  then show ?case by (auto elim!: hub_stepE)
qed (simp add: NewHub_def)

lemma hub_run_written:
  "hub_run s acts s' \<Longrightarrow> s = NewHub \<Longrightarrow> c \<in> hb_clients s' \<Longrightarrow>
   concat (map (wrote_of c) (since c acts)) @ pending c s' = concat (map taken_of (since c acts))"
proof (induction rule: hub_run.induct)
  case (run_snoc s acts s1 a s2)
  have sub: "hb_writing s1 = Some (R, m) \<Longrightarrow> R \<subseteq> hb_clients s1" for R m using hub_run_wf[OF run_snoc.hyps(1)] run_snoc.prems(1) by blast
  show ?case using run_snoc.hyps(2)
  proof cases
    case (hub_take m ms)
    then show ?thesis using run_snoc by (simp add: since_snoc pending_def)
  next
    case (hub_write R m c')
    then show ?thesis using run_snoc sub[OF hub_write(3)] by (auto simp: since_snoc pending_def)
  qed (use run_snoc in \<open>auto simp: since_snoc pending_def split: if_splits\<close>)
qed (simp add: NewHub_def)

text \<open>
  C25. Every client of the dashboard gets every message, once and in order. In every run of the hub, with clients that come, go and fail and messages that
  are broadcast at any time, the messages that were broadcast are those that the loop took from the channel, in order, followed by those that
  wait there, at most 256; and a client that is connected has been written exactly the messages that were taken since it was
  registered, in the same order, except the one in hand where it is still to be served.
\<close>

theorem hub_delivers:
  assumes "hub_run NewHub acts s" "c \<in> hb_clients s"
  shows "concat (map sent_of acts) = concat (map taken_of acts) @ hb_broadcast s \<and> length (hb_broadcast s) \<le> 256 \<and>
    concat (map (wrote_of c) (since c acts)) @ pending c s = concat (map taken_of (since c acts))"
  using hub_run_sent[OF assms(1) refl] hub_run_wf[OF assms(1) refl] hub_run_written[OF assms(1) refl assms(2)]
  by (simp add: broadcast_cap_def)

subsection \<open>A client that does not read\<close>

text \<open>As long as one client does not take the message in hand, only broadcasts that fit into the channel and writes to other clients happen.\<close>

lemma stalled_client_blocks:
  assumes "hub_run s acts s'" "hb_writing s = Some (R, m)" "c \<in> R" "length (hb_broadcast s) \<le> 256"
    and "list_all (\<lambda>a. a \<noteq> Wrote c m \<and> a \<noteq> Dropped c) acts"
  shows "length (hb_broadcast s) + length (concat (map sent_of acts)) \<le> 256 \<and> (\<exists>R'. hb_writing s' = Some (R', m) \<and> c \<in> R') \<and>
    list_all (\<lambda>a. (\<exists>m'. a = Sent m') \<or> (\<exists>c'. a = Wrote c' m \<or> a = Dropped c')) acts"
proof -
  have "hb_broadcast s' = hb_broadcast s @ concat (map sent_of acts) \<and> length (hb_broadcast s') \<le> 256 \<and>
      (\<exists>R'. hb_writing s' = Some (R', m) \<and> c \<in> R') \<and> list_all (\<lambda>a. (\<exists>m'. a = Sent m') \<or> (\<exists>c'. a = Wrote c' m \<or> a = Dropped c')) acts"
    using assms
  proof (induction rule: hub_run.induct)
    case (run_snoc s acts s1 a s2)
    have "list_all (\<lambda>a. a \<noteq> Wrote c m \<and> a \<noteq> Dropped c) acts" using run_snoc.prems(4) by simp
    note ih = run_snoc.IH[OF run_snoc.prems(1-3) this]
    then have IH: "hb_broadcast s1 = hb_broadcast s @ concat (map sent_of acts)" "length (hb_broadcast s1) \<le> 256"
      "list_all (\<lambda>a. (\<exists>m'. a = Sent m') \<or> (\<exists>c'. a = Wrote c' m \<or> a = Dropped c')) acts" by blast+
    obtain R' where "hb_writing s1 = Some (R', m)" "c \<in> R'" using ih by blast
    with run_snoc.hyps(2) IH show ?case using run_snoc.prems(4) by cases (auto simp: broadcast_cap_def)
  qed auto
  then show ?thesis by auto
qed

lemma full_hub_blocks: "length (hb_broadcast s) = 256 \<Longrightarrow> \<not> hub_step s (Sent m) s'"
  by (auto simp: broadcast_cap_def elim: Broadcast_stepE)

subsection \<open>Example\<close>

text \<open>Of two clients the first is served.\<close>

definition demo_acts :: "nat hub_action list" where
  "demo_acts = [Registered 1, Sent ''a'', Registered 2, Taken ''a'', Sent ''b'', Wrote 1 ''a'']"

definition demo_hub :: "nat hub" where
  "demo_hub = \<lparr>hb_clients = {1, 2}, hb_broadcast = [''b''], hb_writing = Some ({2}, ''a'')\<rparr>"

lemma demo_hub_run: "hub_run NewHub demo_acts demo_hub"
proof -
  have "hub_run NewHub [] NewHub" by (rule run_nil)
  from run_snoc[OF this hub_register[of _ "1 :: nat"]]
  have "hub_run NewHub [Registered 1] \<lparr>hb_clients = {1 :: nat}, hb_broadcast = [], hb_writing = None\<rparr>" by (simp add: NewHub_def)
  from run_snoc[OF this hub_broadcast[of _ "''a''"]]
  have "hub_run NewHub [Registered 1, Sent ''a''] \<lparr>hb_clients = {1 :: nat}, hb_broadcast = [''a''], hb_writing = None\<rparr>" by (simp add: broadcast_cap_def)
  from run_snoc[OF this hub_register[of _ 2]]
  have "hub_run NewHub [Registered 1, Sent ''a'', Registered 2] \<lparr>hb_clients = {1 :: nat, 2}, hb_broadcast = [''a''], hb_writing = None\<rparr>"
    by (simp add: insert_commute)
  from run_snoc[OF this hub_take[of _ "''a''" "[]"]]
  have "hub_run NewHub [Registered 1, Sent ''a'', Registered 2, Taken ''a''] \<lparr>hb_clients = {1 :: nat, 2}, hb_broadcast = [], hb_writing = Some ({1, 2}, ''a'')\<rparr>"
    by simp
  from run_snoc[OF this hub_broadcast[of _ "''b''"]]
  have "hub_run NewHub [Registered 1, Sent ''a'', Registered 2, Taken ''a'', Sent ''b'']
      \<lparr>hb_clients = {1 :: nat, 2}, hb_broadcast = [''b''], hb_writing = Some ({1, 2}, ''a'')\<rparr>" by (simp add: broadcast_cap_def)
  from run_snoc[OF this hub_write[of _ "{1, 2}" "''a''" 1]]
  show ?thesis by (simp add: demo_acts_def demo_hub_def)
qed

theorem hub_delivers_witness:
  "[''a'', ''b''] = [''a''] @ hb_broadcast demo_hub \<and> length (hb_broadcast demo_hub) \<le> 256 \<and>
   concat (map (wrote_of 1) (since 1 demo_acts)) @ pending 1 demo_hub = concat (map taken_of (since 1 demo_acts))"
proof -
  have "1 \<in> hb_clients demo_hub" by (simp add: demo_hub_def)
  moreover have "concat (map sent_of demo_acts) = [''a'', ''b'']" "concat (map taken_of demo_acts) = [''a'']" by (simp_all add: demo_acts_def)
  ultimately show ?thesis using hub_delivers[OF demo_hub_run, of 1] by simp
qed

end
